(* ===== verification/Prelude.thy ===== *)
theory Prelude
  imports Main "HOL-Library.Word" "HOL-Library.AList" "HOL-Library.Multiset"
begin

text \<open>
  What every component shares: the effect type of the Go code (a state, a result that is a
  value, an error or a panic), its combinators and their rules, Go's number formatting, and the
  association lists that stand for Go maps.
\<close>

named_theorems go_eval \<open>equations that run the effect combinators\<close>
named_theorems go_keeps \<open>introduction rules for state predicates kept by an operation\<close>

section \<open>Errors and results\<close>

text \<open>
  A Go \<open>error\<close> value. \<open>ErrText\<close> is \<open>errors.New\<close> or a \<open>fmt.Errorf\<close> with no wrapped error,
  \<open>ErrWrap\<close> a \<open>fmt.Errorf\<close> around another error, \<open>ErrExec\<close> the failure of an executed command:
  what failed, the text of the flow, and what the command reported. \<open>ErrTransaction\<close> is a
  \<open>TransactionError\<close> of \<open>pkg/ovs\<close> with its temporary flag.
\<close>

datatype error =
    ErrText string
  | ErrWrap string error
  | ErrExec string string string
  | ErrConjunctionNotFound "32 word"
  | ErrTransaction error bool

text \<open>
  The end of a call: it returned, it returned a non-nil error, or it panicked (a nil
  dereference, a failed type assertion, an index out of range).
\<close>

datatype 'a result = Ok 'a | Err error | Panic

type_synonym ('s, 'a) go = "'s \<Rightarrow> 'a result \<times> 's"

definition ret :: "'a \<Rightarrow> ('s, 'a) go" where
  "ret a = (\<lambda>s. (Ok a, s))"

definition throw :: "error \<Rightarrow> ('s, 'a) go" where
  "throw e = (\<lambda>s. (Err e, s))"

definition panic :: "('s, 'a) go" where
  "panic = (\<lambda>s. (Panic, s))"

definition gbind :: "('s, 'a) go \<Rightarrow> ('a \<Rightarrow> ('s, 'b) go) \<Rightarrow> ('s, 'b) go" where
  "gbind m f = (\<lambda>s. case m s of
     (Ok a, s') \<Rightarrow> f a s'
   | (Err e, s') \<Rightarrow> (Err e, s')
   | (Panic, s') \<Rightarrow> (Panic, s'))"

abbreviation gseq :: "('s, unit) go \<Rightarrow> ('s, 'b) go \<Rightarrow> ('s, 'b) go" where
  "gseq m n \<equiv> gbind m (\<lambda>_. n)"

text \<open>\<open>if err := m(); err != nil { h(err) }\<close>: the error is handled and does not leave the call.\<close>

definition gcatch :: "('s, 'a) go \<Rightarrow> (error \<Rightarrow> ('s, 'a) go) \<Rightarrow> ('s, 'a) go" where
  "gcatch m h = (\<lambda>s. case m s of
     (Ok a, s') \<Rightarrow> (Ok a, s')
   | (Err e, s') \<Rightarrow> h e s'
   | (Panic, s') \<Rightarrow> (Panic, s'))"

text \<open>\<open>a, err := m()\<close> where the error is looked at as a value.\<close>

definition attempt :: "('s, 'a) go \<Rightarrow> ('s, error + 'a) go" where
  "attempt m = (\<lambda>s. case m s of
     (Ok a, s') \<Rightarrow> (Ok (Inr a), s')
   | (Err e, s') \<Rightarrow> (Ok (Inl e), s')
   | (Panic, s') \<Rightarrow> (Panic, s'))"

text \<open>
  \<open>defer\<close>: the deferred call runs on every end of the body, a panic too, and sees whether the
  body returned nil; its own errors are dropped.
\<close>

definition gdefer :: "('s, 'a) go \<Rightarrow> ('a result \<Rightarrow> 's \<Rightarrow> 's) \<Rightarrow> ('s, 'a) go" where
  "gdefer m d = (\<lambda>s. case m s of (r, s') \<Rightarrow> (r, d r s'))"

definition gets :: "('s \<Rightarrow> 'a) \<Rightarrow> ('s, 'a) go" where
  "gets f = (\<lambda>s. (Ok (f s), s))"

definition modify :: "('s \<Rightarrow> 's) \<Rightarrow> ('s, unit) go" where
  "modify f = (\<lambda>s. (Ok (), f s))"

text \<open>A pointer or interface that may be nil: dereferencing nil panics.\<close>

definition deref :: "'a option \<Rightarrow> ('s, 'a) go" where
  "deref p = (case p of None \<Rightarrow> panic | Some a \<Rightarrow> ret a)"

text \<open>\<open>for _, x := range xs { if err := body(x); err != nil { return err } }\<close>\<close>

primrec gfor :: "'x list \<Rightarrow> ('x \<Rightarrow> ('s, unit) go) \<Rightarrow> ('s, unit) go" where
  "gfor [] body = ret ()"
| "gfor (x # xs) body = gbind (body x) (\<lambda>_. gfor xs body)"

text \<open>A call whose state is a part of the caller's, or beside it.\<close>

definition on_fst :: "('s, 'a) go \<Rightarrow> ('s \<times> 't, 'a) go" where
  "on_fst m = (\<lambda>(s, t). case m s of (r, s') \<Rightarrow> (r, (s', t)))"

text \<open>A call on a field of a larger state.\<close>

definition zoom :: "('s \<Rightarrow> 't) \<Rightarrow> ('t \<Rightarrow> 's \<Rightarrow> 's) \<Rightarrow> ('t, 'a) go \<Rightarrow> ('s, 'a) go" where
  "zoom get put m = (\<lambda>s. case m (get s) of (r, t) \<Rightarrow> (r, put t s))"

lemma ret_eval [go_eval]: "ret a s = (Ok a, s)"
  by (simp add: ret_def)

lemma throw_eval [go_eval]: "throw e s = (Err e, s)"
  by (simp add: throw_def)

lemma panic_eval [go_eval]: "panic s = (Panic, s)"
  by (simp add: panic_def)

lemma gets_eval [go_eval]: "gets f s = (Ok (f s), s)"
  by (simp add: gets_def)

lemma modify_eval [go_eval]: "modify f s = (Ok (), f s)"
  by (simp add: modify_def)

lemma gbind_eval [go_eval]:
  "gbind m f s = (case m s of
     (Ok a, s') \<Rightarrow> f a s' | (Err e, s') \<Rightarrow> (Err e, s') | (Panic, s') \<Rightarrow> (Panic, s'))"
  by (simp add: gbind_def)

lemma gcatch_eval [go_eval]:
  "gcatch m h s = (case m s of
     (Ok a, s') \<Rightarrow> (Ok a, s') | (Err e, s') \<Rightarrow> h e s' | (Panic, s') \<Rightarrow> (Panic, s'))"
  by (simp add: gcatch_def)

lemma attempt_eval [go_eval]:
  "attempt m s = (case m s of
     (Ok a, s') \<Rightarrow> (Ok (Inr a), s') | (Err e, s') \<Rightarrow> (Ok (Inl e), s') | (Panic, s') \<Rightarrow> (Panic, s'))"
  by (simp add: attempt_def)

lemma gdefer_eval [go_eval]: "gdefer m d s = (case m s of (r, s') \<Rightarrow> (r, d r s'))"
  by (simp add: gdefer_def)

lemma deref_eval [go_eval]:
  "deref None s = (Panic, s)" "deref (Some a) s = (Ok a, s)"
  by (simp_all add: deref_def go_eval)

lemma on_fst_eval [go_eval]: "on_fst m (s, t) = (case m s of (r, s') \<Rightarrow> (r, (s', t)))"
  by (simp add: on_fst_def)

lemma zoom_eval [go_eval]: "zoom get put m s = (case m (get s) of (r, t) \<Rightarrow> (r, put t s))"
  by (simp add: zoom_def)

lemma gbind_ret [simp]: "gbind (ret a) f = f a"
  by (simp add: gbind_def ret_def)

lemma gbind_panic [simp]: "gbind panic f = panic"
  by (simp add: gbind_def panic_def)

lemma gbind_throw [simp]: "gbind (throw e) f = throw e"
  by (simp add: gbind_def throw_def)

lemma gbind_assoc: "gbind (gbind m f) g = gbind m (\<lambda>a. gbind (f a) g)"
  by (auto simp: gbind_def fun_eq_iff split: prod.splits result.splits)

lemma gfor_append: "gfor (xs @ ys) body = gbind (gfor xs body) (\<lambda>_. gfor ys body)"
  by (induction xs) (simp_all add: gbind_assoc)

lemma gbind_Ok_iff:
  "gbind m f s = (Ok b, t) \<longleftrightarrow> (\<exists>a s'. m s = (Ok a, s') \<and> f a s' = (Ok b, t))"
  by (auto simp: gbind_def split: prod.splits result.splits)

lemma gbind_Ok_fst:
  "m s = (Ok a, s') \<Longrightarrow> gbind m f s = f a s'"
  by (simp add: gbind_def)

section \<open>State predicates an operation keeps\<close>

text \<open>\<open>keeps I m\<close>: however \<open>m\<close> ends, \<open>I\<close> holds after it if it held before.\<close>

definition keeps :: "('s \<Rightarrow> bool) \<Rightarrow> ('s, 'a) go \<Rightarrow> bool" where
  "keeps I m \<longleftrightarrow> (\<forall>s. I s \<longrightarrow> I (snd (m s)))"

lemma keepsI: "(\<And>s. I s \<Longrightarrow> I (snd (m s))) \<Longrightarrow> keeps I m"
  by (simp add: keeps_def)

lemma keepsD: "keeps I m \<Longrightarrow> I s \<Longrightarrow> I (snd (m s))"
  by (simp add: keeps_def)

lemma keepsE: "keeps I m \<Longrightarrow> I s \<Longrightarrow> m s = (r, s') \<Longrightarrow> I s'"
  by (metis keepsD snd_conv)

lemma keeps_ret [go_keeps]: "keeps I (ret a)"
  by (simp add: keeps_def ret_def)

lemma keeps_throw [go_keeps]: "keeps I (throw e)"
  by (simp add: keeps_def throw_def)

lemma keeps_panic [go_keeps]: "keeps I panic"
  by (simp add: keeps_def panic_def)

lemma keeps_gets [go_keeps]: "keeps I (gets f)"
  by (simp add: keeps_def gets_def)

lemma keeps_deref [go_keeps]: "keeps I (deref p)"
  by (simp add: deref_def go_keeps split: option.split)

lemma keeps_gbind [go_keeps]:
  "keeps I m \<Longrightarrow> (\<And>a. keeps I (f a)) \<Longrightarrow> keeps I (gbind m f)"
  by (fastforce simp: keeps_def gbind_def split: prod.splits result.splits)

lemma keeps_gcatch [go_keeps]:
  "keeps I m \<Longrightarrow> (\<And>e. keeps I (h e)) \<Longrightarrow> keeps I (gcatch m h)"
  by (fastforce simp: keeps_def gcatch_def split: prod.splits result.splits)

lemma keeps_gfor [go_keeps]: "(\<And>x. x \<in> set xs \<Longrightarrow> keeps I (body x)) \<Longrightarrow> keeps I (gfor xs body)"
  by (induction xs) (simp_all add: go_keeps)

lemma keeps_if [go_keeps]:
  "(b \<Longrightarrow> keeps I m) \<Longrightarrow> (\<not> b \<Longrightarrow> keeps I n) \<Longrightarrow> keeps I (if b then m else n)"
  by simp

lemma keeps_case_option [go_keeps]:
  "(x = None \<Longrightarrow> keeps I m) \<Longrightarrow> (\<And>a. x = Some a \<Longrightarrow> keeps I (f a)) \<Longrightarrow>
   keeps I (case x of None \<Rightarrow> m | Some a \<Rightarrow> f a)"
  by (simp split: option.split)

lemma keeps_case_sum [go_keeps]:
  "(\<And>a. x = Inl a \<Longrightarrow> keeps I (m a)) \<Longrightarrow> (\<And>b. x = Inr b \<Longrightarrow> keeps I (n b)) \<Longrightarrow>
   keeps I (case x of Inl a \<Rightarrow> m a | Inr b \<Rightarrow> n b)"
  by (simp split: sum.split)

lemma keeps_case_prod [go_keeps]:
  "(\<And>a b. x = (a, b) \<Longrightarrow> keeps I (f a b)) \<Longrightarrow> keeps I (case x of (a, b) \<Rightarrow> f a b)"
  by (simp split: prod.split)

lemma keeps_attempt [go_keeps]: "keeps I m \<Longrightarrow> keeps I (attempt m)"
  by (fastforce simp: keeps_def attempt_def split: prod.splits result.splits)

lemma keeps_zoom:
  "(\<And>s t. I s \<Longrightarrow> I (put t s)) \<Longrightarrow> keeps I (zoom get put m)"
  by (simp add: keeps_def zoom_def split: prod.split)

text \<open>A predicate that rests on the part of the state the operation works on.\<close>

lemma keeps_zoom_part:
  "keeps J m \<Longrightarrow> (\<And>s. I s \<Longrightarrow> J (get s)) \<Longrightarrow> (\<And>s t. I s \<Longrightarrow> J t \<Longrightarrow> I (put t s)) \<Longrightarrow> keeps I (zoom get put m)"
  unfolding keeps_def zoom_def by (metis (no_types, lifting) case_prod_unfold snd_conv)

text \<open>Reading a field and going on with its value: what is known of the state is kept.\<close>

lemma keeps_gets_bind:
  "(\<And>s. I s \<Longrightarrow> I (snd (f (g s) s))) \<Longrightarrow> keeps I (gbind (gets g) f)"
  by (simp add: keeps_def gbind_def gets_def)

text \<open>\<open>no_error m\<close>: no run of \<open>m\<close> returns an error; it returns a value or panics.\<close>

definition no_error :: "('s, 'a) go \<Rightarrow> bool" where
  "no_error m \<longleftrightarrow> (\<forall>s e s'. m s \<noteq> (Err e, s'))"

lemma no_error_steps:
  "no_error (ret a)" "no_error (gets f)" "no_error (modify u)" "no_error (deref p)" "no_error (attempt m)"
  "no_error n \<Longrightarrow> no_error (on_fst n)"
  "no_error m' \<Longrightarrow> (\<And>x. no_error (f' x)) \<Longrightarrow> no_error (gbind m' f')"
  "(\<And>x. no_error (g x)) \<Longrightarrow> (\<And>x. no_error (h x)) \<Longrightarrow> no_error (case v of Inl x \<Rightarrow> g x | Inr x \<Rightarrow> h x)"
  "no_error n1 \<Longrightarrow> (\<And>x. no_error (h' x)) \<Longrightarrow> no_error (case z of None \<Rightarrow> n1 | Some x \<Rightarrow> h' x)"
  "(\<And>x y. no_error (k x y)) \<Longrightarrow> no_error (case w of (x, y) \<Rightarrow> k x y)"
  "no_error n1 \<Longrightarrow> no_error n2 \<Longrightarrow> no_error (if b then n1 else n2)"
  by (auto simp: no_error_def go_eval deref_def split: option.splits result.splits prod.splits sum.splits)

lemma no_error_gfor: "(\<And>x. no_error (body x)) \<Longrightarrow> no_error (gfor xs body)"
  by (induction xs) (simp_all add: no_error_steps)

text \<open>\<open>unchanged f m\<close>: no run of \<open>m\<close> changes the component \<open>f\<close> of the state.\<close>

definition unchanged :: "('s \<Rightarrow> 'b) \<Rightarrow> ('s, 'a) go \<Rightarrow> bool" where
  "unchanged f m \<longleftrightarrow> (\<forall>s. f (snd (m s)) = f s)"

lemma unchanged_iff_keeps: "unchanged f m \<longleftrightarrow> (\<forall>v. keeps (\<lambda>s. f s = v) m)"
  by (auto simp: unchanged_def keeps_def)

lemma unchangedD: "unchanged f m \<Longrightarrow> m s = (r, s') \<Longrightarrow> f s' = f s"
  by (metis snd_conv unchanged_def)

text \<open>
  \<open>safe I m\<close>: \<open>m\<close> keeps \<open>I\<close>, and where \<open>I\<close> holds it does not panic.
\<close>

definition safe :: "('s \<Rightarrow> bool) \<Rightarrow> ('s, 'a) go \<Rightarrow> bool" where
  "safe I m \<longleftrightarrow> (\<forall>s. I s \<longrightarrow> I (snd (m s)) \<and> fst (m s) \<noteq> Panic)"

lemma safeI: "(\<And>s. I s \<Longrightarrow> I (snd (m s)) \<and> fst (m s) \<noteq> Panic) \<Longrightarrow> safe I m"
  by (simp add: safe_def)

lemma safeD: "safe I m \<Longrightarrow> I s \<Longrightarrow> m s = (r, s') \<Longrightarrow> I s' \<and> r \<noteq> Panic"
  by (metis fst_conv safe_def snd_conv)

lemma safe_keeps: "safe I m \<Longrightarrow> keeps I m"
  by (simp add: safe_def keeps_def)

lemma safe_ret [go_keeps]: "safe I (ret a)"
  by (simp add: safe_def ret_def)

lemma safe_throw [go_keeps]: "safe I (throw e)"
  by (simp add: safe_def throw_def)

lemma safe_gets [go_keeps]: "safe I (gets f)"
  by (simp add: safe_def gets_def)

lemma safe_gbind [go_keeps]: "safe I m \<Longrightarrow> (\<And>a. safe I (f a)) \<Longrightarrow> safe I (gbind m f)"
  by (fastforce simp: safe_def gbind_def split: prod.splits result.splits)

lemma safe_gfor [go_keeps]: "(\<And>x. x \<in> set xs \<Longrightarrow> safe I (body x)) \<Longrightarrow> safe I (gfor xs body)"
  by (induction xs) (simp_all add: go_keeps)

text \<open>
  \<open>triple E P m Q\<close>: from a state with \<open>P\<close>, a normal end of \<open>m\<close> satisfies \<open>Q\<close> of its value, an error or a
  panic leaves \<open>E\<close>.
\<close>

definition triple ::
  "('s \<Rightarrow> bool) \<Rightarrow> ('s \<Rightarrow> bool) \<Rightarrow> ('s, 'a) go \<Rightarrow> ('a \<Rightarrow> 's \<Rightarrow> bool) \<Rightarrow> bool" where
  "triple E P m Q \<longleftrightarrow> (\<forall>s. P s \<longrightarrow>
     (case m s of (Ok a, s') \<Rightarrow> Q a s' | (Err e, s') \<Rightarrow> E s' | (Panic, s') \<Rightarrow> E s'))"

lemma tripleI:
  "(\<And>s r s'. P s \<Longrightarrow> m s = (r, s') \<Longrightarrow> (case r of Ok a \<Rightarrow> Q a s' | _ \<Rightarrow> E s')) \<Longrightarrow> triple E P m Q"
  by (auto simp: triple_def split: prod.splits result.splits)

lemma tripleD:
  "triple E P m Q \<Longrightarrow> P s \<Longrightarrow> m s = (r, s') \<Longrightarrow> (case r of Ok a \<Rightarrow> Q a s' | _ \<Rightarrow> E s')"
  by (auto simp: triple_def split: prod.splits result.splits)

lemma triple_gbind:
  "triple E P m Q \<Longrightarrow> (\<And>a. triple E (Q a) (f a) R) \<Longrightarrow> triple E P (gbind m f) R"
  by (fastforce simp: triple_def gbind_def split: prod.splits result.splits)

lemma triple_ret: "(\<And>s. P s \<Longrightarrow> Q a s) \<Longrightarrow> triple E P (ret a) Q"
  by (simp add: triple_def ret_def)

lemma triple_throw: "(\<And>s. P s \<Longrightarrow> E s) \<Longrightarrow> triple E P (throw e) Q"
  by (simp add: triple_def throw_def)

lemma triple_modify: "(\<And>s. P s \<Longrightarrow> Q () (f s)) \<Longrightarrow> triple E P (modify f) Q"
  by (simp add: triple_def modify_def)

lemma triple_keeps: "keeps I m \<Longrightarrow> (\<And>s. I s \<Longrightarrow> E s) \<Longrightarrow> triple E I m (\<lambda>_. I)"
  by (fastforce simp: triple_def keeps_def split: prod.splits result.splits)

lemma triple_pre: "triple E P m Q \<Longrightarrow> (\<And>s. P' s \<Longrightarrow> P s) \<Longrightarrow> triple E P' m Q"
  by (simp add: triple_def)

lemma keeps_triple:
  assumes "triple I I m (\<lambda>_. I)"
  shows "keeps I m"
proof (rule keepsI)
  fix s assume "I s"
  obtain r s' where "m s = (r, s')" by (cases "m s")
  with tripleD [OF assms \<open>I s\<close> this] show "I (snd (m s))" by (cases r) simp_all
qed

text \<open>Only the end of a sequence may leave a predicate, and only if it succeeds.\<close>

lemma fails_keep:
  "keeps I m \<Longrightarrow> (\<And>a. triple I I (f a) (\<lambda>_ _. True)) \<Longrightarrow> triple I I (gbind m f) (\<lambda>_ _. True)"
  "triple I I (modify g) (\<lambda>_ _. True)"
  "triple I I (ret a) (\<lambda>_ _. True)"
  "(b \<Longrightarrow> triple I I m (\<lambda>_ _. True)) \<Longrightarrow> (\<not> b \<Longrightarrow> triple I I n (\<lambda>_ _. True)) \<Longrightarrow>
   triple I I (if b then m else n) (\<lambda>_ _. True)"
  by (fastforce simp: triple_def keeps_def gbind_def modify_def ret_def
      split: prod.splits result.splits)+

section \<open>Number and list formatting\<close>

text \<open>
  \<open>%d\<close> and \<open>%x\<close> of an unsigned value: no padding, lower-case hexadecimal digits.
\<close>

definition digit :: "nat \<Rightarrow> char" where
  "digit d = ''0123456789abcdef'' ! d"

function fmt_base :: "nat \<Rightarrow> nat \<Rightarrow> string" where
  "fmt_base b n =
     (if b < 2 \<or> n < b then [digit n] else fmt_base b (n div b) @ [digit (n mod b)])"
  by pat_completeness auto
termination
  by (relation "measure snd") auto

declare fmt_base.simps [simp del]

abbreviation dec :: "nat \<Rightarrow> string" where
  "dec \<equiv> fmt_base 10"

abbreviation hex :: "nat \<Rightarrow> string" where
  "hex \<equiv> fmt_base 16"

text \<open>\<open>%d\<close> of a signed value, \<open>%02x\<close> of a byte, and \<open>0x%x\<close>.\<close>

definition dec_int :: "int \<Rightarrow> string" where
  "dec_int i = (if i < 0 then CHR ''-'' # dec (nat (- i)) else dec (nat i))"

definition hex2 :: "8 word \<Rightarrow> string" where
  "hex2 w = [digit (unat w div 16), digit (unat w mod 16)]"

definition hex0x :: "nat \<Rightarrow> string" where
  "hex0x n = ''0x'' @ hex n"

text \<open>The UTF-8 bytes of text that is not ASCII.\<close>

definition utf8 :: "nat list \<Rightarrow> string" where
  "utf8 bs = map char_of bs"

text \<open>\<open>strings.Join\<close>\<close>

fun join :: "string \<Rightarrow> string list \<Rightarrow> string" where
  "join sep [] = []"
| "join sep [x] = x"
| "join sep (x # y # xs) = x @ sep @ join sep (y # xs)"

text \<open>A closed number is formatted by unfolding one digit at a time.\<close>

lemma fmt_base_numeral [simp]:
  "fmt_base (numeral b) (numeral n) =
     (if numeral b < (2::nat) \<or> numeral n < (numeral b :: nat) then [digit (numeral n)]
      else fmt_base (numeral b) (numeral n div numeral b) @ [digit (numeral n mod numeral b)])"
  by (subst fmt_base.simps) simp

lemma fmt_base_less: "n < b \<Longrightarrow> fmt_base b n = [digit n]"
  by (subst fmt_base.simps) simp

lemma fmt_base_small [simp]:
  "fmt_base (numeral b) 0 = [digit 0]"
  "1 < (numeral b :: nat) \<Longrightarrow> fmt_base (numeral b) 1 = [digit 1]"
  "1 < (numeral b :: nat) \<Longrightarrow> fmt_base (numeral b) (Suc 0) = [digit 1]"
  by (simp_all add: fmt_base_less)

lemma fmt_base_nonempty [simp]: "fmt_base b n \<noteq> []"
  by (subst fmt_base.simps) simp

lemma digit_inject: "d < 16 \<Longrightarrow> e < 16 \<Longrightarrow> digit d = digit e \<longleftrightarrow> d = e"
proof -
  have "distinct ''0123456789abcdef''" and "length ''0123456789abcdef'' = 16"
    by simp_all
  then show "d < 16 \<Longrightarrow> e < 16 \<Longrightarrow> digit d = digit e \<longleftrightarrow> d = e"
    unfolding digit_def by (metis nth_eq_iff_index_eq)
qed

lemma digit_in: "d < 16 \<Longrightarrow> digit d \<in> set ''0123456789abcdef''"
  unfolding digit_def by (rule nth_mem) simp

lemma dec_digit_in: "d < 10 \<Longrightarrow> digit d \<in> set ''0123456789''"
proof -
  assume d: "d < 10"
  have "take 10 ''0123456789abcdef'' = ''0123456789''" by simp
  then have "digit d = ''0123456789'' ! d"
    unfolding digit_def using d by (metis nth_take)
  moreover have "d < length ''0123456789''" using d by simp
  ultimately show ?thesis by (metis nth_mem)
qed

text \<open>Decimal text is made of digits, and reads back as the number it was made from.\<close>

definition is_digit :: "char \<Rightarrow> bool" where
  "is_digit c \<longleftrightarrow> c \<in> set ''0123456789''"

definition digit_value :: "char \<Rightarrow> nat" where
  "digit_value c = length (takeWhile (\<lambda>d. d \<noteq> c) ''0123456789abcdef'')"

definition dec_value :: "string \<Rightarrow> nat" where
  "dec_value s = foldl (\<lambda>n c. n * 10 + digit_value c) 0 s"

lemma digit_value_digit: "d < 16 \<Longrightarrow> digit_value (digit d) = d"
proof -
  assume d: "d < 16"
  have "\<forall>k\<in>{0..<16}. digit_value (''0123456789abcdef'' ! k) = k"
    by (simp add: digit_value_def atLeastLessThan_nat_numeral)
  with d show ?thesis by (simp add: digit_def)
qed

lemma is_digit_digit: "d < 10 \<Longrightarrow> is_digit (digit d)"
  unfolding is_digit_def by (rule dec_digit_in)

lemma dec_is_digit: "c \<in> set (dec n) \<Longrightarrow> is_digit c"
proof (induction n rule: less_induct)
  case (less n)
  show ?case
  proof (cases "n < 10")
    case True
    with less.prems show ?thesis by (simp add: fmt_base_less is_digit_digit)
  next
    case False
    then have "dec n = dec (n div 10) @ [digit (n mod 10)]" by (subst fmt_base.simps) simp
    with less.prems consider "c \<in> set (dec (n div 10))" | "c = digit (n mod 10)" by auto
    then show ?thesis
      by cases (use less.IH [of "n div 10"] False in \<open>simp_all add: is_digit_digit\<close>)
  qed
qed

lemma dec_value_dec [simp]: "dec_value (dec n) = n"
proof (induction n rule: less_induct)
  case (less n)
  show ?case
  proof (cases "n < 10")
    case True
    then show ?thesis by (simp add: fmt_base_less dec_value_def digit_value_digit)
  next
    case False
    then have "dec n = dec (n div 10) @ [digit (n mod 10)]" by (subst fmt_base.simps) simp
    with less.IH [of "n div 10"] False show ?thesis
      by (simp add: dec_value_def digit_value_digit)
  qed
qed

lemma dec_inject [simp]: "dec m = dec n \<longleftrightarrow> m = n"
  by (metis dec_value_dec)

lemma takeWhile_dec:
  "r = [] \<or> \<not> is_digit (hd r) \<Longrightarrow> takeWhile is_digit (dec n @ r) = dec n"
  by (cases r) (simp_all add: takeWhile_append2 dec_is_digit)

lemma dec_append_inject:
  assumes "dec m @ r = dec n @ r'"
    and "r = [] \<or> \<not> is_digit (hd r)" "r' = [] \<or> \<not> is_digit (hd r')"
  shows "m = n \<and> r = r'"
proof -
  have "dec m = dec n"
    using takeWhile_dec [OF assms(2), of m] takeWhile_dec [OF assms(3), of n] assms(1) by simp
  with assms(1) show ?thesis by simp
qed

section \<open>Go maps\<close>

text \<open>
  A Go map is an association list with distinct keys: \<open>map_of m k\<close> is the lookup, \<open>AList.update\<close>
  the assignment, \<open>AList.delete\<close> the built-in \<open>delete\<close>, \<open>length\<close> the built-in \<open>len\<close>. The order in which a
  \<open>range\<close> visits the entries is not the list's: it is chosen by the run (Binding, \<open>go_range\<close>).
\<close>

abbreviation wf_map :: "('k \<times> 'v) list \<Rightarrow> bool" where
  "wf_map m \<equiv> distinct (map fst m)"

lemma wf_map_update [simp]: "wf_map m \<Longrightarrow> wf_map (AList.update k v m)"
  by (rule distinct_update)

lemma wf_map_delete [simp]: "wf_map m \<Longrightarrow> wf_map (AList.delete k m)"
  by (rule distinct_delete)

lemma map_of_update [simp]: "map_of (AList.update k v m) = (map_of m)(k \<mapsto> v)"
  by (rule update_conv')

lemma map_of_delete [simp]: "map_of (AList.delete k m) = (map_of m)(k := None)"
  by (rule delete_conv')

lemma delete_absent [simp]: "map_of m k = None \<Longrightarrow> AList.delete k m = m"
  by (induction m) (auto split: if_splits)

lemma update_absent: "map_of m k = None \<Longrightarrow> AList.update k v m = m @ [(k, v)]"
  by (induction m) (auto split: if_splits)

lemma length_delete_present:
  "wf_map m \<Longrightarrow> map_of m k \<noteq> None \<Longrightarrow> length (AList.delete k m) = length m - 1"
proof (induction m)
  case Nil
  then show ?case by simp
next
  case (Cons p m)
  show ?case
  proof (cases "fst p = k")
    case True
    with Cons.prems have "map_of m k = None"
      by (auto simp: map_of_eq_None_iff)
    with True show ?thesis by (cases p) simp
  next
    case False
    with Cons have "map_of m k \<noteq> None" and "length (AList.delete k m) = length m - 1"
      by (cases p, simp)+
    moreover from \<open>map_of m k \<noteq> None\<close> have "m \<noteq> []" by auto
    ultimately show ?thesis using False by (cases p) (simp add: Suc_diff_Suc)
  qed
qed

end
