(* ===== verification/GoNet.thy ===== *)
theory GoNet
  imports Prelude
begin

text \<open>
  The parts of Go's standard packages \<open>net\<close>, \<open>net/netip\<close> and \<open>strings\<close> that the source uses:
  addresses, masks and networks as byte slices with their textual forms, and the parsers
  \<open>net.ParseIP\<close> and \<open>net.ParseCIDR\<close>, as documented for Go 1.22 (the version in go.mod).
\<close>

unbundle bit_operations_syntax

section \<open>Addresses\<close>

text \<open>
  \<open>net.IP\<close>, \<open>net.IPMask\<close> and \<open>net.HardwareAddr\<close> are byte slices; the nil slice is \<open>[]\<close>, which has
  length 0 as in Go. A \<open>net.IPNet\<close> is a network number with its mask.
\<close>

type_synonym ip = "8 word list"
type_synonym ipmask = "8 word list"
type_synonym mac = "8 word list"

record ipnet =
  ipnet_IP :: ip
  ipnet_Mask :: ipmask

definition v4InV6Prefix :: ip where
  "v4InV6Prefix = [0, 0, 0, 0, 0, 0, 0, 0, 0, 0, 255, 255]"

text \<open>\<open>IP.To4\<close>: the 4-byte form, nil when the address is not an IPv4 one.\<close>

definition To4 :: "ip \<Rightarrow> ip" where
  "To4 a = (if length a = 4 then a
            else if length a = 16 \<and> take 12 a = v4InV6Prefix then drop 12 a
            else [])"

definition dotted :: "ip \<Rightarrow> string" where
  "dotted a = join ''.'' (map (\<lambda>b. dec (unat b)) a)"

text \<open>
  The IPv6 text form: eight groups in hexadecimal, the first longest run of two or more zero
  groups written \<open>::\<close>.
\<close>

definition groups :: "ip \<Rightarrow> nat list" where
  "groups a = map (\<lambda>i. unat (a ! (2 * i)) * 256 + unat (a ! (2 * i + 1))) [0..<8]"

definition zeros_from :: "nat list \<Rightarrow> nat \<Rightarrow> nat" where
  "zeros_from gs i = length (takeWhile (\<lambda>g. g = 0) (drop i gs))"

definition longest_zeros :: "nat list \<Rightarrow> nat \<times> nat" where
  "longest_zeros gs =
     fold (\<lambda>i (start, len). let l = zeros_from gs i in
             if 2 \<le> l \<and> len < l then (i, l) else (start, len)) [0..<8] (8, 0)"

definition ip6_string :: "ip \<Rightarrow> string" where
  "ip6_string a =
     (let gs = groups a; (start, len) = longest_zeros gs in
      if len = 0 then join '':'' (map hex gs)
      else join '':'' (map hex (take start gs)) @ ''::''
             @ join '':'' (map hex (drop (start + len) gs)))"

definition hexString :: "8 word list \<Rightarrow> string" where
  "hexString bs = concat (map hex2 bs)"

text \<open>\<open>IP.String\<close>, \<open>IPMask.String\<close>, \<open>HardwareAddr.String\<close>\<close>

definition ip_string :: "ip \<Rightarrow> string" where
  "ip_string a =
     (if a = [] then ''<nil>''
      else if length a \<noteq> 4 \<and> length a \<noteq> 16 then CHR ''?'' # hexString a
      else if To4 a \<noteq> [] then dotted (To4 a)
      else ip6_string a)"

definition mask_string :: "ipmask \<Rightarrow> string" where
  "mask_string m = (if m = [] then ''<nil>'' else hexString m)"

definition mac_string :: "mac \<Rightarrow> string" where
  "mac_string m = join '':'' (map hex2 m)"

section \<open>Masks and networks\<close>

text \<open>\<open>net.CIDRMask(ones, bits)\<close> for \<open>ones \<le> bits\<close> and \<open>bits\<close> a multiple of 8.\<close>

definition mask_byte :: "nat \<Rightarrow> 8 word" where
  "mask_byte n = (if 8 \<le> n then 255 else word_of_nat (256 - 2 ^ (8 - n)))"

definition CIDRMask :: "nat \<Rightarrow> nat \<Rightarrow> ipmask" where
  "CIDRMask ones bits = map (\<lambda>i. mask_byte (ones - 8 * i)) [0..<bits div 8]"

text \<open>\<open>IP.Mask\<close>: nil when the lengths do not fit.\<close>

definition ip_Mask :: "ip \<Rightarrow> ipmask \<Rightarrow> ip" where
  "ip_Mask a m =
     (let m' = (if length m = 16 \<and> length a = 4 \<and> take 12 m = replicate 12 255
                then drop 12 m else m);
          a' = (if length m' = 4 \<and> length a = 16 \<and> take 12 a = v4InV6Prefix
                then drop 12 a else a)
      in if length a' \<noteq> length m' then [] else map2 (AND) a' m')"

text \<open>\<open>simpleMaskLength\<close>: the number of leading ones, none when the mask is not a prefix mask.\<close>

fun byte_ones :: "nat \<Rightarrow> 8 word \<Rightarrow> nat" where
  "byte_ones 0 b = 0"
| "byte_ones (Suc k) b = (if bit b k then Suc (byte_ones k b) else 0)"

fun simpleMaskLength :: "ipmask \<Rightarrow> nat option" where
  "simpleMaskLength [] = Some 0"
| "simpleMaskLength (b # m) =
     (if b = 255 then map_option (\<lambda>n. n + 8) (simpleMaskLength m)
      else if b = mask_byte (byte_ones 8 b) \<and> (\<forall>c \<in> set m. c = 0)
      then Some (byte_ones 8 b) else None)"

text \<open>\<open>IPNet.String\<close>: \<open>number/ones\<close>, or the mask in hexadecimal.\<close>

definition ipnet_string :: "ipnet \<Rightarrow> string" where
  "ipnet_string n =
     (let a4 = To4 (ipnet_IP n);
          a = (if a4 = [] then ipnet_IP n else a4);
          m = (if length (ipnet_Mask n) = 16 \<and> length a = 4 then drop 12 (ipnet_Mask n)
               else ipnet_Mask n)
      in if length a \<noteq> 4 \<and> length a \<noteq> 16 \<or> length m \<noteq> length a then ''<nil>''
         else case simpleMaskLength m of
                None \<Rightarrow> ip_string a @ ''/'' @ mask_string m
              | Some l \<Rightarrow> ip_string a @ ''/'' @ dec l)"

section \<open>Parsers\<close>

definition digit_val :: "char \<Rightarrow> nat option" where
  "digit_val c =
     (let k = of_char c :: nat in if 48 \<le> k \<and> k \<le> 57 then Some (k - 48) else None)"

definition hex_val :: "char \<Rightarrow> nat option" where
  "hex_val c =
     (let k = of_char c :: nat in
      if 48 \<le> k \<and> k \<le> 57 then Some (k - 48)
      else if 97 \<le> k \<and> k \<le> 102 then Some (k - 87)
      else if 65 \<le> k \<and> k \<le> 70 then Some (k - 55)
      else None)"

text \<open>
  \<open>parseIPv4Fields\<close>: the value and digit count of the current octet, and the octets read so
  far. A dot needs a digit on both sides, no octet has a leading zero or is above 255.
\<close>

fun parse_v4 :: "nat \<Rightarrow> nat \<Rightarrow> 8 word list \<Rightarrow> string \<Rightarrow> ip option" where
  "parse_v4 v n acc [] = (if length acc < 3 then None else Some (acc @ [word_of_nat v]))"
| "parse_v4 v n acc (c # cs) =
     (case digit_val c of
        Some d \<Rightarrow> if n = 1 \<and> v = 0 then None
                  else if 255 < v * 10 + d then None
                  else parse_v4 (v * 10 + d) (Suc n) acc cs
      | None \<Rightarrow> if c \<noteq> CHR ''.'' then None
                else if n = 0 \<or> cs = [] then None
                else if length acc = 3 then None
                else parse_v4 0 0 (acc @ [word_of_nat v]) cs)"

text \<open>One hexadecimal field of an IPv6 address: its value, its digit count and the rest.\<close>

fun parse_field :: "nat \<Rightarrow> nat \<Rightarrow> string \<Rightarrow> (nat \<times> nat \<times> string) option" where
  "parse_field acc off [] = Some (acc, off, [])"
| "parse_field acc off (c # cs) =
     (case hex_val c of
        None \<Rightarrow> Some (acc, off, c # cs)
      | Some d \<Rightarrow> if 3 < off then None else parse_field (acc * 16 + d) (Suc off) cs)"

lemma parse_field_length:
  "parse_field a k s = Some (v, off, rest) \<Longrightarrow> length rest + off = length s + k"
  by (induction a k s arbitrary: v off rest rule: parse_field.induct)
    (fastforce split: option.splits if_splits)+

text \<open>
  The loop of \<open>parseIPv6\<close>: \<open>out\<close> are the bytes stored so far and \<open>ell\<close> the position of the
  ellipsis; the result is the bytes, the ellipsis and whether the text was used up.
\<close>

function parse_v6_loop ::
  "ip \<Rightarrow> nat option \<Rightarrow> string \<Rightarrow> (ip \<times> nat option) option" where
  "parse_v6_loop out ell s =
     (if 16 \<le> length out then (if s = [] then Some (out, ell) else None)
      else case parse_field 0 0 s of
        None \<Rightarrow> None
      | Some (v, off, rest) \<Rightarrow>
          if off = 0 then None
          else if rest \<noteq> [] \<and> hd rest = CHR ''.'' then
            (if (ell = None \<and> length out \<noteq> 12) \<or> 16 < length out + 4 then None
             else case parse_v4 0 0 [] s of
                    None \<Rightarrow> None
                  | Some v4 \<Rightarrow> Some (out @ v4, ell))
          else
            (let out' = out @ [word_of_nat (v div 256), word_of_nat v] in
             case rest of
               [] \<Rightarrow> Some (out', ell)
             | c # cs \<Rightarrow>
                 if c \<noteq> CHR '':'' \<or> cs = [] then None
                 else if hd cs = CHR '':'' then
                   (if ell \<noteq> None then None
                    else if tl cs = [] then Some (out', Some (length out'))
                    else parse_v6_loop out' (Some (length out')) (tl cs))
                 else parse_v6_loop out' ell cs))"
  by pat_completeness auto
termination
  by (relation "measure (\<lambda>(out, ell, s). 16 - length out)") auto

declare parse_v6_loop.simps [simp del]

definition expand_ellipsis :: "ip \<Rightarrow> nat option \<Rightarrow> ip option" where
  "expand_ellipsis out ell =
     (if length out < 16 then
        (case ell of None \<Rightarrow> None
         | Some e \<Rightarrow> Some (take e out @ replicate (16 - length out) 0 @ drop e out))
      else if ell \<noteq> None then None else Some out)"

definition parse_v6 :: "string \<Rightarrow> ip option" where
  "parse_v6 s =
     (if take 2 s = ''::'' then
        (if drop 2 s = [] then Some (replicate 16 0)
         else Option.bind (parse_v6_loop [] (Some 0) (drop 2 s)) (\<lambda>(out, ell). expand_ellipsis out ell))
      else Option.bind (parse_v6_loop [] None s) (\<lambda>(out, ell). expand_ellipsis out ell))"

text \<open>
  \<open>netip.ParseAddr\<close> without a zone: the first of \<open>.\<close>, \<open>:\<close> and \<open>%\<close> decides the form. An address
  with a zone is refused by both callers, so a \<open>%\<close> anywhere gives none.
\<close>

definition ParseAddr :: "string \<Rightarrow> ip option" where
  "ParseAddr s =
     (case dropWhile (\<lambda>c. c \<notin> set ''.:%'') s of
        [] \<Rightarrow> None
      | c # _ \<Rightarrow> if c = CHR ''.'' then parse_v4 0 0 [] s
                 else if CHR ''%'' \<in> set s then None
                 else parse_v6 s)"

definition As16 :: "ip \<Rightarrow> ip" where
  "As16 a = (if length a = 4 then v4InV6Prefix @ a else a)"

text \<open>\<open>net.ParseIP\<close>: the 16-byte form, nil on failure.\<close>

definition ParseIP :: "string \<Rightarrow> ip" where
  "ParseIP s = (case ParseAddr s of None \<Rightarrow> [] | Some a \<Rightarrow> As16 a)"

text \<open>\<open>dtoi\<close> over the whole text: none if it is empty, has another character or is too big.\<close>

fun dtoi :: "nat \<Rightarrow> string \<Rightarrow> nat option" where
  "dtoi n [] = Some n"
| "dtoi n (c # cs) =
     (case digit_val c of
        None \<Rightarrow> None
      | Some d \<Rightarrow> if 16777215 \<le> n * 10 + d then None else dtoi (n * 10 + d) cs)"

definition ParseCIDR :: "string \<Rightarrow> error + (ip \<times> ipnet)" where
  "ParseCIDR s =
     (let fail = Inl (ErrWrap ''invalid CIDR address: '' (ErrText s));
          addr = takeWhile (\<lambda>c. c \<noteq> CHR ''/'') s
      in case dropWhile (\<lambda>c. c \<noteq> CHR ''/'') s of
           [] \<Rightarrow> fail
         | _ # m \<Rightarrow>
             (case (ParseAddr addr, if m = [] then None else dtoi 0 m) of
                (Some a, Some n) \<Rightarrow>
                  if 8 * length a < n then fail
                  else let mask = CIDRMask n (8 * length a) in
                       Inr (As16 a, \<lparr>ipnet_IP = ip_Mask (As16 a) mask, ipnet_Mask = mask\<rparr>)
              | _ \<Rightarrow> fail))"

end
