(* ===== verification/Binding.thy ===== *)
theory Binding
  imports GoNet
begin

text \<open>
  Package \<open>pkg/ovs/openflow\<close>: flow tables, the bridge that creates them, the flow builder with
  its matches and actions, the flow with its textual form, and the commands \<open>ovs-ofctl add-flow\<close>,
  \<open>mod-flows\<close> and \<open>del-flows\<close> by which a flow reaches the switch.
\<close>

section \<open>Tables, flows and the bridge\<close>

type_synonym table_id = "8 word"
type_synonym range = "32 word \<times> 32 word"

definition LastTableID :: table_id where
  "LastTableID = 0xff"

datatype miss_action = TableMissActionDrop | TableMissActionNormal | TableMissActionNext

text \<open>
  A \<open>commandTable\<close>: the fields fixed at its creation here, the two that change (its flow count and
  the time of the last change, under its mutex) in \<open>table_status\<close>, kept by table id in the state.
\<close>

record table =
  t_bridge :: string
  t_id :: table_id
  t_next :: table_id
  t_missAction :: miss_action

record table_status =
  flowCount :: "64 word"
  updateTime :: nat

text \<open>\<open>commandFlow\<close>; a \<open>commandBuilder\<close> embeds it and nothing else, so it is the same record.\<close>

record flow =
  fl_table :: table
  fl_bridge :: string
  fl_priority :: "32 word"
  fl_matchers :: "string list"
  fl_actions :: "string list"

type_synonym builder = flow

record bridge =
  b_name :: string
  tableCache :: "(table_id \<times> table) list"

text \<open>The commands the binding executes, and their argument vectors.\<close>

datatype command =
    OfctlAdd flow
  | OfctlMod flow
  | OfctlDel flow
  | OfctlShow string

text \<open>
  The state the binding writes: the commands run so far with their success, newest first, and the
  status of every table.
\<close>

record switch =
  hist :: "(command \<times> bool) list"
  tstat :: "table_id \<Rightarrow> table_status"

text \<open>
  What the process does not decide itself. \<open>executor argvs argv\<close> is the outcome of running the
  command \<open>argv\<close> after the commands \<open>argvs\<close> (newest first): none when it exits with status 0,
  otherwise what it reported. \<open>now n\<close> is the clock after \<open>n\<close> commands. \<open>iter n k\<close> is the order in
  which a \<open>range\<close> over a Go map of \<open>k\<close> entries visits them, when \<open>n\<close> commands have been run.
\<close>

record env =
  executor :: "string list list \<Rightarrow> string list \<Rightarrow> string option"
  now :: "nat \<Rightarrow> nat"
  iter :: "nat \<Rightarrow> nat \<Rightarrow> nat list"

definition Version13 :: string where
  "Version13 = ''Openflow13''"

definition GetID :: "table \<Rightarrow> table_id" where
  "GetID t = t_id t"

definition GetNext :: "table \<Rightarrow> table_id" where
  "GetNext t = t_next t"

definition GetMissAction :: "table \<Rightarrow> miss_action" where
  "GetMissAction t = t_missAction t"

definition BuildFlow :: "table \<Rightarrow> builder" where
  "BuildFlow t = \<lparr>fl_table = t, fl_bridge = t_bridge t, fl_priority = 0,
                  fl_matchers = [], fl_actions = []\<rparr>"

section \<open>The text of a flow\<close>

definition flow_format :: "flow \<Rightarrow> bool \<Rightarrow> string" where
  "flow_format f withActions =
     ''table='' @ dec (unat (GetID (fl_table f)))
     @ (if withActions then '',priority='' @ dec (unat (fl_priority f)) else [])
     @ (if fl_matchers f \<noteq> [] then '','' @ join '','' (fl_matchers f) else [])
     @ (if withActions \<and> fl_actions f \<noteq> [] then '',actions='' @ join '','' (fl_actions f) else [])"

definition flow_String :: "flow \<Rightarrow> string" where
  "flow_String f = flow_format f True"

definition MatchString :: "flow \<Rightarrow> string" where
  "MatchString f = flow_format f False"

definition CopyToBuilder :: "flow \<Rightarrow> builder" where
  "CopyToBuilder f = f\<lparr>fl_actions := []\<rparr>"

definition Done :: "builder \<Rightarrow> flow" where
  "Done b = b"

fun argv :: "command \<Rightarrow> string list" where
  "argv (OfctlAdd f) = [''ovs-ofctl'', ''add-flow'', fl_bridge f, ''-O'' @ Version13, flow_format f True]"
| "argv (OfctlMod f) = [''ovs-ofctl'', ''mod-flows'', fl_bridge f, ''-O'' @ Version13, flow_format f True]"
| "argv (OfctlDel f) = [''ovs-ofctl'', ''del-flows'', fl_bridge f, ''-O'' @ Version13, flow_format f False]"
| "argv (OfctlShow b) = [''ovs-ofctl'', ''show'', b]"

section \<open>Matches\<close>

definition MatchField :: "string \<Rightarrow> string \<Rightarrow> builder \<Rightarrow> builder" where
  "MatchField name value b = b\<lparr>fl_matchers := fl_matchers b @ [name @ ''='' @ value]\<rparr>"

definition MatchFieldRange :: "string \<Rightarrow> string \<Rightarrow> range \<Rightarrow> builder \<Rightarrow> builder" where
  "MatchFieldRange name value rng b = b\<lparr>fl_matchers := fl_matchers b @
     [name @ ''['' @ dec (unat (fst rng)) @ ''..'' @ dec (unat (snd rng)) @ '']='' @ value]\<rparr>"

definition MatchReg :: "int \<Rightarrow> 32 word \<Rightarrow> builder \<Rightarrow> builder" where
  "MatchReg regID data = MatchField (''reg'' @ dec_int regID) (hex0x (unat data))"

definition MatchRegRange :: "int \<Rightarrow> 32 word \<Rightarrow> range \<Rightarrow> builder \<Rightarrow> builder" where
  "MatchRegRange regID data rng =
     MatchFieldRange (''reg'' @ dec_int regID) (hex0x (unat data)) rng"

definition MatchCTState :: "string \<Rightarrow> builder \<Rightarrow> builder" where
  "MatchCTState value b = b\<lparr>fl_matchers := fl_matchers b @ [''ct_state='' @ value]\<rparr>"

definition MatchCTMark :: "string \<Rightarrow> builder \<Rightarrow> builder" where
  "MatchCTMark value b = b\<lparr>fl_matchers := fl_matchers b @ [''ct_mark='' @ value]\<rparr>"

definition MatchInPort :: "32 word \<Rightarrow> builder \<Rightarrow> builder" where
  "MatchInPort inPort = MatchField ''in_port'' (dec (unat inPort))"

definition MatchDstIP :: "ip \<Rightarrow> builder \<Rightarrow> builder" where
  "MatchDstIP a = MatchField ''nw_dst'' (ip_string a)"

definition MatchDstIPNet :: "ipnet \<Rightarrow> builder \<Rightarrow> builder" where
  "MatchDstIPNet n = MatchField ''nw_dst'' (ipnet_string n)"

definition MatchSrcIP :: "ip \<Rightarrow> builder \<Rightarrow> builder" where
  "MatchSrcIP a = MatchField ''nw_src'' (ip_string a)"

definition MatchSrcIPNet :: "ipnet \<Rightarrow> builder \<Rightarrow> builder" where
  "MatchSrcIPNet n = MatchField ''nw_src'' (ipnet_string n)"

definition MatchDstMAC :: "mac \<Rightarrow> builder \<Rightarrow> builder" where
  "MatchDstMAC m = MatchField ''dl_dst'' (mac_string m)"

definition MatchSrcMAC :: "mac \<Rightarrow> builder \<Rightarrow> builder" where
  "MatchSrcMAC m = MatchField ''dl_src'' (mac_string m)"

definition MatchARPSha :: "mac \<Rightarrow> builder \<Rightarrow> builder" where
  "MatchARPSha m = MatchField ''arp_sha'' (mac_string m)"

definition MatchARPTha :: "mac \<Rightarrow> builder \<Rightarrow> builder" where
  "MatchARPTha m = MatchField ''arp_tha'' (mac_string m)"

definition MatchARPSpa :: "ip \<Rightarrow> builder \<Rightarrow> builder" where
  "MatchARPSpa a = MatchField ''arp_spa'' (ip_string a)"

definition MatchARPTpa :: "ip \<Rightarrow> builder \<Rightarrow> builder" where
  "MatchARPTpa a = MatchField ''arp_tpa'' (ip_string a)"

definition MatchARPOp :: "16 word \<Rightarrow> builder \<Rightarrow> builder" where
  "MatchARPOp op = MatchField ''arp_op'' (dec (unat op))"

definition MatchConjID :: "32 word \<Rightarrow> builder \<Rightarrow> builder" where
  "MatchConjID value = MatchField ''conj_id'' (dec (unat value))"

definition Priority :: "32 word \<Rightarrow> builder \<Rightarrow> builder" where
  "Priority p b = b\<lparr>fl_priority := p\<rparr>"

definition MatchTCPDstPort :: "16 word \<Rightarrow> builder \<Rightarrow> builder" where
  "MatchTCPDstPort port = MatchField ''tcp_dst'' (dec (unat port))"

definition MatchUDPDstPort :: "16 word \<Rightarrow> builder \<Rightarrow> builder" where
  "MatchUDPDstPort port = MatchField ''udp_dst'' (dec (unat port))"

definition MatchSCTPDstPort :: "16 word \<Rightarrow> builder \<Rightarrow> builder" where
  "MatchSCTPDstPort port = MatchField ''sct_dst'' (dec (unat port))"

definition MatchTPSrc :: "16 word \<Rightarrow> builder \<Rightarrow> builder" where
  "MatchTPSrc port = MatchField ''tp_src'' (dec (unat port))"

text \<open>\<open>strings.ToLower\<close> on the ASCII names of protocols.\<close>

definition to_lower :: "char \<Rightarrow> char" where
  "to_lower c = (let k = of_char c :: nat in if 65 \<le> k \<and> k \<le> 90 then char_of (k + 32) else c)"

definition MatchProtocol :: "string \<Rightarrow> builder \<Rightarrow> builder" where
  "MatchProtocol protocol b = b\<lparr>fl_matchers := fl_matchers b @ [map to_lower protocol]\<rparr>"

definition Cookie :: "64 word \<Rightarrow> builder \<Rightarrow> builder" where
  "Cookie cookieID = MatchField ''cookie'' (dec (unat cookieID))"

text \<open>A chain of builder calls \<open>b.M1(..).M2(..)\<close>, each on the builder the one before returned.\<close>

definition chain :: "builder \<Rightarrow> (builder \<Rightarrow> builder) list \<Rightarrow> builder" where
  "chain b ms = fold (\<lambda>m b. m b) ms b"

end
