(* ===== verification/Actions.thy ===== *)
theory Actions
  imports Binding
begin

text \<open>
  Package \<open>pkg/ovs/openflow\<close>, cmd_action.go: the actions a builder appends to a flow, and the
  connection-tracking action, which is built up by calls of its own before \<open>CTDone\<close> appends it.
\<close>

definition NxmFieldSrcMAC :: string where "NxmFieldSrcMAC = ''NXM_OF_ETH_SRC''"
definition NxmFieldDstMAC :: string where "NxmFieldDstMAC = ''NXM_OF_ETH_DST''"
definition NxmFieldARPSha :: string where "NxmFieldARPSha = ''NXM_NX_ARP_SHA''"
definition NxmFieldARPTha :: string where "NxmFieldARPTha = ''NXM_NX_ARP_THA''"
definition NxmFieldARPSpa :: string where "NxmFieldARPSpa = ''NXM_OF_ARP_SPA''"
definition NxmFieldARPTpa :: string where "NxmFieldARPTpa = ''NXM_OF_ARP_TPA''"
definition NxmFieldCtLabel :: string where "NxmFieldCtLabel = ''NXM_NX_CT_LABEL''"
definition NxmFieldCtMark :: string where "NxmFieldCtMark = ''NXM_NX_CT_MARK''"
definition NxmFieldARPOp :: string where "NxmFieldARPOp = ''NXM_OF_ARP_OP''"
definition NxmFieldReg :: string where "NxmFieldReg = ''NXM_NX_REG''"

text \<open>The source appends to the builder's action list in every method.\<close>

definition act :: "string \<Rightarrow> builder \<Rightarrow> builder" where
  "act a b = b\<lparr>fl_actions := fl_actions b @ [a]\<rparr>"

definition range_text :: "range \<Rightarrow> string" where
  "range_text rng = ''['' @ dec (unat (fst rng)) @ ''..'' @ dec (unat (snd rng)) @ '']''"

definition Drop :: "builder \<Rightarrow> builder" where
  "Drop = act ''drop''"

definition Output :: "int \<Rightarrow> builder \<Rightarrow> builder" where
  "Output port = act (''output:'' @ dec_int port)"

definition OutputFieldRange :: "string \<Rightarrow> range \<Rightarrow> builder \<Rightarrow> builder" where
  "OutputFieldRange name rng = act (''output:'' @ name @ range_text rng)"

definition OutputRegRange :: "int \<Rightarrow> range \<Rightarrow> builder \<Rightarrow> builder" where
  "OutputRegRange regID rng = OutputFieldRange (NxmFieldReg @ dec_int regID) rng"

definition OutputInPort :: "builder \<Rightarrow> builder" where
  "OutputInPort = act ''in_port''"

record cmdCT =
  ct_commit :: bool
  ct_force :: bool
  ct_Table :: "8 word"
  ct_Zone :: "16 word"
  ct_actions :: "string list"
  ct_builder :: builder

definition CT :: "bool \<Rightarrow> table_id \<Rightarrow> int \<Rightarrow> builder \<Rightarrow> cmdCT" where
  "CT commit tableID zone b =
     \<lparr>ct_commit = commit, ct_force = False, ct_Table = tableID, ct_Zone = word_of_int zone,
      ct_actions = [], ct_builder = b\<rparr>"

definition ct_addAction :: "string \<Rightarrow> cmdCT \<Rightarrow> cmdCT" where
  "ct_addAction a c = c\<lparr>ct_actions := ct_actions c @ [a]\<rparr>"

definition LoadToMark :: "32 word \<Rightarrow> cmdCT \<Rightarrow> cmdCT" where
  "LoadToMark value = ct_addAction (''load:'' @ hex0x (unat value) @ ''->'' @ NxmFieldCtMark @ ''[]'')"

definition LoadToLabelRange :: "64 word \<Rightarrow> range \<Rightarrow> cmdCT \<Rightarrow> cmdCT" where
  "LoadToLabelRange value labelRange =
     ct_addAction (''load:'' @ hex0x (unat value) @ ''->'' @ NxmFieldCtLabel
       @ ''['' @ dec (unat (fst labelRange)) @ '','' @ dec (unat (snd labelRange)) @ '']'')"

definition MoveToLabel :: "string \<Rightarrow> range \<Rightarrow> range \<Rightarrow> cmdCT \<Rightarrow> cmdCT" where
  "MoveToLabel fromName fromRng labelRange =
     ct_addAction (''move:'' @ fromName @ range_text fromRng @ ''->''
       @ NxmFieldCtLabel @ range_text labelRange)"

definition MoveSrcMACToLabel :: "range \<Rightarrow> cmdCT \<Rightarrow> cmdCT" where
  "MoveSrcMACToLabel labelRange = MoveToLabel NxmFieldSrcMAC (0, 47) labelRange"

text \<open>The parts of \<open>ct(...)\<close> that are present, separated by commas.\<close>

definition CTDone :: "cmdCT \<Rightarrow> builder" where
  "CTDone c =
     (let repr = (if ct_commit c then ''commit'' else []);
          repr = (if 0 < ct_Table c
                  then repr @ (if repr \<noteq> [] then '','' else []) @ ''table='' @ dec (unat (ct_Table c))
                  else repr);
          repr = (if 0 < ct_Zone c
                  then repr @ (if repr \<noteq> [] then '','' else []) @ ''zone='' @ dec (unat (ct_Zone c))
                  else repr);
          repr = (if ct_actions c \<noteq> []
                  then repr @ (if repr \<noteq> [] then '','' else [])
                         @ ''exec('' @ join '','' (ct_actions c) @ '')''
                  else repr)
      in act (''ct('' @ repr @ '')'') (ct_builder c))"

definition setField :: "string \<Rightarrow> string \<Rightarrow> builder \<Rightarrow> builder" where
  "setField key value = act (''set_field:'' @ value @ ''->'' @ key)"

definition Load :: "string \<Rightarrow> 64 word \<Rightarrow> builder \<Rightarrow> builder" where
  "Load name value = act (''load:'' @ hex0x (unat value) @ ''->'' @ name @ ''[]'')"

definition LoadARPOperation :: "16 word \<Rightarrow> builder \<Rightarrow> builder" where
  "LoadARPOperation value = Load NxmFieldARPOp (ucast value)"

definition LoadRange :: "string \<Rightarrow> 32 word \<Rightarrow> range \<Rightarrow> builder \<Rightarrow> builder" where
  "LoadRange name addr to = act (''load:'' @ hex0x (unat addr) @ ''->'' @ name @ range_text to)"

definition LoadRegRange :: "int \<Rightarrow> 32 word \<Rightarrow> range \<Rightarrow> builder \<Rightarrow> builder" where
  "LoadRegRange regID value to = LoadRange (''reg'' @ dec_int regID) value to"

definition Move :: "string \<Rightarrow> string \<Rightarrow> builder \<Rightarrow> builder" where
  "Move from to = act (''move:'' @ from @ ''[]->'' @ to @ ''[]'')"

definition MoveRange :: "string \<Rightarrow> string \<Rightarrow> range \<Rightarrow> range \<Rightarrow> builder \<Rightarrow> builder" where
  "MoveRange fromName toName from to =
     act (''move:'' @ fromName @ range_text from @ ''->'' @ toName @ range_text to)"

definition Resubmit :: "string \<Rightarrow> table_id \<Rightarrow> builder \<Rightarrow> builder" where
  "Resubmit port table = act (''resubmit('' @ port @ '','' @ dec (unat table) @ '')'')"

definition DecTTL :: "builder \<Rightarrow> builder" where
  "DecTTL = act ''dec_ttl''"

definition Normal :: "builder \<Rightarrow> builder" where
  "Normal = act ''Normal''"

definition conj_text :: "32 word \<Rightarrow> 8 word \<Rightarrow> 8 word \<Rightarrow> string" where
  "conj_text conjID clauseID nClause =
     ''conjunction('' @ dec (unat conjID) @ '','' @ dec (unat clauseID) @ ''/''
       @ dec (unat nClause) @ '')''"

definition Conjunction :: "32 word \<Rightarrow> 8 word \<Rightarrow> 8 word \<Rightarrow> builder \<Rightarrow> builder" where
  "Conjunction conjID clauseID nClause = act (conj_text conjID clauseID nClause)"

definition SetDstMAC :: "mac \<Rightarrow> builder \<Rightarrow> builder" where
  "SetDstMAC m = setField ''dl_dst'' (mac_string m)"

definition SetSrcMAC :: "mac \<Rightarrow> builder \<Rightarrow> builder" where
  "SetSrcMAC m = setField ''dl_src'' (mac_string m)"

definition SetARPSha :: "mac \<Rightarrow> builder \<Rightarrow> builder" where
  "SetARPSha m = setField ''arp_sha'' (mac_string m)"

definition SetARPTha :: "mac \<Rightarrow> builder \<Rightarrow> builder" where
  "SetARPTha m = setField ''arp_tha'' (mac_string m)"

definition SetARPSpa :: "ip \<Rightarrow> builder \<Rightarrow> builder" where
  "SetARPSpa a = setField ''arp_spa'' (ip_string a)"

definition SetARPTpa :: "ip \<Rightarrow> builder \<Rightarrow> builder" where
  "SetARPTpa a = setField ''arp_tpa'' (ip_string a)"

definition SetSrcIP :: "ip \<Rightarrow> builder \<Rightarrow> builder" where
  "SetSrcIP a = setField ''nw_src'' (ip_string a)"

definition SetDstIP :: "ip \<Rightarrow> builder \<Rightarrow> builder" where
  "SetDstIP a = setField ''nw_dst'' (ip_string a)"

definition SetTunnelDst :: "ip \<Rightarrow> builder \<Rightarrow> builder" where
  "SetTunnelDst a = setField ''tun_dst'' (ip_string a)"

lemmas nxm_fields = NxmFieldSrcMAC_def NxmFieldDstMAC_def NxmFieldARPSha_def NxmFieldARPTha_def
  NxmFieldARPSpa_def NxmFieldARPTpa_def NxmFieldCtLabel_def NxmFieldCtMark_def NxmFieldARPOp_def
  NxmFieldReg_def

lemmas match_defs = MatchField_def MatchFieldRange_def MatchReg_def MatchRegRange_def
  MatchCTState_def MatchCTMark_def MatchInPort_def MatchDstIP_def MatchDstIPNet_def
  MatchSrcIP_def MatchSrcIPNet_def MatchDstMAC_def MatchSrcMAC_def MatchARPSha_def
  MatchARPTha_def MatchARPSpa_def MatchARPTpa_def MatchARPOp_def MatchConjID_def Priority_def
  MatchTCPDstPort_def MatchUDPDstPort_def MatchSCTPDstPort_def MatchTPSrc_def MatchProtocol_def
  Cookie_def BuildFlow_def Done_def

lemmas action_defs = act_def Drop_def Output_def OutputFieldRange_def OutputRegRange_def
  OutputInPort_def setField_def Load_def LoadARPOperation_def LoadRange_def LoadRegRange_def
  Move_def MoveRange_def Resubmit_def DecTTL_def Normal_def Conjunction_def SetDstMAC_def
  SetSrcMAC_def SetARPSha_def SetARPTha_def SetARPSpa_def SetARPTpa_def SetSrcIP_def
  SetDstIP_def SetTunnelDst_def CT_def CTDone_def ct_addAction_def LoadToMark_def
  LoadToLabelRange_def MoveToLabel_def MoveSrcMACToLabel_def range_text_def

lemma chain_simps [simp]:
  "chain b [] = b"
  "chain b (m # ms) = chain (m b) ms"
  by (simp_all add: chain_def)

text \<open>\<open>strings.ToLower\<close> leaves the protocol names of the binding as they are.\<close>

lemma to_lower_ascii [simp]:
  "to_lower CHR ''i'' = CHR ''i''" "to_lower CHR ''p'' = CHR ''p''"
  "to_lower CHR ''a'' = CHR ''a''" "to_lower CHR ''r'' = CHR ''r''"
  "to_lower CHR ''t'' = CHR ''t''" "to_lower CHR ''c'' = CHR ''c''"
  "to_lower CHR ''u'' = CHR ''u''" "to_lower CHR ''d'' = CHR ''d''"
  "to_lower CHR ''s'' = CHR ''s''" "to_lower CHR ''m'' = CHR ''m''"
  by (simp_all add: to_lower_def Let_def)

section \<open>What builders write\<close>

text \<open>
  A flow's text depends on its fields only; a copy for modification keeps the match text, the
  priority, the table and the bridge, and drops every action.
\<close>

lemma MatchString_CopyToBuilder [simp]: "MatchString (CopyToBuilder f) = MatchString f"
  by (simp add: MatchString_def flow_format_def CopyToBuilder_def)

lemma MatchString_actions [simp]: "MatchString (f\<lparr>fl_actions := as\<rparr>) = MatchString f"
  by (simp add: MatchString_def flow_format_def)

lemma MatchString_act [simp]: "MatchString (act a f) = MatchString f"
  by (simp add: act_def)

lemma MatchString_Conjunction [simp]: "MatchString (Conjunction i c n f) = MatchString f"
  by (simp add: Conjunction_def)

lemma MatchString_Done [simp]: "MatchString (Done f) = MatchString f"
  by (simp add: Done_def)

lemma MatchString_Priority [simp]: "MatchString (Priority p f) = MatchString f"
  by (simp add: MatchString_def flow_format_def Priority_def)

lemma MatchString_table:
  "MatchString f = MatchString g \<Longrightarrow> GetID (fl_table f) = GetID (fl_table g)"
proof -
  assume eq: "MatchString f = MatchString g"
  define r where "r f = (if fl_matchers f \<noteq> [] then '','' @ join '','' (fl_matchers f) else [])" for f :: flow
  have r: "r f = [] \<or> \<not> is_digit (hd (r f))" for f
    by (simp add: r_def is_digit_def)
  have "MatchString f = ''table='' @ dec (unat (GetID (fl_table f))) @ r f" for f
    by (simp add: MatchString_def flow_format_def r_def)
  with eq have "dec (unat (GetID (fl_table f))) @ r f = dec (unat (GetID (fl_table g))) @ r g"
    by simp
  from dec_append_inject [OF this r r]
  show ?thesis by (auto intro: unsigned_word_eqI)
qed

end
