(* ===== verification/FlowOps.thy ===== *)
theory FlowOps
  imports Actions
begin

text \<open>
  Package \<open>pkg/ovs/openflow\<close>, cmd_flow.go, cmd_table.go and cmd_bridge.go: adding, modifying and
  deleting a flow by running \<open>ovs-ofctl\<close>, the flow count of each table, and the bridge. The ledger
  at the end reads the history of commands back as the set of flows the process has asked for.
\<close>

section \<open>Running a command\<close>

definition argvs :: "(command \<times> bool) list \<Rightarrow> string list list" where
  "argvs h = map (\<lambda>(c, ok). argv c) h"

definition accepts :: "env \<Rightarrow> (command \<times> bool) list \<Rightarrow> command \<Rightarrow> bool" where
  "accepts env h c \<longleftrightarrow> executor env (argvs h) (argv c) = None"

definition run :: "env \<Rightarrow> command \<Rightarrow> ('z switch_scheme, string option) go" where
  "run env c = (\<lambda>s.
     let r = executor env (argvs (hist s)) (argv c)
     in (Ok r, s\<lparr>hist := (c, r = None) # hist s\<rparr>))"

section \<open>Tables\<close>

definition new_status :: table_status where
  "new_status = \<lparr>flowCount = 0, updateTime = 0\<rparr>"

text \<open>\<open>UpdateStatus(flowCountDelta int)\<close>: the count is a \<open>uint\<close> and wraps.\<close>

definition UpdateStatus :: "nat \<Rightarrow> int \<Rightarrow> table_status \<Rightarrow> table_status" where
  "UpdateStatus time delta st =
     (if delta < 0 then st\<lparr>flowCount := flowCount st - word_of_int (- delta)\<rparr>
      else st\<lparr>flowCount := flowCount st + word_of_int delta\<rparr>)\<lparr>updateTime := time\<rparr>"

record TableStatus =
  ts_ID :: nat
  ts_FlowCount :: "64 word"
  ts_UpdateTime :: nat

definition Status :: "table \<Rightarrow> table_status \<Rightarrow> TableStatus" where
  "Status t st = \<lparr>ts_ID = unat (t_id t), ts_FlowCount = flowCount st, ts_UpdateTime = updateTime st\<rparr>"

definition updateTableStatus :: "env \<Rightarrow> flow \<Rightarrow> int \<Rightarrow> ('z switch_scheme, unit) go" where
  "updateTableStatus env f delta = modify (\<lambda>s.
     let t = t_id (fl_table f)
     in s\<lparr>tstat := (tstat s)(t := UpdateStatus (now env (length (hist s))) delta (tstat s t))\<rparr>)"

section \<open>Flows\<close>

definition flow_Add :: "env \<Rightarrow> flow \<Rightarrow> ('z switch_scheme, unit) go" where
  "flow_Add env f = gbind (run env (OfctlAdd f)) (\<lambda>r. case r of
     Some e \<Rightarrow> throw (ErrExec ''failed to add flow'' (flow_format f True) e)
   | None \<Rightarrow> updateTableStatus env f 1)"

definition flow_Modify :: "env \<Rightarrow> flow \<Rightarrow> ('z switch_scheme, unit) go" where
  "flow_Modify env f = gbind (run env (OfctlMod f)) (\<lambda>r. case r of
     Some e \<Rightarrow> throw (ErrExec ''failed to modify flow'' (flow_format f True) e)
   | None \<Rightarrow> updateTableStatus env f 0)"

definition flow_Delete :: "env \<Rightarrow> flow \<Rightarrow> ('z switch_scheme, unit) go" where
  "flow_Delete env f = gbind (run env (OfctlDel f)) (\<lambda>r. case r of
     Some e \<Rightarrow> throw (ErrExec ''failed to delete flow'' (flow_format f False) e)
   | None \<Rightarrow> updateTableStatus env f (- 1))"

section \<open>Ranges over Go maps\<close>

text \<open>The entries of a map in the order the run visits them.\<close>

definition go_range :: "env \<Rightarrow> 'z switch_scheme \<Rightarrow> 'x list \<Rightarrow> 'x list" where
  "go_range env s xs = map (\<lambda>i. xs ! i) (iter env (length (hist s)) (length xs))"

text \<open>What the language guarantees of a \<open>range\<close>: every entry is visited, and once.\<close>

definition fair_env :: "env \<Rightarrow> bool" where
  "fair_env env \<longleftrightarrow> (\<forall>n k. mset (iter env n k) = mset [0..<k])"

lemma mset_go_range: "fair_env env \<Longrightarrow> mset (go_range env s xs) = mset xs"
proof -
  assume "fair_env env"
  then have "mset (iter env (length (hist s)) (length xs)) = mset [0..<length xs]"
    by (simp add: fair_env_def)
  then have "mset (map (\<lambda>i. xs ! i) (iter env (length (hist s)) (length xs)))
      = mset (map (\<lambda>i. xs ! i) [0..<length xs])"
    by (simp only: mset_map)
  then show ?thesis by (simp add: go_range_def map_nth)
qed

lemma set_go_range: "fair_env env \<Longrightarrow> set (go_range env s xs) = set xs"
  by (metis mset_go_range set_mset_mset)

lemma distinct_go_range: "fair_env env \<Longrightarrow> distinct (go_range env s xs) = distinct xs"
  by (metis mset_go_range mset_eq_imp_distinct_iff)

lemma length_go_range: "fair_env env \<Longrightarrow> length (go_range env s xs) = length xs"
  by (metis mset_go_range mset_eq_length)

section \<open>The bridge\<close>

definition NewBridge :: "string \<Rightarrow> bridge" where
  "NewBridge name = \<lparr>b_name = name, tableCache = []\<rparr>"

text \<open>A new table starts with a zero count; it replaces the cached table of the same id.\<close>

definition CreateTable ::
  "table_id \<Rightarrow> table_id \<Rightarrow> miss_action \<Rightarrow> bridge \<Rightarrow> table \<times> bridge" where
  "CreateTable tid next missAction b =
     (let t = \<lparr>t_bridge = b_name b, t_id = tid, t_next = next, t_missAction = missAction\<rparr>
      in (t, b\<lparr>tableCache := AList.update tid t (tableCache b)\<rparr>))"

definition DeleteTable :: "table_id \<Rightarrow> bridge \<Rightarrow> bool" where
  "DeleteTable tid b = True"

definition DumpTableStatus :: "env \<Rightarrow> bridge \<Rightarrow> 'z switch_scheme \<Rightarrow> TableStatus list" where
  "DumpTableStatus env b s =
     map (\<lambda>(tid, t). Status t (tstat s tid)) (go_range env s (tableCache b))"

text \<open>\<open>Connect(maxRetry)\<close>: one \<open>ovs-ofctl show\<close> per try, a second of sleep after a failed one.\<close>

primrec connect_loop :: "env \<Rightarrow> string \<Rightarrow> nat \<Rightarrow> nat \<Rightarrow> ('z switch_scheme, unit) go" where
  "connect_loop env name maxRetry 0 =
     throw (ErrText (''failed to connect to OpenFlow switch after '' @ dec maxRetry @ '' tries''))"
| "connect_loop env name maxRetry (Suc left) =
     gbind (run env (OfctlShow name)) (\<lambda>r. case r of
       Some e \<Rightarrow> connect_loop env name maxRetry left
     | None \<Rightarrow> ret ())"

definition Connect :: "env \<Rightarrow> bridge \<Rightarrow> nat \<Rightarrow> ('z switch_scheme, unit) go" where
  "Connect env b maxRetry = connect_loop env (b_name b) maxRetry maxRetry"

definition bridge_Disconnect :: "bridge \<Rightarrow> ('z switch_scheme, unit) go" where
  "bridge_Disconnect b = ret ()"

section \<open>How a command ends\<close>

text \<open>
  Adding, modifying and deleting a flow either run one successful command and change the count of
  the flow's table, or run one failing command and change nothing else.
\<close>

definition after :: "env \<Rightarrow> command \<Rightarrow> flow \<Rightarrow> int \<Rightarrow> 'z switch_scheme \<Rightarrow> 'z switch_scheme" where
  "after env c f delta s =
     (let h = (c, True) # hist s; t = t_id (fl_table f)
      in s\<lparr>hist := h, tstat := (tstat s)(t := UpdateStatus (now env (length h)) delta (tstat s t))\<rparr>)"

lemma flow_Add_eq:
  "flow_Add env f s =
     (if accepts env (hist s) (OfctlAdd f) then (Ok (), after env (OfctlAdd f) f 1 s)
      else (Err (ErrExec ''failed to add flow'' (flow_format f True)
                   (the (executor env (argvs (hist s)) (argv (OfctlAdd f))))),
            s\<lparr>hist := (OfctlAdd f, False) # hist s\<rparr>))"
  by (auto simp: flow_Add_def go_eval run_def updateTableStatus_def accepts_def after_def Let_def
      split: option.splits)

lemma flow_Modify_eq:
  "flow_Modify env f s =
     (if accepts env (hist s) (OfctlMod f) then (Ok (), after env (OfctlMod f) f 0 s)
      else (Err (ErrExec ''failed to modify flow'' (flow_format f True)
                   (the (executor env (argvs (hist s)) (argv (OfctlMod f))))),
            s\<lparr>hist := (OfctlMod f, False) # hist s\<rparr>))"
  by (auto simp: flow_Modify_def go_eval run_def updateTableStatus_def accepts_def after_def Let_def
      split: option.splits)

lemma flow_Delete_eq:
  "flow_Delete env f s =
     (if accepts env (hist s) (OfctlDel f) then (Ok (), after env (OfctlDel f) f (- 1) s)
      else (Err (ErrExec ''failed to delete flow'' (flow_format f False)
                   (the (executor env (argvs (hist s)) (argv (OfctlDel f))))),
            s\<lparr>hist := (OfctlDel f, False) # hist s\<rparr>))"
  by (auto simp: flow_Delete_def go_eval run_def updateTableStatus_def accepts_def after_def Let_def
      split: option.splits)

lemmas flow_op_eqs = flow_Add_eq flow_Modify_eq flow_Delete_eq

lemma hist_after [simp]: "hist (after env c f d s) = (c, True) # hist s"
  by (simp add: after_def Let_def)

lemma more_after [simp]: "switch.more (after env c f d s) = switch.more s"
  by (simp add: after_def Let_def)

lemma run_eq: "run env c s = (Ok (executor env (argvs (hist s)) (argv c)),
    s\<lparr>hist := (c, accepts env (hist s) c) # hist s\<rparr>)"
  by (simp add: run_def accepts_def Let_def)

text \<open>No flow operation touches what a client keeps beside the switch state.\<close>

lemma unchanged_flow_ops:
  "unchanged switch.more (flow_Add env f)"
  "unchanged switch.more (flow_Modify env f)"
  "unchanged switch.more (flow_Delete env f)"
  by (simp_all add: unchanged_def flow_op_eqs)

section \<open>The ledger: flows the process has asked for\<close>

text \<open>
  The history read back as a map from match text to flow: a successful add stores its flow, a
  successful modification replaces a stored one, a successful deletion removes the flow with that
  match text. (A deletion without \<open>--strict\<close> makes the switch remove more specific flows too; the
  ledger is what the process asked for flow by flow, not what the switch did.)
\<close>

fun ledger :: "(command \<times> bool) list \<Rightarrow> (string \<rightharpoonup> flow)" where
  "ledger [] = Map.empty"
| "ledger ((c, ok) # h) =
     (if \<not> ok then ledger h
      else case c of
        OfctlAdd f \<Rightarrow> (ledger h)(MatchString f \<mapsto> f)
      | OfctlMod f \<Rightarrow> (if ledger h (MatchString f) = None then ledger h
                       else (ledger h)(MatchString f \<mapsto> f))
      | OfctlDel f \<Rightarrow> (ledger h)(MatchString f := None)
      | OfctlShow b \<Rightarrow> ledger h)"

text \<open>Successful additions to and deletions from a table.\<close>

fun n_added :: "table_id \<Rightarrow> (command \<times> bool) list \<Rightarrow> nat" where
  "n_added t [] = 0"
| "n_added t ((c, ok) # h) =
     n_added t h + (case c of OfctlAdd f \<Rightarrow> if ok \<and> t_id (fl_table f) = t then 1 else 0 | _ \<Rightarrow> 0)"

fun n_deleted :: "table_id \<Rightarrow> (command \<times> bool) list \<Rightarrow> nat" where
  "n_deleted t [] = 0"
| "n_deleted t ((c, ok) # h) =
     n_deleted t h + (case c of OfctlDel f \<Rightarrow> if ok \<and> t_id (fl_table f) = t then 1 else 0 | _ \<Rightarrow> 0)"

definition counts_ok :: "'z switch_scheme \<Rightarrow> bool" where
  "counts_ok s \<longleftrightarrow> (\<forall>t. flowCount (tstat s t)
      = of_nat (n_added t (hist s)) - of_nat (n_deleted t (hist s)))"

lemma counts_ok_Add: "counts_ok s \<Longrightarrow> counts_ok (snd (flow_Add env f s))"
  by (auto simp: counts_ok_def flow_op_eqs after_def Let_def UpdateStatus_def)

lemma counts_ok_Modify: "counts_ok s \<Longrightarrow> counts_ok (snd (flow_Modify env f s))"
  by (auto simp: counts_ok_def flow_op_eqs after_def Let_def UpdateStatus_def)

lemma counts_ok_Delete: "counts_ok s \<Longrightarrow> counts_ok (snd (flow_Delete env f s))"
  by (auto simp: counts_ok_def flow_op_eqs after_def Let_def UpdateStatus_def)

lemma keeps_counts_ok [go_keeps]:
  "keeps counts_ok (flow_Add env f)" "keeps counts_ok (flow_Modify env f)"
  "keeps counts_ok (flow_Delete env f)"
  by (auto intro: keepsI counts_ok_Add counts_ok_Modify counts_ok_Delete)

lemma keeps_counts_ok_show [go_keeps]: "keeps counts_ok (run env (OfctlShow b))"
  by (rule keepsI) (simp add: run_eq counts_ok_def)

lemma keeps_counts_ok_connect [go_keeps]: "keeps counts_ok (Connect env b n)"
proof -
  have "keeps counts_ok (connect_loop env nm m k)" for nm m k
    by (induction k) (simp_all add: go_keeps)
  then show ?thesis by (simp add: Connect_def)
qed

end
