(* ===== verification/ClientState.thy ===== *)
theory ClientState
  imports FlowOps
begin

text \<open>
  The data of package \<open>pkg/openflow\<close>: the addresses and rules of a network policy
  (pkg/agent/types), the objects network_policy.go keeps for a rule, and the client struct of
  pipeline.go as an extension of the switch state.
\<close>

section \<open>Policy rules\<close>

datatype address_type = SrcAddress | DstAddress | OtherAddress int

text \<open>The three implementations of \<open>types.Address\<close>; an \<open>int32\<close> is kept as its 32 bits.\<close>

datatype address =
    IPAddress ip
  | IPNetAddress ipnet
  | OFPortAddress "32 word"

text \<open>
  A service port as in \<open>k8s.io/api/networking/v1\<close>: protocol and port are pointers, and only the
  \<open>IntVal\<close> of the port is read.
\<close>

record NetworkPolicyPort =
  npp_Protocol :: "string option"
  npp_IntVal :: "32 word option"

text \<open>A slice that is nil is none, an empty one is \<open>Some []\<close>.\<close>

record PolicyRule =
  pr_ID :: "32 word"
  pr_Direction :: string
  pr_From :: "address list option"
  pr_ExceptFrom :: "address list option"
  pr_To :: "address list option"
  pr_ExceptTo :: "address list option"
  pr_Service :: "NetworkPolicyPort list option"

section \<open>Conjunctive matches, contexts, clauses and conjunctions\<close>

datatype match_key =
    MatchDstIPKey | MatchSrcIPKey | MatchDstIPNetKey | MatchSrcIPNetKey | MatchDstOFPortKey | MatchSrcOFPortKey
  | MatchTCPDstPortKey | MatchUDPDstPortKey | MatchSCTPDstPortKey | Unsupported

text \<open>The values of the \<open>iota\<close> constants.\<close>

fun match_code :: "match_key \<Rightarrow> nat" where
  "match_code MatchDstIPKey = 0"
| "match_code MatchSrcIPKey = 1"
| "match_code MatchDstIPNetKey = 2"
| "match_code MatchSrcIPNetKey = 3"
| "match_code MatchDstOFPortKey = 4"
| "match_code MatchSrcOFPortKey = 5"
| "match_code MatchTCPDstPortKey = 6"
| "match_code MatchUDPDstPortKey = 7"
| "match_code MatchSCTPDstPortKey = 8"
| "match_code Unsupported = 9"

text \<open>The \<open>interface{}\<close> value of a match with its dynamic type.\<close>

datatype match_value =
    MV_IP ip
  | MV_IPNet ipnet
  | MV_Int32 "32 word"
  | MV_Uint16 "16 word"

record conjunctiveMatch =
  cm_tableID :: table_id
  cm_matchKey :: match_key
  cm_matchValue :: match_value

record conjunctiveAction =
  ca_conjID :: "32 word"
  ca_clauseID :: "8 word"
  ca_nClause :: "8 word"

text \<open>
  A context is shared: the global cache and the clauses of several rules point to it, so it lives
  in a store of its own and they hold its address. Its \<open>client\<close> field is the one client.
\<close>

record conjMatchFlowContext =
  x_match :: conjunctiveMatch
  x_actions :: "(32 word \<times> conjunctiveAction) list"
  x_denyAllRules :: "(32 word \<times> bool) list"
  x_flow :: "flow option"
  x_dropFlow :: "flow option"

type_synonym ctx_ptr = nat

record clause =
  cl_action :: conjunctiveAction
  cl_matches :: "(string \<times> ctx_ptr) list"
  cl_ruleTable :: "table option"
  cl_dropTable :: "table option"

record policyRuleConjunction =
  pc_id :: "32 word"
  pc_fromClause :: "clause option"
  pc_toClause :: "clause option"
  pc_serviceClause :: "clause option"
  pc_actionFlows :: "flow list"

section \<open>The client\<close>

type_synonym flow_cache = "(string \<times> flow) list"
type_synonym flow_category_cache = "(string \<times> flow_cache) list"

datatype category = NodeFlowCache | PodFlowCache | ServiceCache | GeneralCache

record client = switch +
  bridge_of :: bridge
  pipeline :: "(table_id \<times> table) list"
  caches :: "category \<Rightarrow> flow_category_cache"
  policyCache :: "(32 word \<times> policyRuleConjunction) list"
  globalConjMatchFlowCache :: "(string \<times> ctx_ptr) list"
  ctxs :: "ctx_ptr \<Rightarrow> conjMatchFlowContext option"
  next_ctx :: ctx_ptr

text \<open>An index of the pipeline that has no table is a nil interface.\<close>

definition table_at :: "client \<Rightarrow> table_id \<Rightarrow> table option" where
  "table_at c k = map_of (pipeline c) k"

text \<open>Every pipeline entry is the table of that id.\<close>

definition wf_pipeline :: "client \<Rightarrow> bool" where
  "wf_pipeline c \<longleftrightarrow> wf_map (pipeline c) \<and> (\<forall>(k, t) \<in> set (pipeline c). GetID t = k)"

lemma wf_pipelineD: "wf_pipeline c \<Longrightarrow> table_at c k = Some t \<Longrightarrow> GetID t = k"
  by (auto simp: wf_pipeline_def table_at_def dest!: map_of_SomeD)

end
