(* ===== verification/Pipeline.thy ===== *)
theory Pipeline
  imports ClientState
begin

text \<open>
  Package \<open>pkg/openflow\<close>, pipeline.go: the tables, priorities and marks, the flows the client
  builds, and the constructor of the client. A flow is none when the pipeline has no table at the
  index it is built from: the source calls a method of a nil interface there and panics.
\<close>

section \<open>Tables, priorities, marks, registers\<close>

definition classifierTable :: table_id where "classifierTable = 0"
definition spoofGuardTable :: table_id where "spoofGuardTable = 10"
definition arpResponderTable :: table_id where "arpResponderTable = 20"
definition conntrackTable :: table_id where "conntrackTable = 30"
definition conntrackStateTable :: table_id where "conntrackStateTable = 31"
definition dnatTable :: table_id where "dnatTable = 40"
definition egressRuleTable :: table_id where "egressRuleTable = 50"
definition egressDefaultTable :: table_id where "egressDefaultTable = 60"
definition l3ForwardingTable :: table_id where "l3ForwardingTable = 70"
definition l2ForwardingCalcTable :: table_id where "l2ForwardingCalcTable = 80"
definition ingressRuleTable :: table_id where "ingressRuleTable = 90"
definition ingressDefaultTable :: table_id where "ingressDefaultTable = 100"
definition l2ForwardingOutTable :: table_id where "l2ForwardingOutTable = 110"
definition allFlowTable :: table_id where "allFlowTable = 0"
definition clusterFowardTable :: table_id where "clusterFowardTable = 1"
definition coreDnsSNATTTable :: table_id where "coreDnsSNATTTable = 2"

definition priorityHigh :: "32 word" where "priorityHigh = 210"
definition priorityNormal :: "32 word" where "priorityNormal = 200"
definition priorityLow :: "32 word" where "priorityLow = 190"
definition priorityMiss :: "32 word" where "priorityMiss = 80"

definition markTrafficFromTunnel :: "32 word" where "markTrafficFromTunnel = 0"
definition markTrafficFromGateway :: "32 word" where "markTrafficFromGateway = 1"
definition markTrafficFromLocal :: "32 word" where "markTrafficFromLocal = 2"

definition IPConnectionVxlan :: string where "IPConnectionVxlan = ''ipConnectionVxlan''"
definition ArpRequest :: string where "ArpRequest = ''arpOP1''"
definition ArpResponse :: string where "ArpResponse = ''arpOP2''"

definition ofPortMarkRange :: range where "ofPortMarkRange = (16, 16)"
definition ofPortRegRange :: range where "ofPortRegRange = (0, 31)"
definition marksReg :: int where "marksReg = 0"
definition portCacheReg :: int where "portCacheReg = 1"
definition ctZone :: int where "ctZone = 0xfff0"
definition portFoundMark :: "32 word" where "portFoundMark = 0x1"
definition gatewayCTMark :: int where "gatewayCTMark = 0x20"
definition emptyPlaceholderStr :: string where "emptyPlaceholderStr = []"
definition globalVirtualMAC :: mac where
  "globalVirtualMAC = [0xaa, 0xbb, 0xcc, 0xdd, 0xee, 0xff]"

definition ProtocolIP :: string where "ProtocolIP = ''ip''"
definition ProtocolARP :: string where "ProtocolARP = ''arp''"
definition ProtocolTCP :: string where "ProtocolTCP = ''tcp''"
definition ProtocolUDP :: string where "ProtocolUDP = ''udp''"
definition ProtocolSCTP :: string where "ProtocolSCTP = ''sctp''"

lemmas table_ids = classifierTable_def spoofGuardTable_def arpResponderTable_def conntrackTable_def
  conntrackStateTable_def dnatTable_def egressRuleTable_def egressDefaultTable_def
  l3ForwardingTable_def l2ForwardingCalcTable_def ingressRuleTable_def ingressDefaultTable_def
  l2ForwardingOutTable_def allFlowTable_def clusterFowardTable_def coreDnsSNATTTable_def

lemmas pipeline_consts = priorityHigh_def priorityNormal_def priorityLow_def priorityMiss_def
  markTrafficFromTunnel_def markTrafficFromGateway_def markTrafficFromLocal_def
  ofPortMarkRange_def ofPortRegRange_def marksReg_def portCacheReg_def ctZone_def
  portFoundMark_def gatewayCTMark_def emptyPlaceholderStr_def globalVirtualMAC_def
  ProtocolIP_def ProtocolARP_def ProtocolTCP_def ProtocolUDP_def ProtocolSCTP_def

type_synonym regType = nat

definition reg_number :: "regType \<Rightarrow> string" where
  "reg_number rt = dec rt"

definition nxm :: "regType \<Rightarrow> string" where
  "nxm rt = ''NXM_NX_REG'' @ dec rt"

definition reg :: "regType \<Rightarrow> string" where
  "reg rt = ''reg'' @ dec rt"

definition i2h :: "int \<Rightarrow> string" where
  "i2h data = ''0x'' @ (if data < 0 then ''-'' @ hex (nat (- data)) else hex (nat data))"

text \<open>\<open>c.pipeline[k].BuildFlow()\<close> followed by builder calls and \<open>Done()\<close>.\<close>

definition flow_at :: "client \<Rightarrow> table_id \<Rightarrow> (table \<Rightarrow> (builder \<Rightarrow> builder) list) \<Rightarrow> flow option" where
  "flow_at c k ms = map_option (\<lambda>t. Done (chain (BuildFlow t) (ms t))) (table_at c k)"

section \<open>Default and classifier flows\<close>

definition defaultFlow :: "table \<Rightarrow> flow" where
  "defaultFlow t = Done (chain (BuildFlow t) [Priority priorityMiss, MatchProtocol ProtocolIP,
     (case GetMissAction t of
        TableMissActionNext \<Rightarrow> Resubmit emptyPlaceholderStr (GetNext t)
      | TableMissActionNormal \<Rightarrow> Normal
      | TableMissActionDrop \<Rightarrow> Drop)])"

definition defaultFlows :: "env \<Rightarrow> client \<Rightarrow> flow list" where
  "defaultFlows env c = map (\<lambda>(k, t). defaultFlow t) (go_range env c (pipeline c))"

definition tunnelClassifierFlow :: "client \<Rightarrow> 32 word \<Rightarrow> flow option" where
  "tunnelClassifierFlow c tunnelOFPort = flow_at c classifierTable (\<lambda>t.
     [Priority priorityNormal,
      MatchInPort tunnelOFPort,
      LoadRegRange marksReg markTrafficFromTunnel (0, 15),
      Resubmit emptyPlaceholderStr conntrackTable])"

definition gatewayClassifierFlow :: "client \<Rightarrow> 32 word \<Rightarrow> flow option" where
  "gatewayClassifierFlow c gatewayOFPort = flow_at c classifierTable (\<lambda>t.
     [Priority priorityNormal,
      MatchInPort gatewayOFPort,
      LoadRegRange marksReg markTrafficFromGateway (0, 15),
      Resubmit emptyPlaceholderStr (GetNext t)])"

definition podClassifierFlow :: "client \<Rightarrow> 32 word \<Rightarrow> flow option" where
  "podClassifierFlow c podOFPort = flow_at c classifierTable (\<lambda>t.
     [Priority priorityLow,
      MatchInPort podOFPort,
      LoadRegRange marksReg markTrafficFromLocal (0, 15),
      Resubmit emptyPlaceholderStr (GetNext t)])"

definition connectionTrackFlows :: "client \<Rightarrow> flow list option" where
  "connectionTrackFlows c = those
     [flow_at c conntrackTable (\<lambda>t.
        [MatchProtocol ProtocolIP, Priority priorityNormal,
         CTDone \<circ> CT False (GetNext t) ctZone]),
      flow_at c conntrackStateTable (\<lambda>t.
        [MatchProtocol ProtocolIP, Priority priorityHigh,
         MatchRegRange marksReg markTrafficFromGateway (0, 15),
         MatchCTMark (i2h gatewayCTMark),
         MatchCTState ''-new+trk'',
         Resubmit emptyPlaceholderStr (GetNext t)]),
      flow_at c conntrackStateTable (\<lambda>t.
        [MatchProtocol ProtocolIP, Priority priorityNormal,
         MatchRegRange marksReg markTrafficFromGateway (0, 15),
         MatchCTState ''+new+trk'',
         CTDone \<circ> MoveToLabel NxmFieldSrcMAC (0, 47) (0, 47)
           \<circ> LoadToMark (word_of_int gatewayCTMark) \<circ> CT True (GetNext t) ctZone]),
      flow_at c conntrackStateTable (\<lambda>t.
        [MatchProtocol ProtocolIP, Priority priorityNormal,
         MatchCTMark (i2h gatewayCTMark),
         MatchCTState ''-new+trk'',
         MoveRange NxmFieldCtLabel NxmFieldDstMAC (0, 47) (0, 47),
         Resubmit emptyPlaceholderStr (GetNext t)]),
      flow_at c conntrackStateTable (\<lambda>t.
        [MatchProtocol ProtocolIP, Priority priorityLow,
         MatchCTState ''+new+trk'',
         CTDone \<circ> CT True (GetNext t) ctZone]),
      flow_at c conntrackStateTable (\<lambda>t.
        [MatchProtocol ProtocolIP, Priority priorityNormal,
         MatchCTState ''+new+inv'',
         Drop])]"

section \<open>Forwarding flows\<close>

definition l2ForwardCalcFlow :: "client \<Rightarrow> mac \<Rightarrow> 32 word \<Rightarrow> flow option" where
  "l2ForwardCalcFlow c dstMAC ofPort = flow_at c l2ForwardingCalcTable (\<lambda>t.
     [Priority priorityNormal,
      MatchDstMAC dstMAC,
      LoadRegRange portCacheReg ofPort ofPortRegRange,
      LoadRegRange marksReg portFoundMark ofPortMarkRange,
      Resubmit emptyPlaceholderStr (GetNext t)])"

definition l2ForwardOutputFlow :: "client \<Rightarrow> flow option" where
  "l2ForwardOutputFlow c = flow_at c l2ForwardingOutTable (\<lambda>t.
     [Priority priorityNormal,
      MatchProtocol ProtocolIP,
      MatchRegRange marksReg portFoundMark ofPortMarkRange,
      OutputRegRange portCacheReg ofPortRegRange])"

definition ipTunFlow :: "client \<Rightarrow> ipnet \<Rightarrow> 32 word \<Rightarrow> ip \<Rightarrow> flow option" where
  "ipTunFlow c dstIPNet inPort tunnelDstIP = flow_at c allFlowTable (\<lambda>t.
     [Priority priorityNormal,
      MatchProtocol ProtocolIP,
      MatchDstIPNet dstIPNet,
      MatchInPort inPort,
      SetTunnelDst tunnelDstIP,
      Normal])"

definition ipTunFlowWithoutInPort :: "client \<Rightarrow> ipnet \<Rightarrow> ip \<Rightarrow> flow option" where
  "ipTunFlowWithoutInPort c dstIPNet tunnelDstIP = flow_at c clusterFowardTable (\<lambda>t.
     [Priority priorityNormal,
      MatchProtocol ProtocolIP,
      MatchDstIPNet dstIPNet,
      SetTunnelDst tunnelDstIP,
      Normal])"

definition classifierDefaultFlow :: "client \<Rightarrow> flow option" where
  "classifierDefaultFlow c = flow_at c classifierTable (\<lambda>t.
     [Priority priorityMiss,
      Resubmit emptyPlaceholderStr clusterFowardTable])"

definition classifierTableFlowWithInPort :: "client \<Rightarrow> 32 word \<Rightarrow> flow option" where
  "classifierTableFlowWithInPort c coreDNSPort = flow_at c classifierTable (\<lambda>t.
     [Priority priorityNormal,
      MatchInPort coreDNSPort,
      Resubmit emptyPlaceholderStr coreDnsSNATTTable])"

definition coreDNSSNATDefaultFlow :: "client \<Rightarrow> flow option" where
  "coreDNSSNATDefaultFlow c = flow_at c coreDnsSNATTTable (\<lambda>t.
     [Priority priorityMiss,
      Resubmit emptyPlaceholderStr clusterFowardTable])"

definition coreDnsSNATTFlowWithInPort :: "client \<Rightarrow> 32 word \<Rightarrow> ip \<Rightarrow> flow option" where
  "coreDnsSNATTFlowWithInPort c coreDNSPort serviceIP = flow_at c coreDnsSNATTTable (\<lambda>t.
     [Priority priorityNormal,
      MatchInPort coreDNSPort,
      MatchTPSrc 53,
      MatchProtocol ProtocolUDP,
      SetSrcIP serviceIP,
      Resubmit emptyPlaceholderStr clusterFowardTable])"

definition clusterForwardDefaultFlow :: "client \<Rightarrow> flow option" where
  "clusterForwardDefaultFlow c = flow_at c clusterFowardTable (\<lambda>t.
     [Priority priorityMiss,
      Normal])"

definition localIPFlowWithIPnet :: "client \<Rightarrow> ipnet \<Rightarrow> flow option" where
  "localIPFlowWithIPnet c n = flow_at c clusterFowardTable (\<lambda>t.
     [Priority priorityNormal,
      MatchProtocol ProtocolIP,
      MatchDstIPNet n,
      Normal])"

definition localIPFlowWithIP :: "client \<Rightarrow> ip \<Rightarrow> flow option" where
  "localIPFlowWithIP c a = flow_at c clusterFowardTable (\<lambda>t.
     [Priority priorityNormal,
      MatchProtocol ProtocolIP,
      MatchDstIP a,
      Normal])"

definition ipTunFlowMatchIP :: "client \<Rightarrow> ip \<Rightarrow> 32 word \<Rightarrow> ip \<Rightarrow> flow option" where
  "ipTunFlowMatchIP c dstIP inPort tunnelDstIP = flow_at c clusterFowardTable (\<lambda>t.
     [Priority priorityNormal,
      MatchProtocol ProtocolIP,
      MatchDstIP dstIP,
      MatchInPort inPort,
      SetTunnelDst tunnelDstIP,
      Normal])"

text \<open>One flow for ARP requests and one for replies, each flooding every tunnel destination.\<close>

definition arpFlow :: "client \<Rightarrow> ip list \<Rightarrow> (flow \<times> flow) option" where
  "arpFlow c dstIPs = map_option (\<lambda>t.
     let acts = concat (map (\<lambda>a. [SetTunnelDst a, Normal]) dstIPs);
         build = (\<lambda>op. Done (chain (BuildFlow t)
           ([Priority priorityNormal, MatchProtocol ProtocolARP, MatchARPOp op] @ acts)))
     in (build 1, build 2)) (table_at c clusterFowardTable)"

definition l3FlowsToPod :: "client \<Rightarrow> mac \<Rightarrow> ip \<Rightarrow> mac \<Rightarrow> flow option" where
  "l3FlowsToPod c localGatewayMAC podInterfaceIP podInterfaceMAC = flow_at c l3ForwardingTable (\<lambda>t.
     [MatchProtocol ProtocolIP, Priority priorityNormal,
      MatchDstMAC globalVirtualMAC,
      MatchDstIP podInterfaceIP,
      SetSrcMAC localGatewayMAC,
      SetDstMAC podInterfaceMAC,
      DecTTL,
      Resubmit emptyPlaceholderStr (GetNext t)])"

definition l3ToGatewayFlow :: "client \<Rightarrow> ip \<Rightarrow> mac \<Rightarrow> flow option" where
  "l3ToGatewayFlow c localGatewayIP localGatewayMAC = flow_at c l3ForwardingTable (\<lambda>t.
     [MatchProtocol ProtocolIP, Priority priorityNormal,
      MatchDstIP localGatewayIP,
      SetDstMAC localGatewayMAC,
      Resubmit emptyPlaceholderStr (GetNext t)])"

definition l3FwdFlowToRemote :: "client \<Rightarrow> mac \<Rightarrow> ipnet \<Rightarrow> ip \<Rightarrow> flow option" where
  "l3FwdFlowToRemote c localGatewayMAC peerSubnet tunnelPeer = flow_at c l3ForwardingTable (\<lambda>t.
     [MatchProtocol ProtocolIP, Priority priorityNormal,
      MatchDstIPNet peerSubnet,
      DecTTL,
      SetSrcMAC localGatewayMAC,
      SetDstMAC globalVirtualMAC,
      SetTunnelDst tunnelPeer,
      Resubmit emptyPlaceholderStr (GetNext t)])"

definition arpResponderFlow :: "client \<Rightarrow> ip \<Rightarrow> flow option" where
  "arpResponderFlow c peerGatewayIP = flow_at c arpResponderTable (\<lambda>t.
     [MatchProtocol ProtocolARP, Priority priorityNormal,
      MatchARPOp 1,
      MatchARPTpa peerGatewayIP,
      Move NxmFieldSrcMAC NxmFieldDstMAC,
      SetSrcMAC globalVirtualMAC,
      LoadARPOperation 2,
      Move NxmFieldARPSha NxmFieldARPTha,
      SetARPSha globalVirtualMAC,
      Move NxmFieldARPSpa NxmFieldARPTpa,
      SetARPSpa peerGatewayIP,
      OutputInPort])"

section \<open>Spoof guards, DNAT, ARP\<close>

definition podIPSpoofGuardFlow :: "client \<Rightarrow> ip \<Rightarrow> mac \<Rightarrow> 32 word \<Rightarrow> flow option" where
  "podIPSpoofGuardFlow c ifIP ifMAC ifOFPort = flow_at c spoofGuardTable (\<lambda>t.
     [MatchProtocol ProtocolIP, Priority priorityNormal,
      MatchInPort ifOFPort,
      MatchSrcMAC ifMAC,
      MatchSrcIP ifIP,
      Resubmit emptyPlaceholderStr (GetNext t)])"

definition gatewayARPSpoofGuardFlow :: "client \<Rightarrow> 32 word \<Rightarrow> flow option" where
  "gatewayARPSpoofGuardFlow c gatewayOFPort = flow_at c spoofGuardTable (\<lambda>t.
     [MatchProtocol ProtocolARP, Priority priorityNormal,
      MatchInPort gatewayOFPort,
      Resubmit emptyPlaceholderStr arpResponderTable])"

definition arpSpoofGuardFlow :: "client \<Rightarrow> ip \<Rightarrow> mac \<Rightarrow> 32 word \<Rightarrow> flow option" where
  "arpSpoofGuardFlow c ifIP ifMAC ifOFPort = flow_at c spoofGuardTable (\<lambda>t.
     [MatchProtocol ProtocolARP, Priority priorityNormal,
      MatchInPort ifOFPort,
      MatchARPSha ifMAC,
      MatchARPSpa ifIP,
      Resubmit emptyPlaceholderStr arpResponderTable])"

definition gatewayIPSpoofGuardFlow :: "client \<Rightarrow> 32 word \<Rightarrow> flow option" where
  "gatewayIPSpoofGuardFlow c gatewayOFPort = flow_at c spoofGuardTable (\<lambda>t.
     [Priority priorityNormal,
      MatchProtocol ProtocolIP,
      MatchInPort gatewayOFPort,
      Resubmit emptyPlaceholderStr (GetNext t)])"

definition serviceCIDRDNATFlow :: "client \<Rightarrow> ipnet \<Rightarrow> 32 word \<Rightarrow> flow option" where
  "serviceCIDRDNATFlow c serviceCIDR gatewayOFPort = flow_at c dnatTable (\<lambda>t.
     [MatchProtocol ProtocolIP, Priority priorityNormal,
      MatchDstIPNet serviceCIDR,
      Output (uint gatewayOFPort)])"

definition arpNormalFlow :: "client \<Rightarrow> flow option" where
  "arpNormalFlow c = flow_at c clusterFowardTable (\<lambda>t.
     [MatchProtocol ProtocolARP, Priority priorityLow,
      Normal])"

section \<open>Network policy flows\<close>

definition conjunctionActionFlow :: "client \<Rightarrow> 32 word \<Rightarrow> table_id \<Rightarrow> table_id \<Rightarrow> flow option" where
  "conjunctionActionFlow c conjunctionID tableID nextTable = flow_at c tableID (\<lambda>t.
     [MatchProtocol ProtocolIP, Priority priorityLow,
      MatchConjID conjunctionID,
      Resubmit emptyPlaceholderStr nextTable])"

definition establishedConnectionFlows :: "client \<Rightarrow> flow list option" where
  "establishedConnectionFlows c = Option.bind (table_at c egressDefaultTable) (\<lambda>egressDropTable.
     Option.bind (table_at c ingressDefaultTable) (\<lambda>ingressDropTable. those
       [flow_at c egressRuleTable (\<lambda>t.
          [MatchProtocol ProtocolIP, Priority priorityHigh,
           MatchCTState ''-new+est'',
           Resubmit emptyPlaceholderStr (GetNext egressDropTable)]),
        flow_at c ingressRuleTable (\<lambda>t.
          [MatchProtocol ProtocolIP, Priority priorityHigh,
           MatchCTState ''-new+est'',
           Resubmit emptyPlaceholderStr (GetNext ingressDropTable)])]))"

text \<open>A match value of another dynamic type fails the type assertion.\<close>

fun addFlowMatch :: "builder \<Rightarrow> match_key \<Rightarrow> match_value \<Rightarrow> builder option" where
  "addFlowMatch fb MatchDstIPKey (MV_IP a) = Some (MatchDstIP a (MatchProtocol ProtocolIP fb))"
| "addFlowMatch fb MatchDstIPNetKey (MV_IPNet n) = Some (MatchDstIPNet n (MatchProtocol ProtocolIP fb))"
| "addFlowMatch fb MatchSrcIPKey (MV_IP a) = Some (MatchSrcIP a (MatchProtocol ProtocolIP fb))"
| "addFlowMatch fb MatchSrcIPNetKey (MV_IPNet n) = Some (MatchSrcIPNet n (MatchProtocol ProtocolIP fb))"
| "addFlowMatch fb MatchDstOFPortKey (MV_Int32 p) =
     Some (MatchRegRange portCacheReg p ofPortRegRange (MatchProtocol ProtocolIP fb))"
| "addFlowMatch fb MatchSrcOFPortKey (MV_Int32 p) = Some (MatchInPort p (MatchProtocol ProtocolIP fb))"
| "addFlowMatch fb MatchTCPDstPortKey (MV_Uint16 p) = Some (MatchTCPDstPort p (MatchProtocol ProtocolTCP fb))"
| "addFlowMatch fb MatchUDPDstPortKey (MV_Uint16 p) = Some (MatchUDPDstPort p (MatchProtocol ProtocolUDP fb))"
| "addFlowMatch fb MatchSCTPDstPortKey (MV_Uint16 p) = Some (MatchSCTPDstPort p (MatchProtocol ProtocolSCTP fb))"
| "addFlowMatch fb Unsupported v = Some fb"
| "addFlowMatch fb k v = None"

definition conjunctionExceptionFlow ::
  "client \<Rightarrow> 32 word \<Rightarrow> table_id \<Rightarrow> table_id \<Rightarrow> match_key \<Rightarrow> match_value \<Rightarrow> flow option" where
  "conjunctionExceptionFlow c conjunctionID tableID nextTable matchKey matchValue =
     Option.bind (table_at c tableID) (\<lambda>t.
       map_option (\<lambda>fb. Done (Resubmit emptyPlaceholderStr nextTable fb))
         (addFlowMatch (chain (BuildFlow t) [Priority priorityNormal, MatchConjID conjunctionID])
            matchKey matchValue))"

definition conjunctiveMatchFlow ::
  "client \<Rightarrow> table_id \<Rightarrow> match_key \<Rightarrow> match_value \<Rightarrow> conjunctiveAction list \<Rightarrow> flow option" where
  "conjunctiveMatchFlow c tableID matchKey matchValue actions =
     Option.bind (table_at c tableID) (\<lambda>t.
       map_option (\<lambda>fb. Done (chain fb
           (map (\<lambda>a. Conjunction (ca_conjID a) (ca_clauseID a) (ca_nClause a)) actions)))
         (addFlowMatch (chain (BuildFlow t) [Priority priorityNormal]) matchKey matchValue))"

definition defaultDropFlow :: "client \<Rightarrow> table_id \<Rightarrow> match_key \<Rightarrow> match_value \<Rightarrow> flow option" where
  "defaultDropFlow c tableID matchKey matchValue =
     Option.bind (table_at c tableID) (\<lambda>t.
       map_option (\<lambda>fb. Done (Drop fb))
         (addFlowMatch (chain (BuildFlow t) [Priority priorityNormal]) matchKey matchValue))"

section \<open>The constructor\<close>

definition NewClient :: "string \<Rightarrow> client" where
  "NewClient bridgeName =
     (let b = NewBridge bridgeName;
          (t0, b) = CreateTable classifierTable clusterFowardTable TableMissActionNext b;
          (t1, b) = CreateTable clusterFowardTable LastTableID TableMissActionNormal b;
          (t2, b) = CreateTable coreDnsSNATTTable clusterFowardTable TableMissActionNext b
      in \<lparr>hist = [], tstat = (\<lambda>_. new_status), bridge_of = b,
          pipeline = [(classifierTable, t0), (clusterFowardTable, t1), (coreDnsSNATTTable, t2)],
          caches = (\<lambda>_. []), policyCache = [], globalConjMatchFlowCache = [],
          ctxs = (\<lambda>_. None), next_ctx = 0\<rparr>)"

text \<open>The methods of \<open>FlowOperations\<close>, which the client implements by the flow's own methods.\<close>

definition client_Add :: "env \<Rightarrow> flow \<Rightarrow> (client, unit) go" where
  "client_Add env f = flow_Add env f"

definition client_Modify :: "env \<Rightarrow> flow \<Rightarrow> (client, unit) go" where
  "client_Modify env f = flow_Modify env f"

definition client_Delete :: "env \<Rightarrow> flow \<Rightarrow> (client, unit) go" where
  "client_Delete env f = flow_Delete env f"

definition Disconnect :: "(client, unit) go" where
  "Disconnect = (\<lambda>c. bridge_Disconnect (bridge_of c) c)"

lemma flow_at_None_iff [simp]: "flow_at c k ms = None \<longleftrightarrow> table_at c k = None"
  by (simp add: flow_at_def)

lemma table_at_cong:
  "pipeline c = pipeline c' \<Longrightarrow> table_at c k = table_at c' k"
  by (simp add: table_at_def)

end
