(* ===== verification/FlowClient.thy ===== *)
theory FlowClient
  imports Pipeline
begin

text \<open>
  Package \<open>pkg/openflow\<close>, client.go (and \<open>parseDstIP\<close> of network_policy.go): the flow caches and
  the operations that install and uninstall the flows of nodes, tunnels, pods and coreDNS.
\<close>

section \<open>Flow caches\<close>

text \<open>
  A category cache maps a key (a host name, a container id, the name of a group of flows) to the
  flows installed under it, by match text.
\<close>

definition flows_in :: "client \<Rightarrow> category \<Rightarrow> string \<Rightarrow> flow_cache" where
  "flows_in c cat key = (case map_of (caches c cat) key of None \<Rightarrow> [] | Some fc \<Rightarrow> fc)"

definition set_flows :: "category \<Rightarrow> string \<Rightarrow> flow_cache \<Rightarrow> client \<Rightarrow> client" where
  "set_flows cat key fc c = c\<lparr>caches := (caches c)(cat := AList.update key fc (caches c cat))\<rparr>"

definition load_or_store :: "category \<Rightarrow> string \<Rightarrow> client \<Rightarrow> client" where
  "load_or_store cat key c =
     (if map_of (caches c cat) key = None then set_flows cat key [] c else c)"

definition drop_key :: "category \<Rightarrow> string \<Rightarrow> client \<Rightarrow> client" where
  "drop_key cat key c = c\<lparr>caches := (caches c)(cat := AList.delete key (caches c cat))\<rparr>"

text \<open>
  \<open>addMissingFlows\<close>: one pass over the flows; a flow whose match text is cached is skipped, another
  one is added on the switch and then cached, and the first error ends the call.
\<close>

definition add_missing :: "(flow \<Rightarrow> (client, unit) go) \<Rightarrow> category \<Rightarrow> string \<Rightarrow> flow \<Rightarrow> (client, unit) go" where
  "add_missing Add cat key flow =
     gbind (gets (\<lambda>c. map_of (flows_in c cat key) (MatchString flow))) (\<lambda>cached.
       if cached \<noteq> None then ret ()
       else gseq (Add flow) (modify (\<lambda>c.
         set_flows cat key (AList.update (MatchString flow) flow (flows_in c cat key)) c)))"

definition addMissingFlows ::
  "(flow \<Rightarrow> (client, unit) go) \<Rightarrow> category \<Rightarrow> string \<Rightarrow> flow list \<Rightarrow> (client, unit) go" where
  "addMissingFlows Add cat key flows =
     gseq (modify (load_or_store cat key)) (gfor flows (add_missing Add cat key))"

text \<open>
  \<open>deleteFlows\<close>: the cached flows are deleted in the order the range visits them, each leaves the
  cache after its deletion, and the deferred function drops the key once no flow is left.
\<close>

definition delete_one ::
  "(flow \<Rightarrow> (client, unit) go) \<Rightarrow> category \<Rightarrow> string \<Rightarrow> string \<times> flow \<Rightarrow> (client, unit) go" where
  "delete_one Delete cat key = (\<lambda>(flowKey, flow). gseq (Delete flow)
     (modify (\<lambda>c. set_flows cat key (AList.delete flowKey (flows_in c cat key)) c)))"

definition deleteFlows ::
  "env \<Rightarrow> (flow \<Rightarrow> (client, unit) go) \<Rightarrow> category \<Rightarrow> string \<Rightarrow> (client, unit) go" where
  "deleteFlows env Delete cat key = (\<lambda>c.
     case map_of (caches c cat) key of
       None \<Rightarrow> (Ok (), c)
     | Some fCache \<Rightarrow>
         gdefer (gfor (go_range env c fCache) (delete_one Delete cat key))
           (\<lambda>r c'. if flows_in c' cat key = [] then drop_key cat key c' else c') c)"

section \<open>Installing and uninstalling\<close>

text \<open>Building the flows comes first; a nil table panics before any command is run.\<close>

definition with_flows ::
  "(client \<Rightarrow> flow list option) \<Rightarrow> (flow list \<Rightarrow> (client, unit) go) \<Rightarrow> (client, unit) go" where
  "with_flows mk k = gbind (gets mk) (\<lambda>fs. gbind (deref fs) k)"

definition add_flow :: "env \<Rightarrow> (client \<Rightarrow> flow option) \<Rightarrow> (client, unit) go" where
  "add_flow env mk = gbind (gets mk) (\<lambda>f. gbind (deref f) (client_Add env))"

text \<open>\<open>parseDstIP\<close>: a CIDR gives a network, otherwise an address; the CIDR's error if it is neither.\<close>

definition parseDstIP :: "string \<Rightarrow> error + (ip + ipnet)" where
  "parseDstIP s =
     (case ParseCIDR s of
        Inr (a, n) \<Rightarrow> Inr (Inr n)
      | Inl err \<Rightarrow> (let a = ParseIP s in if a = [] then Inl err else Inr (Inl a)))"

definition InstallNodeFlows ::
  "env \<Rightarrow> string \<Rightarrow> mac \<Rightarrow> ip \<Rightarrow> ipnet \<Rightarrow> ip \<Rightarrow> (client, unit) go" where
  "InstallNodeFlows env hostname localGatewayMAC peerGatewayIP peerPodCIDR tunnelPeerAddr =
     with_flows (\<lambda>c. those
         [arpResponderFlow c peerGatewayIP,
          l3FwdFlowToRemote c localGatewayMAC peerPodCIDR tunnelPeerAddr])
       (addMissingFlows (client_Add env) NodeFlowCache hostname)"

definition UninstallNodeFlows :: "env \<Rightarrow> string \<Rightarrow> (client, unit) go" where
  "UninstallNodeFlows env hostname = deleteFlows env (client_Delete env) NodeFlowCache hostname"

definition InstallTunFlow :: "env \<Rightarrow> string \<Rightarrow> 32 word \<Rightarrow> ip \<Rightarrow> (client, unit) go" where
  "InstallTunFlow env dstIPNetString inPort tunnelDstIP =
     (case parseDstIP dstIPNetString of
        Inl err \<Rightarrow> throw err
      | Inr dst \<Rightarrow> with_flows (\<lambda>c. those
            [case dst of
               Inr dstIPNet \<Rightarrow> ipTunFlowWithoutInPort c dstIPNet tunnelDstIP
             | Inl dstIP \<Rightarrow> ipTunFlowMatchIP c dstIP inPort tunnelDstIP])
          (addMissingFlows (client_Add env) GeneralCache IPConnectionVxlan))"

definition UninstallTunFlow :: "env \<Rightarrow> (client, unit) go" where
  "UninstallTunFlow env = deleteFlows env (client_Delete env) GeneralCache IPConnectionVxlan"

definition InstallARPFlow :: "env \<Rightarrow> string list \<Rightarrow> (client, unit) go" where
  "InstallARPFlow env dstIPNets =
     gbind (gets (\<lambda>c. arpFlow c (map ParseIP dstIPNets))) (\<lambda>fs.
     gbind (deref fs) (\<lambda>(arpReq, arpResp).
     gseq (addMissingFlows (client_Add env) GeneralCache ArpRequest [arpReq])
          (addMissingFlows (client_Add env) GeneralCache ArpResponse [arpResp])))"

definition InstallLocalIPFlow :: "env \<Rightarrow> string \<Rightarrow> string \<Rightarrow> (client, unit) go" where
  "InstallLocalIPFlow env nodeName localIP =
     (case parseDstIP localIP of
        Inl err \<Rightarrow> throw err
      | Inr dst \<Rightarrow> with_flows (\<lambda>c. those
            [case dst of
               Inr n \<Rightarrow> localIPFlowWithIPnet c n
             | Inl a \<Rightarrow> localIPFlowWithIP c a])
          (addMissingFlows (client_Add env) GeneralCache (nodeName @ ''-localIP'')))"

definition InstallCorednsFlow :: "env \<Rightarrow> 32 word \<Rightarrow> string \<Rightarrow> ip \<Rightarrow> (client, unit) go" where
  "InstallCorednsFlow env ofPortNum containerID serviceIP =
     with_flows (\<lambda>c. those
         [classifierTableFlowWithInPort c ofPortNum,
          coreDnsSNATTFlowWithInPort c ofPortNum serviceIP])
       (addMissingFlows (client_Add env) PodFlowCache containerID)"

definition UninstallCorednsFlow :: "env \<Rightarrow> string \<Rightarrow> (client, unit) go" where
  "UninstallCorednsFlow env containerID = deleteFlows env (client_Delete env) PodFlowCache containerID"

definition InstallPodFlows ::
  "env \<Rightarrow> string \<Rightarrow> ip \<Rightarrow> mac \<Rightarrow> mac \<Rightarrow> 32 word \<Rightarrow> (client, unit) go" where
  "InstallPodFlows env containerID podInterfaceIP podInterfaceMAC gatewayMAC ofPort =
     with_flows (\<lambda>c. those
         [podClassifierFlow c ofPort,
          podIPSpoofGuardFlow c podInterfaceIP podInterfaceMAC ofPort,
          arpSpoofGuardFlow c podInterfaceIP podInterfaceMAC ofPort,
          l2ForwardCalcFlow c podInterfaceMAC ofPort,
          l3FlowsToPod c gatewayMAC podInterfaceIP podInterfaceMAC])
       (addMissingFlows (client_Add env) PodFlowCache containerID)"

definition UninstallPodFlows :: "env \<Rightarrow> string \<Rightarrow> (client, unit) go" where
  "UninstallPodFlows env containerID = deleteFlows env (client_Delete env) PodFlowCache containerID"

definition InstallClusterServiceCIDRFlows :: "env \<Rightarrow> ipnet \<Rightarrow> 32 word \<Rightarrow> (client, unit) go" where
  "InstallClusterServiceCIDRFlows env serviceNet gatewayOFPort =
     add_flow env (\<lambda>c. serviceCIDRDNATFlow c serviceNet gatewayOFPort)"

definition InstallGatewayFlows :: "env \<Rightarrow> ip \<Rightarrow> mac \<Rightarrow> 32 word \<Rightarrow> (client, unit) go" where
  "InstallGatewayFlows env gatewayAddr gatewayMAC gatewayOFPort =
     gseq (add_flow env (\<lambda>c. gatewayClassifierFlow c gatewayOFPort))
    (gseq (add_flow env (\<lambda>c. gatewayIPSpoofGuardFlow c gatewayOFPort))
    (gseq (add_flow env (\<lambda>c. gatewayARPSpoofGuardFlow c gatewayOFPort))
    (gseq (add_flow env (\<lambda>c. l3ToGatewayFlow c gatewayAddr gatewayMAC))
          (add_flow env (\<lambda>c. l2ForwardCalcFlow c gatewayMAC gatewayOFPort)))))"

definition InstallTunnelFlows :: "env \<Rightarrow> 32 word \<Rightarrow> (client, unit) go" where
  "InstallTunnelFlows env tunnelOFPort =
     gseq (add_flow env (\<lambda>c. tunnelClassifierFlow c tunnelOFPort))
          (add_flow env (\<lambda>c. l2ForwardCalcFlow c globalVirtualMAC tunnelOFPort))"

definition maxRetryForOFSwitch :: nat where
  "maxRetryForOFSwitch = 5"

definition add_or_wrap :: "env \<Rightarrow> string \<Rightarrow> (client \<Rightarrow> flow option) \<Rightarrow> (client, unit) go" where
  "add_or_wrap env msg mk = gcatch (add_flow env mk) (\<lambda>err. throw (ErrWrap msg err))"

definition Initialize :: "env \<Rightarrow> (client, unit) go" where
  "Initialize env =
     gseq (\<lambda>c. Connect env (bridge_of c) maxRetryForOFSwitch c)
    (gseq (add_or_wrap env ''failed to install arp normal flow, err = '' arpNormalFlow)
    (gseq (add_or_wrap env ''failed to install classifier default resubmit flow, err = '' classifierDefaultFlow)
    (gseq (add_or_wrap env ''failed to install coreDNSSNAT default resubmit flow, err = '' coreDNSSNATDefaultFlow)
          (add_or_wrap env ''failed to install clusterForward default normal flow, err = '' clusterForwardDefaultFlow))))"

definition GetFlowTableStatus :: "env \<Rightarrow> client \<Rightarrow> TableStatus list" where
  "GetFlowTableStatus env c = DumpTableStatus env (bridge_of c) c"

section \<open>The contract of \<open>FlowOperations\<close>\<close>

text \<open>
  Abstract specification of the caches: the flows of a list that are missing, in order and each
  match text once, and a map extended by flows under their match texts.
\<close>

fun missing :: "string set \<Rightarrow> flow list \<Rightarrow> flow list" where
  "missing K [] = []"
| "missing K (f # fs) =
     (if MatchString f \<in> K then missing K fs
      else f # missing (insert (MatchString f) K) fs)"

definition note_flows :: "flow list \<Rightarrow> (string \<rightharpoonup> flow) \<Rightarrow> (string \<rightharpoonup> flow)" where
  "note_flows fs m = fold (\<lambda>f m. m(MatchString f \<mapsto> f)) fs m"

lemma note_flows_simps [simp]:
  "note_flows [] m = m"
  "note_flows (f # fs) m = note_flows fs (m(MatchString f \<mapsto> f))"
  by (simp_all add: note_flows_def)

lemma dom_note_flows [simp]: "dom (note_flows fs m) = MatchString ` set fs \<union> dom m"
  by (induction fs arbitrary: m) auto

lemma note_flows_other: "k \<notin> MatchString ` set fs \<Longrightarrow> note_flows fs m k = m k"
  by (induction fs arbitrary: m) auto

lemma set_missing_subset: "set (missing K fs) \<subseteq> set fs"
  by (induction fs arbitrary: K) auto

lemma missing_keys: "MatchString ` set (missing K fs) \<inter> K = {}"
proof (induction fs arbitrary: K)
  case Nil
  then show ?case by simp
next
  case (Cons f fs)
  from Cons.IH [of K] Cons.IH [of "insert (MatchString f) K"] show ?case by auto
qed

lemma missing_covers: "MatchString ` set fs \<subseteq> K \<union> MatchString ` set (missing K fs)"
proof (induction fs arbitrary: K)
  case Nil
  then show ?case by simp
next
  case (Cons f fs)
  from Cons.IH [of K] Cons.IH [of "insert (MatchString f) K"] show ?case by auto
qed

lemma distinct_missing: "distinct (map MatchString (missing K fs))"
proof (induction fs arbitrary: K)
  case Nil
  then show ?case by simp
next
  case (Cons f fs)
  then show ?case using missing_keys [of "insert (MatchString f) K" fs] by auto
qed

lemma missing_id:
  "distinct (map MatchString fs) \<Longrightarrow> MatchString ` set fs \<inter> K = {} \<Longrightarrow> missing K fs = fs"
  by (induction fs arbitrary: K) auto

lemma missing_Nil: "MatchString ` set fs \<subseteq> K \<Longrightarrow> missing K fs = []"
  by (induction fs arbitrary: K) auto

lemma note_flows_append: "note_flows (fs @ gs) m = note_flows gs (note_flows fs m)"
  by (simp add: note_flows_def)

lemma missing_retry:
  "missing (K \<union> MatchString ` set (take n (missing K fs))) fs = drop n (missing K fs)"
proof (induction fs arbitrary: K n)
  case Nil
  then show ?case by simp
next
  case (Cons f fs)
  show ?case
  proof (cases "MatchString f \<in> K")
    case True
    with Cons.IH [of K n] show ?thesis by simp
  next
    case False
    then show ?thesis
      using Cons.IH [of "insert (MatchString f) K"] by (cases n) auto
  qed
qed

end
