(* ===== verification/FlowContract.thy ===== *)
theory FlowContract
  imports FlowClient
begin

text \<open>
  The interface \<open>FlowOperations\<close> of pipeline.go as a contract, what \<open>addMissingFlows\<close> and
  \<open>deleteFlows\<close> of client.go guarantee over any implementation of it, and the client's own methods
  as the implementation.
\<close>

section \<open>Caches under their keys\<close>

definition same_elsewhere :: "category \<Rightarrow> string \<Rightarrow> client \<Rightarrow> client \<Rightarrow> bool" where
  "same_elsewhere cat key c c' \<longleftrightarrow>
     (\<forall>cat' key'. (cat', key') \<noteq> (cat, key) \<longrightarrow>
        map_of (caches c' cat') key' = map_of (caches c cat') key')"

text \<open>Every cache is a map of maps, and a flow is cached under its own match text.\<close>

definition wf_flow_cache :: "flow_cache \<Rightarrow> bool" where
  "wf_flow_cache fc \<longleftrightarrow> wf_map fc \<and> (\<forall>(k, f) \<in> set fc. k = MatchString f)"

definition wf_caches :: "client \<Rightarrow> bool" where
  "wf_caches c \<longleftrightarrow> (\<forall>cat. wf_map (caches c cat) \<and>
     (\<forall>(key, fc) \<in> set (caches c cat). wf_flow_cache fc))"

lemma flows_in_set_flows [simp]:
  "flows_in (set_flows cat key fc c) cat' key' =
     (if cat' = cat \<and> key' = key then fc else flows_in c cat' key')"
  by (auto simp: flows_in_def set_flows_def)

lemma map_of_set_flows [simp]:
  "map_of (caches (set_flows cat key fc c) cat') key' =
     (if cat' = cat \<and> key' = key then Some fc else map_of (caches c cat') key')"
  by (auto simp: set_flows_def)

lemma map_of_drop_key [simp]:
  "map_of (caches (drop_key cat key c) cat') key' =
     (if cat' = cat \<and> key' = key then None else map_of (caches c cat') key')"
  by (auto simp: drop_key_def)

lemma flows_in_Some: "map_of (caches c cat) key = Some fc \<Longrightarrow> flows_in c cat key = fc"
  by (simp add: flows_in_def)

lemma map_of_load_or_store [simp]:
  "map_of (caches (load_or_store cat key c) cat') key' =
     (if cat' = cat \<and> key' = key then Some (flows_in c cat key)
      else map_of (caches c cat') key')"
  by (auto simp: load_or_store_def flows_in_def)

lemma same_elsewhere_refl [simp]: "same_elsewhere cat key c c"
  by (simp add: same_elsewhere_def)

lemma same_elsewhere_trans [trans]:
  "same_elsewhere cat key c c' \<Longrightarrow> same_elsewhere cat key c' c'' \<Longrightarrow> same_elsewhere cat key c c''"
  by (simp add: same_elsewhere_def)

lemma same_elsewhere_updates [simp]:
  "same_elsewhere cat key c (set_flows cat key fc c)"
  "same_elsewhere cat key c (load_or_store cat key c)"
  "same_elsewhere cat key c (drop_key cat key c)"
  by (auto simp: same_elsewhere_def)

lemma same_elsewhere_caches: "caches c' = caches c \<Longrightarrow> same_elsewhere cat key c c'"
  by (simp add: same_elsewhere_def)

lemma in_set_update: "(k, v) \<in> set (AList.update k' v' m) \<Longrightarrow> (k, v) = (k', v') \<or> (k, v) \<in> set m"
  by (induction m) (auto split: if_splits)

lemma in_set_delete: "(k, v) \<in> set (AList.delete k' m) \<Longrightarrow> (k, v) \<in> set m"
  by (auto simp: AList.delete_eq)

lemma wf_caches_set_flows:
  "wf_caches c \<Longrightarrow> wf_flow_cache fc \<Longrightarrow> wf_caches (set_flows cat key fc c)"
  by (auto simp: wf_caches_def set_flows_def dest!: in_set_update)

lemma wf_caches_drop_key: "wf_caches c \<Longrightarrow> wf_caches (drop_key cat key c)"
  by (auto simp: wf_caches_def drop_key_def dest!: in_set_delete)

lemma wf_caches_load_or_store: "wf_caches c \<Longrightarrow> wf_caches (load_or_store cat key c)"
  by (auto simp: load_or_store_def wf_flow_cache_def intro: wf_caches_set_flows)

lemma wf_caches_cong: "caches c' = caches c \<Longrightarrow> wf_caches c' = wf_caches c"
  by (simp add: wf_caches_def)

lemma wf_flow_cache_Nil [simp]: "wf_flow_cache []"
  by (simp add: wf_flow_cache_def)

lemma wf_caches_flows_in: "wf_caches c \<Longrightarrow> wf_flow_cache (flows_in c cat key)"
  by (cases "map_of (caches c cat) key") (auto simp: wf_caches_def flows_in_def dest!: map_of_SomeD)

lemma wf_flow_cache_update:
  "wf_flow_cache fc \<Longrightarrow> wf_flow_cache (AList.update (MatchString f) f fc)"
  by (auto simp: wf_flow_cache_def dest!: in_set_update)

lemma wf_flow_cache_delete: "wf_flow_cache fc \<Longrightarrow> wf_flow_cache (AList.delete k fc)"
  by (auto simp: wf_flow_cache_def dest!: in_set_delete)

section \<open>The contract and its consequences\<close>

locale flow_operations =
  fixes Add Delete :: "flow \<Rightarrow> (client, unit) go"
    and told :: "client \<Rightarrow> (string \<rightharpoonup> flow)"
  assumes add_caches: "caches (snd (Add f c)) = caches c"
    and del_caches: "caches (snd (Delete f c)) = caches c"
    and add_no_panic: "fst (Add f c) \<noteq> Panic"
    and del_no_panic: "fst (Delete f c) \<noteq> Panic"
    and add_Ok: "Add f c = (Ok (), c') \<Longrightarrow> told c' = (told c)(MatchString f \<mapsto> f)"
    and add_Err: "Add f c = (Err e, c') \<Longrightarrow> told c' = told c"
    and del_Ok: "Delete f c = (Ok (), c') \<Longrightarrow> told c' = (told c)(MatchString f := None)"
    and del_Err: "Delete f c = (Err e, c') \<Longrightarrow> told c' = told c"
    and told_caches: "told (c\<lparr>caches := x\<rparr>) = told c"
begin

lemma told_updates [simp]:
  "told (set_flows cat key fc c) = told c"
  "told (load_or_store cat key c) = told c"
  "told (drop_key cat key c) = told c"
  by (simp_all add: set_flows_def load_or_store_def drop_key_def told_caches)

lemma add_cases:
  obtains c' where "Add f c = (Ok (), c')" "caches c' = caches c"
    "told c' = (told c)(MatchString f \<mapsto> f)"
  | e c' where "Add f c = (Err e, c')" "caches c' = caches c" "told c' = told c"
proof -
  obtain r c' where run: "Add f c = (r, c')" by (cases "Add f c")
  then have "caches c' = caches c" using add_caches [of f c] by simp
  show thesis
  proof (cases r)
    case (Ok u)
    with run \<open>caches c' = caches c\<close> show thesis by (intro that(1) [of c']) (simp_all add: add_Ok)
  next
    case (Err e)
    with run \<open>caches c' = caches c\<close> show thesis by (intro that(2) [of e c']) (simp_all add: add_Err)
  next
    case Panic
    with run add_no_panic [of f c] show thesis by simp
  qed
qed

lemma del_cases:
  obtains c' where "Delete f c = (Ok (), c')" "caches c' = caches c"
    "told c' = (told c)(MatchString f := None)"
  | e c' where "Delete f c = (Err e, c')" "caches c' = caches c" "told c' = told c"
proof -
  obtain r c' where run: "Delete f c = (r, c')" by (cases "Delete f c")
  then have "caches c' = caches c" using del_caches [of f c] by simp
  show thesis
  proof (cases r)
    case (Ok u)
    with run \<open>caches c' = caches c\<close> show thesis by (intro that(1) [of c']) (simp_all add: del_Ok)
  next
    case (Err e)
    with run \<open>caches c' = caches c\<close> show thesis by (intro that(2) [of e c']) (simp_all add: del_Err)
  next
    case Panic
    with run del_no_panic [of f c] show thesis by simp
  qed
qed

text \<open>
  However the loop of \<open>addMissingFlows\<close> ends, the flows it added are the first \<open>n\<close> missing ones, and
  cache and switch agree on them; it returns nil exactly when they are all of them.
\<close>

definition added :: "category \<Rightarrow> string \<Rightarrow> client \<Rightarrow> flow list \<Rightarrow> nat \<Rightarrow> client \<Rightarrow> bool" where
  "added cat key c ms n c' \<longleftrightarrow>
     map_of (caches c' cat) key \<noteq> None \<and>
     map_of (flows_in c' cat key) = note_flows (take n ms) (map_of (flows_in c cat key)) \<and>
     told c' = note_flows (take n ms) (told c) \<and>
     same_elsewhere cat key c c'"

lemma added_Cons:
  assumes "map_of (flows_in c1 cat key) = (map_of (flows_in c cat key))(MatchString f \<mapsto> f)"
    and "told c1 = (told c)(MatchString f \<mapsto> f)" and "same_elsewhere cat key c c1"
    and "added cat key c1 ms n c'"
  shows "added cat key c (f # ms) (Suc n) c'"
  using assms by (auto simp: added_def intro: same_elsewhere_trans)

lemma add_missing_loop:
  assumes "map_of (caches c cat) key \<noteq> None"
  shows "\<exists>r c' n. gfor flows (add_missing Add cat key) c = (r, c') \<and> r \<noteq> Panic \<and>
    n \<le> length (missing (dom (map_of (flows_in c cat key))) flows) \<and>
    (r = Ok () \<longleftrightarrow> n = length (missing (dom (map_of (flows_in c cat key))) flows)) \<and>
    added cat key c (missing (dom (map_of (flows_in c cat key))) flows) n c'"
  using assms
proof (induction flows arbitrary: c)
  case Nil
  then show ?case by (simp add: go_eval added_def)
next
  case (Cons f fs)
  let ?K = "dom (map_of (flows_in c cat key))"
  show ?case
  proof (cases "MatchString f \<in> ?K")
    case True
    then have "add_missing Add cat key f c = (Ok (), c)"
      by (auto simp: add_missing_def go_eval)
    with True Cons.IH [OF Cons.prems] show ?thesis by (simp add: go_eval)
  next
    case False
    then have none: "map_of (flows_in c cat key) (MatchString f) = None" by blast
    show ?thesis
    proof (cases rule: add_cases [of f c])
      case (1 c1)
      let ?c1 = "set_flows cat key (AList.update (MatchString f) f (flows_in c1 cat key)) c1"
      have step: "add_missing Add cat key f c = (Ok (), ?c1)"
        using none 1 by (simp add: add_missing_def go_eval)
      have in1: "flows_in c1 cat key = flows_in c cat key"
        using 1 by (simp add: flows_in_def)
      have "same_elsewhere cat key c c1" using 1 by (simp add: same_elsewhere_caches)
      then have same: "same_elsewhere cat key c ?c1" by (rule same_elsewhere_trans) simp
      have K: "dom (map_of (flows_in ?c1 cat key)) = insert (MatchString f) ?K"
        by (simp add: in1)
      have "map_of (caches ?c1 cat) key \<noteq> None" by simp
      from Cons.IH [OF this, unfolded K] obtain r c' n where
        rec: "gfor fs (add_missing Add cat key) ?c1 = (r, c')" "r \<noteq> Panic"
          "n \<le> length (missing (insert (MatchString f) ?K) fs)"
          "r = Ok () \<longleftrightarrow> n = length (missing (insert (MatchString f) ?K) fs)"
        and add: "added cat key ?c1 (missing (insert (MatchString f) ?K) fs) n c'"
        by blast
      have "added cat key c (f # missing (insert (MatchString f) ?K) fs) (Suc n) c'"
        by (rule added_Cons [OF _ _ same add]) (simp_all add: in1 1)
      with rec step False show ?thesis
        by (intro exI [of _ r] exI [of _ c'] exI [of _ "Suc n"]) (simp add: go_eval)
    next
      case (2 e c1)
      then have "add_missing Add cat key f c = (Err e, c1)"
        using none by (simp add: add_missing_def go_eval)
      moreover have "added cat key c ms 0 c1" for ms
        using 2 Cons.prems by (simp add: added_def flows_in_def same_elsewhere_caches)
      ultimately show ?thesis using False
        by (intro exI [of _ "Err e"] exI [of _ c1] exI [of _ 0]) (simp add: go_eval)
    qed
  qed
qed

lemma addMissingFlows_spec:
  "\<exists>r c' n. addMissingFlows Add cat key flows c = (r, c') \<and> r \<noteq> Panic \<and>
    n \<le> length (missing (dom (map_of (flows_in c cat key))) flows) \<and>
    (r = Ok () \<longleftrightarrow> n = length (missing (dom (map_of (flows_in c cat key))) flows)) \<and>
    added cat key c (missing (dom (map_of (flows_in c cat key))) flows) n c'"
proof -
  let ?c0 = "load_or_store cat key c"
  have in0: "flows_in ?c0 cat key = flows_in c cat key"
    by (simp add: flows_in_def)
  have "map_of (caches ?c0 cat) key \<noteq> None" by simp
  from add_missing_loop [OF this, of flows] show ?thesis
    unfolding in0
    by (auto simp: addMissingFlows_def go_eval added_def in0 same_elsewhere_def)
qed

lemma addMissingFlows_present:
  assumes "MatchString ` set flows \<subseteq> dom (map_of (flows_in c cat key))"
  shows "addMissingFlows Add cat key flows c = (Ok (), load_or_store cat key c)"
proof -
  have "gfor flows (add_missing Add cat key) d = (Ok (), d)"
    if "MatchString ` set flows \<subseteq> dom (map_of (flows_in d cat key))" for d
    using that
    by (induction flows) (auto simp: go_eval add_missing_def)
  moreover have "flows_in (load_or_store cat key c) cat key = flows_in c cat key"
    by (simp add: flows_in_def)
  ultimately show ?thesis using assms by (simp add: addMissingFlows_def go_eval)
qed

text \<open>
  However the loop of \<open>deleteFlows\<close> ends, the first \<open>n\<close> flows of the visiting order are gone from the
  cache and from the switch, and the others are where they were.
\<close>

lemma delete_loop:
  assumes "map_of (caches c cat) key = Some fc"
  shows "\<exists>r c' n fc'. gfor es (delete_one Delete cat key) c = (r, c') \<and> r \<noteq> Panic \<and>
    n \<le> length es \<and> (r = Ok () \<longleftrightarrow> n = length es) \<and>
    map_of (caches c' cat) key = Some fc' \<and>
    fc' = filter (\<lambda>(k, f). k \<notin> fst ` set (take n es)) fc \<and>
    told c' = (told c) |` (- (MatchString ` snd ` set (take n es))) \<and>
    same_elsewhere cat key c c'"
  using assms
proof (induction es arbitrary: c fc)
  case Nil
  then show ?case by (simp add: go_eval)
next
  case (Cons e es)
  obtain k f where e: "e = (k, f)" by (cases e)
  show ?case
  proof (cases rule: del_cases [of f c])
    case (1 c1)
    let ?c1 = "set_flows cat key (AList.delete k (flows_in c1 cat key)) c1"
    have step: "delete_one Delete cat key e c = (Ok (), ?c1)"
      using 1 by (simp add: delete_one_def e go_eval)
    have in1: "flows_in c1 cat key = fc"
      using 1 Cons.prems by (simp add: flows_in_def)
    have "same_elsewhere cat key c c1" using 1 by (simp add: same_elsewhere_caches)
    then have same: "same_elsewhere cat key c ?c1" by (rule same_elsewhere_trans) simp
    have "map_of (caches ?c1 cat) key = Some (AList.delete k fc)" by (simp add: in1)
    from Cons.IH [OF this] obtain r c' n fc' where
      rec: "gfor es (delete_one Delete cat key) ?c1 = (r, c')" "r \<noteq> Panic"
        "n \<le> length es" "r = Ok () \<longleftrightarrow> n = length es"
        "map_of (caches c' cat) key = Some fc'"
      and fc': "fc' = filter (\<lambda>(k, f). k \<notin> fst ` set (take n es)) (AList.delete k fc)"
      and told: "told c' = (told ?c1) |` (- (MatchString ` snd ` set (take n es)))"
      and "same_elsewhere cat key ?c1 c'"
      by blast
    with same have "same_elsewhere cat key c c'" by (blast intro: same_elsewhere_trans)
    moreover have "fc' = filter (\<lambda>(k, f). k \<notin> fst ` set (take (Suc n) (e # es))) fc"
      unfolding fc' AList.delete_eq filter_filter
      by (rule filter_cong [OF refl]) (auto simp: e)
    moreover have "told c' = (told c) |` (- (MatchString ` snd ` set (take (Suc n) (e # es))))"
      unfolding told by (simp add: 1 e) (auto simp: restrict_map_def fun_eq_iff)
    ultimately show ?thesis using rec step
      by (intro exI [of _ r] exI [of _ c'] exI [of _ "Suc n"] exI [of _ fc']) (simp add: go_eval)
  next
    case (2 err c1)
    then have "delete_one Delete cat key e c = (Err err, c1)"
      by (simp add: delete_one_def e go_eval)
    with 2 Cons.prems show ?thesis
      by (intro exI [of _ "Err err"] exI [of _ c1] exI [of _ 0] exI [of _ fc])
        (simp add: go_eval same_elsewhere_caches restrict_map_def fun_eq_iff)
  qed
qed

lemma deleteFlows_absent:
  "map_of (caches c cat) key = None \<Longrightarrow> deleteFlows env Delete cat key c = (Ok (), c)"
  by (simp add: deleteFlows_def)

lemma deleteFlows_no_panic: "fst (deleteFlows env Delete cat key c) \<noteq> Panic"
proof (cases "map_of (caches c cat) key")
  case None
  then show ?thesis by (simp add: deleteFlows_absent)
next
  case (Some fc)
  from delete_loop [OF this, of "go_range env c fc"] Some show ?thesis
    by (auto simp: deleteFlows_def go_eval)
qed

lemma deleteFlows_Ok:
  assumes "fair_env env" and fc: "map_of (caches c cat) key = Some fc"
    and run: "deleteFlows env Delete cat key c = (Ok (), c')"
  shows "map_of (caches c' cat) key = None"
    and "told c' = told c |` (- (MatchString ` snd ` set fc))"
    and "same_elsewhere cat key c c'"
proof -
  let ?es = "go_range env c fc"
  have es: "set ?es = set fc" using \<open>fair_env env\<close> by (rule set_go_range)
  obtain r c1 n fc' where loop: "gfor ?es (delete_one Delete cat key) c = (r, c1)"
      "n \<le> length ?es" "r = Ok () \<longleftrightarrow> n = length ?es" "map_of (caches c1 cat) key = Some fc'"
      "fc' = filter (\<lambda>(k, f). k \<notin> fst ` set (take n ?es)) fc"
      "told c1 = told c |` (- (MatchString ` snd ` set (take n ?es)))" "same_elsewhere cat key c c1"
    using delete_loop [OF fc, of ?es] by blast
  with run fc have r: "r = Ok ()" and c': "c' = (if flows_in c1 cat key = [] then drop_key cat key c1 else c1)"
    by (simp_all add: deleteFlows_def go_eval)
  have all: "fst ` set (take n ?es) = fst ` set fc" using loop r es by simp
  have "fc' = []" unfolding loop(5) all by (auto simp: filter_empty_conv image_iff)
  with loop(4) have "flows_in c1 cat key = []" by (simp add: flows_in_def)
  with c' have c': "c' = drop_key cat key c1" by simp
  then show "map_of (caches c' cat) key = None" by simp
  show "told c' = told c |` (- (MatchString ` snd ` set fc))"
    using loop r es by (simp add: c')
  show "same_elsewhere cat key c c'"
    using loop(7) unfolding c' by (rule same_elsewhere_trans) simp
qed

text \<open>After an error the undeleted flows are still cached, so the call can be repeated.\<close>

lemma deleteFlows_Err:
  assumes fair: "fair_env env" and fc: "map_of (caches c cat) key = Some fc" and wf: "wf_map fc"
    and run: "deleteFlows env Delete cat key c = (Err e, c')"
  shows "\<exists>gone left. set fc = gone \<union> left \<and> gone \<inter> left = {} \<and> left \<noteq> {} \<and>
    set (flows_in c' cat key) = left \<and>
    told c' = told c |` (- (MatchString ` snd ` gone)) \<and> same_elsewhere cat key c c'"
proof -
  let ?es = "go_range env c fc"
  have es: "set ?es = set fc" using fair by (rule set_go_range)
  have "mset (map fst ?es) = mset (map fst fc)"
    using mset_go_range [OF fair] by (metis mset_map)
  then have dist: "distinct (map fst ?es)" using wf by (metis mset_eq_imp_distinct_iff)
  obtain r c1 n fc' where loop: "gfor ?es (delete_one Delete cat key) c = (r, c1)"
      "n \<le> length ?es" "r = Ok () \<longleftrightarrow> n = length ?es" "map_of (caches c1 cat) key = Some fc'"
      "fc' = filter (\<lambda>(k, f). k \<notin> fst ` set (take n ?es)) fc"
      "told c1 = told c |` (- (MatchString ` snd ` set (take n ?es)))" "same_elsewhere cat key c c1"
    using delete_loop [OF fc, of ?es] by blast
  with run fc have r: "r = Err e" and c': "c' = (if flows_in c1 cat key = [] then drop_key cat key c1 else c1)"
    by (simp_all add: deleteFlows_def go_eval)
  from loop r have n: "n < length ?es" by auto
  have split: "set ?es = set (take n ?es) \<union> set (drop n ?es)" by (metis append_take_drop_id set_append)
  have disj: "fst ` set (take n ?es) \<inter> fst ` set (drop n ?es) = {}"
    using dist by (metis append_take_drop_id distinct_append map_append set_map)
  have "set fc' = {e \<in> set ?es. fst e \<notin> fst ` set (take n ?es)}"
    unfolding loop(5) es set_filter by (simp add: case_prod_unfold)
  also have "\<dots> = set (drop n ?es)" using split disj by blast
  finally have "set fc' = set (drop n ?es)" .
  moreover have "drop n ?es \<noteq> []" using n by simp
  moreover have "flows_in c1 cat key = fc'" using loop(4) by (simp add: flows_in_def)
  ultimately have "c' = c1" and left: "set (flows_in c1 cat key) = set (drop n ?es)"
    using c' by auto
  moreover have "set (take n ?es) \<inter> set (drop n ?es) = {}" using disj by blast
  ultimately show ?thesis
    using es split loop(6,7) \<open>drop n ?es \<noteq> []\<close>
    by (intro exI [of _ "set (take n ?es)"] exI [of _ "set (drop n ?es)"]) simp
qed

text \<open>Both keep every cache a map of maps with each flow under its match text.\<close>

lemma add_missing_keeps_wf: "keeps wf_caches (add_missing Add cat key f)"
proof (rule keepsI)
  fix c assume wf: "wf_caches c"
  show "wf_caches (snd (add_missing Add cat key f c))"
  proof (cases rule: add_cases [of f c])
    case (1 c1)
    then have "wf_caches c1" using wf wf_caches_cong [of c1 c] by simp
    then show ?thesis using wf 1
      by (simp add: add_missing_def go_eval wf_caches_set_flows wf_caches_flows_in
          wf_flow_cache_update)
  next
    case (2 e c1)
    then have "wf_caches c1" using wf wf_caches_cong [of c1 c] by simp
    then show ?thesis using wf 2 by (simp add: add_missing_def go_eval)
  qed
qed

lemma addMissingFlows_keeps_wf: "keeps wf_caches (addMissingFlows Add cat key flows)"
  unfolding addMissingFlows_def
  by (intro go_keeps add_missing_keeps_wf keepsI)
    (simp add: modify_eval wf_caches_load_or_store)

lemma delete_one_keeps_wf: "keeps wf_caches (delete_one Delete cat key e)"
proof (rule keepsI)
  fix c assume wf: "wf_caches c"
  obtain k f where e: "e = (k, f)" by (cases e)
  show "wf_caches (snd (delete_one Delete cat key e c))"
  proof (cases rule: del_cases [of f c])
    case (1 c1)
    then have "wf_caches c1" using wf wf_caches_cong [of c1 c] by simp
    then show ?thesis using 1
      by (simp add: delete_one_def e go_eval wf_caches_set_flows wf_caches_flows_in
          wf_flow_cache_delete)
  next
    case (2 err c1)
    then show ?thesis using wf wf_caches_cong [of c1 c] by (simp add: delete_one_def e go_eval)
  qed
qed

lemma deleteFlows_keeps_wf: "keeps wf_caches (deleteFlows env Delete cat key)"
proof (rule keepsI)
  fix c assume wf: "wf_caches c"
  show "wf_caches (snd (deleteFlows env Delete cat key c))"
  proof (cases "map_of (caches c cat) key")
    case None
    with wf show ?thesis by (simp add: deleteFlows_absent)
  next
    case (Some fc)
    have "keeps wf_caches (gfor (go_range env c fc) (delete_one Delete cat key))"
      by (intro go_keeps delete_one_keeps_wf)
    from keepsD [OF this wf] Some show ?thesis
      by (auto simp: deleteFlows_def go_eval wf_caches_drop_key split: prod.split)
  qed
qed

text \<open>Installing under a fresh key and uninstalling it again.\<close>

lemma install_uninstall:
  assumes "fair_env env" and "wf_caches c" and "map_of (caches c cat) key = None"
    and add: "addMissingFlows Add cat key flows c = (Ok (), c1)"
    and del: "deleteFlows env Delete cat key c1 = (Ok (), c2)"
  shows "map_of (caches c2 cat') key' = map_of (caches c cat') key'"
    and "told c2 = told c |` (- (MatchString ` set flows))"
proof -
  have "flows_in c cat key = []" using assms(3) by (simp add: flows_in_def)
  with addMissingFlows_spec [of cat key flows c] add
  have added: "added cat key c (missing {} flows) (length (missing {} flows)) c1" by auto
  then obtain fc where fc: "map_of (caches c1 cat) key = Some fc" by (auto simp: added_def)
  have told1: "told c1 = note_flows (missing {} flows) (told c)" and s1: "same_elsewhere cat key c c1"
    and "map_of fc = note_flows (missing {} flows) Map.empty"
    using added fc \<open>flows_in c cat key = []\<close> by (simp_all add: added_def flows_in_def)
  note d = deleteFlows_Ok [OF assms(1) fc del]
  show "map_of (caches c2 cat') key' = map_of (caches c cat') key'"
    using s1 d(1,3) assms(3) unfolding same_elsewhere_def
    by (cases "(cat', key') = (cat, key)") auto
  have "wf_caches c1" using keepsE [OF addMissingFlows_keeps_wf assms(2) add] .
  then have "wf_flow_cache fc" using fc by (metis flows_in_Some wf_caches_flows_in)
  then have "MatchString ` snd ` set fc = fst ` set fc"
    by (force simp: wf_flow_cache_def image_image)
  also have "\<dots> = dom (map_of fc)" by (simp add: dom_map_of_conv_image_fst)
  also have "\<dots> = MatchString ` set flows"
    using missing_covers [of flows "{}"] set_missing_subset [of "{}" flows]
    by (auto simp: \<open>map_of fc = _\<close>)
  finally have keys: "MatchString ` snd ` set fc = MatchString ` set flows" .
  show "told c2 = told c |` (- (MatchString ` set flows))"
    unfolding d(2) keys told1
  proof
    fix k
    show "(note_flows (missing {} flows) (told c) |` (- MatchString ` set flows)) k =
        (told c |` (- MatchString ` set flows)) k"
      by (cases "k \<in> MatchString ` set flows")
        (auto simp: restrict_map_def intro!: note_flows_other
          dest: set_missing_subset [THEN subsetD])
  qed
qed

text \<open>A call that failed can be repeated: the second one has only what the first left to add.\<close>

lemma retry_completes:
  assumes "addMissingFlows Add cat key flows c = (Err e, c1)"
    and "addMissingFlows Add cat key flows c1 = (Ok (), c2)"
  shows "told c2 = note_flows (missing (dom (map_of (flows_in c cat key))) flows) (told c)"
    and "map_of (flows_in c2 cat key) =
      note_flows (missing (dom (map_of (flows_in c cat key))) flows) (map_of (flows_in c cat key))"
proof -
  let ?K = "dom (map_of (flows_in c cat key))"
  from addMissingFlows_spec [of cat key flows c] assms(1) obtain n where
    1: "added cat key c (missing ?K flows) n c1" by auto
  then have K1: "dom (map_of (flows_in c1 cat key)) = ?K \<union> MatchString ` set (take n (missing ?K flows))"
    by (auto simp: added_def)
  have m1: "missing (dom (map_of (flows_in c1 cat key))) flows = drop n (missing ?K flows)"
    unfolding K1 by (rule missing_retry)
  with addMissingFlows_spec [of cat key flows c1] assms(2)
  have 2: "added cat key c1 (drop n (missing ?K flows)) (length (drop n (missing ?K flows))) c2"
    by auto
  show "told c2 = note_flows (missing ?K flows) (told c)"
    using 1 2 by (simp add: added_def flip: note_flows_append)
  show "map_of (flows_in c2 cat key) = note_flows (missing ?K flows) (map_of (flows_in c cat key))"
    using 1 2 by (simp add: added_def flip: note_flows_append)
qed

end

section \<open>The client's methods implement it\<close>

text \<open>
  The switch has a flow once its last add was not followed by a deletion; \<open>ledger (hist c)\<close> is
  that record of the commands that succeeded.
\<close>

abbreviation on_switch :: "client \<Rightarrow> (string \<rightharpoonup> flow)" where
  "on_switch c \<equiv> ledger (hist c)"

interpretation ofp: flow_operations "client_Add env" "client_Delete env" on_switch for env
proof unfold_locales
  fix f :: flow and c c' :: client and e :: error and x
  show "caches (snd (client_Add env f c)) = caches c"
    by (simp add: client_Add_def flow_Add_eq after_def Let_def)
  show "caches (snd (client_Delete env f c)) = caches c"
    by (simp add: client_Delete_def flow_Delete_eq after_def Let_def)
  show "fst (client_Add env f c) \<noteq> Panic" "fst (client_Delete env f c) \<noteq> Panic"
    by (simp_all add: client_Add_def client_Delete_def flow_op_eqs)
  show "client_Add env f c = (Ok (), c') \<Longrightarrow> on_switch c' = (on_switch c)(MatchString f \<mapsto> f)"
    "client_Add env f c = (Err e, c') \<Longrightarrow> on_switch c' = on_switch c"
    "client_Delete env f c = (Ok (), c') \<Longrightarrow> on_switch c' = (on_switch c)(MatchString f := None)"
    "client_Delete env f c = (Err e, c') \<Longrightarrow> on_switch c' = on_switch c"
    by (auto simp: client_Add_def client_Delete_def flow_op_eqs split: if_splits)
  show "on_switch (c\<lparr>caches := x\<rparr>) = on_switch c" by simp
qed

end
