(* ===== verification/NetworkPolicy.thy ===== *)
theory NetworkPolicy
  imports FlowContract
begin

text \<open>
  Package \<open>pkg/openflow\<close>, network_policy.go: conjunctive match contexts, clauses, and the four
  methods that install, uninstall and change the flows of a policy rule.
\<close>

section \<open>Match keys and values\<close>

fun GetMatchKey :: "address \<Rightarrow> address_type \<Rightarrow> match_key" where
  "GetMatchKey (IPAddress a) SrcAddress = MatchSrcIPKey"
| "GetMatchKey (IPAddress a) DstAddress = MatchDstIPKey"
| "GetMatchKey (IPNetAddress n) SrcAddress = MatchSrcIPNetKey"
| "GetMatchKey (IPNetAddress n) DstAddress = MatchDstIPNetKey"
| "GetMatchKey (OFPortAddress p) SrcAddress = MatchSrcOFPortKey"
| "GetMatchKey (OFPortAddress p) DstAddress = MatchDstOFPortKey"
| "GetMatchKey a (OtherAddress i) = Unsupported"

fun GetMatchValue :: "address \<Rightarrow> string" where
  "GetMatchValue (IPAddress a) = ip_string a"
| "GetMatchValue (IPNetAddress n) = ipnet_string n"
| "GetMatchValue (OFPortAddress p) = dec_int (sint p)"

fun GetValue :: "address \<Rightarrow> match_value" where
  "GetValue (IPAddress a) = MV_IP a"
| "GetValue (IPNetAddress n) = MV_IPNet n"
| "GetValue (OFPortAddress p) = MV_Int32 p"

text \<open>
  \<open>%s\<close> of the dynamic value: an \<open>IP\<close> has a \<open>String\<close> method; an \<open>IPNet\<close> that is not a pointer has none
  and is printed field by field; a number is printed as a bad verb.
\<close>

fun value_text :: "match_value \<Rightarrow> string" where
  "value_text (MV_IP a) = ip_string a"
| "value_text (MV_IPNet n) = ''{'' @ ip_string (ipnet_IP n) @ '' '' @ mask_string (ipnet_Mask n) @ ''}''"
| "value_text (MV_Int32 p) = ''%!s(int32='' @ dec_int (sint p) @ '')''"
| "value_text (MV_Uint16 p) = ''%!s(uint16='' @ dec (unat p) @ '')''"

definition generateGlobalMapKey :: "conjunctiveMatch \<Rightarrow> string" where
  "generateGlobalMapKey m =
     ''table:'' @ dec (unat (cm_tableID m)) @ '',type:'' @ dec (match_code (cm_matchKey m)) @
     '',value:'' @ value_text (cm_matchValue m)"

section \<open>Contexts\<close>

definition get_ctx :: "ctx_ptr \<Rightarrow> (client, conjMatchFlowContext) go" where
  "get_ctx p = gbind (gets (\<lambda>c. ctxs c p)) deref"

definition modify_ctx :: "ctx_ptr \<Rightarrow> (conjMatchFlowContext \<Rightarrow> conjMatchFlowContext) \<Rightarrow> (client, unit) go" where
  "modify_ctx p f = modify (\<lambda>c. c\<lparr>ctxs := (ctxs c)(p := map_option f (ctxs c p))\<rparr>)"

definition conj_builder :: "builder \<Rightarrow> conjunctiveAction list \<Rightarrow> builder" where
  "conj_builder fb acts = chain fb (map (\<lambda>a. Conjunction (ca_conjID a) (ca_clauseID a) (ca_nClause a)) acts)"

definition installOrUpdateFlow :: "env \<Rightarrow> ctx_ptr \<Rightarrow> conjunctiveAction list \<Rightarrow> (client, unit) go" where
  "installOrUpdateFlow env p actions =
     gbind (get_ctx p) (\<lambda>ctx. case x_flow ctx of
       None \<Rightarrow>
         if actions = [] then ret ()
         else gbind (gets (\<lambda>c. conjunctiveMatchFlow c (cm_tableID (x_match ctx))
                 (cm_matchKey (x_match ctx)) (cm_matchValue (x_match ctx)) actions)) (\<lambda>fo.
              gbind (deref fo) (\<lambda>flow.
              gseq (flow_Add env flow) (modify_ctx p (\<lambda>x. x\<lparr>x_flow := Some flow\<rparr>))))
     | Some flow \<Rightarrow>
         (let newFlow = Done (conj_builder (CopyToBuilder flow) actions)
          in gseq (flow_Modify env newFlow) (modify_ctx p (\<lambda>x. x\<lparr>x_flow := Some newFlow\<rparr>))))"

text \<open>The actions of a context in the order a \<open>range\<close> of the run visits them.\<close>

definition ranged_actions :: "env \<Rightarrow> conjMatchFlowContext \<Rightarrow> client \<Rightarrow> conjunctiveAction list" where
  "ranged_actions env ctx c = map snd (go_range env c (x_actions ctx))"

definition deleteAction :: "env \<Rightarrow> ctx_ptr \<Rightarrow> 32 word \<Rightarrow> (client, unit) go" where
  "deleteAction env p conjID =
     gbind (get_ctx p) (\<lambda>ctx.
     gseq
       (if length (x_actions ctx) = 1 \<and> x_flow ctx \<noteq> None
        then gseq (flow_Delete env (the (x_flow ctx))) (modify_ctx p (\<lambda>x. x\<lparr>x_flow := None\<rparr>))
        else gbind (gets (ranged_actions env ctx)) (\<lambda>acts.
               installOrUpdateFlow env p (filter (\<lambda>act. ca_conjID act \<noteq> conjID) acts)))
       (modify_ctx p (\<lambda>x. x\<lparr>x_actions := AList.delete conjID (x_actions x)\<rparr>)))"

definition addAction :: "env \<Rightarrow> ctx_ptr \<Rightarrow> conjunctiveAction \<Rightarrow> (client, unit) go" where
  "addAction env p action =
     gbind (get_ctx p) (\<lambda>ctx.
     if map_of (x_actions ctx) (ca_conjID action) \<noteq> None then ret ()
     else gseq (gbind (gets (ranged_actions env ctx)) (\<lambda>acts.
                  installOrUpdateFlow env p (acts @ [action])))
               (modify_ctx p (\<lambda>x. x\<lparr>x_actions := AList.update (ca_conjID action) action (x_actions x)\<rparr>)))"

definition addDenyAllRule :: "ctx_ptr \<Rightarrow> 32 word \<Rightarrow> (client, unit) go" where
  "addDenyAllRule p ruleID =
     modify_ctx p (\<lambda>x. x\<lparr>x_denyAllRules := AList.update ruleID True (x_denyAllRules x)\<rparr>)"

section \<open>Clauses\<close>

text \<open>
  A clause is the state of its operations beside the client; the caller writes it back into the
  rule's conjunction, however the operation ends.
\<close>

type_synonym clause_state = "client \<times> clause"

definition alloc_ctx :: "conjunctiveMatch \<Rightarrow> flow option \<Rightarrow> client \<Rightarrow> ctx_ptr \<times> client" where
  "alloc_ctx m df c =
     (let p = next_ctx c;
          x = \<lparr>x_match = m, x_actions = [], x_denyAllRules = [], x_flow = None, x_dropFlow = df\<rparr>
      in (p, c\<lparr>ctxs := (ctxs c)(p \<mapsto> x), next_ctx := Suc p\<rparr>))"

text \<open>The drop flow of a new context: none if the clause has no drop table.\<close>

definition install_drop :: "env \<Rightarrow> table option \<Rightarrow> conjunctiveMatch \<Rightarrow> (client, flow option) go" where
  "install_drop env dropTable match =
     (case dropTable of
        None \<Rightarrow> ret None
      | Some t \<Rightarrow>
          gbind (gets (\<lambda>c. defaultDropFlow c (GetID t) (cm_matchKey match) (cm_matchValue match))) (\<lambda>fo.
          gbind (deref fo) (\<lambda>dropFlow.
          gseq (flow_Add env dropFlow) (ret (Some dropFlow)))))"

definition find_or_create_ctx ::
  "env \<Rightarrow> table option \<Rightarrow> conjunctiveMatch \<Rightarrow> (client, ctx_ptr) go" where
  "find_or_create_ctx env dropTable match =
     (let matcherKey = generateGlobalMapKey match
      in gbind (gets (\<lambda>c. map_of (globalConjMatchFlowCache c) matcherKey)) (\<lambda>found. case found of
        Some p \<Rightarrow> ret p
      | None \<Rightarrow>
          gbind (install_drop env dropTable match) (\<lambda>dropFlow.
          gbind (\<lambda>c. case alloc_ctx match dropFlow c of (p, c') \<Rightarrow> (Ok p, c')) (\<lambda>p.
          gseq (modify (\<lambda>c. c\<lparr>globalConjMatchFlowCache :=
                  AList.update matcherKey p (globalConjMatchFlowCache c)\<rparr>))
               (ret p)))))"

definition addConjunctiveMatchFlow :: "env \<Rightarrow> conjunctiveMatch \<Rightarrow> (clause_state, unit) go" where
  "addConjunctiveMatchFlow env match =
     (let matcherKey = generateGlobalMapKey match
      in gbind (gets snd) (\<lambda>cl.
         if map_of (cl_matches cl) matcherKey \<noteq> None then ret ()
         else gbind (on_fst (find_or_create_ctx env (cl_dropTable cl) match)) (\<lambda>p.
              gseq (on_fst (if 1 < ca_nClause (cl_action cl) then addAction env p (cl_action cl)
                            else addDenyAllRule p (ca_conjID (cl_action cl))))
                   (modify (\<lambda>(c, cl). (c, cl\<lparr>cl_matches := AList.update matcherKey p (cl_matches cl)\<rparr>))))))"

definition generateAddressConjMatch :: "clause \<Rightarrow> address \<Rightarrow> address_type \<Rightarrow> conjunctiveMatch option" where
  "generateAddressConjMatch cl addr addrType =
     map_option (\<lambda>t. \<lparr>cm_tableID = GetID t, cm_matchKey = GetMatchKey addr addrType,
       cm_matchValue = GetValue addr\<rparr>) (cl_ruleTable cl)"

definition getServiceMatchType :: "string option \<Rightarrow> match_key option" where
  "getServiceMatchType protocol = map_option (\<lambda>p.
     if p = ''TCP'' then MatchTCPDstPortKey
     else if p = ''UDP'' then MatchUDPDstPortKey
     else if p = ''SCTP'' then MatchSCTPDstPortKey
     else MatchTCPDstPortKey) protocol"

text \<open>A port whose protocol or port is nil, or a clause with no rule table, panics.\<close>

definition generateServicePortConjMatch :: "clause \<Rightarrow> NetworkPolicyPort \<Rightarrow> conjunctiveMatch option" where
  "generateServicePortConjMatch cl port =
     Option.bind (getServiceMatchType (npp_Protocol port)) (\<lambda>matchKey.
     Option.bind (npp_IntVal port) (\<lambda>intVal.
     map_option (\<lambda>t. \<lparr>cm_tableID = GetID t, cm_matchKey = matchKey,
       cm_matchValue = MV_Uint16 (ucast intVal)\<rparr>) (cl_ruleTable cl)))"

definition addAddrFlows :: "env \<Rightarrow> address_type \<Rightarrow> address list \<Rightarrow> (clause_state, unit) go" where
  "addAddrFlows env addrType addresses = gfor addresses (\<lambda>addr.
     gbind (gets (\<lambda>(c, cl). generateAddressConjMatch cl addr addrType)) (\<lambda>m.
     gbind (deref m) (addConjunctiveMatchFlow env)))"

definition addServiceFlows :: "env \<Rightarrow> NetworkPolicyPort list \<Rightarrow> (clause_state, unit) go" where
  "addServiceFlows env ports = gfor ports (\<lambda>port.
     gbind (gets (\<lambda>(c, cl). generateServicePortConjMatch cl port)) (\<lambda>m.
     gbind (deref m) (addConjunctiveMatchFlow env)))"

text \<open>Taking the rule out of a context, then out of the caches.\<close>

definition leave_ctx :: "env \<Rightarrow> conjunctiveAction \<Rightarrow> ctx_ptr \<Rightarrow> (client, unit) go" where
  "leave_ctx env action p =
     gbind (get_ctx p) (\<lambda>ctx.
     if 1 < ca_nClause action then
       (if map_of (x_actions ctx) (ca_conjID action) \<noteq> None
        then deleteAction env p (ca_conjID action) else ret ())
     else if map_of (x_denyAllRules ctx) (ca_conjID action) \<noteq> None
       then modify_ctx p (\<lambda>x. x\<lparr>x_denyAllRules := AList.delete (ca_conjID action) (x_denyAllRules x)\<rparr>)
       else ret ())"

definition drop_empty_ctx :: "env \<Rightarrow> ctx_ptr \<Rightarrow> (client, unit) go" where
  "drop_empty_ctx env p =
     gbind (get_ctx p) (\<lambda>ctx.
     if x_actions ctx = [] \<and> x_denyAllRules ctx = [] then
       gseq (case x_dropFlow ctx of
               None \<Rightarrow> ret ()
             | Some f \<Rightarrow> gseq (flow_Delete env f) (modify_ctx p (\<lambda>x. x\<lparr>x_dropFlow := None\<rparr>)))
            (modify (\<lambda>c. c\<lparr>globalConjMatchFlowCache :=
               AList.delete (generateGlobalMapKey (x_match ctx)) (globalConjMatchFlowCache c)\<rparr>))
     else ret ())"

definition deleteConjunctiveMatchFlow :: "env \<Rightarrow> string \<Rightarrow> (clause_state, unit) go" where
  "deleteConjunctiveMatchFlow env flowContextKey =
     gbind (gets snd) (\<lambda>cl. case map_of (cl_matches cl) flowContextKey of
       None \<Rightarrow> ret ()
     | Some p \<Rightarrow>
         gseq (on_fst (leave_ctx env (cl_action cl) p))
        (gseq (on_fst (drop_empty_ctx env p))
              (modify (\<lambda>(c, cl). (c, cl\<lparr>cl_matches := AList.delete flowContextKey (cl_matches cl)\<rparr>)))))"

definition deleteAddrFlows :: "env \<Rightarrow> address_type \<Rightarrow> address list \<Rightarrow> (clause_state, unit) go" where
  "deleteAddrFlows env addrType addresses = gfor addresses (\<lambda>addr.
     gbind (gets (\<lambda>(c, cl). generateAddressConjMatch cl addr addrType)) (\<lambda>m.
     gbind (deref m) (\<lambda>match. deleteConjunctiveMatchFlow env (generateGlobalMapKey match))))"

definition deleteAllMatches :: "env \<Rightarrow> (clause_state, unit) go" where
  "deleteAllMatches env =
     gbind (gets (\<lambda>(c, cl). go_range env c (cl_matches cl))) (\<lambda>es.
     gfor es (\<lambda>(key, _). deleteConjunctiveMatchFlow env key))"

section \<open>Rules\<close>

datatype clause_slot = FromClause | ToClause | ServiceClause

fun slot_clause :: "clause_slot \<Rightarrow> policyRuleConjunction \<Rightarrow> clause option" where
  "slot_clause FromClause = pc_fromClause"
| "slot_clause ToClause = pc_toClause"
| "slot_clause ServiceClause = pc_serviceClause"

fun set_slot :: "clause_slot \<Rightarrow> clause \<Rightarrow> policyRuleConjunction \<Rightarrow> policyRuleConjunction" where
  "set_slot FromClause cl = pc_fromClause_update (\<lambda>_. Some cl)"
| "set_slot ToClause cl = pc_toClause_update (\<lambda>_. Some cl)"
| "set_slot ServiceClause cl = pc_serviceClause_update (\<lambda>_. Some cl)"

text \<open>\<open>getAddressClause\<close>: the clause an address type selects; none for an unknown type.\<close>

fun getAddressClause :: "address_type \<Rightarrow> clause_slot option" where
  "getAddressClause SrcAddress = Some FromClause"
| "getAddressClause DstAddress = Some ToClause"
| "getAddressClause (OtherAddress i) = None"

definition newClause ::
  "32 word \<Rightarrow> 8 word \<Rightarrow> 8 word \<Rightarrow> table option \<Rightarrow> table option \<Rightarrow> clause" where
  "newClause conjID clauseID nClause ruleTable dropTable =
     \<lparr>cl_action = \<lparr>ca_conjID = conjID, ca_clauseID = clauseID, ca_nClause = nClause\<rparr>,
      cl_matches = [], cl_ruleTable = ruleTable, cl_dropTable = dropTable\<rparr>"

text \<open>A clause that is not yet in a cache: it is the result if the operation returns nil.\<close>

definition on_new_clause :: "clause \<Rightarrow> (clause_state, unit) go \<Rightarrow> (client, clause) go" where
  "on_new_clause cl m = (\<lambda>c. case m (c, cl) of
     (Ok _, (c', cl')) \<Rightarrow> (Ok cl', c')
   | (Err e, (c', cl')) \<Rightarrow> (Err e, c')
   | (Panic, (c', cl')) \<Rightarrow> (Panic, c'))"

text \<open>A clause of a cached conjunction: what the operation left of it is in the cache afterwards.\<close>

definition put_clause :: "32 word \<Rightarrow> clause_slot \<Rightarrow> clause \<Rightarrow> client \<Rightarrow> client" where
  "put_clause ruleID slot cl c =
     (case map_of (policyCache c) ruleID of
        None \<Rightarrow> c
      | Some pc \<Rightarrow> c\<lparr>policyCache := AList.update ruleID (set_slot slot cl pc) (policyCache c)\<rparr>)"

definition on_cached_clause ::
  "32 word \<Rightarrow> clause_slot \<Rightarrow> clause \<Rightarrow> (clause_state, unit) go \<Rightarrow> (client, unit) go" where
  "on_cached_clause ruleID slot cl m = (\<lambda>c. case m (c, cl) of
     (r, (c', cl')) \<Rightarrow> (r, put_clause ruleID slot cl' c'))"

definition getPolicyRuleConjunction :: "client \<Rightarrow> 32 word \<Rightarrow> policyRuleConjunction option" where
  "getPolicyRuleConjunction c ruleID = map_of (policyCache c) ruleID"

text \<open>The number of clauses, and the clause ids of from, to and service.\<close>

definition clause_ids :: "PolicyRule \<Rightarrow> 8 word \<times> 8 word \<times> 8 word \<times> 8 word" where
  "clause_ids rule =
     (let n0 = 0;
          (n1, fromID) = (if pr_From rule \<noteq> None then (n0 + 1, n0 + 1) else (n0, 0));
          (n2, toID) = (if pr_To rule \<noteq> None then (n1 + 1, n1 + 1) else (n1, 0));
          (n3, serviceID) = (if pr_Service rule \<noteq> None then (n2 + 1, n2 + 1) else (n2, 0))
      in (n3, fromID, toID, serviceID))"

definition is_egress :: "PolicyRule \<Rightarrow> bool" where
  "is_egress rule \<longleftrightarrow> pr_Direction rule = ''Egress''"

definition rule_tables :: "client \<Rightarrow> PolicyRule \<Rightarrow> table option \<times> table option" where
  "rule_tables c rule =
     (if is_egress rule then (table_at c egressRuleTable, table_at c egressDefaultTable)
      else (table_at c ingressRuleTable, table_at c ingressDefaultTable))"

definition except_flows ::
  "client \<Rightarrow> 32 word \<Rightarrow> table \<Rightarrow> table \<Rightarrow> address_type \<Rightarrow> address list option \<Rightarrow> flow option list" where
  "except_flows c ruleID ruleTable dropTable addrType addrs =
     map (\<lambda>a. conjunctionExceptionFlow c ruleID (GetID ruleTable) (GetID dropTable)
            (GetMatchKey a addrType) (GetValue a))
       (case addrs of None \<Rightarrow> [] | Some as \<Rightarrow> as)"

text \<open>The action flow and the exceptions; a nil table or a bad match value panics.\<close>

definition action_flows ::
  "client \<Rightarrow> PolicyRule \<Rightarrow> table option \<Rightarrow> table option \<Rightarrow> flow list option" where
  "action_flows c rule rt dt = Option.bind rt (\<lambda>ruleTable. Option.bind dt (\<lambda>dropTable. those
     ([conjunctionActionFlow c (pr_ID rule) (GetID ruleTable) (GetNext dropTable)]
      @ except_flows c (pr_ID rule) ruleTable dropTable SrcAddress (pr_ExceptFrom rule)
      @ except_flows c (pr_ID rule) ruleTable dropTable DstAddress (pr_ExceptTo rule))))"

definition install_clause ::
  "'x list option \<Rightarrow> clause \<Rightarrow> ('x list \<Rightarrow> (clause_state, unit) go) \<Rightarrow> (client, clause option) go" where
  "install_clause items cl add = (case items of
     None \<Rightarrow> ret None
   | Some xs \<Rightarrow> gbind (on_new_clause cl (add xs)) (\<lambda>cl'. ret (Some cl')))"

definition InstallPolicyRuleFlows :: "env \<Rightarrow> PolicyRule \<Rightarrow> (client, unit) go" where
  "InstallPolicyRuleFlows env rule =
     gbind (gets (\<lambda>c. (getPolicyRuleConjunction c (pr_ID rule), rule_tables c rule)))
       (\<lambda>(cached, ruleTable, dropTable).
     if cached \<noteq> None then ret ()
     else (case clause_ids rule of (nClause, fromID, toID, serviceID) \<Rightarrow>
     gbind (if 1 < nClause
            then gbind (gets (\<lambda>c. action_flows c rule ruleTable dropTable)) (\<lambda>fs.
                 gbind (deref fs) (\<lambda>actionFlows.
                 gseq (gfor actionFlows (flow_Add env)) (ret actionFlows)))
            else ret [])
       (\<lambda>actionFlows.
     gbind (install_clause (pr_From rule)
              (newClause (pr_ID rule) fromID nClause ruleTable
                 (if is_egress rule then dropTable else None))
              (addAddrFlows env SrcAddress)) (\<lambda>fromClause.
     gbind (install_clause (pr_To rule)
              (newClause (pr_ID rule) toID nClause ruleTable
                 (if \<not> is_egress rule then dropTable else None))
              (addAddrFlows env DstAddress)) (\<lambda>toClause.
     gbind (install_clause (pr_Service rule)
              (newClause (pr_ID rule) serviceID nClause ruleTable None)
              (addServiceFlows env)) (\<lambda>serviceClause.
     modify (\<lambda>c. c\<lparr>policyCache := AList.update (pr_ID rule)
       \<lparr>pc_id = pr_ID rule, pc_fromClause = fromClause, pc_toClause = toClause,
        pc_serviceClause = serviceClause, pc_actionFlows = actionFlows\<rparr> (policyCache c)\<rparr>)))))))"

definition delete_clause :: "env \<Rightarrow> 32 word \<Rightarrow> clause_slot \<Rightarrow> (client, unit) go" where
  "delete_clause env ruleID slot =
     gbind (gets (\<lambda>c. Option.bind (getPolicyRuleConjunction c ruleID) (slot_clause slot))) (\<lambda>cl.
     case cl of None \<Rightarrow> ret ()
     | Some cl \<Rightarrow> on_cached_clause ruleID slot cl (deleteAllMatches env))"

definition UninstallPolicyRuleFlows :: "env \<Rightarrow> 32 word \<Rightarrow> (client, unit) go" where
  "UninstallPolicyRuleFlows env ruleID =
     gbind (gets (\<lambda>c. getPolicyRuleConjunction c ruleID)) (\<lambda>pc. case pc of
       None \<Rightarrow> ret ()
     | Some pc \<Rightarrow>
         gseq (gfor (pc_actionFlows pc) (flow_Delete env))
        (gseq (delete_clause env ruleID FromClause)
        (gseq (delete_clause env ruleID ToClause)
        (gseq (delete_clause env ruleID ServiceClause)
              (modify (\<lambda>c. c\<lparr>policyCache := AList.delete ruleID (policyCache c)\<rparr>))))))"

definition no_clause :: "address_type \<Rightarrow> error" where
  "no_clause addrType = ErrText (''no clause is using addrType '' @ dec_int (case addrType of
     SrcAddress \<Rightarrow> 0 | DstAddress \<Rightarrow> 1 | OtherAddress i \<Rightarrow> i))"

definition on_address_clause ::
  "32 word \<Rightarrow> address_type \<Rightarrow> (clause_state, unit) go \<Rightarrow> (client, unit) go" where
  "on_address_clause ruleID addrType m =
     gbind (gets (\<lambda>c. getPolicyRuleConjunction c ruleID)) (\<lambda>pc. case pc of
       None \<Rightarrow> throw (ErrConjunctionNotFound ruleID)
     | Some pc \<Rightarrow>
         (case getAddressClause addrType of
            None \<Rightarrow> throw (no_clause addrType)
          | Some slot \<Rightarrow>
              (case slot_clause slot pc of
                 None \<Rightarrow> throw (no_clause addrType)
               | Some cl \<Rightarrow> on_cached_clause ruleID slot cl m)))"

definition AddPolicyRuleAddress ::
  "env \<Rightarrow> 32 word \<Rightarrow> address_type \<Rightarrow> address list \<Rightarrow> (client, unit) go" where
  "AddPolicyRuleAddress env ruleID addrType addresses =
     on_address_clause ruleID addrType (addAddrFlows env addrType addresses)"

definition DeletePolicyRuleAddress ::
  "env \<Rightarrow> 32 word \<Rightarrow> address_type \<Rightarrow> address list \<Rightarrow> (client, unit) go" where
  "DeletePolicyRuleAddress env ruleID addrType addresses =
     on_address_clause ruleID addrType (deleteAddrFlows env addrType addresses)"

section \<open>Keys\<close>

text \<open>The separators of a key keep its three parts apart.\<close>

lemma match_code_inject: "match_code k = match_code k' \<longleftrightarrow> k = k'"
  by (cases k; cases k') simp_all

lemma global_key_inject:
  "generateGlobalMapKey m = generateGlobalMapKey m' \<longleftrightarrow>
     cm_tableID m = cm_tableID m' \<and> cm_matchKey m = cm_matchKey m' \<and>
     value_text (cm_matchValue m) = value_text (cm_matchValue m')"
proof
  assume eq: "generateGlobalMapKey m = generateGlobalMapKey m'"
  let ?t = "\<lambda>m. '',type:'' @ dec (match_code (cm_matchKey m)) @ '',value:'' @ value_text (cm_matchValue m)"
  have "dec (unat (cm_tableID m)) @ ?t m = dec (unat (cm_tableID m')) @ ?t m'"
    using eq by (simp add: generateGlobalMapKey_def)
  from dec_append_inject [OF this] have 1: "unat (cm_tableID m) = unat (cm_tableID m')" "?t m = ?t m'"
    by (simp_all add: is_digit_def)
  then have "dec (match_code (cm_matchKey m)) @ '',value:'' @ value_text (cm_matchValue m)
      = dec (match_code (cm_matchKey m')) @ '',value:'' @ value_text (cm_matchValue m')" by simp
  from dec_append_inject [OF this] have "match_code (cm_matchKey m) = match_code (cm_matchKey m')"
    "'',value:'' @ value_text (cm_matchValue m) = '',value:'' @ value_text (cm_matchValue m')"
    by (simp_all add: is_digit_def)
  with 1 show "cm_tableID m = cm_tableID m' \<and> cm_matchKey m = cm_matchKey m' \<and>
      value_text (cm_matchValue m) = value_text (cm_matchValue m')"
    by (simp add: match_code_inject word_unat_eq_iff)
qed (simp add: generateGlobalMapKey_def)

end
