(* ===== verification/PolicyHeap.thy ===== *)
theory PolicyHeap
  imports NetworkPolicy
begin

text \<open>
  The invariant of network_policy.go: contexts agree with their flows, the caches point to
  contexts of their key, and no operation on a context, a clause or a rule breaks this, however it
  ends.
\<close>

section \<open>The invariant\<close>

abbreviation action_text :: "conjunctiveAction \<Rightarrow> string" where
  "action_text a \<equiv> conj_text (ca_conjID a) (ca_clauseID a) (ca_nClause a)"

text \<open>
  A context has a flow exactly when it has an action, and the actions of that flow are the texts of
  the context's actions.
\<close>

definition ctx_ok :: "conjMatchFlowContext \<Rightarrow> bool" where
  "ctx_ok x \<longleftrightarrow> wf_map (x_actions x) \<and> (\<forall>(k, a) \<in> set (x_actions x). ca_conjID a = k) \<and>
     (case x_flow x of
        None \<Rightarrow> x_actions x = []
      | Some f \<Rightarrow> x_actions x \<noteq> [] \<and>
          mset (fl_actions f) = mset (map (action_text \<circ> snd) (x_actions x)))"

lemma ctx_ok_other [simp]:
  "ctx_ok (x\<lparr>x_denyAllRules := d\<rparr>) = ctx_ok x" "ctx_ok (x\<lparr>x_dropFlow := df\<rparr>) = ctx_ok x"
  by (simp_all add: ctx_ok_def split: option.split)

abbreviation ctx_key :: "conjMatchFlowContext \<Rightarrow> string" where
  "ctx_key x \<equiv> generateGlobalMapKey (x_match x)"

definition points_to :: "client \<Rightarrow> (string \<times> ctx_ptr) list \<Rightarrow> bool" where
  "points_to c m \<longleftrightarrow> wf_map m \<and> (\<forall>(k, p) \<in> set m. \<exists>x. ctxs c p = Some x \<and> ctx_key x = k)"

definition heap_ok :: "client \<Rightarrow> bool" where
  "heap_ok c \<longleftrightarrow> (\<forall>p x. ctxs c p = Some x \<longrightarrow> ctx_ok x \<and> p < next_ctx c) \<and>
     points_to c (globalConjMatchFlowCache c)"

definition clause_ok :: "client \<Rightarrow> 32 word \<Rightarrow> clause \<Rightarrow> bool" where
  "clause_ok c r cl \<longleftrightarrow> ca_conjID (cl_action cl) = r \<and> points_to c (cl_matches cl)"

definition policies_ok :: "client \<Rightarrow> bool" where
  "policies_ok c \<longleftrightarrow> wf_map (policyCache c) \<and>
     (\<forall>(r, pc) \<in> set (policyCache c). pc_id pc = r \<and>
        (\<forall>slot cl. slot_clause slot pc = Some cl \<longrightarrow> clause_ok c r cl))"

definition np_ok :: "client \<Rightarrow> bool" where
  "np_ok c \<longleftrightarrow> heap_ok c \<and> policies_ok c"

text \<open>Contexts are never freed and keep their match.\<close>

definition heap_le :: "client \<Rightarrow> client \<Rightarrow> bool" where
  "heap_le c0 c \<longleftrightarrow> policyCache c = policyCache c0 \<and>
     (\<forall>p x. ctxs c0 p = Some x \<longrightarrow> (\<exists>x'. ctxs c p = Some x' \<and> x_match x' = x_match x))"

definition extends :: "client \<Rightarrow> client \<Rightarrow> bool" where
  "extends c0 c \<longleftrightarrow> heap_ok c \<and> heap_le c0 c"

lemma heap_le_refl [simp]: "heap_le c c"
  by (simp add: heap_le_def)

lemma heap_le_trans: "heap_le a b \<Longrightarrow> heap_le b c \<Longrightarrow> heap_le a c"
  unfolding heap_le_def by fastforce

lemma extends_trans: "extends a b \<Longrightarrow> extends b c \<Longrightarrow> extends a c"
  by (auto simp: extends_def intro: heap_le_trans)

lemma points_to_mono: "points_to c0 m \<Longrightarrow> heap_le c0 c \<Longrightarrow> points_to c m"
  unfolding points_to_def heap_le_def by fastforce

lemma clause_ok_mono: "clause_ok c0 r cl \<Longrightarrow> heap_le c0 c \<Longrightarrow> clause_ok c r cl"
  by (auto simp: clause_ok_def intro: points_to_mono)

lemma policies_ok_mono: "policies_ok c0 \<Longrightarrow> heap_le c0 c \<Longrightarrow> policies_ok c"
proof -
  assume ok: "policies_ok c0" and le: "heap_le c0 c"
  have "policyCache c = policyCache c0" using le by (simp add: heap_le_def)
  with ok clause_ok_mono [OF _ le] show ?thesis unfolding policies_ok_def by fastforce
qed

lemma extends_np_ok: "np_ok c0 \<Longrightarrow> extends c0 c \<Longrightarrow> np_ok c"
  by (auto simp: np_ok_def extends_def intro: policies_ok_mono)

lemma points_to_update:
  "points_to c m \<Longrightarrow> ctxs c p = Some x \<Longrightarrow> ctx_key x = k \<Longrightarrow> points_to c (AList.update k p m)"
  by (auto simp: points_to_def dest!: in_set_update)

lemma points_to_delete: "points_to c m \<Longrightarrow> points_to c (AList.delete k m)"
  by (auto simp: points_to_def dest!: in_set_delete)

lemma points_to_Some:
  "points_to c m \<Longrightarrow> map_of m k = Some p \<Longrightarrow> \<exists>x. ctxs c p = Some x \<and> ctx_key x = k"
  by (auto simp: points_to_def dest!: map_of_SomeD)

lemma extends_ctx:
  "extends c c' \<Longrightarrow> ctxs c p = Some x \<Longrightarrow> \<exists>x'. ctxs c' p = Some x' \<and> x_match x' = x_match x"
  by (simp add: extends_def heap_le_def)

section \<open>Flow operations leave the caches and contexts alone\<close>

lemma client_more:
  assumes "switch.more c' = switch.more (c :: client)"
  shows "bridge_of c' = bridge_of c" "pipeline c' = pipeline c" "caches c' = caches c"
    "policyCache c' = policyCache c" "globalConjMatchFlowCache c' = globalConjMatchFlowCache c"
    "ctxs c' = ctxs c" "next_ctx c' = next_ctx c"
  using assms by (cases c, cases c', simp)+

lemma extends_more: "heap_ok c \<Longrightarrow> switch.more c' = switch.more (c :: client) \<Longrightarrow> extends c c'"
  using client_more [of c' c]
  by (simp add: extends_def heap_ok_def heap_le_def points_to_def)

lemma flow_op_more:
  "flow_Add env f c = (r, c') \<Longrightarrow> switch.more c' = switch.more c"
  "flow_Modify env f c = (r, c') \<Longrightarrow> switch.more c' = switch.more c"
  "flow_Delete env f c = (r, c') \<Longrightarrow> switch.more c' = switch.more c"
  using unchanged_flow_ops [of env f] by (metis snd_conv unchanged_def)+

lemma flow_op_no_panic:
  "fst (flow_Add env f c) \<noteq> Panic" "fst (flow_Modify env f c) \<noteq> Panic"
  "fst (flow_Delete env f c) \<noteq> Panic"
  by (simp_all add: flow_op_eqs)

lemma keeps_extends_more:
  assumes "\<And>c r c'. m c = (r, c') \<Longrightarrow> switch.more c' = switch.more (c :: client)"
  shows "keeps (extends c0) m"
proof (rule keepsI)
  fix c assume c: "extends c0 c"
  obtain r c' where run: "m c = (r, c')" by (cases "m c")
  have "extends c c'"
    using extends_more [OF _ assms [OF run]] c by (simp add: extends_def [of c0])
  with c run show "extends c0 (snd (m c))" by (simp add: extends_trans)
qed

lemma keeps_extends_flow_ops [go_keeps]:
  "keeps (extends c0) (flow_Add env f)" "keeps (extends c0) (flow_Modify env f)"
  "keeps (extends c0) (flow_Delete env f)"
  by (rule keeps_extends_more, erule flow_op_more)+

section \<open>Contexts\<close>

definition set_ctx :: "ctx_ptr \<Rightarrow> conjMatchFlowContext \<Rightarrow> client \<Rightarrow> client" where
  "set_ctx p x c = c\<lparr>ctxs := (ctxs c)(p \<mapsto> x)\<rparr>"

lemma get_ctx_Some: "ctxs c p = Some x \<Longrightarrow> get_ctx p c = (Ok x, c)"
  by (simp add: get_ctx_def go_eval)

lemma modify_ctx_Some: "ctxs c p = Some x \<Longrightarrow> modify_ctx p f c = (Ok (), set_ctx p (f x) c)"
  by (simp add: modify_ctx_def set_ctx_def go_eval)

lemma set_ctx_simps [simp]:
  "ctxs (set_ctx p x c) = (ctxs c)(p \<mapsto> x)" "hist (set_ctx p x c) = hist c"
  "tstat (set_ctx p x c) = tstat c" "bridge_of (set_ctx p x c) = bridge_of c"
  "pipeline (set_ctx p x c) = pipeline c" "caches (set_ctx p x c) = caches c"
  "policyCache (set_ctx p x c) = policyCache c" "next_ctx (set_ctx p x c) = next_ctx c"
  "globalConjMatchFlowCache (set_ctx p x c) = globalConjMatchFlowCache c"
  "set_ctx p y (set_ctx p x c) = set_ctx p y c"
  by (simp_all add: set_ctx_def)

lemma extends_set_ctx:
  assumes "heap_ok c" "ctxs c p = Some x" "ctx_ok x'" "x_match x' = x_match x"
  shows "extends c (set_ctx p x' c)"
proof -
  have le: "heap_le c (set_ctx p x' c)" using assms by (simp add: heap_le_def)
  have "points_to (set_ctx p x' c) (globalConjMatchFlowCache c)"
    using assms(1) le by (auto simp: heap_ok_def intro: points_to_mono)
  with le assms show ?thesis by (auto simp: extends_def heap_ok_def)
qed

lemma extends_step:
  "extends c c2 \<Longrightarrow> ctxs c2 p = Some x \<Longrightarrow> ctx_ok x' \<Longrightarrow> x_match x' = x_match x \<Longrightarrow>
   extends c (set_ctx p x' c2)"
  using extends_set_ctx [of c2 p x x'] extends_trans [of c c2 "set_ctx p x' c2"]
  by (auto simp: extends_def [of c c2])

text \<open>
  \<open>installOrUpdateFlow\<close>: on success the context's flow carries exactly the given actions (none is
  installed for no actions), after an error the context is as it was.
\<close>

lemma fl_actions_conj_builder:
  "fl_actions (chain b (map (\<lambda>a. Conjunction (ca_conjID a) (ca_clauseID a) (ca_nClause a)) acts))
     = fl_actions b @ map action_text acts"
proof (induction acts arbitrary: b)
  case Nil
  then show ?case by (simp add: chain_def)
next
  case (Cons a acts)
  from Cons.IH [of "Conjunction (ca_conjID a) (ca_clauseID a) (ca_nClause a) b"]
  show ?case by (simp add: chain_def Conjunction_def act_def)
qed

lemma fl_actions_addFlowMatch:
  "addFlowMatch fb k v = Some fb' \<Longrightarrow> fl_actions fb' = fl_actions fb"
  by (induction fb k v rule: addFlowMatch.induct) (auto simp: match_defs)

lemma fl_actions_conjunctiveMatchFlow:
  assumes "conjunctiveMatchFlow c t k v acts = Some f"
  shows "fl_actions f = map action_text acts"
proof -
  from assms obtain tb fb where fb: "addFlowMatch (chain (BuildFlow tb) [Priority priorityNormal]) k v = Some fb"
    and f: "f = Done (chain fb (map (\<lambda>a. Conjunction (ca_conjID a) (ca_clauseID a) (ca_nClause a)) acts))"
    by (auto simp: conjunctiveMatchFlow_def bind_eq_Some_conv)
  have "fl_actions fb = []"
    using fl_actions_addFlowMatch [OF fb] by (simp add: chain_def Priority_def BuildFlow_def)
  then show ?thesis by (simp add: f Done_def fl_actions_conj_builder)
qed

lemma extends_refl: "heap_ok c \<Longrightarrow> extends c c"
  by (simp add: extends_def)

lemma installOrUpdateFlow_cases:
  assumes x: "ctxs c p = Some x" and run: "installOrUpdateFlow env p acts c = (r, c')"
  obtains (none) "r = Ok ()" "acts = []" "x_flow x = None" "c' = c"
  | (flow) f c1 where "r = Ok ()" "switch.more c1 = switch.more c"
      "c' = set_ctx p (x\<lparr>x_flow := Some f\<rparr>) c1" "fl_actions f = map action_text acts"
      "x_flow x = None \<Longrightarrow> acts \<noteq> []"
  | (failed) "r \<noteq> Ok ()" "switch.more c' = switch.more c" "x_flow x \<noteq> None \<Longrightarrow> r \<noteq> Panic"
proof (cases "x_flow x")
  case None
  show thesis
  proof (cases "acts = []")
    case True
    with x run None show thesis
      by (intro none) (simp_all add: installOrUpdateFlow_def go_eval get_ctx_Some)
  next
    case False
    let ?fo = "conjunctiveMatchFlow c (cm_tableID (x_match x)) (cm_matchKey (x_match x))
      (cm_matchValue (x_match x)) acts"
    show thesis
    proof (cases ?fo)
      case None
      with x run \<open>x_flow x = None\<close> False show thesis
        by (intro failed) (auto simp: installOrUpdateFlow_def go_eval get_ctx_Some)
    next
      case (Some f)
      obtain r1 c1 where add: "flow_Add env f c = (r1, c1)" by (cases "flow_Add env f c")
      note more = flow_op_more(1) [OF add]
      have x1: "ctxs c1 p = Some x" using client_more(6) [OF more] x by simp
      show thesis
      proof (cases r1)
        case (Ok u)
        with x run \<open>x_flow x = None\<close> False Some add x1 show thesis
          by (intro flow [OF _ more _ fl_actions_conjunctiveMatchFlow [OF Some]])
            (auto simp: installOrUpdateFlow_def go_eval get_ctx_Some modify_ctx_Some)
      next
        case (Err e)
        with x run \<open>x_flow x = None\<close> False Some add more show thesis
          by (intro failed) (auto simp: installOrUpdateFlow_def go_eval get_ctx_Some)
      next
        case Panic
        with x run \<open>x_flow x = None\<close> False Some add more show thesis
          by (intro failed) (auto simp: installOrUpdateFlow_def go_eval get_ctx_Some)
      qed
    qed
  qed
next
  case (Some f)
  let ?f = "Done (conj_builder (CopyToBuilder f) acts)"
  obtain r1 c1 where md: "flow_Modify env ?f c = (r1, c1)" by (cases "flow_Modify env ?f c")
  note more = flow_op_more(2) [OF md]
  have x1: "ctxs c1 p = Some x" using client_more(6) [OF more] x by simp
  have acts: "fl_actions ?f = map action_text acts"
    by (simp add: Done_def conj_builder_def fl_actions_conj_builder CopyToBuilder_def)
  show thesis
  proof (cases r1)
    case (Ok u)
    with x run Some md x1 show thesis
      by (intro flow [OF _ more _ acts])
        (auto simp: installOrUpdateFlow_def go_eval get_ctx_Some modify_ctx_Some Let_def)
  next
    case (Err e)
    with x run Some md more show thesis
      by (intro failed) (auto simp: installOrUpdateFlow_def go_eval get_ctx_Some Let_def)
  next
    case Panic
    with flow_op_no_panic md show thesis by (metis fst_conv)
  qed
qed

text \<open>\<open>addAction\<close> and \<open>deleteAction\<close> change one context, and only if they succeed.\<close>

lemma mset_ranged_actions:
  "fair_env env \<Longrightarrow> mset (ranged_actions env x c) = mset (map snd (x_actions x))"
  by (simp add: ranged_actions_def mset_go_range)

lemma mset_action_texts:
  "mset acts = mset (map snd as) \<Longrightarrow> mset (map f acts) = mset (map (f \<circ> snd) as)"
  by (metis map_map mset_map)

lemma addAction_extends:
  assumes fair: "fair_env env" and ok: "heap_ok c" and x: "ctxs c p = Some x"
    and run: "addAction env p a c = (r, c')"
  shows "extends c c'"
proof (cases "map_of (x_actions x) (ca_conjID a) \<noteq> None")
  case True
  with x run ok show ?thesis
    by (auto simp: addAction_def go_eval get_ctx_Some extends_refl)
next
  case False
  then have new: "map_of (x_actions x) (ca_conjID a) = None" by simp
  let ?acts = "ranged_actions env x c @ [a]"
  obtain r1 c1 where io: "installOrUpdateFlow env p ?acts c = (r1, c1)"
    by (cases "installOrUpdateFlow env p ?acts c")
  show ?thesis using x io
  proof (cases rule: installOrUpdateFlow_cases)
    case none
    then show ?thesis by simp
  next
    case (flow f c2)
    let ?x = "x\<lparr>x_flow := Some f, x_actions := AList.update (ca_conjID a) a (x_actions x)\<rparr>"
    have "c' = set_ctx p ?x c2"
      using run x io new flow
      by (simp add: addAction_def go_eval get_ctx_Some modify_ctx_Some)
    moreover have "ctx_ok x" using ok x by (simp add: heap_ok_def)
    then have "ctx_ok ?x"
      using flow(4) mset_action_texts [OF mset_ranged_actions [OF fair, of x c]] new
      by (auto simp: ctx_ok_def update_absent map_of_eq_None_iff)
    moreover have "extends c c2" using ok flow(2) by (rule extends_more)
    moreover have "ctxs c2 p = Some x" using client_more(6) [OF flow(2)] x by simp
    ultimately show ?thesis
      by (simp add: extends_step [of c c2 p x])
  next
    case failed
    then have "c' = c1"
      using run x io new by (cases r1) (auto simp: addAction_def go_eval get_ctx_Some)
    with failed(2) ok show ?thesis by (simp add: extends_more)
  qed
qed

lemma mset_filter_actions:
  assumes "mset acts = mset (map snd as)" and "\<forall>(k, a) \<in> set as. ca_conjID a = k"
  shows "mset (map f (filter (\<lambda>a. ca_conjID a \<noteq> i) acts)) = mset (map (f \<circ> snd) (AList.delete i as))"
proof -
  have "mset (filter (\<lambda>a. ca_conjID a \<noteq> i) acts) = mset (filter (\<lambda>a. ca_conjID a \<noteq> i) (map snd as))"
    using assms(1) by (metis mset_filter)
  also have "filter (\<lambda>a. ca_conjID a \<noteq> i) (map snd as) = map snd (AList.delete i as)"
    using assms(2) by (induction as) (auto simp: AList.delete_eq)
  finally show ?thesis by (rule mset_action_texts)
qed

lemma deleteAction_extends:
  assumes fair: "fair_env env" and ok: "heap_ok c" and x: "ctxs c p = Some x"
    and i: "map_of (x_actions x) i \<noteq> None"
    and run: "deleteAction env p i c = (r, c')"
  shows "extends c c' \<and> r \<noteq> Panic"
proof -
  have xok: "ctx_ok x" using ok x by (simp add: heap_ok_def)
  with i obtain f where f: "x_flow x = Some f" by (cases "x_flow x") (auto simp: ctx_ok_def)
  let ?as = "AList.delete i (x_actions x)"
  have len: "length ?as = length (x_actions x) - 1"
    using xok i by (simp add: ctx_ok_def length_delete_present)
  show ?thesis
  proof (cases "length (x_actions x) = 1")
    case True
    obtain r1 c1 where del: "flow_Delete env f c = (r1, c1)" by (cases "flow_Delete env f c")
    note more = flow_op_more(3) [OF del]
    have x1: "ctxs c1 p = Some x" using client_more(6) [OF more] x by simp
    have e1: "extends c c1" using ok more by (rule extends_more)
    show ?thesis
    proof (cases r1)
      case (Ok u)
      let ?x = "x\<lparr>x_flow := None, x_actions := ?as\<rparr>"
      have "c' = set_ctx p ?x c1"
        using run x x1 f True del Ok
        by (simp add: deleteAction_def go_eval get_ctx_Some modify_ctx_Some)
      moreover have "?as = []" using len True by (metis diff_self_eq_0 length_0_conv)
      then have "ctx_ok ?x" by (simp add: ctx_ok_def)
      moreover have "r \<noteq> Panic"
        using run x x1 f True del Ok by (auto simp: deleteAction_def go_eval get_ctx_Some modify_ctx_Some)
      ultimately show ?thesis
        using e1 x1 by (simp add: extends_step [of c c1 p x])
    next
      case (Err e)
      with run x f True del e1 show ?thesis by (auto simp: deleteAction_def go_eval get_ctx_Some)
    next
      case Panic
      with flow_op_no_panic del show ?thesis by (metis fst_conv)
    qed
  next
    case False
    let ?acts = "filter (\<lambda>act. ca_conjID act \<noteq> i) (ranged_actions env x c)"
    obtain r1 c1 where io: "installOrUpdateFlow env p ?acts c = (r1, c1)"
      by (cases "installOrUpdateFlow env p ?acts c")
    show ?thesis using x io
    proof (cases rule: installOrUpdateFlow_cases)
      case none
      with f show ?thesis by simp
    next
      case (flow g c2)
      let ?x = "x\<lparr>x_flow := Some g, x_actions := ?as\<rparr>"
      have "c' = set_ctx p ?x c2"
        using run x io False flow
        by (simp add: deleteAction_def go_eval get_ctx_Some modify_ctx_Some)
      moreover have "x_actions x \<noteq> []" using i by auto
      then have "?as \<noteq> []" using len False by (cases "x_actions x") auto
      then have "ctx_ok ?x"
        using xok flow(4) mset_filter_actions [OF mset_ranged_actions [OF fair, of x c], of action_text i]
        by (auto simp: ctx_ok_def dest!: in_set_delete)
      moreover have "extends c c2" using ok flow(2) by (rule extends_more)
      moreover have "ctxs c2 p = Some x" using client_more(6) [OF flow(2)] x by simp
      moreover have "r = Ok ()"
        using run x io False flow
        by (simp add: deleteAction_def go_eval get_ctx_Some modify_ctx_Some)
      ultimately show ?thesis
        by (simp add: extends_step [of c c2 p x])
    next
      case failed
      then have "c' = c1 \<and> r \<noteq> Panic"
        using run x io False f by (cases r1) (auto simp: deleteAction_def go_eval get_ctx_Some)
      with failed(2) ok show ?thesis by (simp add: extends_more)
    qed
  qed
qed

lemma addDenyAllRule_extends:
  assumes "heap_ok c" and "ctxs c p = Some x" and "addDenyAllRule p i c = (r, c')"
  shows "extends c c' \<and> r = Ok ()"
proof -
  have "ctx_ok x" using assms by (simp add: heap_ok_def)
  then show ?thesis using assms
    by (auto simp: addDenyAllRule_def modify_ctx_Some intro!: extends_set_ctx)
qed

section \<open>Clauses\<close>

lemma install_drop_more:
  assumes "install_drop env dt m c = (r, c')"
  shows "switch.more c' = switch.more c"
proof (cases dt)
  case None
  with assms show ?thesis by (simp add: install_drop_def go_eval)
next
  case (Some t)
  let ?fo = "defaultDropFlow c (GetID t) (cm_matchKey m) (cm_matchValue m)"
  show ?thesis
  proof (cases ?fo)
    case None
    with assms Some show ?thesis by (simp add: install_drop_def go_eval)
  next
    case (Some f)
    obtain r1 c1 where add: "flow_Add env f c = (r1, c1)" by (cases "flow_Add env f c")
    with assms Some \<open>dt = Some t\<close> have "c' = c1"
      by (cases r1) (auto simp: install_drop_def go_eval)
    with flow_op_more(1) [OF add] show ?thesis by simp
  qed
qed

lemma alloc_ctx_extends:
  assumes ok: "heap_ok c" and alloc: "alloc_ctx m df c = (p, c')"
  shows "extends c c'" and "\<exists>x. ctxs c' p = Some x \<and> x_match x = m"
proof -
  have p: "p = next_ctx c" and ctxs: "ctxs c' = (ctxs c)(p \<mapsto> \<lparr>x_match = m, x_actions = [],
      x_denyAllRules = [], x_flow = None, x_dropFlow = df\<rparr>)" and n: "next_ctx c' = Suc p"
    and g: "globalConjMatchFlowCache c' = globalConjMatchFlowCache c"
    and pc: "policyCache c' = policyCache c"
    using alloc by (auto simp: alloc_ctx_def Let_def)
  have fresh: "ctxs c p = None"
    using ok p by (cases "ctxs c p") (auto simp: heap_ok_def)
  have le: "heap_le c c'" using fresh by (auto simp: heap_le_def pc ctxs)
  have "points_to c' (globalConjMatchFlowCache c')"
    using ok le g by (auto simp: heap_ok_def intro: points_to_mono)
  moreover have "ctx_ok x \<and> q < next_ctx c'" if "ctxs c' q = Some x" for q x
    using that ok p n by (fastforce simp: ctxs heap_ok_def ctx_ok_def less_Suc_eq split: if_splits)
  ultimately show "extends c c'" using le by (auto simp: extends_def heap_ok_def)
  show "\<exists>x. ctxs c' p = Some x \<and> x_match x = m" by (simp add: ctxs)
qed

lemma global_update_extends:
  assumes "extends c0 c" and "points_to c g"
  shows "extends c0 (c\<lparr>globalConjMatchFlowCache := g\<rparr>)"
  using assms by (auto simp: extends_def heap_ok_def heap_le_def points_to_def)

lemma find_or_create_extends:
  assumes ok: "heap_ok c" and run: "find_or_create_ctx env dt m c = (r, c')"
  shows "extends c c'" and "r = Ok p \<Longrightarrow> \<exists>x. ctxs c' p = Some x \<and> ctx_key x = generateGlobalMapKey m"
proof -
  let ?k = "generateGlobalMapKey m"
  have "extends c c' \<and> (\<forall>p. r = Ok p \<longrightarrow> (\<exists>x. ctxs c' p = Some x \<and> ctx_key x = ?k))"
  proof (cases "map_of (globalConjMatchFlowCache c) ?k")
    case (Some p)
    with run have "r = Ok p" "c' = c" by (auto simp: find_or_create_ctx_def Let_def go_eval)
    moreover have "\<exists>x. ctxs c p = Some x \<and> ctx_key x = ?k"
      using ok Some by (auto simp: heap_ok_def dest: points_to_Some)
    ultimately show ?thesis using ok by (auto simp: extends_refl)
  next
    case None
    obtain r1 c1 where d: "install_drop env dt m c = (r1, c1)" by (cases "install_drop env dt m c")
    have e1: "extends c c1" using ok install_drop_more [OF d] by (rule extends_more)
    show ?thesis
    proof (cases r1)
      case (Ok df)
      obtain p c2 where a: "alloc_ctx m df c1 = (p, c2)" by (cases "alloc_ctx m df c1")
      have "heap_ok c1" using e1 by (simp add: extends_def)
      note a' = alloc_ctx_extends [OF this a]
      then obtain x where x: "ctxs c2 p = Some x" "x_match x = m" by blast
      have e2: "extends c c2" using e1 a'(1) by (rule extends_trans)
      then have "points_to c2 (globalConjMatchFlowCache c2)" by (simp add: extends_def heap_ok_def)
      with x have "points_to c2 (AList.update ?k p (globalConjMatchFlowCache c2))"
        by (auto intro: points_to_update)
      with e2 have "extends c (c2\<lparr>globalConjMatchFlowCache := AList.update ?k p (globalConjMatchFlowCache c2)\<rparr>)"
        by (rule global_update_extends)
      moreover have "r = Ok p"
        "c' = c2\<lparr>globalConjMatchFlowCache := AList.update ?k p (globalConjMatchFlowCache c2)\<rparr>"
        using run None d Ok a by (auto simp: find_or_create_ctx_def Let_def go_eval)
      ultimately show ?thesis using x by auto
    qed (use run None d e1 in \<open>auto simp: find_or_create_ctx_def Let_def go_eval\<close>)
  qed
  then show "extends c c'" and "r = Ok p \<Longrightarrow> \<exists>x. ctxs c' p = Some x \<and> ctx_key x = ?k" by blast+
qed

fun clause_inv :: "client \<Rightarrow> 32 word \<Rightarrow> table option \<Rightarrow> clause_state \<Rightarrow> bool" where
  "clause_inv c0 r rt (c, cl) \<longleftrightarrow> extends c0 c \<and> clause_ok c r cl \<and> cl_ruleTable cl = rt"

lemma clause_inv_step:
  "clause_inv c0 r rt (c, cl) \<Longrightarrow> extends c c' \<Longrightarrow> clause_inv c0 r rt (c', cl)"
  by (auto simp: extends_def [of c c'] intro: extends_trans [of c0 c c'] clause_ok_mono)

lemma clause_inv_update:
  assumes "clause_inv c0 r rt (c, cl)" and "ctxs c p = Some x" and "ctx_key x = k"
  shows "clause_inv c0 r rt (c, cl\<lparr>cl_matches := AList.update k p (cl_matches cl)\<rparr>)"
  using assms by (auto simp: clause_ok_def intro: points_to_update)

lemma clause_inv_delete:
  "clause_inv c0 r rt (c, cl) \<Longrightarrow>
   clause_inv c0 r rt (c, cl\<lparr>cl_matches := AList.delete k (cl_matches cl)\<rparr>)"
  by (auto simp: clause_ok_def intro: points_to_delete)

lemma clause_inv_heap_ok: "clause_inv c0 r rt (c, cl) \<Longrightarrow> heap_ok c"
  by (simp add: extends_def)

lemma addConjunctiveMatchFlow_keeps [go_keeps]:
  assumes fair: "fair_env env"
  shows "keeps (clause_inv c0 r rt) (addConjunctiveMatchFlow env m)"
proof (rule keepsI)
  fix s assume "clause_inv c0 r rt s"
  then obtain c cl where s: "s = (c, cl)" and inv: "clause_inv c0 r rt (c, cl)" by (cases s) simp
  note ok = clause_inv_heap_ok [OF inv]
  let ?k = "generateGlobalMapKey m"
  show "clause_inv c0 r rt (snd (addConjunctiveMatchFlow env m s))"
  proof (cases "map_of (cl_matches cl) ?k")
    case (Some p)
    with inv show ?thesis by (simp add: addConjunctiveMatchFlow_def s go_eval Let_def)
  next
    case None
    obtain r1 c1 where f: "find_or_create_ctx env (cl_dropTable cl) m c = (r1, c1)"
      by (cases "find_or_create_ctx env (cl_dropTable cl) m c")
    note e1 = find_or_create_extends [OF ok f]
    have inv1: "clause_inv c0 r rt (c1, cl)" using clause_inv_step [OF inv e1(1)] .
    show ?thesis
    proof (cases r1)
      case (Ok p)
      from e1(2) [OF Ok] obtain x where x: "ctxs c1 p = Some x" "ctx_key x = ?k" by blast
      let ?m = "if 1 < ca_nClause (cl_action cl) then addAction env p (cl_action cl)
        else addDenyAllRule p (ca_conjID (cl_action cl))"
      obtain r2 c2 where a: "?m c1 = (r2, c2)" by (cases "?m c1")
      note ok1 = clause_inv_heap_ok [OF inv1]
      have e2: "extends c1 c2"
        using addAction_extends [OF fair ok1 x(1)] addDenyAllRule_extends [OF ok1 x(1)] a
        by (auto split: if_splits)
      then obtain x2 where x2: "ctxs c2 p = Some x2" "ctx_key x2 = ?k"
        using extends_ctx [OF e2 x(1)] x(2) by auto
      have inv2: "clause_inv c0 r rt (c2, cl)" using clause_inv_step [OF inv1 e2] .
      show ?thesis
        using inv2 clause_inv_update [OF inv2 x2] None f Ok a
        by (cases r2) (auto simp: addConjunctiveMatchFlow_def s go_eval Let_def)
    qed (use inv1 None f in \<open>auto simp: addConjunctiveMatchFlow_def s go_eval Let_def\<close>)
  qed
qed

lemma leave_ctx_extends:
  assumes fair: "fair_env env" and ok: "heap_ok c" and x: "ctxs c p = Some x"
    and run: "leave_ctx env a p c = (r, c')"
  shows "extends c c' \<and> r \<noteq> Panic"
proof -
  have "ctx_ok x" using ok x by (simp add: heap_ok_def)
  then have deny: "extends c (set_ctx p (x\<lparr>x_denyAllRules := d\<rparr>) c)" for d
    using extends_set_ctx [OF ok x] by simp
  show ?thesis
    using run x deleteAction_extends [OF fair ok x] deny extends_refl [OF ok]
    by (auto simp: leave_ctx_def go_eval get_ctx_Some modify_ctx_Some split: if_splits)
qed

lemma drop_empty_ctx_extends:
  assumes ok: "heap_ok c" and x: "ctxs c p = Some x"
    and run: "drop_empty_ctx env p c = (r, c')"
  shows "extends c c' \<and> r \<noteq> Panic"
proof (cases "x_actions x = [] \<and> x_denyAllRules x = []")
  case False
  with run x show ?thesis
    using extends_refl [OF ok] by (auto simp: drop_empty_ctx_def go_eval get_ctx_Some)
next
  case True
  let ?forget = "\<lambda>c. c\<lparr>globalConjMatchFlowCache := AList.delete (ctx_key x) (globalConjMatchFlowCache c)\<rparr>"
  have forget: "extends c (?forget d)" if "extends c d" for d
    using that by (intro global_update_extends points_to_delete) (auto simp: extends_def heap_ok_def)
  show ?thesis
  proof (cases "x_dropFlow x")
    case None
    with run x True have "c' = ?forget c" "r = Ok ()"
      by (auto simp: drop_empty_ctx_def go_eval get_ctx_Some)
    then show ?thesis using forget [OF extends_refl [OF ok]] by simp
  next
    case (Some f)
    obtain r1 c1 where del: "flow_Delete env f c = (r1, c1)" by (cases "flow_Delete env f c")
    note more = flow_op_more(3) [OF del]
    have x1: "ctxs c1 p = Some x" using client_more(6) [OF more] x by simp
    have e1: "extends c c1" using ok more by (rule extends_more)
    have "ctx_ok x" using ok x by (simp add: heap_ok_def)
    then have "extends c (set_ctx p (x\<lparr>x_dropFlow := None\<rparr>) c1)"
      using e1 x1 by (simp add: extends_step)
    from forget [OF this] show ?thesis
      using run x x1 True Some del e1 flow_op_no_panic(3) [of env f c]
      by (cases r1) (auto simp: drop_empty_ctx_def go_eval get_ctx_Some modify_ctx_Some)
  qed
qed

text \<open>Deleting a match keeps the invariant and cannot panic.\<close>

lemma deleteConjunctiveMatchFlow_inv:
  assumes fair: "fair_env env" and inv: "clause_inv c0 r rt (c, cl)"
  shows "clause_inv c0 r rt (snd (deleteConjunctiveMatchFlow env k (c, cl))) \<and>
    fst (deleteConjunctiveMatchFlow env k (c, cl)) \<noteq> Panic"
proof (cases "map_of (cl_matches cl) k")
  case None
  with inv show ?thesis by (simp add: deleteConjunctiveMatchFlow_def go_eval)
next
  case (Some p)
  note ok = clause_inv_heap_ok [OF inv]
  from inv have "points_to c (cl_matches cl)" by (simp add: clause_ok_def)
  with Some obtain x where x: "ctxs c p = Some x" by (blast dest: points_to_Some)
  obtain r1 c1 where l: "leave_ctx env (cl_action cl) p c = (r1, c1)"
    by (cases "leave_ctx env (cl_action cl) p c")
  have e1: "extends c c1" "r1 \<noteq> Panic" using leave_ctx_extends [OF fair ok x l] by simp_all
  have inv1: "clause_inv c0 r rt (c1, cl)" using clause_inv_step [OF inv e1(1)] .
  show ?thesis
  proof (cases r1)
    case (Ok u)
    from extends_ctx [OF e1(1) x] obtain x1 where x1: "ctxs c1 p = Some x1" by blast
    obtain r2 c2 where d: "drop_empty_ctx env p c1 = (r2, c2)" by (cases "drop_empty_ctx env p c1")
    have e2: "extends c1 c2" "r2 \<noteq> Panic"
      using drop_empty_ctx_extends [OF clause_inv_heap_ok [OF inv1] x1 d] by simp_all
    have inv2: "clause_inv c0 r rt (c2, cl)" using clause_inv_step [OF inv1 e2(1)] .
    show ?thesis
      using Some l Ok d inv2 e2(2) clause_inv_delete [OF inv2, of k]
      by (cases r2) (auto simp: deleteConjunctiveMatchFlow_def go_eval)
  qed (use Some l inv1 e1 in \<open>auto simp: deleteConjunctiveMatchFlow_def go_eval\<close>)
qed

lemma deleteConjunctiveMatchFlow_safe [go_keeps]:
  assumes "fair_env env"
  shows "safe (clause_inv c0 r rt) (deleteConjunctiveMatchFlow env k)"
proof (rule safeI)
  fix s assume "clause_inv c0 r rt s"
  then show "clause_inv c0 r rt (snd (deleteConjunctiveMatchFlow env k s)) \<and>
      fst (deleteConjunctiveMatchFlow env k s) \<noteq> Panic"
    using deleteConjunctiveMatchFlow_inv [OF assms] by (cases s) blast
qed

lemma deleteConjunctiveMatchFlow_keeps [go_keeps]:
  "fair_env env \<Longrightarrow> keeps (clause_inv c0 r rt) (deleteConjunctiveMatchFlow env k)"
  by (intro safe_keeps deleteConjunctiveMatchFlow_safe)

lemma clause_loops_keep [go_keeps]:
  assumes "fair_env env"
  shows "keeps (clause_inv c0 r rt) (addAddrFlows env ty as)"
    and "keeps (clause_inv c0 r rt) (addServiceFlows env ps)"
    and "keeps (clause_inv c0 r rt) (deleteAddrFlows env ty as)"
    and "safe (clause_inv c0 r rt) (deleteAllMatches env)"
  unfolding addAddrFlows_def addServiceFlows_def deleteAddrFlows_def deleteAllMatches_def
    case_prod_unfold
  by (intro go_keeps assms)+

section \<open>Rules\<close>

lemma set_slot_simps:
  "pc_id (set_slot slot cl pc) = pc_id pc"
  "slot_clause slot' (set_slot slot cl pc) = (if slot' = slot then Some cl else slot_clause slot' pc)"
  by (cases slot; cases slot'; simp)+

lemma slot_ok:
  "np_ok c \<Longrightarrow> map_of (policyCache c) r = Some pc \<Longrightarrow> slot_clause slot pc = Some cl \<Longrightarrow> clause_ok c r cl"
  by (fastforce simp: np_ok_def policies_ok_def dest!: map_of_SomeD)

lemma policies_ok_update:
  assumes "policies_ok c" and "pc_id pc = r"
    and "\<And>slot cl. slot_clause slot pc = Some cl \<Longrightarrow> clause_ok c r cl"
  shows "policies_ok (c\<lparr>policyCache := AList.update r pc (policyCache c)\<rparr>)"
proof -
  let ?c = "c\<lparr>policyCache := AList.update r pc (policyCache c)\<rparr>"
  have same: "clause_ok ?c = clause_ok c" by (simp add: fun_eq_iff clause_ok_def points_to_def)
  show ?thesis using assms unfolding policies_ok_def same
    by (auto dest!: in_set_update)
qed

lemma policies_ok_delete:
  "policies_ok c \<Longrightarrow> policies_ok (c\<lparr>policyCache := AList.delete r (policyCache c)\<rparr>)"
proof -
  assume ok: "policies_ok c"
  let ?c = "c\<lparr>policyCache := AList.delete r (policyCache c)\<rparr>"
  have same: "clause_ok ?c = clause_ok c" by (simp add: fun_eq_iff clause_ok_def points_to_def)
  show ?thesis using ok unfolding policies_ok_def same by (auto dest!: in_set_delete)
qed

lemma heap_ok_policyCache [simp]: "heap_ok (c\<lparr>policyCache := ps\<rparr>) = heap_ok c"
  by (simp add: heap_ok_def points_to_def)

lemma on_cached_clause_ok:
  assumes ok: "np_ok c" and pc: "map_of (policyCache c) r = Some pc"
    and cl: "slot_clause slot pc = Some cl"
    and m: "keeps (clause_inv c r (cl_ruleTable cl)) m"
  shows "np_ok (snd (on_cached_clause r slot cl m c))"
proof -
  obtain res c' cl' where run: "m (c, cl) = (res, (c', cl'))" by (metis prod.exhaust)
  have "clause_inv c r (cl_ruleTable cl) (c, cl)"
    using ok slot_ok [OF ok pc cl] by (simp add: extends_refl np_ok_def)
  with m run have inv: "clause_inv c r (cl_ruleTable cl) (c', cl')" by (metis keepsE)
  then have ok': "np_ok c'" using extends_np_ok [OF ok] by simp
  have "policyCache c' = policyCache c" using inv by (simp add: extends_def heap_le_def)
  with pc have pc': "map_of (policyCache c') r = Some pc" by simp
  have "pc_id pc = r" using ok pc by (fastforce simp: np_ok_def policies_ok_def dest!: map_of_SomeD)
  moreover have "clause_ok c' r d" if "slot_clause slot' (set_slot slot cl' pc) = Some d" for slot' d
    using that inv slot_ok [OF ok' pc', of slot' d] by (auto simp: set_slot_simps split: if_splits)
  ultimately have "policies_ok (c'\<lparr>policyCache := AList.update r (set_slot slot cl' pc) (policyCache c')\<rparr>)"
    using ok' by (intro policies_ok_update) (auto simp: np_ok_def set_slot_simps(1))
  then have "np_ok (put_clause r slot cl' c')"
    using ok' pc' by (simp add: put_clause_def np_ok_def)
  then show ?thesis by (simp add: on_cached_clause_def run)
qed

lemma on_cached_clause_no_panic:
  assumes ok: "np_ok c" and pc: "map_of (policyCache c) r = Some pc"
    and cl: "slot_clause slot pc = Some cl"
    and m: "safe (clause_inv c r (cl_ruleTable cl)) m"
  shows "fst (on_cached_clause r slot cl m c) \<noteq> Panic"
proof -
  have "clause_inv c r (cl_ruleTable cl) (c, cl)"
    using ok slot_ok [OF ok pc cl] by (simp add: extends_refl np_ok_def)
  with m have "fst (m (c, cl)) \<noteq> Panic" by (simp add: safe_def)
  then show ?thesis by (simp add: on_cached_clause_def case_prod_unfold)
qed

lemma np_ok_flow_ops [go_keeps]:
  "keeps np_ok (flow_Add env f)" "keeps np_ok (flow_Modify env f)" "keeps np_ok (flow_Delete env f)"
proof -
  have "keeps np_ok m" if "\<And>c r c'. m c = (r, c') \<Longrightarrow> switch.more c' = switch.more (c :: client)"
    for m :: "(client, unit) go"
  proof (rule keepsI)
    fix c assume c: "np_ok c"
    obtain r c' where run: "m c = (r, c')" by (cases "m c")
    have "extends c c'" using extends_more [OF _ that [OF run]] c by (simp add: np_ok_def)
    with extends_np_ok [OF c] run show "np_ok (snd (m c))" by simp
  qed
  then show "keeps np_ok (flow_Add env f)" "keeps np_ok (flow_Modify env f)"
    "keeps np_ok (flow_Delete env f)"
    using flow_op_more [of env f] by blast+
qed

lemma safe_flow_ops [go_keeps]:
  "keeps I (flow_Add env f) \<Longrightarrow> safe I (flow_Add env f)"
  "keeps I (flow_Modify env f) \<Longrightarrow> safe I (flow_Modify env f)"
  "keeps I (flow_Delete env f) \<Longrightarrow> safe I (flow_Delete env f)"
  by (simp_all add: safe_def keeps_def flow_op_no_panic)

lemma delete_clause_safe [go_keeps]:
  assumes "fair_env env"
  shows "safe np_ok (delete_clause env r slot)"
proof (rule safeI)
  fix c assume ok: "np_ok c"
  let ?cl = "Option.bind (getPolicyRuleConjunction c r) (slot_clause slot)"
  show "np_ok (snd (delete_clause env r slot c)) \<and> fst (delete_clause env r slot c) \<noteq> Panic"
  proof (cases ?cl)
    case None
    with ok show ?thesis by (simp add: delete_clause_def go_eval)
  next
    case (Some cl)
    then obtain pc where pc: "map_of (policyCache c) r = Some pc" and cl: "slot_clause slot pc = Some cl"
      by (auto simp: getPolicyRuleConjunction_def bind_eq_Some_conv)
    note safe = clause_loops_keep(4) [OF assms, of c r "cl_ruleTable cl"]
    have "delete_clause env r slot c = on_cached_clause r slot cl (deleteAllMatches env) c"
      using Some by (simp add: delete_clause_def go_eval)
    then show ?thesis
      using on_cached_clause_ok [OF ok pc cl safe_keeps [OF safe]]
        on_cached_clause_no_panic [OF ok pc cl safe] by simp
  qed
qed

lemma UninstallPolicyRuleFlows_safe:
  assumes "fair_env env"
  shows "safe np_ok (UninstallPolicyRuleFlows env r)"
proof -
  have "safe np_ok (modify (\<lambda>c. c\<lparr>policyCache := AList.delete r (policyCache c)\<rparr>))"
    by (rule safeI) (simp add: modify_eval np_ok_def policies_ok_delete)
  then show ?thesis unfolding UninstallPolicyRuleFlows_def
    by (intro go_keeps assms) (auto intro!: go_keeps assms split: option.split)
qed

lemma on_address_clause_keeps:
  assumes "\<And>c r rt. keeps (clause_inv c r rt) m"
  shows "keeps np_ok (on_address_clause r ty m)"
proof (rule keepsI)
  fix c assume ok: "np_ok c"
  show "np_ok (snd (on_address_clause r ty m c))"
    using ok on_cached_clause_ok [OF ok _ _ assms]
    by (auto simp: on_address_clause_def go_eval getPolicyRuleConjunction_def split: option.split)
qed

lemma AddPolicyRuleAddress_keeps:
  "fair_env env \<Longrightarrow> keeps np_ok (AddPolicyRuleAddress env r ty as)"
  unfolding AddPolicyRuleAddress_def by (intro on_address_clause_keeps go_keeps)

lemma DeletePolicyRuleAddress_keeps:
  "fair_env env \<Longrightarrow> keeps np_ok (DeletePolicyRuleAddress env r ty as)"
  unfolding DeletePolicyRuleAddress_def by (intro on_address_clause_keeps go_keeps)

text \<open>
  While a rule is being installed its finished clauses are facts about the heap that later steps
  keep.
\<close>

definition heap_stable :: "(client \<Rightarrow> bool) \<Rightarrow> bool" where
  "heap_stable K \<longleftrightarrow> (\<forall>c c'. K c \<longrightarrow> heap_le c c' \<longrightarrow> K c')"

definition slot_clause_ok :: "32 word \<Rightarrow> clause option \<Rightarrow> client \<Rightarrow> bool" where
  "slot_clause_ok i cl c \<longleftrightarrow> (\<forall>d. cl = Some d \<longrightarrow> clause_ok c i d)"

lemma heap_stable_intros:
  "heap_stable (\<lambda>_. True)" "heap_stable (slot_clause_ok i cl)"
  "heap_stable K \<Longrightarrow> heap_stable L \<Longrightarrow> heap_stable (\<lambda>c. K c \<and> L c)"
  unfolding heap_stable_def slot_clause_ok_def by (blast intro: clause_ok_mono)+

lemma install_clause_triple:
  assumes add: "\<And>xs c0 rt. keeps (clause_inv c0 i rt) (add xs)" and K: "heap_stable K"
  shows "triple np_ok (\<lambda>c. np_ok c \<and> K c)
    (install_clause items (newClause i n k rt dt) add)
    (\<lambda>cl c. np_ok c \<and> K c \<and> slot_clause_ok i cl c)"
proof (rule tripleI)
  fix c r c'
  assume pre: "np_ok c \<and> K c"
    and run: "install_clause items (newClause i n k rt dt) add c = (r, c')"
  show "case r of Ok cl \<Rightarrow> np_ok c' \<and> K c' \<and> slot_clause_ok i cl c' | _ \<Rightarrow> np_ok c'"
  proof (cases items)
    case None
    with run pre show ?thesis by (auto simp: install_clause_def go_eval slot_clause_ok_def)
  next
    case (Some xs)
    let ?cl = "newClause i n k rt dt"
    obtain r1 c1 cl1 where m: "add xs (c, ?cl) = (r1, (c1, cl1))" by (metis prod.exhaust)
    have "clause_inv c i rt (c, ?cl)"
      using pre by (simp add: newClause_def clause_ok_def points_to_def np_ok_def extends_refl)
    with add m have inv: "clause_inv c i rt (c1, cl1)" by (metis keepsE)
    then have "np_ok c1" and "heap_le c c1"
      using extends_np_ok [of c c1] pre by (auto simp: extends_def)
    moreover have "K c1" using K pre \<open>heap_le c c1\<close> by (auto simp: heap_stable_def)
    ultimately show ?thesis
      using run Some m inv
      by (cases r1) (auto simp: install_clause_def on_new_clause_def go_eval slot_clause_ok_def)
  qed
qed

lemma InstallPolicyRuleFlows_keeps:
  assumes fair: "fair_env env"
  shows "keeps np_ok (InstallPolicyRuleFlows env rule)"
proof -
  let ?i = "pr_ID rule"
  note add = clause_loops_keep(1) [OF fair] clause_loops_keep(2) [OF fair]
  let ?pc = "\<lambda>f t v fs. \<lparr>pc_id = ?i, pc_fromClause = f, pc_toClause = t, pc_serviceClause = v,
    pc_actionFlows = fs\<rparr>"
  let ?store = "\<lambda>f t fs v. modify (\<lambda>c. c\<lparr>policyCache := AList.update ?i (?pc f t v fs) (policyCache c)\<rparr>)"
  let ?from = "\<lambda>fn n rt dt. install_clause (pr_From rule) (newClause ?i fn n rt dt)
    (addAddrFlows env SrcAddress)"
  let ?to = "\<lambda>tn n rt dt. install_clause (pr_To rule) (newClause ?i tn n rt dt)
    (addAddrFlows env DstAddress)"
  let ?service = "\<lambda>sn n rt. install_clause (pr_Service rule) (newClause ?i sn n rt None)
    (addServiceFlows env)"
  have store: "np_ok (c\<lparr>policyCache := AList.update ?i (?pc f t v fs) (policyCache c)\<rparr>)"
    if ok: "np_ok c" and cl: "slot_clause_ok ?i f c" "slot_clause_ok ?i t c" "slot_clause_ok ?i v c"
    for c f t v fs
  proof -
    have "clause_ok c ?i d" if "slot_clause slot (?pc f t v fs) = Some d" for slot d
      using that cl by (cases slot) (auto simp: slot_clause_ok_def)
    with ok show ?thesis by (auto simp: np_ok_def intro!: policies_ok_update)
  qed
  have 3: "triple np_ok (\<lambda>c. np_ok c \<and> slot_clause_ok ?i f c \<and> slot_clause_ok ?i t c)
      (gbind (?service sn n rt) (?store f t fs)) (\<lambda>_. np_ok)" for sn n rt f t fs
    by (rule triple_gbind [OF install_clause_triple [OF add(2) heap_stable_intros(3)
            [OF heap_stable_intros(2) heap_stable_intros(2)]] triple_modify]) (blast intro: store)
  have 2: "triple np_ok (\<lambda>c. np_ok c \<and> slot_clause_ok ?i f c)
      (gbind (?to tn n rt dt) (\<lambda>t. gbind (?service sn n rt) (?store f t fs))) (\<lambda>_. np_ok)"
    for tn dt sn n rt f fs
    by (rule triple_gbind [OF install_clause_triple [OF add(1) heap_stable_intros(2)]
          triple_pre [OF 3]]) blast
  have 1: "triple np_ok np_ok (gbind (?from fn n rt dt) (\<lambda>f.
      gbind (?to tn n rt dt') (\<lambda>t. gbind (?service sn n rt) (?store f t fs)))) (\<lambda>_. np_ok)"
    for fn dt tn dt' sn n rt fs
    by (rule triple_gbind [OF triple_pre [OF install_clause_triple [OF add(1) heap_stable_intros(1)]]
          triple_pre [OF 2]]) blast+
  show ?thesis unfolding InstallPolicyRuleFlows_def case_prod_unfold
    by (intro go_keeps keeps_triple 1)
qed

end
