(* ===== verification/Reachability.thy ===== *)
theory Reachability
  imports PolicyHeap
begin

text \<open>
  The methods of the \<open>Client\<close> interface as calls, the states a sequence of calls can reach however
  each ends, and the invariants of all of them. Two contracts say what a state predicate must not
  look at for client.go or network_policy.go to keep it.
\<close>

section \<open>Calls\<close>

datatype call =
    CInitialize
  | CInstallNodeFlows string mac ip ipnet ip
  | CUninstallNodeFlows string
  | CInstallTunFlow string "32 word" ip
  | CUninstallTunFlow
  | CInstallARPFlow "string list"
  | CInstallLocalIPFlow string string
  | CInstallCorednsFlow "32 word" string ip
  | CUninstallCorednsFlow string
  | CInstallPodFlows string ip mac mac "32 word"
  | CUninstallPodFlows string
  | CInstallClusterServiceCIDRFlows ipnet "32 word"
  | CInstallGatewayFlows ip mac "32 word"
  | CInstallTunnelFlows "32 word"
  | CInstallPolicyRuleFlows PolicyRule
  | CUninstallPolicyRuleFlows "32 word"
  | CAddPolicyRuleAddress "32 word" address_type "address list"
  | CDeletePolicyRuleAddress "32 word" address_type "address list"
  | CDisconnect

fun invoke :: "env \<Rightarrow> call \<Rightarrow> (client, unit) go" where
  "invoke env CInitialize = Initialize env"
| "invoke env (CInstallNodeFlows h m g n t) = InstallNodeFlows env h m g n t"
| "invoke env (CUninstallNodeFlows h) = UninstallNodeFlows env h"
| "invoke env (CInstallTunFlow d p t) = InstallTunFlow env d p t"
| "invoke env CUninstallTunFlow = UninstallTunFlow env"
| "invoke env (CInstallARPFlow ds) = InstallARPFlow env ds"
| "invoke env (CInstallLocalIPFlow n l) = InstallLocalIPFlow env n l"
| "invoke env (CInstallCorednsFlow p i s) = InstallCorednsFlow env p i s"
| "invoke env (CUninstallCorednsFlow i) = UninstallCorednsFlow env i"
| "invoke env (CInstallPodFlows i a m g p) = InstallPodFlows env i a m g p"
| "invoke env (CUninstallPodFlows i) = UninstallPodFlows env i"
| "invoke env (CInstallClusterServiceCIDRFlows n p) = InstallClusterServiceCIDRFlows env n p"
| "invoke env (CInstallGatewayFlows a m p) = InstallGatewayFlows env a m p"
| "invoke env (CInstallTunnelFlows p) = InstallTunnelFlows env p"
| "invoke env (CInstallPolicyRuleFlows r) = InstallPolicyRuleFlows env r"
| "invoke env (CUninstallPolicyRuleFlows i) = UninstallPolicyRuleFlows env i"
| "invoke env (CAddPolicyRuleAddress i ty as) = AddPolicyRuleAddress env i ty as"
| "invoke env (CDeletePolicyRuleAddress i ty as) = DeletePolicyRuleAddress env i ty as"
| "invoke env CDisconnect = Disconnect"

text \<open>A client as it is constructed: no command run, nothing cached, over any pipeline.\<close>

definition fresh_client :: "client \<Rightarrow> bool" where
  "fresh_client c \<longleftrightarrow> hist c = [] \<and> (\<forall>t. tstat c t = new_status) \<and> (\<forall>cat. caches c cat = []) \<and>
     policyCache c = [] \<and> globalConjMatchFlowCache c = [] \<and> (\<forall>p. ctxs c p = None) \<and> next_ctx c = 0"

inductive reachable :: "env \<Rightarrow> client \<Rightarrow> client \<Rightarrow> bool" for env c0 where
  start: "fresh_client c0 \<Longrightarrow> reachable env c0 c0"
| step: "reachable env c0 c \<Longrightarrow> invoke env k c = (r, c') \<Longrightarrow> reachable env c0 c'"

inductive_cases reachableE: "reachable env c0 c"

text \<open>Executable form: the state after a list of calls.\<close>

definition after_calls :: "env \<Rightarrow> call list \<Rightarrow> client \<Rightarrow> client" where
  "after_calls env ks c = fold (\<lambda>k c. snd (invoke env k c)) ks c"

lemma reachable_after_calls:
  "reachable env c0 c \<Longrightarrow> reachable env c0 (after_calls env ks c)"
proof (induction ks arbitrary: c)
  case Nil
  then show ?case by (simp add: after_calls_def)
next
  case (Cons k ks)
  have "reachable env c0 (snd (invoke env k c))"
    using Cons.prems by (rule reachable.step [of _ _ _ k "fst (invoke env k c)"]) simp
  from Cons.IH [OF this] show ?case by (simp add: after_calls_def)
qed

lemma reachable_iff:
  "reachable env c0 c \<longleftrightarrow> fresh_client c0 \<and> (\<exists>ks. c = after_calls env ks c0)"
proof
  assume "reachable env c0 c"
  then show "fresh_client c0 \<and> (\<exists>ks. c = after_calls env ks c0)"
  proof induction
    case start
    then show ?case by (auto simp: after_calls_def intro: exI [of _ "[]"])
  next
    case (step c k r c')
    then obtain ks where "c = after_calls env ks c0" by blast
    then have "c' = after_calls env (ks @ [k]) c0" using step by (simp add: after_calls_def)
    with step show ?case by blast
  qed
next
  assume "fresh_client c0 \<and> (\<exists>ks. c = after_calls env ks c0)"
  then show "reachable env c0 c" using reachable_after_calls [OF reachable.start] by blast
qed

section \<open>What a state predicate must not look at\<close>

locale flow_kept =
  fixes I :: "client \<Rightarrow> bool" and env :: env
  assumes keeps_flow: "keeps I (flow_Add env f)" "keeps I (flow_Modify env f)"
    "keeps I (flow_Delete env f)"
    and keeps_show: "keeps I (run env (OfctlShow b))"

text \<open>Client.go keeps a predicate that the flow caches cannot change.\<close>

locale cache_blind = flow_kept +
  assumes caches_update: "I c \<Longrightarrow> I (c\<lparr>caches := x\<rparr>)"
begin

lemma keeps_client_ops:
  "keeps I (client_Add env f)" "keeps I (client_Delete env f)"
  unfolding client_Add_def client_Delete_def by (rule keeps_flow)+

lemma cache_updates:
  "I c \<Longrightarrow> I (set_flows cat key fc c)" "I c \<Longrightarrow> I (load_or_store cat key c)" "I c \<Longrightarrow> I (drop_key cat key c)"
  by (simp_all add: set_flows_def load_or_store_def drop_key_def caches_update)

lemma keeps_addMissingFlows: "keeps I (addMissingFlows (client_Add env) cat key fs)"
  unfolding addMissingFlows_def add_missing_def
  by (intro go_keeps keeps_client_ops) (auto intro!: keepsI simp: modify_eval cache_updates)

lemma keeps_deleteFlows: "keeps I (deleteFlows env (client_Delete env) cat key)"
proof (rule keepsI)
  fix c assume c: "I c"
  show "I (snd (deleteFlows env (client_Delete env) cat key c))"
  proof (cases "map_of (caches c cat) key")
    case None
    with c show ?thesis by (simp add: deleteFlows_def)
  next
    case (Some fc)
    have "keeps I (delete_one (client_Delete env) cat key e)" for e
      unfolding delete_one_def case_prod_unfold
      by (intro go_keeps keeps_client_ops) (auto intro!: keepsI simp: modify_eval cache_updates)
    then have "keeps I (gfor (go_range env c fc) (delete_one (client_Delete env) cat key))"
      by (intro go_keeps)
    from keepsD [OF this c] Some show ?thesis
      by (auto simp: deleteFlows_def go_eval cache_updates split: prod.split)
  qed
qed

end

text \<open>What is known of the two loops gives every method of client.go.\<close>

locale client_go = flow_kept +
  assumes loop_add: "keeps I (addMissingFlows (client_Add env) cat key fs)"
    and loop_delete: "keeps I (deleteFlows env (client_Delete env) cat key)"
begin

lemma keeps_with_flows:
  "(\<And>fs. keeps I (k fs)) \<Longrightarrow> keeps I (with_flows mk k)"
  unfolding with_flows_def by (intro go_keeps)

lemma keeps_add_flow: "keeps I (add_flow env mk)"
  unfolding add_flow_def client_Add_def by (intro go_keeps keeps_flow)

lemma keeps_connect_loop: "keeps I (connect_loop env nm m n)"
  by (induction n) (auto intro!: go_keeps keeps_show)

lemma keeps_Connect: "keeps I (\<lambda>c. Connect env (bridge_of c) n c)"
  by (rule keepsI) (simp add: Connect_def keepsD [OF keeps_connect_loop])

lemma keeps_Initialize: "keeps I (Initialize env)"
  unfolding Initialize_def add_or_wrap_def by (intro go_keeps keeps_Connect keeps_add_flow)

lemma keeps_client_go:
  "keeps I (InstallNodeFlows env h m g n t)" "keeps I (UninstallNodeFlows env h)"
  "keeps I (InstallTunFlow env d p a)" "keeps I (UninstallTunFlow env)"
  "keeps I (InstallARPFlow env ds)" "keeps I (InstallLocalIPFlow env nn l)"
  "keeps I (InstallCorednsFlow env p i a)" "keeps I (UninstallCorednsFlow env i)"
  "keeps I (InstallPodFlows env i a m m' p)" "keeps I (UninstallPodFlows env i)"
  "keeps I (InstallClusterServiceCIDRFlows env n p)" "keeps I (InstallGatewayFlows env a m p)"
  "keeps I (InstallTunnelFlows env p)" "keeps I Disconnect"
  unfolding InstallNodeFlows_def UninstallNodeFlows_def InstallTunFlow_def UninstallTunFlow_def
    InstallARPFlow_def InstallLocalIPFlow_def InstallCorednsFlow_def UninstallCorednsFlow_def
    InstallPodFlows_def UninstallPodFlows_def InstallClusterServiceCIDRFlows_def
    InstallGatewayFlows_def InstallTunnelFlows_def Disconnect_def bridge_Disconnect_def
    case_prod_unfold
  by (auto intro!: go_keeps keeps_with_flows loop_add loop_delete
      keeps_add_flow split: sum.split)

end

sublocale cache_blind \<subseteq> client_go
  by unfold_locales (rule keeps_addMissingFlows keeps_deleteFlows)+

text \<open>
  The clause operations keep a predicate that contexts cannot change; all of network_policy.go
  keeps it if the cache of rules cannot change it either.
\<close>

locale context_blind = flow_kept +
  assumes ctxs_update: "I c \<Longrightarrow> I (c\<lparr>ctxs := x\<rparr>)"
    and next_ctx_update: "I c \<Longrightarrow> I (c\<lparr>next_ctx := n\<rparr>)"
    and global_update: "I c \<Longrightarrow> I (c\<lparr>globalConjMatchFlowCache := g\<rparr>)"
begin

definition I' :: "clause_state \<Rightarrow> bool" where
  "I' s = I (fst s)"

lemma keeps_modify_ctx: "keeps I (modify_ctx p f)"
  unfolding modify_ctx_def by (rule keepsI) (simp add: modify_eval ctxs_update)

lemma keeps_get_ctx: "keeps I (get_ctx p)"
  unfolding get_ctx_def by (intro go_keeps)

lemma keeps_installOrUpdateFlow: "keeps I (installOrUpdateFlow env p acts)"
  unfolding installOrUpdateFlow_def
  by (auto intro!: go_keeps keeps_get_ctx keeps_modify_ctx keeps_flow simp: Let_def split: option.split)

lemma keeps_context_ops:
  "keeps I (addAction env p a)" "keeps I (deleteAction env p i)" "keeps I (addDenyAllRule p i)"
  "keeps I (leave_ctx env a p)"
  unfolding addAction_def deleteAction_def addDenyAllRule_def leave_ctx_def
  by (auto intro!: go_keeps keeps_get_ctx keeps_modify_ctx keeps_installOrUpdateFlow keeps_flow)

lemma keeps_alloc: "keeps I (\<lambda>c. case alloc_ctx m df c of (p, c') \<Rightarrow> (Ok p, c'))"
proof (rule keepsI)
  fix c assume "I c"
  then have "I (c\<lparr>ctxs := x, next_ctx := n\<rparr>)" for x n
    using next_ctx_update [OF ctxs_update] by simp
  then show "I (snd (case alloc_ctx m df c of (p, c') \<Rightarrow> (Ok p, c')))"
    by (simp add: alloc_ctx_def Let_def)
qed

lemma keeps_install_drop: "keeps I (install_drop env dt m)"
  unfolding install_drop_def by (intro go_keeps keeps_flow)

lemma keeps_find_or_create: "keeps I (find_or_create_ctx env dt m)"
  unfolding find_or_create_ctx_def Let_def
  by (intro go_keeps keeps_install_drop keeps_alloc) (rule keepsI, simp add: modify_eval global_update)

lemma keeps_drop_empty: "keeps I (drop_empty_ctx env p)"
proof -
  have "keeps I (modify (\<lambda>c. c\<lparr>globalConjMatchFlowCache := g c\<rparr>))" for g
    by (rule keepsI) (simp add: modify_eval global_update)
  then show ?thesis unfolding drop_empty_ctx_def
    by (intro go_keeps keeps_get_ctx keeps_modify_ctx keeps_flow)
qed

lemma keeps_on_fst: "keeps I m \<Longrightarrow> keeps I' (on_fst m)"
  by (auto simp: keeps_def I'_def on_fst_def split: prod.split)

lemma keeps_set_clause: "keeps I' (modify (\<lambda>(c, cl). (c, f cl)))"
  by (rule keepsI) (auto simp: I'_def modify_eval)

lemma keeps_clause_ops:
  "keeps I' (addConjunctiveMatchFlow env m)" "keeps I' (deleteConjunctiveMatchFlow env k)"
  unfolding addConjunctiveMatchFlow_def deleteConjunctiveMatchFlow_def Let_def
  by (auto intro!: go_keeps keeps_on_fst keeps_find_or_create keeps_context_ops keeps_drop_empty
      keeps_set_clause)

lemma keeps_clause_loops:
  "keeps I' (addAddrFlows env ty as)" "keeps I' (addServiceFlows env ps)"
  "keeps I' (deleteAddrFlows env ty as)" "keeps I' (deleteAllMatches env)"
  unfolding addAddrFlows_def addServiceFlows_def deleteAddrFlows_def deleteAllMatches_def
    case_prod_unfold
  by (intro go_keeps keeps_clause_ops)+

lemma keeps_on_new: "keeps I' m \<Longrightarrow> keeps I (on_new_clause cl m)"
proof (rule keepsI)
  fix c assume m: "keeps I' m" and c: "I c"
  obtain res c' cl' where run: "m (c, cl) = (res, (c', cl'))" by (metis prod.exhaust)
  have "I c'" using keepsE [OF m _ run] c by (simp add: I'_def)
  then show "I (snd (on_new_clause cl m c))"
    by (cases res) (simp_all add: on_new_clause_def run)
qed

text \<open>An installation that fails has not touched the cache of rules.\<close>

lemma failed_install:
  "InstallPolicyRuleFlows env rule c = (r, c') \<Longrightarrow> r \<noteq> Ok () \<Longrightarrow> I c \<Longrightarrow> I c'"
proof -
  have "triple I I (InstallPolicyRuleFlows env rule) (\<lambda>_ _. True)"
    unfolding InstallPolicyRuleFlows_def install_clause_def case_prod_unfold
    by (auto intro!: fails_keep go_keeps keeps_flow keeps_on_new keeps_clause_loops)
  then show "InstallPolicyRuleFlows env rule c = (r, c') \<Longrightarrow> r \<noteq> Ok () \<Longrightarrow> I c \<Longrightarrow> I c'"
    by (cases r) (auto dest: tripleD)
qed

end

locale policy_blind = context_blind +
  assumes policy_update: "I c \<Longrightarrow> I (c\<lparr>policyCache := ps\<rparr>)"
begin

lemma keeps_on_cached: "keeps I' m \<Longrightarrow> keeps I (on_cached_clause r slot cl m)"
proof (rule keepsI)
  fix c assume m: "keeps I' m" and c: "I c"
  obtain res c' cl' where run: "m (c, cl) = (res, (c', cl'))" by (metis prod.exhaust)
  have "I c'" using keepsE [OF m _ run] c by (simp add: I'_def)
  then show "I (snd (on_cached_clause r slot cl m c))"
    by (simp add: on_cached_clause_def run put_clause_def policy_update split: option.split)
qed

lemma keeps_policy_modify: "keeps I (modify (\<lambda>c. c\<lparr>policyCache := f c\<rparr>))"
  by (rule keepsI) (simp add: modify_eval policy_update)

lemma keeps_policy_go:
  "keeps I (InstallPolicyRuleFlows env rule)" "keeps I (UninstallPolicyRuleFlows env r)"
  "keeps I (AddPolicyRuleAddress env r ty as)" "keeps I (DeletePolicyRuleAddress env r ty as)"
  unfolding InstallPolicyRuleFlows_def UninstallPolicyRuleFlows_def AddPolicyRuleAddress_def
    DeletePolicyRuleAddress_def on_address_clause_def delete_clause_def install_clause_def
    case_prod_unfold
  by (auto intro!: go_keeps keeps_on_cached keeps_on_new keeps_clause_loops keeps_policy_modify
      keeps_flow split: option.split)

end

interpretation rules: context_blind "\<lambda>c. policyCache c = ps" env for ps env
  by unfold_locales
    (auto intro!: keepsI simp: flow_op_eqs run_eq after_def Let_def)

section \<open>Invariants\<close>

locale switch_invariant = cache_blind + policy_blind
begin

lemma keeps_invoke: "keeps I (invoke env k)"
  by (cases k) (simp_all add: keeps_Initialize keeps_client_go keeps_policy_go)

lemma reachable_I: "reachable env c0 c \<Longrightarrow> I c0 \<Longrightarrow> I c"
  by (induction rule: reachable.induct) (auto dest: keepsE [OF keeps_invoke])

end

text \<open>The flow counts, the ledger under its own match texts, and the pipeline itself.\<close>

definition ledger_ok :: "client \<Rightarrow> bool" where
  "ledger_ok c \<longleftrightarrow> (\<forall>k f. ledger (hist c) k = Some f \<longrightarrow> MatchString f = k)"

interpretation counts: switch_invariant counts_ok env for env
  by unfold_locales (auto intro: go_keeps simp: counts_ok_def)

interpretation ledgers: switch_invariant ledger_ok env for env
  by unfold_locales
    (auto intro!: keepsI simp: ledger_ok_def flow_op_eqs run_eq split: if_splits)

interpretation pipelines: switch_invariant "\<lambda>c. pipeline c = p" env for p env
  by unfold_locales
    (auto intro!: keepsI simp: flow_op_eqs run_eq after_def Let_def)

interpretation policies: cache_blind np_ok env for env
  by unfold_locales
    (auto intro: go_keeps keepsI simp: run_eq np_ok_def heap_ok_def policies_ok_def clause_ok_def
      points_to_def)

interpretation flow_caches: policy_blind wf_caches env for env
  by unfold_locales
    (auto intro!: keepsI simp: flow_op_eqs run_eq after_def Let_def wf_caches_def)

interpretation flow_caches: client_go wf_caches env for env
  by unfold_locales (rule ofp.addMissingFlows_keeps_wf ofp.deleteFlows_keeps_wf)+

lemma np_ok_invoke: "fair_env env \<Longrightarrow> keeps np_ok (invoke env k)"
  by (cases k) (simp_all add: policies.keeps_Initialize policies.keeps_client_go
      InstallPolicyRuleFlows_keeps UninstallPolicyRuleFlows_safe [THEN safe_keeps]
      AddPolicyRuleAddress_keeps DeletePolicyRuleAddress_keeps)

lemma wf_caches_invoke: "keeps wf_caches (invoke env k)"
  by (cases k) (simp_all add: flow_caches.keeps_Initialize flow_caches.keeps_client_go
      flow_caches.keeps_policy_go)

lemma fresh_client_invs:
  assumes "fresh_client c"
  shows "counts_ok c" "ledger_ok c" "np_ok c" "wf_caches c"
  using assms
  by (auto simp: fresh_client_def counts_ok_def new_status_def ledger_ok_def np_ok_def heap_ok_def
      policies_ok_def points_to_def wf_caches_def)

lemma reachable_fresh: "reachable env c0 c \<Longrightarrow> fresh_client c0"
  by (induction rule: reachable.induct)

lemma reachable_np_ok: "reachable env c0 c \<Longrightarrow> fair_env env \<Longrightarrow> np_ok c"
  by (induction rule: reachable.induct)
    (auto dest: fresh_client_invs(3) keepsE [OF np_ok_invoke])

lemma reachable_wf_caches: "reachable env c0 c \<Longrightarrow> wf_caches c"
  by (induction rule: reachable.induct)
    (auto dest: fresh_client_invs(4) keepsE [OF wf_caches_invoke])

lemma reachable_counts: "reachable env c0 c \<Longrightarrow> counts_ok c"
  using counts.reachable_I reachable_fresh fresh_client_invs(1) by blast

lemma reachable_ledger: "reachable env c0 c \<Longrightarrow> ledger_ok c"
  using ledgers.reachable_I reachable_fresh fresh_client_invs(2) by blast

lemma reachable_pipeline: "reachable env c0 c \<Longrightarrow> pipeline c = pipeline c0"
  using pipelines.reachable_I by blast

lemma fresh_NewClient [simp]: "fresh_client (NewClient name)"
  by (simp add: fresh_client_def NewClient_def NewBridge_def CreateTable_def Let_def)

end
