(* ===== verification/Samples.thy ===== *)
theory Samples
  imports Reachability
begin

text \<open>
  Concrete environments, clients and values at which the properties with hypotheses are
  instantiated.
\<close>

text \<open>A switch that accepts every command, and one that accepts the first \<open>n\<close>.\<close>

definition ok_env :: env where
  "ok_env = \<lparr>executor = (\<lambda>h a. None), now = (\<lambda>n. n), iter = (\<lambda>n k. [0..<k])\<rparr>"

definition env_failing_after :: "nat \<Rightarrow> env" where
  "env_failing_after n = \<lparr>executor = (\<lambda>h a. if length h < n then None else Some ''exit status 1''),
     now = (\<lambda>n. n), iter = (\<lambda>n k. [0..<k])\<rparr>"

lemma fair_ok_env [simp]: "fair_env ok_env" "fair_env (env_failing_after n)"
  by (simp_all add: fair_env_def ok_env_def env_failing_after_def)

lemma go_range_sample [simp]: "go_range ok_env c xs = xs" "go_range (env_failing_after n) c xs = xs"
  by (simp_all add: go_range_def ok_env_def env_failing_after_def map_nth)

lemma accepts_sample [simp]:
  "accepts ok_env h k" "accepts (env_failing_after n) h k \<longleftrightarrow> length h < n"
  by (simp_all add: accepts_def ok_env_def env_failing_after_def argvs_def)

definition br0 :: client where
  "br0 = NewClient ''br-int''"

text \<open>A client whose pipeline has the ingress tables of network policies.\<close>

definition sample_table :: "table_id \<Rightarrow> table_id \<Rightarrow> table" where
  "sample_table k n = \<lparr>t_bridge = ''br-int'', t_id = k, t_next = n, t_missAction = TableMissActionNext\<rparr>"

definition np_client :: client where
  "np_client = br0\<lparr>pipeline := [(ingressRuleTable, sample_table ingressRuleTable ingressDefaultTable),
     (ingressDefaultTable, sample_table ingressDefaultTable l2ForwardingOutTable)]\<rparr>"

lemma fresh_samples [simp]: "fresh_client br0" "fresh_client np_client"
  by (simp_all add: br0_def np_client_def fresh_client_def NewClient_def NewBridge_def
      CreateTable_def Let_def)

text \<open>A pod network as parsed.\<close>

definition sample_net :: ipnet where
  "sample_net = \<lparr>ipnet_IP = [10, 244, 1, 0], ipnet_Mask = [255, 255, 255, 0]\<rparr>"

lemma ParseCIDR_sample:
  "ParseCIDR ''10.244.1.0/24'' = Inr (v4InV6Prefix @ [10, 244, 1, 0], sample_net)"
proof -
  have "ParseAddr ''10.244.1.0'' = Some [10, 244, 1, 0]" by code_simp
  moreover have "dtoi 0 ''24'' = Some 24" by (simp add: digit_val_def)
  moreover have "CIDRMask 24 32 = [255, 255, 255, 0]" by code_simp
  moreover have "ip_Mask (v4InV6Prefix @ [10, 244, 1, 0]) [255, 255, 255, 0] = [10, 244, 1, 0]"
    by (simp add: ip_Mask_def v4InV6Prefix_def Let_def)
  ultimately show ?thesis by (simp add: ParseCIDR_def As16_def sample_net_def Let_def)
qed

section \<open>Running a rule installation by simplification\<close>

lemma np_client_simps:
  "hist np_client = []" "policyCache np_client = []" "globalConjMatchFlowCache np_client = []"
  "ctxs np_client p = None" "next_ctx np_client = 0"
  "table_at np_client ingressRuleTable = Some (sample_table ingressRuleTable ingressDefaultTable)"
  "table_at np_client ingressDefaultTable = Some (sample_table ingressDefaultTable l2ForwardingOutTable)"
  using fresh_samples(2) by (simp_all add: fresh_client_def table_at_def np_client_def table_ids)

lemma after_client_simps:
  "table_at (after env k f d c) = table_at (c :: client)" "ctxs (after env k f d c) = ctxs c"
  "next_ctx (after env k f d c) = next_ctx c" "policyCache (after env k f d c) = policyCache c"
  "globalConjMatchFlowCache (after env k f d c) = globalConjMatchFlowCache c"
  by (simp_all add: after_def Let_def table_at_def fun_eq_iff)

lemma table_at_updates:
  "table_at (c\<lparr>ctxs := x\<rparr>) k = table_at c k" "table_at (c\<lparr>next_ctx := n\<rparr>) k = table_at c k"
  "table_at (c\<lparr>globalConjMatchFlowCache := g\<rparr>) k = table_at c k"
  "table_at (c\<lparr>policyCache := pc\<rparr>) k = table_at c k"
  by (simp_all add: table_at_def)

lemmas run_install = InstallPolicyRuleFlows_def go_eval getPolicyRuleConjunction_def rule_tables_def
  is_egress_def clause_ids_def Let_def install_clause_def on_new_clause_def addAddrFlows_def
  addServiceFlows_def newClause_def generateAddressConjMatch_def generateServicePortConjMatch_def
  addConjunctiveMatchFlow_def find_or_create_ctx_def install_drop_def defaultDropFlow_def
  conjunctiveMatchFlow_def conjunctionActionFlow_def action_flows_def except_flows_def flow_at_def
  flow_Add_eq alloc_ctx_def addDenyAllRule_def addAction_def installOrUpdateFlow_def get_ctx_def
  ranged_actions_def modify_ctx_def sample_table_def GetID_def after_client_simps table_at_updates
  np_client_simps

end
