(* ===== verification/FlowProps.thy ===== *)
theory FlowProps
  imports Samples
begin

text \<open>
  Properties of \<open>pkg/ovs/openflow\<close> and of client.go: what each call sends to the switch, the flow counts,
  the flow caches, and the calls that cannot work over the pipeline \<open>NewClient\<close> builds.
\<close>

section \<open>Lemmas on the flows of the constructed pipeline\<close>

lemma table_at_br0:
  "table_at (NewClient b) k =
     (if k = classifierTable then Some \<lparr>t_bridge = b, t_id = classifierTable, t_next = clusterFowardTable, t_missAction = TableMissActionNext\<rparr>
      else if k = clusterFowardTable then Some \<lparr>t_bridge = b, t_id = clusterFowardTable, t_next = LastTableID, t_missAction = TableMissActionNormal\<rparr>
      else if k = coreDnsSNATTTable then Some \<lparr>t_bridge = b, t_id = coreDnsSNATTTable, t_next = clusterFowardTable, t_missAction = TableMissActionNext\<rparr>
      else None)"
  by (auto simp: table_at_def NewClient_def NewBridge_def CreateTable_def Let_def)

lemma pipeline_after_run: "pipeline (s\<lparr>hist := h, tstat := t\<rparr>) = pipeline (s :: client)"
  by simp

text \<open>A command line of \<open>ovs-ofctl\<close>.\<close>

abbreviation ofctl :: "string \<Rightarrow> string \<Rightarrow> string \<Rightarrow> string list" where
  "ofctl verb bridge flowtext \<equiv> [''ovs-ofctl'', verb, bridge, ''-OOpenflow13'', flowtext]"

lemmas flow_text_defs = flow_at_def table_ids pipeline_consts flow_format_def match_defs action_defs
  chain_def BuildFlow_def Done_def GetID_def GetNext_def Version13_def Priority_def digit_def

lemma initial_flow_texts:
  "\<exists>f1 f2 f3 f4.
     (\<forall>d. pipeline d = pipeline (NewClient b) \<longrightarrow> arpNormalFlow d = Some f1 \<and>
        classifierDefaultFlow d = Some f2 \<and> coreDNSSNATDefaultFlow d = Some f3 \<and>
        clusterForwardDefaultFlow d = Some f4) \<and>
     argv (OfctlAdd f1) = ofctl ''add-flow'' b ''table=1,priority=190,arp,actions=Normal'' \<and>
     argv (OfctlAdd f2) = ofctl ''add-flow'' b ''table=0,priority=80,actions=resubmit(,1)'' \<and>
     argv (OfctlAdd f3) = ofctl ''add-flow'' b ''table=2,priority=80,actions=resubmit(,1)'' \<and>
     argv (OfctlAdd f4) = ofctl ''add-flow'' b ''table=1,priority=80,actions=Normal''"
proof -
  let ?c = "NewClient b"
  have t: "table_at d = table_at ?c" if "pipeline d = pipeline ?c" for d
    using table_at_cong [OF that] by blast
  have same: "pipeline d = pipeline ?c \<longrightarrow> arpNormalFlow d = arpNormalFlow ?c \<and>
      classifierDefaultFlow d = classifierDefaultFlow ?c \<and>
      coreDNSSNATDefaultFlow d = coreDNSSNATDefaultFlow ?c \<and>
      clusterForwardDefaultFlow d = clusterForwardDefaultFlow ?c" for d
    by (auto simp: arpNormalFlow_def classifierDefaultFlow_def coreDNSSNATDefaultFlow_def
        clusterForwardDefaultFlow_def flow_at_def dest: t)
  have 1: "\<exists>f. arpNormalFlow ?c = Some f \<and>
      argv (OfctlAdd f) = ofctl ''add-flow'' b ''table=1,priority=190,arp,actions=Normal''"
    by (simp add: arpNormalFlow_def table_at_br0 flow_text_defs)
  have 2: "\<exists>f. classifierDefaultFlow ?c = Some f \<and>
      argv (OfctlAdd f) = ofctl ''add-flow'' b ''table=0,priority=80,actions=resubmit(,1)''"
    by (simp add: classifierDefaultFlow_def table_at_br0 flow_text_defs)
  have 3: "\<exists>f. coreDNSSNATDefaultFlow ?c = Some f \<and>
      argv (OfctlAdd f) = ofctl ''add-flow'' b ''table=2,priority=80,actions=resubmit(,1)''"
    by (simp add: coreDNSSNATDefaultFlow_def table_at_br0 flow_text_defs)
  have 4: "\<exists>f. clusterForwardDefaultFlow ?c = Some f \<and>
      argv (OfctlAdd f) = ofctl ''add-flow'' b ''table=1,priority=80,actions=Normal''"
    by (simp add: clusterForwardDefaultFlow_def table_at_br0 flow_text_defs)
  from 1 2 3 4 same show ?thesis by metis
qed

section \<open>Adding, modifying, deleting a flow\<close>

text \<open>
  \<open>Add\<close> runs exactly one command, \<open>ovs-ofctl add-flow\<close> with the whole text of the flow; it returns nil
  exactly when the command succeeds, and then the table of the flow counts one flow more modulo
  \<open>2 ^ 64\<close> and no other table's count changes; after an error no count changes.
\<close>

lemma flow_Add_effect:
  "case flow_Add env f s of (r, s') \<Rightarrow>
     argvs (hist s') = ofctl ''add-flow'' (fl_bridge f) (flow_String f) # argvs (hist s) \<and>
     (r = Ok () \<longleftrightarrow> executor env (argvs (hist s)) (ofctl ''add-flow'' (fl_bridge f) (flow_String f)) = None) \<and>
     r \<noteq> Panic \<and>
     (\<forall>t. flowCount (tstat s' t) =
        flowCount (tstat s t) + (if r = Ok () \<and> t = t_id (fl_table f) then 1 else 0))"
  by (simp add: flow_Add_eq accepts_def argvs_def after_def Let_def UpdateStatus_def flow_String_def Version13_def)

text \<open>
  \<open>Delete\<close> runs \<open>ovs-ofctl del-flows\<close> with the match part of the flow only, so neither the priority nor
  the actions restrict what the switch deletes; a deletion that succeeds takes one from the count
  of the flow's table, wrapping at zero.
\<close>

lemma flow_Delete_effect:
  "case flow_Delete env f s of (r, s') \<Rightarrow>
     argvs (hist s') = ofctl ''del-flows'' (fl_bridge f) (MatchString f) # argvs (hist s) \<and>
     r \<noteq> Panic \<and>
     (\<forall>t. flowCount (tstat s' t) =
        flowCount (tstat s t) - (if r = Ok () \<and> t = t_id (fl_table f) then 1 else 0)) \<and>
     (\<forall>p as. argv (OfctlDel (f\<lparr>fl_priority := p, fl_actions := as\<rparr>)) = argv (OfctlDel f))"
  by (simp add: flow_Delete_eq accepts_def argvs_def after_def Let_def UpdateStatus_def
      MatchString_def flow_format_def Version13_def)

text \<open>
  C21: In every state that calls of the client can reach, whatever the switch answered, the flow count of a
  table is the number of successful additions to it less the number of successful deletions from
  it, modulo \<open>2 ^ 64\<close>.
\<close>

theorem flow_count_accounts:
  "reachable env c0 c \<Longrightarrow>
   flowCount (tstat c t) = of_nat (n_added t (hist c)) - of_nat (n_deleted t (hist c))"
  using reachable_counts by (simp add: counts_ok_def)

lemma flow_count_accounts_witness:
  "flowCount (tstat (after_calls ok_env [CInitialize] br0) 1) =
     of_nat (n_added 1 (hist (after_calls ok_env [CInitialize] br0)))
     - of_nat (n_deleted 1 (hist (after_calls ok_env [CInitialize] br0)))"
  by (rule flow_count_accounts [OF reachable_after_calls [OF reachable.start]]) simp

section \<open>Connecting and the initial flows\<close>

text \<open>
  C31: \<open>Connect\<close> ends after at most \<open>maxRetry\<close> runs of \<open>ovs-ofctl show\<close>, runs nothing else, returns nil only after
  a run that succeeded and gives up only after \<open>maxRetry\<close> failures.
\<close>

theorem Connect_bounded:
  "case Connect env b maxRetry s of (r, s') \<Rightarrow> \<exists>k \<le> maxRetry.
     hist s' = (if r = Ok () then [(OfctlShow (b_name b), True)] else [])
       @ replicate (if r = Ok () then k - 1 else maxRetry) (OfctlShow (b_name b), False) @ hist s \<and>
     r \<noteq> Panic \<and> (r = Ok () \<longrightarrow> 0 < k)"
proof -
  let ?show = "OfctlShow (b_name b)"
  have "case connect_loop env (b_name b) m n s of (r, s') \<Rightarrow> \<exists>k \<le> n.
     hist s' = (if r = Ok () then [(?show, True)] else [])
       @ replicate (if r = Ok () then k - 1 else n) (?show, False) @ hist s \<and>
     r \<noteq> Panic \<and> (r = Ok () \<longrightarrow> 0 < k)" for m n
  proof (induction n arbitrary: s)
    case 0
    then show ?case by (simp add: go_eval)
  next
    case (Suc n)
    show ?case
    proof (cases "executor env (argvs (hist s)) (argv ?show)")
      case None
      then show ?thesis by (simp add: go_eval run_eq accepts_def exI [of _ 1])
    next
      case (Some e)
      let ?s = "s\<lparr>hist := (?show, False) # hist s\<rparr>"
      obtain r s' where loop: "connect_loop env (b_name b) m n ?s = (r, s')"
        by (cases "connect_loop env (b_name b) m n ?s")
      with Suc.IH [of ?s] obtain k where k: "k \<le> n" "r \<noteq> Panic" "r = Ok () \<longrightarrow> 0 < k"
        and h: "hist s' = (if r = Ok () then [(?show, True)] else [])
          @ replicate (if r = Ok () then k - 1 else n) (?show, False) @ (?show, False) # hist s"
        by auto
      have "hist s' = (if r = Ok () then [(?show, True)] else [])
          @ replicate (if r = Ok () then Suc k - 1 else Suc n) (?show, False) @ hist s"
        using h k by (cases k) (auto simp: replicate_app_Cons_same)
      with Some loop k show ?thesis
        by (auto simp: go_eval run_eq accepts_def intro!: exI [of _ "Suc k"])
    qed
  qed
  then show ?thesis by (simp add: Connect_def)
qed

lemma Connect_bounded_witness:
  "case Connect ok_env (bridge_of br0) 5 br0 of (r, s') \<Rightarrow> \<exists>k. hist s' =
     (if r = Ok () then [(OfctlShow (b_name (bridge_of br0)), True)] else [])
       @ replicate (if r = Ok () then k - 1 else 5) (OfctlShow (b_name (bridge_of br0)), False) @ hist br0"
  using Connect_bounded [where env = ok_env and b = "bridge_of br0" and maxRetry = 5 and s = br0]
  by (cases "Connect ok_env (bridge_of br0) 5 br0") auto

text \<open>The run of \<open>Initialize\<close> on a switch that accepts everything.\<close>

lemma Initialize_run:
  assumes "\<And>h a. executor env h a = None"
  shows "case Initialize env (NewClient b) of (r, c) \<Rightarrow> r = Ok () \<and> rev (argvs (hist c)) =
    [[''ovs-ofctl'', ''show'', b],
     ofctl ''add-flow'' b ''table=1,priority=190,arp,actions=Normal'',
     ofctl ''add-flow'' b ''table=0,priority=80,actions=resubmit(,1)'',
     ofctl ''add-flow'' b ''table=2,priority=80,actions=resubmit(,1)'',
     ofctl ''add-flow'' b ''table=1,priority=80,actions=Normal'']"
proof -
  have ok: "accepts env h k" for h k using assms by (simp add: accepts_def)
  obtain n where five: "maxRetryForOFSwitch = Suc n" by (simp add: maxRetryForOFSwitch_def)
  have conn: "connect_loop env b m maxRetryForOFSwitch s
      = (Ok (), s\<lparr>hist := (OfctlShow b, True) # hist s\<rparr>)" for m and s :: client
    unfolding five using assms by (simp add: go_eval run_eq ok)
  let ?c = "NewClient b"
  have br: "b_name (bridge_of ?c) = b" and h0: "hist ?c = []"
    by (simp_all add: NewClient_def NewBridge_def CreateTable_def Let_def)
  have add: "add_or_wrap env msg mk d = (Ok (), after env (OfctlAdd f) f 1 d)"
    if "mk d = Some f" for msg mk d f
    using that by (simp add: add_or_wrap_def add_flow_def client_Add_def go_eval flow_Add_eq ok)
  have pipe: "pipeline (after env k f i d) = pipeline d" for k f i and d :: client
    by (simp add: after_def Let_def)
  obtain f1 f2 f3 f4 where mk: "\<And>d. pipeline d = pipeline ?c \<Longrightarrow> arpNormalFlow d = Some f1"
      "\<And>d. pipeline d = pipeline ?c \<Longrightarrow> classifierDefaultFlow d = Some f2"
      "\<And>d. pipeline d = pipeline ?c \<Longrightarrow> coreDNSSNATDefaultFlow d = Some f3"
      "\<And>d. pipeline d = pipeline ?c \<Longrightarrow> clusterForwardDefaultFlow d = Some f4"
    and texts: "argv (OfctlAdd f1) = ofctl ''add-flow'' b ''table=1,priority=190,arp,actions=Normal''"
      "argv (OfctlAdd f2) = ofctl ''add-flow'' b ''table=0,priority=80,actions=resubmit(,1)''"
      "argv (OfctlAdd f3) = ofctl ''add-flow'' b ''table=2,priority=80,actions=resubmit(,1)''"
      "argv (OfctlAdd f4) = ofctl ''add-flow'' b ''table=1,priority=80,actions=Normal''"
    using initial_flow_texts [of b] by blast
  show ?thesis
    by (simp add: Initialize_def go_eval Connect_def conn br h0 add mk pipe texts argvs_def
        del: argv.simps) (simp)
qed

text \<open>
  On a switch that accepts every command, \<open>Initialize\<close> of a new client succeeds and sends exactly these
  commands, in this order: the connection test, ARP as a normal switch, and the default flows of
  the classifier, coreDNS and forwarding tables.
\<close>

lemma Initialize_commands:
  assumes "\<And>h a. executor env h a = None"
  shows "case Initialize env (NewClient b) of (r, c) \<Rightarrow> r = Ok () \<and> rev (argvs (hist c)) =
    [[''ovs-ofctl'', ''show'', b],
     ofctl ''add-flow'' b ''table=1,priority=190,arp,actions=Normal'',
     ofctl ''add-flow'' b ''table=0,priority=80,actions=resubmit(,1)'',
     ofctl ''add-flow'' b ''table=2,priority=80,actions=resubmit(,1)'',
     ofctl ''add-flow'' b ''table=1,priority=80,actions=Normal'']"
  using Initialize_run [OF assms] .

lemma Initialize_commands_witness:
  "case Initialize ok_env (NewClient ''br-int'') of (r, c) \<Rightarrow> r = Ok () \<and> rev (argvs (hist c)) =
    [[''ovs-ofctl'', ''show'', ''br-int''],
     ofctl ''add-flow'' ''br-int'' ''table=1,priority=190,arp,actions=Normal'',
     ofctl ''add-flow'' ''br-int'' ''table=0,priority=80,actions=resubmit(,1)'',
     ofctl ''add-flow'' ''br-int'' ''table=2,priority=80,actions=resubmit(,1)'',
     ofctl ''add-flow'' ''br-int'' ''table=1,priority=80,actions=Normal'']"
  by (rule Initialize_commands) (simp add: ok_env_def)

section \<open>The flow caches\<close>

text \<open>Over a switch that accepts every command the two loops succeed.\<close>

lemma addMissingFlows_accepted:
  assumes "\<And>h k. accepts env h k"
  shows "fst (addMissingFlows (client_Add env) cat key flows c) = Ok ()"
proof -
  have "fst (gfor flows (add_missing (client_Add env) cat key) c) = Ok ()" for c
    by (induction flows arbitrary: c)
      (simp_all add: go_eval add_missing_def client_Add_def flow_Add_eq assms)
  then show ?thesis by (simp add: addMissingFlows_def go_eval)
qed


text \<open>
  C13: However \<open>addMissingFlows\<close> ends, it has added a prefix of the flows whose match text was not cached
  under the key, each text once: cache and switch both hold exactly those in addition to what they
  held, no other cache entry changes, it never panics, and it returns nil exactly if that prefix is
  all of them.
\<close>

theorem addMissingFlows_prefix:
  "\<exists>r c' n. addMissingFlows (client_Add env) cat key flows c = (r, c') \<and> r \<noteq> Panic \<and>
     (let ms = missing (dom (map_of (flows_in c cat key))) flows in
      n \<le> length ms \<and> (r = Ok () \<longleftrightarrow> n = length ms) \<and>
      map_of (flows_in c' cat key) = note_flows (take n ms) (map_of (flows_in c cat key)) \<and>
      on_switch c' = note_flows (take n ms) (on_switch c) \<and>
      same_elsewhere cat key c c')"
  using ofp.addMissingFlows_spec [of env cat key flows c]
  by (auto simp: Let_def ofp.added_def)








lemma Ok_run: "fst x = Ok a \<Longrightarrow> x = (Ok a, snd x)"
  by (cases x) auto






section \<open>Tunnel and ARP flows\<close>

lemma addMissingFlows_covered:
  assumes "addMissingFlows (client_Add env) cat key fs c = (Ok (), c1)"
  shows "MatchString ` set fs \<subseteq> dom (map_of (flows_in c1 cat key)) \<and>
    map_of (caches c1 cat) key \<noteq> None \<and> same_elsewhere cat key c c1"
proof -
  from ofp.addMissingFlows_spec [of env cat key fs c] assms
  have "ofp.added cat key c (missing (dom (map_of (flows_in c cat key))) fs)
      (length (missing (dom (map_of (flows_in c cat key))) fs)) c1" by auto
  then show ?thesis
    using missing_covers [of fs "dom (map_of (flows_in c cat key))"] by (auto simp: ofp.added_def)
qed

lemma addMissingFlows_noop:
  assumes "MatchString ` set gs \<subseteq> dom (map_of (flows_in c cat key))" "map_of (caches c cat) key \<noteq> None"
  shows "addMissingFlows (client_Add env) cat key gs c = (Ok (), c)"
  using ofp.addMissingFlows_present [OF assms(1)] assms(2) by (simp add: load_or_store_def)

lemma addMissingFlows_again:
  assumes "addMissingFlows (client_Add env) cat key fs c = (Ok (), c1)"
    and "MatchString ` set gs \<subseteq> MatchString ` set fs"
  shows "addMissingFlows (client_Add env') cat key gs c1 = (Ok (), c1)"
  using addMissingFlows_covered [OF assms(1)] assms(2) by (intro addMissingFlows_noop) auto

lemma pipeline_addMissingFlows:
  "addMissingFlows (client_Add env) cat key fs c = (r, c1) \<Longrightarrow> pipeline c1 = pipeline c"
  using keepsE [OF pipelines.keeps_addMissingFlows] by blast

lemma MatchString_chain_actions:
  "(\<And>f b. f \<in> set fs \<Longrightarrow> MatchString (f b) = MatchString b) \<Longrightarrow> MatchString (chain b fs) = MatchString b"
  by (induction fs arbitrary: b) (simp_all add: chain_def)

lemma MatchString_SetTunnelDst [simp]: "MatchString (SetTunnelDst a b) = MatchString b"
  by (simp add: SetTunnelDst_def setField_def)

lemma MatchString_Normal [simp]: "MatchString (Normal b) = MatchString b"
  by (simp add: Normal_def)

lemma parseDstIP_CIDR: "ParseCIDR d = Inr (a, n) \<Longrightarrow> parseDstIP d = Inr (Inr n)"
  by (simp add: parseDstIP_def)

lemma InstallTunFlow_CIDR:
  assumes "ParseCIDR d = Inr (a, n)" and "table_at c clusterFowardTable = Some t"
  shows "InstallTunFlow env d p peer c = addMissingFlows (client_Add env) GeneralCache IPConnectionVxlan
    [the (ipTunFlowWithoutInPort c n peer)] c"
  using assms
  by (simp add: InstallTunFlow_def parseDstIP_CIDR with_flows_def go_eval ipTunFlowWithoutInPort_def flow_at_def)

lemma chain_append: "chain b (fs @ gs) = chain (chain b fs) gs"
  by (simp add: chain_def)

definition arp_text :: "table \<Rightarrow> 16 word \<Rightarrow> string" where
  "arp_text t op = MatchString (chain (BuildFlow t)
     [Priority priorityNormal, MatchProtocol ProtocolARP, MatchARPOp op])"

text \<open>
  \<open>InstallTunFlow\<close> of a peer's pod network on a new client sends one command, which tunnels the
  packets to that network to the peer; the port argument plays no part.
\<close>

lemma InstallTunFlow_command:
  assumes "ParseCIDR d = Inr (a, n)"
  shows "argvs (hist (snd (InstallTunFlow env d p peer (NewClient b)))) =
    [ofctl ''add-flow'' b (''table=1,priority=200,ip,nw_dst='' @ ipnet_string n
       @ '',actions=set_field:'' @ ip_string peer @ ''->tun_dst,Normal'')]"
proof -
  let ?c = "NewClient b"
  obtain t where t: "table_at ?c clusterFowardTable = Some t" by (auto simp: table_at_br0 table_ids)
  obtain f where f: "ipTunFlowWithoutInPort ?c n peer = Some f" and
    texts: "argv (OfctlAdd f) = ofctl ''add-flow'' b (''table=1,priority=200,ip,nw_dst='' @ ipnet_string n
       @ '',actions=set_field:'' @ ip_string peer @ ''->tun_dst,Normal'')"
    by (simp add: ipTunFlowWithoutInPort_def table_at_br0 flow_text_defs)
  have c0: "hist ?c = []" "caches ?c cat = []" for cat
    by (simp_all add: NewClient_def NewBridge_def CreateTable_def Let_def)
  have h: "hist (load_or_store cat key c) = hist c" for cat key and c :: client
    by (simp add: load_or_store_def set_flows_def)
  have "flows_in (load_or_store GeneralCache IPConnectionVxlan ?c) GeneralCache IPConnectionVxlan = []"
    by (simp add: flows_in_def c0)
  then show ?thesis
    using texts
    by (simp add: InstallTunFlow_CIDR [OF assms t] f addMissingFlows_def add_missing_def go_eval
        client_Add_def flow_Add_eq argvs_def h c0 set_flows_def del: argv.simps)
qed

lemma InstallTunFlow_command_witness:
  "argvs (hist (snd (InstallTunFlow ok_env ''10.244.1.0/24'' 0 [192, 168, 0, 7] (NewClient ''br-int'')))) =
    [ofctl ''add-flow'' ''br-int'' (''table=1,priority=200,ip,nw_dst='' @ ipnet_string sample_net
       @ '',actions=set_field:'' @ ip_string [192, 168, 0, 7] @ ''->tun_dst,Normal'')]"
  by (rule InstallTunFlow_command [OF ParseCIDR_sample])

text \<open>
  Once the flow to a pod network is installed, installing it again for the same network is a no-op,
  even with another peer: the cache knows a flow by its match only, so a node that moved keeps its
  old tunnel until the flow is uninstalled.
\<close>

lemma InstallTunFlow_again:
  assumes "ParseCIDR d = Inr (a, n)" and "InstallTunFlow env d p peer c = (Ok (), c1)"
  shows "InstallTunFlow env' d p' peer' c1 = (Ok (), c1)"
proof -
  obtain t where t: "table_at c clusterFowardTable = Some t"
    using assms by (cases "table_at c clusterFowardTable")
      (auto simp: InstallTunFlow_def parseDstIP_CIDR with_flows_def go_eval
        ipTunFlowWithoutInPort_def flow_at_def deref_def)
  note first = assms(2) [unfolded InstallTunFlow_CIDR [OF assms(1) t]]
  have pc: "pipeline c1 = pipeline c" using pipeline_addMissingFlows [OF first] .
  then have t1: "table_at c1 clusterFowardTable = Some t" using t table_at_cong [OF pc] by simp
  have "MatchString (the (ipTunFlowWithoutInPort c1 n peer')) = MatchString (the (ipTunFlowWithoutInPort c n peer))"
    by (simp add: ipTunFlowWithoutInPort_def flow_at_def t t1 chain_def)
  then show ?thesis
    unfolding InstallTunFlow_CIDR [OF assms(1) t1]
    by (intro addMissingFlows_again [OF first]) simp
qed

lemma InstallTunFlow_again_witness:
  "InstallTunFlow ok_env ''10.244.1.0/24'' 3 [192, 168, 0, 9]
     (snd (InstallTunFlow ok_env ''10.244.1.0/24'' 0 [192, 168, 0, 7] br0)) =
   (Ok (), snd (InstallTunFlow ok_env ''10.244.1.0/24'' 0 [192, 168, 0, 7] br0))"
proof -
  obtain t where t: "table_at br0 clusterFowardTable = Some t"
    by (auto simp: br0_def table_at_br0 table_ids)
  have "fst (InstallTunFlow ok_env ''10.244.1.0/24'' 0 [192, 168, 0, 7] br0) = Ok ()"
    unfolding InstallTunFlow_CIDR [OF ParseCIDR_sample t] by (rule addMissingFlows_accepted) simp
  from InstallTunFlow_again [OF ParseCIDR_sample Ok_run [OF this]] show ?thesis .
qed

text \<open>
  The ARP flows match every request and every reply whatever the peers are, so after a first
  successful \<open>InstallARPFlow\<close> a second one with another list of nodes changes nothing: the nodes that
  are new are never flooded to.
\<close>

lemma InstallARPFlow_again:
  assumes "InstallARPFlow env ds c = (Ok (), c1)"
  shows "InstallARPFlow env' ds' c1 = (Ok (), c1)"
proof -
  obtain t where t: "table_at c clusterFowardTable = Some t"
    using assms by (cases "table_at c clusterFowardTable")
      (auto simp: InstallARPFlow_def go_eval arpFlow_def deref_def)
  have arp: "\<exists>f g. arpFlow d (map ParseIP xs) = Some (f, g) \<and> MatchString f = arp_text t 1 \<and> MatchString g = arp_text t 2"
    if "table_at d clusterFowardTable = Some t" for d xs
  proof -
    let ?acts = "concat (map (\<lambda>a. [SetTunnelDst a, Normal]) (map ParseIP xs))"
    have "MatchString (chain b ?acts) = MatchString b" for b
      by (rule MatchString_chain_actions) auto
    then show ?thesis using that
      by (simp add: arpFlow_def Let_def arp_text_def chain_append)
  qed
  obtain f g where fg: "arpFlow c (map ParseIP ds) = Some (f, g)"
    and m: "MatchString f = arp_text t 1" "MatchString g = arp_text t 2" using arp [OF t] by blast
  from assms fg have "gseq (addMissingFlows (client_Add env) GeneralCache ArpRequest [f])
      (addMissingFlows (client_Add env) GeneralCache ArpResponse [g]) c = (Ok (), c1)"
    by (simp add: InstallARPFlow_def go_eval)
  then obtain c' where
    1: "addMissingFlows (client_Add env) GeneralCache ArpRequest [f] c = (Ok (), c')" and
    2: "addMissingFlows (client_Add env) GeneralCache ArpResponse [g] c' = (Ok (), c1)"
    unfolding gbind_Ok_iff by auto
  have pc: "pipeline c1 = pipeline c"
    using pipeline_addMissingFlows [OF 1] pipeline_addMissingFlows [OF 2] by simp
  then have t1: "table_at c1 clusterFowardTable = Some t" using t table_at_cong [OF pc] by simp
  obtain f' g' where fg': "arpFlow c1 (map ParseIP ds') = Some (f', g')"
    and m': "MatchString f' = arp_text t 1" "MatchString g' = arp_text t 2" using arp [OF t1] by blast
  have "addMissingFlows (client_Add env') GeneralCache ArpRequest [f'] c1 = (Ok (), c1)"
  proof (rule addMissingFlows_noop)
    have "map_of (caches c1 GeneralCache) ArpRequest = map_of (caches c' GeneralCache) ArpRequest"
      using addMissingFlows_covered [OF 2]
      by (simp add: same_elsewhere_def ArpRequest_def ArpResponse_def)
    then show "MatchString ` set [f'] \<subseteq> dom (map_of (flows_in c1 GeneralCache ArpRequest))"
      and "map_of (caches c1 GeneralCache) ArpRequest \<noteq> None"
      using addMissingFlows_covered [OF 1] m m' by (simp_all add: flows_in_def)
  qed
  moreover have "addMissingFlows (client_Add env') GeneralCache ArpResponse [g'] c1 = (Ok (), c1)"
    using addMissingFlows_again [OF 2, of "[g']"] m m' by simp
  ultimately show ?thesis using fg' by (simp add: InstallARPFlow_def go_eval)
qed

lemma InstallARPFlow_again_witness:
  "let c1 = snd (InstallARPFlow ok_env [''192.168.0.7''] br0)
   in InstallARPFlow ok_env [''192.168.0.7'', ''192.168.0.8''] c1 = (Ok (), c1)"
proof -
  obtain f g where "arpFlow br0 (map ParseIP [''192.168.0.7'']) = Some (f, g)"
    by (auto simp: arpFlow_def br0_def table_at_br0 table_ids Let_def)
  then have "fst (InstallARPFlow ok_env [''192.168.0.7''] br0) = Ok ()"
    using addMissingFlows_accepted [of ok_env] Ok_run [OF addMissingFlows_accepted [of ok_env]]
    by (simp add: InstallARPFlow_def go_eval case_prod_unfold split: result.split)
  from InstallARPFlow_again [OF Ok_run [OF this]] show ?thesis by (simp add: Let_def)
qed

section \<open>Calls the constructed pipeline has no tables for\<close>

lemma reachable_br_tables:
  assumes "reachable env (NewClient b) c" and "k \<notin> {classifierTable, clusterFowardTable, coreDnsSNATTTable}"
  shows "table_at c k = None"
  using table_at_cong [OF reachable_pipeline [OF assms(1)], of k] assms(2) by (simp add: table_at_br0)

text \<open>
  C37: \<open>NewClient\<close> puts three tables into the pipeline; the others are nil interfaces. So in every state of
  the client the installation of node flows, pod flows and service flows panics before it runs any
  command or caches anything.
\<close>

theorem no_table_panics:
  assumes "reachable env (NewClient b) c"
  shows "InstallNodeFlows env h m a n t c = (Panic, c) \<and>
    InstallPodFlows env i a m m' p c = (Panic, c) \<and>
    InstallClusterServiceCIDRFlows env n p c = (Panic, c)"
proof -
  note none = reachable_br_tables [OF assms]
  have "table_at c arpResponderTable = None" "table_at c spoofGuardTable = None" "table_at c dnatTable = None"
    by (rule none, simp add: table_ids)+
  then show ?thesis
    by (auto simp: InstallNodeFlows_def InstallPodFlows_def InstallClusterServiceCIDRFlows_def
        with_flows_def add_flow_def go_eval arpResponderFlow_def podIPSpoofGuardFlow_def
        serviceCIDRDNATFlow_def flow_at_def split: option.split)
qed

lemma no_table_panics_witness:
  "InstallNodeFlows ok_env ''n1'' [1, 2, 3, 4, 5, 6] [10, 0, 0, 1] sample_net [10, 0, 0, 2] br0 = (Panic, br0)"
  using no_table_panics [of ok_env "''br-int''"] reachable.start [OF fresh_NewClient]
  unfolding br0_def by blast

lemma add_flow_Some: "mk c = Some f \<Longrightarrow> add_flow env mk c = flow_Add env f c"
  by (simp add: add_flow_def client_Add_def go_eval)

lemma add_flow_None: "mk c = None \<Longrightarrow> add_flow env mk c = (Panic, c)"
  by (simp add: add_flow_def go_eval)

lemma two_flows_half:
  assumes "mk c = Some f" and "\<And>d. pipeline d = pipeline c \<Longrightarrow> mk' d = None"
  shows "fst (gseq (add_flow env mk) (add_flow env mk') c) \<noteq> Ok () \<and>
      length (hist (snd (gseq (add_flow env mk) (add_flow env mk') c))) = Suc (length (hist c))"
    and "fst (gseq (add_flow env mk) (gseq (add_flow env mk') m) c) \<noteq> Ok () \<and>
      length (hist (snd (gseq (add_flow env mk) (gseq (add_flow env mk') m) c))) = Suc (length (hist c))"
proof -
  obtain r c1 where add: "flow_Add env f c = (r, c1)" by (cases "flow_Add env f c")
  then have "length (hist c1) = Suc (length (hist c))" by (auto simp: flow_Add_eq split: if_splits)
  moreover have "mk' c1 = None" using assms(2) client_more(2) [OF flow_op_more(1) [OF add]] by simp
  note add_flow_None [of mk' c1 env, OF this]
  ultimately show "fst (gseq (add_flow env mk) (add_flow env mk') c) \<noteq> Ok () \<and>
      length (hist (snd (gseq (add_flow env mk) (add_flow env mk') c))) = Suc (length (hist c))"
    and "fst (gseq (add_flow env mk) (gseq (add_flow env mk') m) c) \<noteq> Ok () \<and>
      length (hist (snd (gseq (add_flow env mk) (gseq (add_flow env mk') m) c))) = Suc (length (hist c))"
    by (cases r; simp add: go_eval add_flow_Some [of mk c f env, OF assms(1)] add)+
qed

text \<open>
  The gateway and tunnel flows fail half way: exactly one flow, the classifier's, is sent to the switch,
  and the call ends with that command's error or with a panic at the next flow, never with nil.
\<close>

lemma gateway_flows_half_installed:
  assumes "reachable env (NewClient b) c"
    and "m \<in> {InstallGatewayFlows env a mc p, InstallTunnelFlows env p}"
  shows "fst (m c) \<noteq> Ok () \<and> length (hist (snd (m c))) = Suc (length (hist c))"
proof -
  have none: "gatewayIPSpoofGuardFlow d p = None" "l2ForwardCalcFlow d globalVirtualMAC p = None"
    if "pipeline d = pipeline c" for d
    using reachable_br_tables [OF assms(1)] table_at_cong [OF that]
    by (simp_all add: table_ids gatewayIPSpoofGuardFlow_def l2ForwardCalcFlow_def)
  have "table_at c classifierTable \<noteq> None"
    using table_at_cong [OF reachable_pipeline [OF assms(1)], of classifierTable]
    by (simp add: table_at_br0)
  then obtain f g where "gatewayClassifierFlow c p = Some f" "tunnelClassifierFlow c p = Some g"
    by (auto simp: gatewayClassifierFlow_def tunnelClassifierFlow_def flow_at_def)
  note half = two_flows_half(1) [of "\<lambda>d. tunnelClassifierFlow d p" c g "\<lambda>d. l2ForwardCalcFlow d globalVirtualMAC p" env]
    two_flows_half(2) [of "\<lambda>d. gatewayClassifierFlow d p" c f "\<lambda>d. gatewayIPSpoofGuardFlow d p" env]
  have "fst (InstallGatewayFlows env a mc p c) \<noteq> Ok () \<and>
      length (hist (snd (InstallGatewayFlows env a mc p c))) = Suc (length (hist c))"
    unfolding InstallGatewayFlows_def by (rule half(2)) (simp_all add: none \<open>gatewayClassifierFlow c p = Some f\<close>)
  moreover have "fst (InstallTunnelFlows env p c) \<noteq> Ok () \<and>
      length (hist (snd (InstallTunnelFlows env p c))) = Suc (length (hist c))"
    unfolding InstallTunnelFlows_def by (rule half(1)) (simp_all add: none \<open>tunnelClassifierFlow c p = Some g\<close>)
  ultimately show ?thesis using assms(2) by blast
qed

lemma gateway_flows_half_installed_witness:
  "fst (InstallTunnelFlows ok_env 1 br0) \<noteq> Ok () \<and> length (hist (snd (InstallTunnelFlows ok_env 1 br0))) = Suc (length (hist br0))"
  using gateway_flows_half_installed [of ok_env "''br-int''", OF reachable.start [OF fresh_NewClient]]
  unfolding br0_def by blast

end
