(* ===== verification/PolicyProps.thy ===== *)
theory PolicyProps
  imports FlowProps
begin

text \<open>
  Properties of network_policy.go: the contexts behind the conjunctive match flows, what installing
  and uninstalling a rule does and does not do, and the key under which contexts are shared.
\<close>

section \<open>Contexts and their flows\<close>

text \<open>
  C3: In every state that calls of the client can reach, whatever the switch answered and wherever a
  call failed, a context has a conjunctive match flow exactly when it has an action, and the
  actions of that flow are the conjunction actions of the context, each once.
\<close>

theorem context_flow_agrees:
  assumes "reachable env c0 c" and "fair_env env" and "ctxs c p = Some x"
  shows "(x_flow x = None \<longleftrightarrow> x_actions x = []) \<and>
    (\<forall>f. x_flow x = Some f \<longrightarrow> mset (fl_actions f) = mset (map (action_text \<circ> snd) (x_actions x))) \<and>
    wf_map (x_actions x)"
proof -
  have "ctx_ok x" using reachable_np_ok [OF assms(1,2)] assms(3) by (simp add: np_ok_def heap_ok_def)
  then show ?thesis by (auto simp: ctx_ok_def split: option.splits)
qed

text \<open>The rules of the witnesses: one with two clauses, and one that denies everything to a port.\<close>

definition rule5 :: PolicyRule where
  "rule5 = \<lparr>pr_ID = 5, pr_Direction = ''Ingress'', pr_From = Some [IPAddress [10, 0, 0, 1]],
     pr_ExceptFrom = None, pr_To = Some [OFPortAddress 3], pr_ExceptTo = None, pr_Service = None\<rparr>"

definition deny_rule :: PolicyRule where
  "deny_rule = \<lparr>pr_ID = 9, pr_Direction = ''Ingress'', pr_From = None, pr_ExceptFrom = None,
     pr_To = Some [OFPortAddress 3], pr_ExceptTo = None, pr_Service = None\<rparr>"

definition with_rule5 :: client where
  "with_rule5 = after_calls ok_env [CInstallPolicyRuleFlows rule5] np_client"

lemma reachable_with_rule5: "reachable ok_env np_client with_rule5"
  unfolding with_rule5_def by (rule reachable_after_calls [OF reachable.start]) simp

lemma with_rule5_ctx: "ctxs with_rule5 0 \<noteq> None"
  by (simp add: with_rule5_def after_calls_def rule5_def run_install generateGlobalMapKey_def)

lemma context_flow_agrees_witness:
  "let x = the (ctxs with_rule5 0) in x_flow x = None \<longleftrightarrow> x_actions x = []"
proof -
  obtain x where "ctxs with_rule5 0 = Some x" using with_rule5_ctx by auto
  with context_flow_agrees [OF reachable_with_rule5 fair_ok_env(1) this] show ?thesis by simp
qed

text \<open>
  C22: Uninstalling a rule never panics, in any state that calls of the client can reach and for any rule,
  installed or not: the caches never lead to a context that is not there.
\<close>

theorem uninstall_never_panics:
  assumes "reachable env c0 c" and "fair_env env"
  shows "fst (UninstallPolicyRuleFlows env r c) \<noteq> Panic"
  using UninstallPolicyRuleFlows_safe [OF assms(2), of r] reachable_np_ok [OF assms]
  by (simp add: safe_def)

lemma uninstall_never_panics_witness: "fst (UninstallPolicyRuleFlows ok_env 5 with_rule5) \<noteq> Panic"
  by (rule uninstall_never_panics [OF reachable_with_rule5 fair_ok_env(1)])

section \<open>Installing\<close>

text \<open>
  Over the pipeline \<open>NewClient\<close> builds, which has no rule tables, installing a rule that is not cached
  and has an address to match panics at once, with nothing sent to the switch and nothing cached.
\<close>

lemma install_rule_without_tables:
  assumes "reachable env (NewClient b) c" and "getPolicyRuleConjunction c (pr_ID rule) = None"
    and "pr_From rule = Some (a # as)"
  shows "InstallPolicyRuleFlows env rule c = (Panic, c)"
proof -
  note none = reachable_br_tables [OF assms(1)]
  have "table_at c k = None" if "k \<in> {egressRuleTable, egressDefaultTable, ingressRuleTable, ingressDefaultTable}" for k
    using none that by (auto simp: table_ids)
  then have rt: "rule_tables c rule = (None, None)" by (simp add: rule_tables_def)
  have add: "addAddrFlows env SrcAddress (a # as) (c, newClause i k n None dt) = (Panic, (c, newClause i k n None dt))"
    for i k n dt
    by (simp add: addAddrFlows_def go_eval generateAddressConjMatch_def newClause_def)
  obtain nc f t v where ids: "clause_ids rule = (nc, f, t, v)" by (metis prod.exhaust)
  show ?thesis
    using assms(2,3)
    by (simp add: InstallPolicyRuleFlows_def go_eval rt ids action_flows_def install_clause_def
        on_new_clause_def add)
qed

lemma install_rule_without_tables_witness:
  "InstallPolicyRuleFlows ok_env rule5 (NewClient ''br-int'') = (Panic, NewClient ''br-int'')"
  by (rule install_rule_without_tables [OF reachable.start [OF fresh_NewClient]])
    (auto simp: rule5_def getPolicyRuleConjunction_def NewClient_def NewBridge_def CreateTable_def Let_def)

text \<open>
  Installing a rule whose id is cached, and changing the addresses of a rule whose id is not, do nothing:
  the first returns nil, the others the not-found error of that id.
\<close>

lemma cached_and_unknown_rules:
  "(if getPolicyRuleConjunction c (pr_ID rule) = None
    then AddPolicyRuleAddress env (pr_ID rule) ty as c = (Err (ErrConjunctionNotFound (pr_ID rule)), c) \<and>
         DeletePolicyRuleAddress env (pr_ID rule) ty as c = (Err (ErrConjunctionNotFound (pr_ID rule)), c) \<and>
         UninstallPolicyRuleFlows env (pr_ID rule) c = (Ok (), c)
    else InstallPolicyRuleFlows env rule c = (Ok (), c))"
  by (auto simp: AddPolicyRuleAddress_def DeletePolicyRuleAddress_def on_address_clause_def
      UninstallPolicyRuleFlows_def InstallPolicyRuleFlows_def go_eval case_prod_unfold)





section \<open>Rules that deny everything\<close>

text \<open>What a run has added to the history: only additions of flows to the given table.\<close>

definition only_adds_to :: "table_id \<Rightarrow> client \<Rightarrow> client \<Rightarrow> bool" where
  "only_adds_to k c d \<longleftrightarrow> pipeline d = pipeline c \<and> policyCache d = policyCache c \<and>
     (\<exists>h. hist d = h @ hist c \<and> fst ` set h \<subseteq> OfctlAdd ` {f. t_id (fl_table f) = k})"

definition deny_clause :: "table_id \<Rightarrow> client \<Rightarrow> clause_state \<Rightarrow> bool" where
  "deny_clause k c s \<longleftrightarrow> only_adds_to k c (fst s) \<and> \<not> 1 < ca_nClause (cl_action (snd s)) \<and>
     (\<forall>t. cl_dropTable (snd s) = Some t \<longrightarrow> GetID t = k)"

lemma only_adds_to_more:
  "only_adds_to k c d \<Longrightarrow> pipeline d' = pipeline d \<Longrightarrow> policyCache d' = policyCache d \<Longrightarrow>
   hist d' = hist d \<Longrightarrow> only_adds_to k c d'"
  by (simp add: only_adds_to_def)

lemma only_adds_to_step:
  assumes "only_adds_to k c d" "pipeline d' = pipeline d" "policyCache d' = policyCache d"
    and "hist d' = (OfctlAdd f, b) # hist d" "t_id (fl_table f) = k"
  shows "only_adds_to k c d'"
proof -
  obtain h where h: "hist d = h @ hist c" "fst ` set h \<subseteq> OfctlAdd ` {f. t_id (fl_table f) = k}"
    using assms(1) by (auto simp: only_adds_to_def)
  then have "hist d' = ((OfctlAdd f, b) # h) @ hist c" using assms(4) by simp
  moreover have "fst ` set ((OfctlAdd f, b) # h) \<subseteq> OfctlAdd ` {f. t_id (fl_table f) = k}"
    using h(2) assms(5) by auto
  moreover have "pipeline d' = pipeline c \<and> policyCache d' = policyCache c"
    using assms(1-3) by (simp add: only_adds_to_def)
  ultimately show ?thesis unfolding only_adds_to_def by blast
qed

lemma fl_table_addFlowMatch: "addFlowMatch fb k v = Some fb' \<Longrightarrow> fl_table fb' = fl_table fb"
  by (induction fb k v rule: addFlowMatch.induct) (auto simp: match_defs)

lemma defaultDropFlow_table:
  assumes "wf_pipeline d" and "defaultDropFlow d k mk mv = Some f"
  shows "t_id (fl_table f) = k"
proof -
  from assms(2) obtain t fb where "table_at d k = Some t"
    and fb: "addFlowMatch (chain (BuildFlow t) [Priority priorityNormal]) mk mv = Some fb"
    and f: "f = Done (Drop fb)"
    by (auto simp: defaultDropFlow_def bind_eq_Some_conv)
  then have "t_id t = k" using wf_pipelineD [OF assms(1)] by (simp add: GetID_def)
  with fl_table_addFlowMatch [OF fb] show ?thesis
    by (simp add: f Done_def Drop_def chain_def Priority_def BuildFlow_def act_def)
qed

lemma install_drop_only_adds:
  assumes "wf_pipeline c" and "\<And>t. dt = Some t \<Longrightarrow> GetID t = k"
  shows "keeps (only_adds_to k c) (install_drop env dt m)"
proof (rule keepsI)
  fix d assume d: "only_adds_to k c d"
  show "only_adds_to k c (snd (install_drop env dt m d))"
  proof (cases dt)
    case None
    with d show ?thesis by (simp add: install_drop_def go_eval)
  next
    case (Some t)
    then have t: "GetID t = k" using assms(2) by simp
    have wf: "wf_pipeline d" using assms(1) d by (simp add: wf_pipeline_def only_adds_to_def)
    show ?thesis
    proof (cases "defaultDropFlow d k (cm_matchKey m) (cm_matchValue m)")
      case None
      with d Some t show ?thesis by (simp add: install_drop_def go_eval)
    next
      case (Some f)
      note tab = defaultDropFlow_table [OF wf Some]
      obtain r d' where add: "flow_Add env f d = (r, d')" by (cases "flow_Add env f d")
      then have "hist d' = (OfctlAdd f, accepts env (hist d) (OfctlAdd f)) # hist d"
        by (auto simp: flow_Add_eq split: if_splits)
      from only_adds_to_step [OF d client_more(2,4) [OF flow_op_more(1) [OF add]] this tab]
      have "only_adds_to k c d'" .
      with add Some \<open>dt = Some t\<close> t show ?thesis
        by (cases r) (simp_all add: install_drop_def go_eval)
    qed
  qed
qed

lemma deny_add_keeps:
  assumes "wf_pipeline c"
  shows "keeps (deny_clause k c) (addConjunctiveMatchFlow env m)"
proof (rule keepsI)
  fix s assume s: "deny_clause k c s"
  obtain d cl where dcl: "s = (d, cl)" by (cases s)
  let ?I = "only_adds_to k c"
  have "keeps ?I (install_drop env (cl_dropTable cl) m)"
    using s by (intro install_drop_only_adds [OF assms]) (simp add: deny_clause_def dcl)
  moreover have "keeps ?I (\<lambda>c. case alloc_ctx m df c of (p, c') \<Rightarrow> (Ok p, c'))" for df
    by (rule keepsI) (auto simp: alloc_ctx_def Let_def intro: only_adds_to_more)
  moreover have "keeps ?I (modify (\<lambda>c. c\<lparr>globalConjMatchFlowCache := g c\<rparr>))" for g
    by (rule keepsI) (auto simp: modify_eval intro: only_adds_to_more)
  ultimately have find: "keeps ?I (find_or_create_ctx env (cl_dropTable cl) m)"
    unfolding find_or_create_ctx_def Let_def by (intro go_keeps)
  have deny: "keeps ?I (addDenyAllRule p i)" for p i
    unfolding addDenyAllRule_def modify_ctx_def
    by (rule keepsI) (auto simp: modify_eval intro: only_adds_to_more)
  have d: "only_adds_to k c d" and n: "\<not> 1 < ca_nClause (cl_action cl)"
    using s by (simp_all add: deny_clause_def dcl)
  obtain r1 d1 where 1: "find_or_create_ctx env (cl_dropTable cl) m d = (r1, d1)"
    by (cases "find_or_create_ctx env (cl_dropTable cl) m d")
  have d1: "only_adds_to k c d1" using keepsE [OF find d 1] .
  show "deny_clause k c (snd (addConjunctiveMatchFlow env m s))"
  proof (cases r1)
    case (Ok p)
    obtain r2 d2 where 2: "addDenyAllRule p (ca_conjID (cl_action cl)) d1 = (r2, d2)"
      by (cases "addDenyAllRule p (ca_conjID (cl_action cl)) d1")
    have "only_adds_to k c d2" using keepsE [OF deny d1 2] .
    with s d d1 1 2 n Ok show ?thesis
      by (cases r2) (auto simp: addConjunctiveMatchFlow_def Let_def dcl go_eval deny_clause_def)
  qed (use s d1 1 n in \<open>auto simp: addConjunctiveMatchFlow_def Let_def dcl go_eval deny_clause_def\<close>)
qed

lemma deny_loops_keep:
  assumes "wf_pipeline c"
  shows "keeps (deny_clause k c) (addAddrFlows env ty as)" "keeps (deny_clause k c) (addServiceFlows env ps)"
  unfolding addAddrFlows_def addServiceFlows_def case_prod_unfold
  by (intro go_keeps deny_add_keeps [OF assms])+

lemma deny_install_clause:
  assumes "wf_pipeline c" and "\<not> 1 < n" and "\<And>t. dt = Some t \<Longrightarrow> GetID t = k"
    and add: "\<And>xs. keeps (deny_clause k c) (add xs)"
  shows "keeps (only_adds_to k c) (install_clause items (newClause i cid n rt dt) add)"
proof (cases items)
  case None
  then show ?thesis by (simp add: install_clause_def go_keeps)
next
  case (Some xs)
  let ?cl = "newClause i cid n rt dt"
  have "keeps (only_adds_to k c) (on_new_clause ?cl (add xs))"
  proof (rule keepsI)
    fix d assume "only_adds_to k c d"
    then have pre: "deny_clause k c (d, ?cl)" using assms(2,3) by (simp add: deny_clause_def newClause_def)
    obtain r d' cl' where run: "add xs (d, ?cl) = (r, (d', cl'))" by (metis prod.exhaust)
    have "only_adds_to k c d'" using keepsE [OF add pre run] by (simp add: deny_clause_def)
    then show "only_adds_to k c (snd (on_new_clause ?cl (add xs) d))"
      by (cases r) (simp_all add: on_new_clause_def run)
  qed
  then show ?thesis by (simp add: install_clause_def Some go_keeps)
qed

lemma hist_only_adds: "only_adds_to k c d \<Longrightarrow>
  \<exists>h. hist (d\<lparr>policyCache := ps\<rparr>) = h @ hist c \<and> fst ` set h \<subseteq> OfctlAdd ` {f. t_id (fl_table f) = k}"
  by (simp add: only_adds_to_def)

text \<open>
  A rule with at most one of from, to and service is a deny rule: whatever its addresses and however the
  installation ends, all it sends to the switch are additions of flows to the default table of its
  direction; no flow of the rule table, no conjunction and no action flow is installed.
\<close>

lemma deny_rule_only_drops:
  assumes "wf_pipeline c"
    and "length (filter id [pr_From rule \<noteq> None, pr_To rule \<noteq> None, pr_Service rule \<noteq> None]) \<le> 1"
    and "InstallPolicyRuleFlows env rule c = (r, c')"
  shows "\<exists>h. hist c' = h @ hist c \<and> fst ` set h \<subseteq> OfctlAdd ` {f.
    t_id (fl_table f) = (if is_egress rule then egressDefaultTable else ingressDefaultTable)}"
proof -
  let ?k = "if is_egress rule then egressDefaultTable else ingressDefaultTable"
  let ?J = "\<lambda>d. \<exists>h. hist d = h @ hist c \<and> fst ` set h \<subseteq> OfctlAdd ` {f. t_id (fl_table f) = ?k}"
  obtain n f t v where ids: "clause_ids rule = (n, f, t, v)" by (metis prod.exhaust)
  with assms(2) have n: "\<not> 1 < n"
    by (auto simp: clause_ids_def Let_def split: if_splits)
  obtain rt dt where tabs: "rule_tables c rule = (rt, dt)" by (cases "rule_tables c rule")
  have dt: "GetID u = ?k" if "dt = Some u" for u
    using that tabs wf_pipelineD [OF assms(1)] by (auto simp: rule_tables_def split: if_splits)
  note clause = deny_install_clause [OF assms(1) n]
  show ?thesis
  proof (cases "getPolicyRuleConjunction c (pr_ID rule)")
    case (Some pc)
    with assms(3) show ?thesis by (auto simp: InstallPolicyRuleFlows_def go_eval tabs)
  next
    case None
    let ?rest = "\<lambda>fs. gbind (install_clause (pr_From rule) (newClause (pr_ID rule) f n rt
          (if is_egress rule then dt else None)) (addAddrFlows env SrcAddress)) (\<lambda>fc.
        gbind (install_clause (pr_To rule) (newClause (pr_ID rule) t n rt
          (if \<not> is_egress rule then dt else None)) (addAddrFlows env DstAddress)) (\<lambda>tc.
        gbind (install_clause (pr_Service rule) (newClause (pr_ID rule) v n rt None)
          (addServiceFlows env)) (\<lambda>sc.
        modify (\<lambda>c. c\<lparr>policyCache := AList.update (pr_ID rule) \<lparr>pc_id = pr_ID rule, pc_fromClause = fc,
          pc_toClause = tc, pc_serviceClause = sc, pc_actionFlows = fs\<rparr> (policyCache c)\<rparr>))))"
    have "triple (only_adds_to ?k c) (only_adds_to ?k c) (?rest fs) (\<lambda>_. ?J)" for fs
      by (intro triple_gbind [OF triple_keeps] triple_modify clause deny_loops_keep assms(1) hist_only_adds)
        (auto simp: dt)
    moreover have "only_adds_to ?k c c" by (simp add: only_adds_to_def)
    moreover have "?rest [] c = (r, c')"
      using assms(3) None n by (simp add: InstallPolicyRuleFlows_def go_eval tabs ids)
    ultimately have "case r of Ok a \<Rightarrow> ?J c' | _ \<Rightarrow> only_adds_to ?k c c'" by (rule tripleD)
    then show ?thesis by (cases r) (auto simp: only_adds_to_def)
  qed
qed

lemma deny_rule_only_drops_witness:
  "\<exists>h. hist (snd (InstallPolicyRuleFlows ok_env deny_rule np_client)) = h @ hist np_client \<and>
    fst ` set h \<subseteq> OfctlAdd ` {f. t_id (fl_table f) = ingressDefaultTable}"
proof -
  have "wf_pipeline np_client"
    by (simp add: wf_pipeline_def np_client_def sample_table_def GetID_def table_ids)
  from deny_rule_only_drops [OF this, of deny_rule ok_env]
  show ?thesis
    by (cases "InstallPolicyRuleFlows ok_env deny_rule np_client") (simp add: deny_rule_def is_egress_def)
qed

section \<open>Keys and service ports\<close>


lemma addServiceFlows_Ok:
  "addServiceFlows env ports s = (Ok (), s') \<Longrightarrow> port \<in> set ports \<Longrightarrow>
   npp_Protocol port \<noteq> None \<and> npp_IntVal port \<noteq> None"
proof (induction ports arbitrary: s)
  case Nil
  then show ?case by simp
next
  case (Cons q ports)
  let ?m = "generateServicePortConjMatch (snd s) q"
  from Cons.prems(1) obtain s1 where
    body: "gbind (deref ?m) (addConjunctiveMatchFlow env) s = (Ok (), s1)" and
    rest: "addServiceFlows env ports s1 = (Ok (), s')"
    by (cases s) (auto simp: addServiceFlows_def gbind_Ok_iff gets_eval)
  have "?m \<noteq> None" using body by (cases ?m) (auto simp: go_eval)
  then have "npp_Protocol q \<noteq> None \<and> npp_IntVal q \<noteq> None"
    by (auto simp: generateServicePortConjMatch_def getServiceMatchType_def bind_eq_Some_conv)
  with Cons.IH [OF rest] Cons.prems(2) show ?case by auto
qed

text \<open>
  A rule is never installed with a service port whose protocol or port is nil: there is no default
  protocol, the installation of such a rule does not return nil.
\<close>

lemma port_without_protocol_fails:
  assumes "getPolicyRuleConjunction c (pr_ID rule) = None"
    and "pr_Service rule = Some ports" and "port \<in> set ports"
    and "npp_Protocol port = None \<or> npp_IntVal port = None"
  shows "fst (InstallPolicyRuleFlows env rule c) \<noteq> Ok ()"
proof
  assume "fst (InstallPolicyRuleFlows env rule c) = Ok ()"
  then have ok: "InstallPolicyRuleFlows env rule c = (Ok (), snd (InstallPolicyRuleFlows env rule c))"
    by (rule Ok_run)
  obtain n f t v where ids: "clause_ids rule = (n, f, t, v)" by (metis prod.exhaust)
  obtain rt dt where tabs: "rule_tables c rule = (rt, dt)" by (cases "rule_tables c rule")
  from ok assms(1,2) have "\<exists>c1 cl sc c2. install_clause (Some ports) cl (addServiceFlows env) c1 = (Ok sc, c2)"
    unfolding InstallPolicyRuleFlows_def gbind_Ok_iff
    by (auto simp: gets_eval tabs ids gbind_Ok_iff)
  then obtain c1 cl sc c2 where "gbind (on_new_clause cl (addServiceFlows env ports)) (\<lambda>cl'. ret (Some cl')) c1 = (Ok sc, c2)"
    by (auto simp: install_clause_def)
  then obtain cl' c3 where "on_new_clause cl (addServiceFlows env ports) c1 = (Ok cl', c3)"
    by (auto simp: gbind_Ok_iff)
  then obtain s' where "addServiceFlows env ports (c1, cl) = (Ok (), s')"
    by (auto simp: on_new_clause_def split: prod.splits result.splits)
  from addServiceFlows_Ok [OF this assms(3)] assms(4) show False by auto
qed

lemma port_without_protocol_fails_witness:
  "fst (InstallPolicyRuleFlows ok_env (rule5\<lparr>pr_Service := Some [\<lparr>npp_Protocol = None, npp_IntVal = Some 80\<rparr>]\<rparr>) np_client) \<noteq> Ok ()"
  by (rule port_without_protocol_fails [where port = "\<lparr>npp_Protocol = None, npp_IntVal = Some 80\<rparr>"])
    (auto simp: getPolicyRuleConjunction_def np_client_simps)

end
