(* ===== verification/PolicyEntries.thy ===== *)
theory PolicyEntries
  imports Reachability
begin

text \<open>
  Whose entries a call changes: the contexts of network_policy.go are shared by the rules that match the
  same packets, and a call for one rule must leave what the contexts hold for the others.
\<close>

section \<open>Entries of other rules\<close>

text \<open>The same context up to the entries of rule \<open>r\<close> and its flows.\<close>

definition others :: "32 word \<Rightarrow> conjMatchFlowContext \<Rightarrow> conjMatchFlowContext \<Rightarrow> bool" where
  "others r x x' \<longleftrightarrow> x_match x' = x_match x \<and>
     AList.delete r (x_actions x') = AList.delete r (x_actions x) \<and>
     AList.delete r (x_denyAllRules x') = AList.delete r (x_denyAllRules x)"

definition others_kept :: "32 word \<Rightarrow> client \<Rightarrow> client \<Rightarrow> bool" where
  "others_kept r c0 c \<longleftrightarrow> (\<forall>p. ctxs c p \<noteq> None \<longrightarrow> p < next_ctx c) \<and>
     AList.delete r (policyCache c) = AList.delete r (policyCache c0) \<and>
     (\<forall>p x. ctxs c0 p = Some x \<longrightarrow> (\<exists>x'. ctxs c p = Some x' \<and> others r x x'))"

lemma others_simps [simp]:
  "others r x x" "others r x (x'\<lparr>x_flow := f\<rparr>) = others r x x'" "others r x (x'\<lparr>x_dropFlow := f\<rparr>) = others r x x'"
  "others r x (x'\<lparr>x_actions := AList.delete r (x_actions x')\<rparr>) = others r x x'"
  "others r x (x'\<lparr>x_actions := AList.update r a (x_actions x')\<rparr>) = others r x x'"
  "others r x (x'\<lparr>x_denyAllRules := AList.delete r (x_denyAllRules x')\<rparr>) = others r x x'"
  "others r x (x'\<lparr>x_denyAllRules := AList.update r d (x_denyAllRules x')\<rparr>) = others r x x'"
  by (auto simp: others_def delete_idem delete_update_same)

lemma map_of_same_delete: "q \<noteq> r \<Longrightarrow> AList.delete r m' = AList.delete r m \<Longrightarrow> map_of m' q = map_of m q"
  by (drule arg_cong [where f = "\<lambda>l. map_of l q"]) simp

lemma others_map_of:
  assumes "others r x x'" and "q \<noteq> r"
  shows "map_of (x_actions x') q = map_of (x_actions x) q"
    and "map_of (x_denyAllRules x') q = map_of (x_denyAllRules x) q"
  using assms by (auto simp: others_def intro: map_of_same_delete)

lemma others_kept_cong:
  "others_kept r c0 c \<Longrightarrow> ctxs c' = ctxs c \<Longrightarrow> next_ctx c' = next_ctx c \<Longrightarrow>
   AList.delete r (policyCache c') = AList.delete r (policyCache c) \<Longrightarrow> others_kept r c0 c'"
  by (simp add: others_kept_def)

lemma others_kept_flow_ops [go_keeps]:
  "keeps (others_kept r c0) (flow_Add env f)" "keeps (others_kept r c0) (flow_Modify env f)"
  "keeps (others_kept r c0) (flow_Delete env f)"
proof -
  have "keeps (others_kept r c0) m"
    if "\<And>c x c'. m c = (x, c') \<Longrightarrow> switch.more c' = switch.more (c :: client)" for m :: "(client, unit) go"
  proof (rule keepsI)
    fix c assume c: "others_kept r c0 c"
    obtain x c' where run: "m c = (x, c')" by (cases "m c")
    from others_kept_cong [OF c, of c'] client_more [OF that [OF run]] run
    show "others_kept r c0 (snd (m c))" by simp
  qed
  then show "keeps (others_kept r c0) (flow_Add env f)" "keeps (others_kept r c0) (flow_Modify env f)"
    "keeps (others_kept r c0) (flow_Delete env f)"
    using flow_op_more [of env f] by blast+
qed

lemma others_kept_modify_ctx:
  assumes "\<And>x0 x. others r x0 x \<Longrightarrow> others r x0 (f x)"
  shows "keeps (others_kept r c0) (modify_ctx p f)"
proof (rule keepsI)
  fix c assume "others_kept r c0 c"
  then show "others_kept r c0 (snd (modify_ctx p f c))"
    using assms by (fastforce simp: others_kept_def modify_ctx_def modify_eval)
qed

lemma others_kept_get_ctx [go_keeps]: "keeps (others_kept r c0) (get_ctx p)"
  unfolding get_ctx_def by (intro go_keeps)

lemma others_kept_modify:
  assumes "\<And>c. ctxs (f c) = ctxs c \<and> next_ctx (f c) = next_ctx c \<and>
    AList.delete r (policyCache (f c)) = AList.delete r (policyCache c)"
  shows "keeps (others_kept r c0) (modify f)"
proof (rule keepsI)
  fix c assume "others_kept r c0 c"
  then show "others_kept r c0 (snd (modify f c))"
    using others_kept_cong [of r c0 c "f c"] assms by (simp add: modify_eval)
qed

lemma others_kept_installOrUpdateFlow [go_keeps]: "keeps (others_kept r c0) (installOrUpdateFlow env p acts)"
  unfolding installOrUpdateFlow_def Let_def by (intro go_keeps others_kept_modify_ctx) auto

lemma others_kept_actions:
  "ca_conjID a = r \<Longrightarrow> keeps (others_kept r c0) (addAction env p a)"
  "keeps (others_kept r c0) (deleteAction env p r)" "keeps (others_kept r c0) (addDenyAllRule p r)"
  unfolding addAction_def deleteAction_def addDenyAllRule_def
  by (intro go_keeps others_kept_modify_ctx; simp)+

lemma others_kept_install_drop: "keeps (others_kept r c0) (install_drop env dt m)"
  unfolding install_drop_def by (intro go_keeps)

lemma others_kept_alloc:
  "keeps (others_kept r c0) (\<lambda>c. case alloc_ctx m df c of (p, c') \<Rightarrow> (Ok p, c'))"
proof (rule keepsI)
  fix c assume ok: "others_kept r c0 c"
  then have "ctxs c (next_ctx c) = None" by (metis less_irrefl others_kept_def)
  then show "others_kept r c0 (snd (case alloc_ctx m df c of (p, c') \<Rightarrow> (Ok p, c')))"
    using ok by (fastforce simp: others_kept_def alloc_ctx_def Let_def less_Suc_eq)
qed

lemma others_kept_find: "keeps (others_kept r c0) (find_or_create_ctx env dt m)"
  unfolding find_or_create_ctx_def Let_def
  by (intro go_keeps others_kept_install_drop others_kept_alloc others_kept_modify) simp

lemma others_kept_leave:
  "ca_conjID a = r \<Longrightarrow> keeps (others_kept r c0) (leave_ctx env a p)"
  "keeps (others_kept r c0) (drop_empty_ctx env p)"
  unfolding leave_ctx_def drop_empty_ctx_def
  by (intro go_keeps others_kept_actions others_kept_modify_ctx others_kept_modify; simp add: others_kept_actions)+

section \<open>The clauses and rules\<close>

fun clause_others :: "32 word \<Rightarrow> client \<Rightarrow> clause_state \<Rightarrow> bool" where
  "clause_others r c0 (c, cl) \<longleftrightarrow> others_kept r c0 c \<and> ca_conjID (cl_action cl) = r"

lemma clause_others_on_fst: "keeps (others_kept r c0) m \<Longrightarrow> keeps (clause_others r c0) (on_fst m)"
  by (rule keepsI) (auto simp: on_fst_def keeps_def split: prod.split)

lemma others_kept_addConjunctiveMatchFlow [go_keeps]:
  "keeps (clause_others r c0) (addConjunctiveMatchFlow env m)"
proof (rule keepsI)
  fix s assume s: "clause_others r c0 s"
  obtain c cl where scl: "s = (c, cl)" by (cases s)
  let ?m = "\<lambda>p. if 1 < ca_nClause (cl_action cl) then addAction env p (cl_action cl)
    else addDenyAllRule p (ca_conjID (cl_action cl))"
  let ?body = "gbind (on_fst (find_or_create_ctx env (cl_dropTable cl) m)) (\<lambda>p. gseq (on_fst (?m p))
    (modify (\<lambda>(c, cl). (c, cl\<lparr>cl_matches := AList.update (generateGlobalMapKey m) p (cl_matches cl)\<rparr>))))"
  have "keeps (others_kept r c0) (?m p)" for p
    using s by (intro go_keeps) (auto simp: scl intro: others_kept_actions)
  moreover have "keeps (clause_others r c0) (modify (\<lambda>(c, cl). (c, cl\<lparr>cl_matches := g cl\<rparr>)))" for g
    by (rule keepsI) (auto simp: modify_eval)
  ultimately have "keeps (clause_others r c0) ?body"
    by (intro go_keeps clause_others_on_fst others_kept_find) auto
  with s show "clause_others r c0 (snd (addConjunctiveMatchFlow env m s))"
    by (simp add: addConjunctiveMatchFlow_def Let_def scl gbind_eval [of "gets snd"] gets_eval ret_eval keeps_def)
qed

lemma others_kept_deleteConjunctiveMatchFlow [go_keeps]:
  "keeps (clause_others r c0) (deleteConjunctiveMatchFlow env k)"
proof (rule keepsI)
  fix s assume s: "clause_others r c0 s"
  obtain c cl where scl: "s = (c, cl)" by (cases s)
  let ?body = "\<lambda>p. gseq (on_fst (leave_ctx env (cl_action cl) p)) (gseq (on_fst (drop_empty_ctx env p))
    (modify (\<lambda>(c, cl). (c, cl\<lparr>cl_matches := AList.delete k (cl_matches cl)\<rparr>))))"
  have "keeps (clause_others r c0) (modify (\<lambda>(c, cl). (c, cl\<lparr>cl_matches := g cl\<rparr>)))" for g
    by (rule keepsI) (auto simp: modify_eval)
  then have "keeps (clause_others r c0) (?body p)" for p
    using s by (intro go_keeps clause_others_on_fst others_kept_leave) (auto simp: scl)
  with s show "clause_others r c0 (snd (deleteConjunctiveMatchFlow env k s))"
    by (simp add: deleteConjunctiveMatchFlow_def scl gbind_eval [of "gets snd"] gets_eval ret_eval keeps_def
        split: option.split)
qed

lemma others_kept_loops [go_keeps]:
  "keeps (clause_others r c0) (addAddrFlows env ty as)" "keeps (clause_others r c0) (addServiceFlows env ps)"
  "keeps (clause_others r c0) (deleteAddrFlows env ty as)" "keeps (clause_others r c0) (deleteAllMatches env)"
  unfolding addAddrFlows_def addServiceFlows_def deleteAddrFlows_def deleteAllMatches_def case_prod_unfold
  by (intro go_keeps)+

lemma others_kept_install_clause:
  assumes "\<And>xs. keeps (clause_others r c0) (add xs)"
  shows "keeps (others_kept r c0) (install_clause items (newClause r n k rt dt) add)"
proof -
  have "keeps (others_kept r c0) (on_new_clause (newClause r n k rt dt) (add xs))" for xs
  proof (rule keepsI)
    fix c assume "others_kept r c0 c"
    then have "clause_others r c0 (c, newClause r n k rt dt)" by (simp add: newClause_def)
    then have "others_kept r c0 (fst (snd (add xs (c, newClause r n k rt dt))))"
      using keepsD [OF assms, of "(c, newClause r n k rt dt)" xs] by (metis clause_others.simps prod.collapse)
    then show "others_kept r c0 (snd (on_new_clause (newClause r n k rt dt) (add xs) c))"
      by (auto simp: on_new_clause_def split: prod.splits result.splits)
  qed
  then show ?thesis unfolding install_clause_def by (intro go_keeps)
qed

lemma others_kept_cached_clause:
  assumes "keeps (clause_others r c0) m" and "ca_conjID (cl_action cl) = r" and "others_kept r c0 c"
  shows "others_kept r c0 (snd (on_cached_clause r slot cl m c))"
proof -
  obtain x c' cl' where run: "m (c, cl) = (x, (c', cl'))" by (metis prod.exhaust)
  have "clause_others r c0 (c, cl)" using assms by simp
  with keepsE [OF assms(1) _ run] have "others_kept r c0 c'" by simp
  then have "others_kept r c0 (put_clause r slot cl' c')"
    by (auto simp: put_clause_def delete_update_same elim!: others_kept_cong split: option.split)
  then show ?thesis by (simp add: on_cached_clause_def run)
qed

lemma others_kept_Install: "keeps (others_kept (pr_ID rule) c0) (InstallPolicyRuleFlows env rule)"
proof -
  have store: "keeps (others_kept (pr_ID rule) c0)
      (modify (\<lambda>c. c\<lparr>policyCache := AList.update (pr_ID rule) pc (policyCache c)\<rparr>))" for pc
    by (rule others_kept_modify) (simp add: delete_update_same)
  show ?thesis
    unfolding InstallPolicyRuleFlows_def case_prod_unfold
    by (intro go_keeps others_kept_install_clause store)
qed

text \<open>The clauses a rule has in the cache carry its id.\<close>

lemma keeps_both: "keeps I m \<Longrightarrow> keeps J m \<Longrightarrow> keeps (\<lambda>s. I s \<and> J s) m"
  by (simp add: keeps_def)

lemma cached_clause_id:
  "np_ok c \<Longrightarrow> getPolicyRuleConjunction c r = Some pc \<Longrightarrow> slot_clause slot pc = Some cl \<Longrightarrow>
   ca_conjID (cl_action cl) = r"
  using slot_ok by (simp add: getPolicyRuleConjunction_def clause_ok_def)

lemma others_kept_delete_clause:
  assumes "fair_env env"
  shows "keeps (\<lambda>c. np_ok c \<and> others_kept r c0 c) (delete_clause env r slot)"
proof (rule keepsI)
  fix c assume c: "np_ok c \<and> others_kept r c0 c"
  have "others_kept r c0 (snd (delete_clause env r slot c))"
  proof (cases "Option.bind (getPolicyRuleConjunction c r) (slot_clause slot)")
    case None
    with c show ?thesis by (simp add: delete_clause_def go_eval)
  next
    case (Some cl)
    then have "ca_conjID (cl_action cl) = r" using c by (auto simp: bind_eq_Some_conv cached_clause_id)
    with Some c show ?thesis
      by (simp add: delete_clause_def go_eval others_kept_cached_clause others_kept_loops(4))
  qed
  with c keepsD [OF safe_keeps [OF delete_clause_safe [OF assms]], of c]
  show "np_ok (snd (delete_clause env r slot c)) \<and> others_kept r c0 (snd (delete_clause env r slot c))" by simp
qed

lemma others_kept_Uninstall:
  assumes "fair_env env"
  shows "keeps (\<lambda>c. np_ok c \<and> others_kept r c0 c) (UninstallPolicyRuleFlows env r)"
proof -
  have store: "keeps (others_kept r c0) (modify (\<lambda>c. c\<lparr>policyCache := AList.delete r (policyCache c)\<rparr>))"
    by (rule others_kept_modify) (simp add: delete_idem)
  have store': "keeps np_ok (modify (\<lambda>c. c\<lparr>policyCache := AList.delete r (policyCache c)\<rparr>))"
    by (rule keepsI) (simp add: modify_eval np_ok_def policies_ok_delete)
  show ?thesis
    unfolding UninstallPolicyRuleFlows_def
    by (intro go_keeps others_kept_delete_clause assms keeps_both store store' np_ok_flow_ops)
qed

lemma others_kept_on_address:
  assumes "\<And>c0. keeps (clause_others r c0) m" and "np_ok c" and "others_kept r c0 c"
  shows "others_kept r c0 (snd (on_address_clause r ty m c))"
  using assms cached_clause_id [OF assms(2)]
  by (auto simp: on_address_clause_def go_eval others_kept_cached_clause split: option.split)

text \<open>The rule a call is for; the other calls do not touch the contexts.\<close>

fun call_rule :: "call \<Rightarrow> 32 word option" where
  "call_rule (CInstallPolicyRuleFlows rule) = Some (pr_ID rule)"
| "call_rule (CUninstallPolicyRuleFlows r) = Some r"
| "call_rule (CAddPolicyRuleAddress r ty as) = Some r"
| "call_rule (CDeletePolicyRuleAddress r ty as) = Some r"
| "call_rule _ = None"

lemma others_kept_refl: "np_ok c \<Longrightarrow> others_kept r c c"
  by (fastforce simp: others_kept_def np_ok_def heap_ok_def)

lemma rule_call_others:
  assumes "np_ok c" and "fair_env env" and "call_rule k = Some r" and "invoke env k c = (x, c')"
  shows "others_kept r c c'"
proof -
  note refl = others_kept_refl [OF assms(1), of r]
  have "others_kept r c (snd (invoke env k c))"
  proof (cases k)
    case (CInstallPolicyRuleFlows rule)
    with assms(3) refl keepsD [OF others_kept_Install] show ?thesis by fastforce
  next
    case (CUninstallPolicyRuleFlows q)
    with assms(1,3) keepsD [OF others_kept_Uninstall [OF assms(2), of r c], of c] refl show ?thesis by simp
  next
    case (CAddPolicyRuleAddress q ty as)
    with assms(1,3) refl show ?thesis
      by (simp add: AddPolicyRuleAddress_def others_kept_on_address others_kept_loops)
  next
    case (CDeletePolicyRuleAddress q ty as)
    with assms(1,3) refl show ?thesis
      by (simp add: DeletePolicyRuleAddress_def others_kept_on_address others_kept_loops)
  qed (use assms(3) in auto)
  with assms(4) show ?thesis by simp
qed

interpretation entries: cache_blind "others_kept r c0" env for r c0 env
proof unfold_locales
  show "keeps (others_kept r c0) (run env (OfctlShow b))" for b
    by (rule keepsI) (simp add: run_eq others_kept_def)
qed (intro go_keeps | simp add: others_kept_def)+

lemma other_call_others:
  assumes "np_ok c" and "call_rule k = None" and "invoke env k c = (x, c')"
  shows "others_kept r c c'"
proof -
  have "keeps (others_kept r c) (invoke env k)"
    using assms(2) by (cases k) (simp_all add: entries.keeps_Initialize entries.keeps_client_go)
  from keepsE [OF this others_kept_refl [OF assms(1)] assms(3)] show ?thesis .
qed

text \<open>What is known of the entries of a rule that no call was for.\<close>

definition entries_same :: "32 word \<Rightarrow> client \<Rightarrow> client \<Rightarrow> bool" where
  "entries_same q c c' \<longleftrightarrow> map_of (policyCache c') q = map_of (policyCache c) q \<and>
     (\<forall>p x. ctxs c p = Some x \<longrightarrow> (\<exists>x'. ctxs c' p = Some x' \<and> x_match x' = x_match x \<and>
        map_of (x_actions x') q = map_of (x_actions x) q \<and>
        map_of (x_denyAllRules x') q = map_of (x_denyAllRules x) q))"

lemma others_entries_same:
  assumes "others_kept r c c'" and "q \<noteq> r"
  shows "entries_same q c c'"
proof -
  have "map_of (policyCache c') q = map_of (policyCache c) q"
    using assms by (intro map_of_same_delete [of q r]) (simp_all add: others_kept_def)
  moreover have "\<exists>x'. ctxs c' p = Some x' \<and> x_match x' = x_match x \<and>
      map_of (x_actions x') q = map_of (x_actions x) q \<and>
      map_of (x_denyAllRules x') q = map_of (x_denyAllRules x) q" if x: "ctxs c p = Some x" for p x
  proof -
    obtain x' where x': "ctxs c' p = Some x'" "others r x x'"
      using assms(1) x unfolding others_kept_def by blast
    with others_map_of [OF x'(2) assms(2)] show ?thesis by (auto simp: others_def)
  qed
  ultimately show ?thesis by (simp add: entries_same_def)
qed

lemma entries_same_refl: "entries_same q c c"
  by (simp add: entries_same_def)

lemma entries_same_trans: "entries_same q a b \<Longrightarrow> entries_same q b c \<Longrightarrow> entries_same q a c"
  unfolding entries_same_def by fastforce

lemma call_entries_same:
  assumes "np_ok c" and "fair_env env" and "call_rule k \<noteq> Some q" and "invoke env k c = (x, c')"
  shows "entries_same q c c'"
proof (cases "call_rule k")
  case None
  have "q \<noteq> q + 1" by simp
  with other_call_others [OF assms(1) None assms(4), of "q + 1"] show ?thesis by (rule others_entries_same)
next
  case (Some r)
  with assms(3) have "q \<noteq> r" by simp
  with rule_call_others [OF assms(1,2) Some assms(4)] show ?thesis by (rule others_entries_same)
qed

lemma calls_entries_same:
  assumes "np_ok c" and "fair_env env" and "\<And>k. k \<in> set ks \<Longrightarrow> call_rule k \<noteq> Some q"
  shows "entries_same q c (after_calls env ks c) \<and> np_ok (after_calls env ks c)"
  using assms(1,3)
proof (induction ks arbitrary: c)
  case Nil
  then show ?case by (simp add: after_calls_def entries_same_refl)
next
  case (Cons k ks)
  let ?c = "snd (invoke env k c)"
  have "np_ok ?c" using keepsD [OF np_ok_invoke [OF assms(2)] Cons.prems(1)] .
  moreover have "entries_same q c ?c"
    using call_entries_same [OF Cons.prems(1) assms(2), of k q] Cons.prems(2) by (metis list.set_intros(1) prod.collapse)
  ultimately show ?case
    using Cons.IH [of ?c] Cons.prems(2) by (auto simp: after_calls_def intro: entries_same_trans)
qed

end
