(* ===== verification/PolicyUndo.thy ===== *)
theory PolicyUndo
  imports PolicyEntries
begin

text \<open>
  What uninstalling a rule leaves of the contexts it used, and that it undoes an installation.
\<close>

section \<open>Leaving a context\<close>

definition emptied :: "conjMatchFlowContext \<Rightarrow> bool" where
  "emptied x \<longleftrightarrow> x_actions x = [] \<and> x_denyAllRules x = []"

definition leave_entry :: "conjunctiveAction \<Rightarrow> conjMatchFlowContext \<Rightarrow> conjMatchFlowContext" where
  "leave_entry a x = (if 1 < ca_nClause a
     then x\<lparr>x_actions := AList.delete (ca_conjID a) (x_actions x)\<rparr>
     else x\<lparr>x_denyAllRules := AList.delete (ca_conjID a) (x_denyAllRules x)\<rparr>)"

lemma emptied_simps [simp]:
  "emptied (x\<lparr>x_flow := f\<rparr>) = emptied x" "emptied (x\<lparr>x_dropFlow := f\<rparr>) = emptied x"
  by (simp_all add: emptied_def)

lemma leave_entry_simps [simp]:
  "x_match (leave_entry a x) = x_match x" "x_dropFlow (leave_entry a x) = x_dropFlow x"
  by (simp_all add: leave_entry_def)

lemma set_ctx_same: "ctxs c p = Some x \<Longrightarrow> set_ctx p x c = c"
  by (simp add: set_ctx_def fun_upd_idem)

lemma ctx_update_swap: "x\<lparr>x_flow := f, x_actions := as\<rparr> = x\<lparr>x_actions := as, x_flow := f\<rparr>"
  by (cases x) simp

lemma ctx_same_flow: "x\<lparr>x_actions := as, x_flow := x_flow x\<rparr> = x\<lparr>x_actions := as\<rparr>"
  by (cases x) simp

lemma deleteAction_Ok:
  assumes x: "ctxs c p = Some x" and run: "deleteAction env p i c = (Ok (), c')"
  shows "\<exists>fl c1. switch.more c1 = switch.more c \<and>
    c' = set_ctx p (x\<lparr>x_actions := AList.delete i (x_actions x), x_flow := fl\<rparr>) c1"
proof (cases "length (x_actions x) = 1 \<and> x_flow x \<noteq> None")
  case True
  then obtain f where f: "x_flow x = Some f" by blast
  obtain r1 c1 where del: "flow_Delete env f c = (r1, c1)" by (cases "flow_Delete env f c")
  have x1: "ctxs c1 p = Some x" using client_more(6) [OF flow_op_more(3) [OF del]] x by simp
  have "c' = set_ctx p (x\<lparr>x_actions := AList.delete i (x_actions x), x_flow := None\<rparr>) c1"
    using run x True f del x1
    by (cases r1) (auto simp: deleteAction_def go_eval get_ctx_Some modify_ctx_Some ctx_update_swap)
  with flow_op_more(3) [OF del] show ?thesis by blast
next
  case False
  let ?acts = "filter (\<lambda>act. ca_conjID act \<noteq> i) (ranged_actions env x c)"
  obtain r1 c1 where io: "installOrUpdateFlow env p ?acts c = (r1, c1)"
    by (cases "installOrUpdateFlow env p ?acts c")
  have run': "gseq (installOrUpdateFlow env p ?acts)
      (modify_ctx p (\<lambda>x. x\<lparr>x_actions := AList.delete i (x_actions x)\<rparr>)) c = (Ok (), c')"
    using run False by (auto simp: deleteAction_def get_ctx_Some [OF x] gbind_eval gets_eval)
  show ?thesis using x io
  proof (cases rule: installOrUpdateFlow_cases)
    case none
    have "c' = set_ctx p (x\<lparr>x_actions := AList.delete i (x_actions x), x_flow := x_flow x\<rparr>) c"
      using run' io none(1,4) x unfolding ctx_same_flow by (simp add: gbind_eval modify_ctx_Some)
    then show ?thesis by blast
  next
    case (flow f c2)
    have "c' = set_ctx p (x\<lparr>x_actions := AList.delete i (x_actions x), x_flow := Some f\<rparr>) c2"
      using run' io flow by (simp add: gbind_eval modify_ctx_Some ctx_update_swap)
    with flow(2) show ?thesis by blast
  next
    case failed
    with run' io show ?thesis by (cases r1) (simp_all add: gbind_eval)
  qed
qed

lemma leave_ctx_Ok:
  assumes x: "ctxs c p = Some x" and run: "leave_ctx env a p c = (Ok (), c')"
  shows "\<exists>fl c1. switch.more c1 = switch.more c \<and> c' = set_ctx p ((leave_entry a x)\<lparr>x_flow := fl\<rparr>) c1"
proof (cases "1 < ca_nClause a")
  case True
  show ?thesis
  proof (cases "map_of (x_actions x) (ca_conjID a)")
    case None
    with run x True have "c' = set_ctx p ((leave_entry a x)\<lparr>x_flow := x_flow x\<rparr>) c"
      by (simp add: leave_ctx_def go_eval get_ctx_Some leave_entry_def delete_absent set_ctx_same)
    then show ?thesis by blast
  next
    case (Some b)
    with run x True have "deleteAction env p (ca_conjID a) c = (Ok (), c')"
      by (simp add: leave_ctx_def go_eval get_ctx_Some)
    from deleteAction_Ok [OF x this] True show ?thesis by (simp add: leave_entry_def)
  qed
next
  case False
  have "c' = set_ctx p ((leave_entry a x)\<lparr>x_flow := x_flow x\<rparr>) c"
    using run x False
    by (auto simp: leave_ctx_def go_eval get_ctx_Some modify_ctx_Some leave_entry_def delete_absent set_ctx_same
        split: if_splits)
  then show ?thesis by blast
qed

lemma drop_empty_Ok:
  assumes x: "ctxs c p = Some x" and run: "drop_empty_ctx env p c = (Ok (), c')"
  shows "if emptied x then \<exists>c1. switch.more c1 = switch.more c \<and>
      c' = (set_ctx p (x\<lparr>x_dropFlow := None\<rparr>) c1)\<lparr>globalConjMatchFlowCache :=
        AList.delete (ctx_key x) (globalConjMatchFlowCache c)\<rparr>
    else c' = c"
proof (cases "emptied x")
  case False
  with run x show ?thesis by (auto simp: drop_empty_ctx_def go_eval get_ctx_Some emptied_def)
next
  case True
  show ?thesis
  proof (cases "x_dropFlow x")
    case None
    then have "x\<lparr>x_dropFlow := None\<rparr> = x" by (cases x) simp
    with None True run x show ?thesis
      by (auto simp: drop_empty_ctx_def go_eval get_ctx_Some emptied_def set_ctx_same intro!: exI [of _ c])
  next
    case (Some f)
    obtain r1 c1 where del: "flow_Delete env f c = (r1, c1)" by (cases "flow_Delete env f c")
    note more = flow_op_more(3) [OF del]
    have "ctxs c1 p = Some x" using client_more(6) [OF more] x by simp
    with True Some run x del more client_more(5) [OF more] show ?thesis
      by (cases r1) (auto simp: drop_empty_ctx_def go_eval get_ctx_Some modify_ctx_Some emptied_def intro!: exI [of _ c1])
  qed
qed

text \<open>Deleting a match of a clause: what becomes of its context, and of nothing else.\<close>

lemma deleteConjunctiveMatchFlow_Ok:
  assumes p: "map_of (cl_matches cl) k = Some p" and x: "ctxs c p = Some x"
    and run: "deleteConjunctiveMatchFlow env k (c, cl) = (Ok (), (c', cl'))"
    and y: "y = leave_entry (cl_action cl) x"
  shows "\<exists>fl. ctxs c' = (ctxs c)(p \<mapsto> y\<lparr>x_flow := fl, x_dropFlow := (if emptied y then None else x_dropFlow x)\<rparr>)"
    and "globalConjMatchFlowCache c' = (if emptied y
      then AList.delete (ctx_key x) (globalConjMatchFlowCache c) else globalConjMatchFlowCache c)"
    and "policyCache c' = policyCache c" and "cl' = cl\<lparr>cl_matches := AList.delete k (cl_matches cl)\<rparr>"
proof -
  let ?a = "cl_action cl"
  obtain c1 c2 where 1: "leave_ctx env ?a p c = (Ok (), c1)" and 2: "drop_empty_ctx env p c1 = (Ok (), c2)"
    and fin: "c' = c2" "cl' = cl\<lparr>cl_matches := AList.delete k (cl_matches cl)\<rparr>"
    using run p by (auto simp: deleteConjunctiveMatchFlow_def gbind_Ok_iff gets_eval modify_eval on_fst_def
        split: prod.splits)
  from leave_ctx_Ok [OF x 1] obtain fl d where d: "switch.more d = switch.more c"
    "c1 = set_ctx p (y\<lparr>x_flow := fl\<rparr>) d" by (auto simp: y)
  note dm = client_more [OF d(1)]
  have x1: "ctxs c1 p = Some (y\<lparr>x_flow := fl\<rparr>)" by (simp add: d(2))
  have key: "ctx_key y = ctx_key x" by (simp add: y)
  have "(\<exists>fl. ctxs c' = (ctxs c)(p \<mapsto> y\<lparr>x_flow := fl, x_dropFlow := (if emptied y then None else x_dropFlow x)\<rparr>)) \<and>
    globalConjMatchFlowCache c' = (if emptied y
      then AList.delete (ctx_key x) (globalConjMatchFlowCache c) else globalConjMatchFlowCache c) \<and>
    policyCache c' = policyCache c"
  proof (cases "emptied y")
    case True
    with drop_empty_Ok [OF x1 2] obtain e where e: "switch.more e = switch.more c1"
      "c2 = (set_ctx p (y\<lparr>x_flow := fl, x_dropFlow := None\<rparr>) e)\<lparr>globalConjMatchFlowCache :=
        AList.delete (ctx_key y) (globalConjMatchFlowCache c1)\<rparr>"
      by auto
    with client_more [OF e(1)] dm d(2) True key fin show ?thesis by auto
  next
    case False
    with drop_empty_Ok [OF x1 2] have "c2 = c1" by simp
    moreover have "y\<lparr>x_flow := fl, x_dropFlow := x_dropFlow x\<rparr> = y\<lparr>x_flow := fl\<rparr>"
      by (simp add: y leave_entry_def)
    ultimately show ?thesis using dm d(2) False fin by (auto intro!: exI [of _ fl])
  qed
  then show "\<exists>fl. ctxs c' = (ctxs c)(p \<mapsto> y\<lparr>x_flow := fl, x_dropFlow := (if emptied y then None else x_dropFlow x)\<rparr>)"
    "globalConjMatchFlowCache c' = (if emptied y
      then AList.delete (ctx_key x) (globalConjMatchFlowCache c) else globalConjMatchFlowCache c)"
    "policyCache c' = policyCache c" by blast+
  show "cl' = cl\<lparr>cl_matches := AList.delete k (cl_matches cl)\<rparr>" by (rule fin)
qed

section \<open>Uninstalling\<close>

text \<open>The entry of an action is gone from a context, and the context too if it was the last one.\<close>

definition gone :: "conjunctiveAction \<Rightarrow> ctx_ptr \<Rightarrow> client \<Rightarrow> bool" where
  "gone a p c \<longleftrightarrow> (\<exists>x. ctxs c p = Some x \<and>
     (if 1 < ca_nClause a then map_of (x_actions x) (ca_conjID a) = None
      else map_of (x_denyAllRules x) (ca_conjID a) = None) \<and>
     (emptied x \<longrightarrow> x_dropFlow x = None \<and> map_of (globalConjMatchFlowCache c) (ctx_key x) = None))"

text \<open>
  What deleting the matches of a set of pointers changes: the contexts behind them; of the global cache only
  entries of contexts that are left empty; and a context that loses its drop flow is empty.
\<close>

definition shrunk :: "conjMatchFlowContext \<Rightarrow> conjMatchFlowContext \<Rightarrow> bool" where
  "shrunk x x' \<longleftrightarrow> x_match x' = x_match x \<and> (emptied x \<longrightarrow> emptied x') \<and>
     (\<forall>q. (map_of (x_actions x) q = None \<longrightarrow> map_of (x_actions x') q = None) \<and>
        (map_of (x_denyAllRules x) q = None \<longrightarrow> map_of (x_denyAllRules x') q = None))"

lemma shrunk_simps [simp]:
  "shrunk x x" "shrunk x (x'\<lparr>x_flow := f\<rparr>) = shrunk x x'" "shrunk x (x'\<lparr>x_dropFlow := f\<rparr>) = shrunk x x'"
  by (simp_all add: shrunk_def)

lemma shrunk_trans: "shrunk x y \<Longrightarrow> shrunk y z \<Longrightarrow> shrunk x z"
  by (simp add: shrunk_def)

definition only_at :: "ctx_ptr set \<Rightarrow> client \<Rightarrow> client \<Rightarrow> bool" where
  "only_at P c c' \<longleftrightarrow> (\<forall>p. p \<notin> P \<longrightarrow> ctxs c' p = ctxs c p) \<and>
     (\<forall>p x. ctxs c p = Some x \<longrightarrow> (\<exists>x'. ctxs c' p = Some x' \<and> shrunk x x' \<and>
        (x_dropFlow x' = x_dropFlow x \<or> emptied x'))) \<and>
     (\<forall>k. map_of (globalConjMatchFlowCache c') k = map_of (globalConjMatchFlowCache c) k \<or>
        map_of (globalConjMatchFlowCache c') k = None \<and>
        (\<exists>p \<in> P. \<exists>x'. ctxs c' p = Some x' \<and> emptied x' \<and> ctx_key x' = k))"

lemma only_at_refl: "only_at P c c"
  by (simp add: only_at_def)

lemma only_atD:
  "only_at P c c' \<Longrightarrow> ctxs c p = Some x \<Longrightarrow> \<exists>x'. ctxs c' p = Some x' \<and> shrunk x x' \<and>
     (x_dropFlow x' = x_dropFlow x \<or> emptied x')"
  "only_at P c c' \<Longrightarrow> map_of (globalConjMatchFlowCache c') k \<noteq> map_of (globalConjMatchFlowCache c) k \<Longrightarrow>
     map_of (globalConjMatchFlowCache c') k = None \<and>
     (\<exists>p \<in> P. \<exists>x'. ctxs c' p = Some x' \<and> emptied x' \<and> ctx_key x' = k)"
  unfolding only_at_def by blast+

lemma only_at_trans:
  assumes "only_at P a b" and "only_at P b c"
  shows "only_at P a c"
proof -
  have "map_of (globalConjMatchFlowCache c) k = None \<and>
      (\<exists>p \<in> P. \<exists>x'. ctxs c p = Some x' \<and> emptied x' \<and> ctx_key x' = k)"
    if ne: "map_of (globalConjMatchFlowCache c) k \<noteq> map_of (globalConjMatchFlowCache a) k" for k
  proof (cases "map_of (globalConjMatchFlowCache c) k = map_of (globalConjMatchFlowCache b) k")
    case True
    then have "map_of (globalConjMatchFlowCache b) k \<noteq> map_of (globalConjMatchFlowCache a) k" using ne by simp
    then obtain p x where "p \<in> P" "ctxs b p = Some x" "emptied x" "ctx_key x = k"
      "map_of (globalConjMatchFlowCache b) k = None"
      using only_atD(2) [OF assms(1)] by blast
    moreover from this obtain x' where "ctxs c p = Some x'" "x_match x' = x_match x" "emptied x'"
      using only_atD(1) [OF assms(2)] unfolding shrunk_def by blast
    ultimately have "ctxs c p = Some x' \<and> emptied x' \<and> ctx_key x' = k" by simp
    with \<open>p \<in> P\<close> \<open>map_of (globalConjMatchFlowCache b) k = None\<close> True show ?thesis by auto
  next
    case False
    with only_atD(2) [OF assms(2)] show ?thesis by blast
  qed
  moreover have "\<exists>x'. ctxs c p = Some x' \<and> shrunk x x' \<and> (x_dropFlow x' = x_dropFlow x \<or> emptied x')" if x: "ctxs a p = Some x" for p x
  proof -
    obtain y where y: "ctxs b p = Some y" "shrunk x y" "x_dropFlow y = x_dropFlow x \<or> emptied y"
      using only_atD(1) [OF assms(1) x] by blast
    moreover obtain x' where "ctxs c p = Some x'" "shrunk y x'" "x_dropFlow x' = x_dropFlow y \<or> emptied x'"
      using only_atD(1) [OF assms(2) y(1)] by blast
    ultimately show ?thesis using shrunk_trans [of x y x'] by (auto simp: shrunk_def [of y])
  qed
  moreover have "\<forall>p. p \<notin> P \<longrightarrow> ctxs c p = ctxs a p" using assms by (simp add: only_at_def)
  ultimately show ?thesis unfolding only_at_def by blast
qed

lemma only_at_mono: "only_at P c c' \<Longrightarrow> P \<subseteq> Q \<Longrightarrow> only_at Q c c'"
  unfolding only_at_def by (meson subset_iff)

lemma only_at_cong:
  "only_at P c c' \<Longrightarrow> ctxs d = ctxs c' \<Longrightarrow> globalConjMatchFlowCache d = globalConjMatchFlowCache c' \<Longrightarrow> only_at P c d"
  by (simp add: only_at_def)

lemma gone_cong:
  "gone a p c \<Longrightarrow> ctxs d = ctxs c \<Longrightarrow> globalConjMatchFlowCache d = globalConjMatchFlowCache c \<Longrightarrow> gone a p d"
  by (simp add: gone_def)

lemma leave_entry_facts:
  "(if 1 < ca_nClause a then map_of (x_actions (leave_entry a x)) (ca_conjID a) = None
    else map_of (x_denyAllRules (leave_entry a x)) (ca_conjID a) = None)"
  "emptied x \<Longrightarrow> emptied (leave_entry a x)"
  "map_of (x_actions x) q = None \<Longrightarrow> map_of (x_actions (leave_entry a x)) q = None"
  "map_of (x_denyAllRules x) q = None \<Longrightarrow> map_of (x_denyAllRules (leave_entry a x)) q = None"
  by (auto simp: leave_entry_def emptied_def delete_conv')

lemma shrunk_leave_entry: "shrunk x (leave_entry a x)"
  unfolding shrunk_def by (auto intro: leave_entry_facts(2-4))

text \<open>One match: its entry is gone, and what was gone stays so.\<close>

lemma deleteConjunctiveMatchFlow_step:
  assumes pts: "points_to c (cl_matches cl)" and p: "map_of (cl_matches cl) k = Some p"
    and run: "deleteConjunctiveMatchFlow env k (c, cl) = (Ok (), (c', cl'))"
  shows "only_at {p} c c'" and "gone (cl_action cl) p c'" and "gone b q c \<Longrightarrow> gone b q c'"
    and "points_to c' (cl_matches cl')" and "policyCache c' = policyCache c"
    and "cl' = cl\<lparr>cl_matches := AList.delete k (cl_matches cl)\<rparr>"
proof -
  from points_to_Some [OF pts p] obtain x where x: "ctxs c p = Some x" "ctx_key x = k" by blast
  let ?y = "leave_entry (cl_action cl) x"
  note ok = deleteConjunctiveMatchFlow_Ok [OF p x(1) run refl]
  from ok(1) obtain fl where fl: "ctxs c' = (ctxs c)(p \<mapsto> ?y\<lparr>x_flow := fl,
      x_dropFlow := (if emptied ?y then None else x_dropFlow x)\<rparr>)" by blast
  show only: "only_at {p} c c'"
    using x shrunk_leave_entry [of x "cl_action cl"] unfolding only_at_def fl ok(2)
    by (auto simp: delete_conv')
  show "gone (cl_action cl) p c'"
    using leave_entry_facts(1) [of "cl_action cl" x] unfolding gone_def fl ok(2)
    by (auto simp: delete_conv')
  show "gone b q c'" if "gone b q c"
    using that x leave_entry_facts(1,3,4) [where a = "cl_action cl"] unfolding gone_def fl ok(2)
    by (auto simp: delete_conv' split: if_splits)
  show "policyCache c' = policyCache c" by (rule ok(3))
  show cl': "cl' = cl\<lparr>cl_matches := AList.delete k (cl_matches cl)\<rparr>" by (rule ok(4))
  have "points_to c' (cl_matches cl)"
    using pts only unfolding points_to_def only_at_def shrunk_def by fastforce
  then show "points_to c' (cl_matches cl')" by (simp add: cl' points_to_delete)
qed

text \<open>All the matches of a clause.\<close>

definition clause_ctxs :: "clause \<Rightarrow> ctx_ptr set" where
  "clause_ctxs cl = ran (map_of (cl_matches cl))"

lemma delete_matches_Ok:
  assumes "gfor es (\<lambda>(key, _). deleteConjunctiveMatchFlow env key) (c, cl) = (Ok (), (c', cl'))"
    and "points_to c (cl_matches cl)"
  shows "only_at (clause_ctxs cl) c c' \<and> policyCache c' = policyCache c \<and> cl_action cl' = cl_action cl \<and>
    (\<forall>k \<in> fst ` set es. \<forall>p. map_of (cl_matches cl) k = Some p \<longrightarrow> gone (cl_action cl) p c') \<and>
    (\<forall>b q. gone b q c \<longrightarrow> gone b q c')"
  using assms
proof (induction es arbitrary: c cl)
  case Nil
  then show ?case by (simp add: ret_eval only_at_refl)
next
  case (Cons e es)
  obtain k v where e: "e = (k, v)" by (cases e)
  from Cons.prems(1) obtain c1 cl1 where 1: "deleteConjunctiveMatchFlow env k (c, cl) = (Ok (), (c1, cl1))"
    and 2: "gfor es (\<lambda>(key, _). deleteConjunctiveMatchFlow env key) (c1, cl1) = (Ok (), (c', cl'))"
    by (auto simp: e gbind_Ok_iff)
  show ?case
  proof (cases "map_of (cl_matches cl) k")
    case None
    with 1 have "c1 = c" "cl1 = cl" by (simp_all add: deleteConjunctiveMatchFlow_def go_eval)
    with Cons.IH [OF 2] Cons.prems(2) None show ?thesis by (auto simp: e)
  next
    case (Some p)
    note st = deleteConjunctiveMatchFlow_step [OF Cons.prems(2) Some 1]
    note IH = Cons.IH [OF 2 st(4)]
    have sub: "clause_ctxs cl1 \<subseteq> clause_ctxs cl" "p \<in> clause_ctxs cl"
      using Some by (auto simp: clause_ctxs_def st(6) ran_def delete_conv' split: if_splits)
    have "only_at (clause_ctxs cl) c c'"
      using only_at_trans [OF only_at_mono [OF st(1)] only_at_mono [OF conjunct1 [OF IH] sub(1)]] sub(2) by simp
    moreover have "gone (cl_action cl) q c'"
      if "k' \<in> fst ` set (e # es)" "map_of (cl_matches cl) k' = Some q" for k' q
    proof (cases "k' = k")
      case True
      with that(2) Some st(2) IH show ?thesis by auto
    next
      case False
      with that IH show ?thesis by (auto simp: e st(6) delete_conv')
    qed
    ultimately show ?thesis using IH st(3,5,6) by auto
  qed
qed

lemma deleteAllMatches_Ok:
  assumes fair: "fair_env env" and run: "deleteAllMatches env (c, cl) = (Ok (), (c', cl'))"
    and pts: "points_to c (cl_matches cl)"
  shows "only_at (clause_ctxs cl) c c'" and "policyCache c' = policyCache c"
    and "p \<in> clause_ctxs cl \<Longrightarrow> gone (cl_action cl) p c'" and "gone b q c \<Longrightarrow> gone b q c'"
proof -
  have loop: "gfor (go_range env c (cl_matches cl)) (\<lambda>(key, _). deleteConjunctiveMatchFlow env key) (c, cl)
      = (Ok (), (c', cl'))"
    using run by (simp add: deleteAllMatches_def gbind_eval gets_eval)
  note all = delete_matches_Ok [OF loop pts]
  show "only_at (clause_ctxs cl) c c'" "policyCache c' = policyCache c" "gone b q c \<Longrightarrow> gone b q c'"
    using all by blast+
  assume "p \<in> clause_ctxs cl"
  then obtain k where k: "map_of (cl_matches cl) k = Some p" by (auto simp: clause_ctxs_def ran_def)
  then have "k \<in> fst ` set (go_range env c (cl_matches cl))"
    by (force simp: set_go_range [OF fair] dest: map_of_SomeD)
  with all k show "gone (cl_action cl) p c'" by blast
qed

lemma delete_clause_Ok:
  assumes fair: "fair_env env" and run: "delete_clause env r slot c = (Ok (), c')" and ok: "np_ok c"
    and pc: "map_of (policyCache c) r = Some pc"
  shows "only_at (\<Union>cl \<in> set_option (slot_clause slot pc). clause_ctxs cl) c c'"
    and "\<exists>pc'. map_of (policyCache c') r = Some pc' \<and> (\<forall>s. s \<noteq> slot \<longrightarrow> slot_clause s pc' = slot_clause s pc)"
    and "slot_clause slot pc = Some cl \<Longrightarrow> p \<in> clause_ctxs cl \<Longrightarrow> gone (cl_action cl) p c'"
    and "gone b q c \<Longrightarrow> gone b q c'" and "np_ok c'"
proof -
  show "np_ok c'" using safeD [OF delete_clause_safe [OF fair] ok run] by simp
  let ?P = "\<Union>cl \<in> set_option (slot_clause slot pc). clause_ctxs cl"
  have "only_at ?P c c' \<and>
    (\<exists>pc'. map_of (policyCache c') r = Some pc' \<and> (\<forall>s. s \<noteq> slot \<longrightarrow> slot_clause s pc' = slot_clause s pc)) \<and>
    (\<forall>cl p. slot_clause slot pc = Some cl \<longrightarrow> p \<in> clause_ctxs cl \<longrightarrow> gone (cl_action cl) p c') \<and>
    (\<forall>b q. gone b q c \<longrightarrow> gone b q c')"
  proof (cases "slot_clause slot pc")
    case None
    with run pc have "c' = c" by (simp add: delete_clause_def go_eval getPolicyRuleConjunction_def)
    with None pc show ?thesis by (simp add: only_at_refl)
  next
    case (Some d)
    then have "on_cached_clause r slot d (deleteAllMatches env) c = (Ok (), c')"
      using run pc by (simp add: delete_clause_def go_eval getPolicyRuleConjunction_def)
    then obtain c1 d1 where 1: "deleteAllMatches env (c, d) = (Ok (), (c1, d1))" and c': "c' = put_clause r slot d1 c1"
      by (auto simp: on_cached_clause_def split: prod.splits)
    have "points_to c (cl_matches d)" using slot_ok [OF ok pc Some] by (simp add: clause_ok_def)
    note all = deleteAllMatches_Ok [OF fair 1 this]
    have same: "ctxs c' = ctxs c1" "globalConjMatchFlowCache c' = globalConjMatchFlowCache c1"
      "map_of (policyCache c') r = Some (set_slot slot d1 pc)"
      using pc all(2) by (simp_all add: c' put_clause_def update_Some_unfold split: option.split)
    have "only_at ?P c c'" using only_at_cong [OF all(1) same(1,2)] Some by simp
    moreover have "gone b q c'" if "gone b q c1" for b q using gone_cong [OF that same(1,2)] .
    ultimately show ?thesis using all(3,4) same(3) Some by (auto simp: set_slot_simps)
  qed
  then show "only_at ?P c c'"
    and "\<exists>pc'. map_of (policyCache c') r = Some pc' \<and> (\<forall>s. s \<noteq> slot \<longrightarrow> slot_clause s pc' = slot_clause s pc)"
    and "slot_clause slot pc = Some cl \<Longrightarrow> p \<in> clause_ctxs cl \<Longrightarrow> gone (cl_action cl) p c'"
    and "gone b q c \<Longrightarrow> gone b q c'" by blast+
qed

text \<open>The whole rule.\<close>

definition rule_ctxs :: "policyRuleConjunction \<Rightarrow> ctx_ptr set" where
  "rule_ctxs pc = (\<Union>slot. \<Union>cl \<in> set_option (slot_clause slot pc). clause_ctxs cl)"

lemma UNIV_clause_slot: "(UNIV :: clause_slot set) = {FromClause, ToClause, ServiceClause}"
  using clause_slot.exhaust by blast

lemma rule_ctxs_slots:
  "rule_ctxs pc = (\<Union>slot \<in> {FromClause, ToClause, ServiceClause}. \<Union>cl \<in> set_option (slot_clause slot pc). clause_ctxs cl)"
  unfolding rule_ctxs_def UNIV_clause_slot ..

lemma UninstallPolicyRuleFlows_Ok:
  assumes fair: "fair_env env" and run: "UninstallPolicyRuleFlows env r c = (Ok (), c')" and ok: "np_ok c"
    and pc: "map_of (policyCache c) r = Some pc"
  shows "only_at (rule_ctxs pc) c c'" and "map_of (policyCache c') r = None"
    and "slot_clause slot pc = Some cl \<Longrightarrow> p \<in> clause_ctxs cl \<Longrightarrow> gone (cl_action cl) p c'"
proof -
  from run pc obtain c0 c1 c2 c3 where 0: "gfor (pc_actionFlows pc) (flow_Delete env) c = (Ok (), c0)"
    and 1: "delete_clause env r FromClause c0 = (Ok (), c1)" and 2: "delete_clause env r ToClause c1 = (Ok (), c2)"
    and 3: "delete_clause env r ServiceClause c2 = (Ok (), c3)"
    and c': "c' = c3\<lparr>policyCache := AList.delete r (policyCache c3)\<rparr>"
    by (auto simp: UninstallPolicyRuleFlows_def gbind_Ok_iff gets_eval modify_eval getPolicyRuleConjunction_def)
  have "unchanged switch.more (gfor (pc_actionFlows pc) (flow_Delete env) :: (client, unit) go)"
    unfolding unchanged_iff_keeps
    by (intro allI keeps_gfor) (rule unchanged_flow_ops(3) [unfolded unchanged_iff_keeps, rule_format])
  from unchangedD [OF this 0] have more: "switch.more c0 = switch.more c" .
  note m = client_more [OF more]
  have ok0: "np_ok c0" using keepsE [OF keeps_gfor [OF np_ok_flow_ops(3)] ok 0] .
  have pc0: "map_of (policyCache c0) r = Some pc" using pc m(4) by simp
  note d1 = delete_clause_Ok [OF fair 1 ok0 pc0]
  from d1(2) obtain pc1 where pc1: "map_of (policyCache c1) r = Some pc1"
    "slot_clause ToClause pc1 = slot_clause ToClause pc" "slot_clause ServiceClause pc1 = slot_clause ServiceClause pc"
    by (metis clause_slot.distinct)
  note d2 = delete_clause_Ok [OF fair 2 d1(5) pc1(1)]
  from d2(2) pc1(3) obtain pc2 where pc2: "map_of (policyCache c2) r = Some pc2"
    "slot_clause ServiceClause pc2 = slot_clause ServiceClause pc"
    by (metis clause_slot.distinct)
  note d3 = delete_clause_Ok [OF fair 3 d2(5) pc2(1)]
  have same: "ctxs c' = ctxs c3" "globalConjMatchFlowCache c' = globalConjMatchFlowCache c3" by (simp_all add: c')
  have "only_at (rule_ctxs pc) c c0" using m(5,6) by (intro only_at_cong [OF only_at_refl])
  moreover have "only_at (rule_ctxs pc) c0 c1" by (rule only_at_mono [OF d1(1)]) (auto simp: rule_ctxs_slots)
  moreover have "only_at (rule_ctxs pc) c1 c2"
    by (rule only_at_mono [OF d2(1)]) (simp only: pc1(2), auto simp: rule_ctxs_slots)
  moreover have "only_at (rule_ctxs pc) c2 c3"
    by (rule only_at_mono [OF d3(1)]) (simp only: pc2(2), auto simp: rule_ctxs_slots)
  ultimately show "only_at (rule_ctxs pc) c c'"
    using only_at_trans only_at_cong [OF _ same] by metis
  show "map_of (policyCache c') r = None" by (simp add: c' delete_conv')
  assume cl: "slot_clause slot pc = Some cl" and p: "p \<in> clause_ctxs cl"
  have "gone (cl_action cl) p c3"
  proof (cases slot)
    case FromClause
    with d1(3) [of cl p] d2(4) d3(4) cl p show ?thesis by blast
  next
    case ToClause
    with d2(3) [of cl p] d3(4) pc1(2) cl p show ?thesis by simp
  next
    case ServiceClause
    with d3(3) [of cl p] pc2(2) cl p show ?thesis by simp
  qed
  then show "gone (cl_action cl) p c'" using same by (rule gone_cong)
qed

section \<open>An uninstallation the switch accepts returns nil\<close>

definition accepting :: "env \<Rightarrow> bool" where
  "accepting env \<longleftrightarrow> (\<forall>h k. accepts env h k)"

lemma no_error_flow_ops:
  "accepting env \<Longrightarrow> no_error (flow_Add env f)" "accepting env \<Longrightarrow> no_error (flow_Modify env f)"
  "accepting env \<Longrightarrow> no_error (flow_Delete env f)"
  by (simp_all add: no_error_def accepting_def flow_op_eqs)

lemma no_error_contexts:
  assumes "accepting env"
  shows "no_error (installOrUpdateFlow env p acts)" "no_error (leave_ctx env a p)" "no_error (drop_empty_ctx env p)"
  unfolding leave_ctx_def deleteAction_def drop_empty_ctx_def installOrUpdateFlow_def get_ctx_def modify_ctx_def Let_def
  by (intro no_error_steps no_error_flow_ops assms)+

lemma no_error_deleteAllMatches: "accepting env \<Longrightarrow> no_error (deleteAllMatches env)"
  unfolding deleteAllMatches_def deleteConjunctiveMatchFlow_def case_prod_unfold
  by (intro no_error_steps no_error_gfor no_error_contexts)

lemma no_error_on_cached: "no_error m \<Longrightarrow> no_error (on_cached_clause r slot cl m)"
  by (auto simp: no_error_def on_cached_clause_def split: prod.splits)

lemma no_error_Uninstall: "accepting env \<Longrightarrow> no_error (UninstallPolicyRuleFlows env r)"
  unfolding UninstallPolicyRuleFlows_def delete_clause_def
  by (intro no_error_steps no_error_gfor no_error_flow_ops no_error_on_cached no_error_deleteAllMatches)

lemma Uninstall_runs:
  assumes "np_ok c" and "fair_env env" and "accepting env"
  shows "\<exists>c'. UninstallPolicyRuleFlows env r c = (Ok (), c')"
proof -
  obtain x c' where run: "UninstallPolicyRuleFlows env r c = (x, c')" by (cases "UninstallPolicyRuleFlows env r c")
  have "x \<noteq> Panic" using safeD [OF UninstallPolicyRuleFlows_safe [OF assms(2)] assms(1) run] by simp
  with run no_error_Uninstall [OF assms(3), of r] show ?thesis by (cases x) (auto simp: no_error_def)
qed

end
