(* ===== verification/PolicyRestore.thy ===== *)
theory PolicyRestore
  imports PolicyUndo
begin

text \<open>
  What an installation that returned nil leaves in the contexts, followed from the state before it, so that
  uninstalling the rule can be compared with that state.
\<close>

section \<open>Entering a context\<close>

definition enter_entry :: "conjunctiveAction \<Rightarrow> conjMatchFlowContext \<Rightarrow> conjMatchFlowContext" where
  "enter_entry a x = (if 1 < ca_nClause a
     then (if map_of (x_actions x) (ca_conjID a) \<noteq> None then x
       else x\<lparr>x_actions := AList.update (ca_conjID a) a (x_actions x)\<rparr>)
     else x\<lparr>x_denyAllRules := AList.update (ca_conjID a) True (x_denyAllRules x)\<rparr>)"

lemma ctx_own_flow: "x\<lparr>x_flow := x_flow x\<rparr> = x"
  by (cases x) simp

lemma addAction_Ok:
  assumes x: "ctxs c p = Some x" and n: "1 < ca_nClause a" and run: "addAction env p a c = (Ok (), c')"
  shows "\<exists>fl c1. switch.more c1 = switch.more c \<and> c' = set_ctx p ((enter_entry a x)\<lparr>x_flow := fl\<rparr>) c1"
proof (cases "map_of (x_actions x) (ca_conjID a)")
  case (Some b)
  with run x n have "c' = set_ctx p ((enter_entry a x)\<lparr>x_flow := x_flow x\<rparr>) c"
    by (simp add: addAction_def go_eval get_ctx_Some enter_entry_def ctx_own_flow set_ctx_same)
  then show ?thesis by blast
next
  case None
  let ?acts = "ranged_actions env x c @ [a]"
  obtain r1 c1 where io: "installOrUpdateFlow env p ?acts c = (r1, c1)"
    by (cases "installOrUpdateFlow env p ?acts c")
  have run': "gseq (installOrUpdateFlow env p ?acts)
      (modify_ctx p (\<lambda>x. x\<lparr>x_actions := AList.update (ca_conjID a) a (x_actions x)\<rparr>)) c = (Ok (), c')"
    using run None by (simp add: addAction_def get_ctx_Some [OF x] gbind_eval gets_eval)
  show ?thesis using x io
  proof (cases rule: installOrUpdateFlow_cases)
    case (flow f c2)
    have "c' = set_ctx p ((enter_entry a x)\<lparr>x_flow := Some f\<rparr>) c2"
      using run' io flow n None by (simp add: gbind_eval modify_ctx_Some enter_entry_def ctx_update_swap)
    with flow(2) show ?thesis by blast
  next
    case failed
    with run' io show ?thesis by (cases r1) (simp_all add: gbind_eval)
  qed simp
qed

lemma enter_Ok:
  assumes x: "ctxs c p = Some x"
    and run: "(if 1 < ca_nClause a then addAction env p a else addDenyAllRule p (ca_conjID a)) c = (Ok (), c')"
  shows "\<exists>fl c1. switch.more c1 = switch.more c \<and> c' = set_ctx p ((enter_entry a x)\<lparr>x_flow := fl\<rparr>) c1"
proof (cases "1 < ca_nClause a")
  case True
  with addAction_Ok [OF x True] run show ?thesis by simp
next
  case False
  with run x have "c' = set_ctx p ((enter_entry a x)\<lparr>x_flow := x_flow (enter_entry a x)\<rparr>) c"
    by (simp add: addDenyAllRule_def modify_ctx_Some enter_entry_def ctx_own_flow)
  then show ?thesis by blast
qed

lemma install_drop_actions:
  assumes "install_drop env dt m c = (Ok df, c')" and "df = Some f"
  shows "fl_actions f = [''drop'']"
proof -
  from assms obtain t where "defaultDropFlow c (GetID t) (cm_matchKey m) (cm_matchValue m) = Some f"
    by (auto simp: install_drop_def gbind_Ok_iff gets_eval deref_def ret_eval panic_eval split: option.splits)
  then show ?thesis
    by (auto simp: defaultDropFlow_def bind_eq_Some_conv Drop_def act_def Done_def chain_def Priority_def BuildFlow_def
        dest!: fl_actions_addFlowMatch)
qed

lemma find_or_create_Ok:
  assumes run: "find_or_create_ctx env dt m c = (Ok p, c')" and k: "k = generateGlobalMapKey m"
  obtains (found) "map_of (globalConjMatchFlowCache c) k = Some p" "c' = c"
  | (created) df where "map_of (globalConjMatchFlowCache c) k = None" "p = next_ctx c"
      "ctxs c' = (ctxs c)(p \<mapsto> \<lparr>x_match = m, x_actions = [], x_denyAllRules = [], x_flow = None, x_dropFlow = df\<rparr>)"
      "globalConjMatchFlowCache c' = AList.update k p (globalConjMatchFlowCache c)" "df \<noteq> None \<longleftrightarrow> dt \<noteq> None"
      "\<And>f. df = Some f \<Longrightarrow> fl_actions f = [''drop'']"
proof (cases "map_of (globalConjMatchFlowCache c) k")
  case (Some q)
  with run have "q = p" "c' = c" unfolding k by (simp_all add: find_or_create_ctx_def Let_def go_eval)
  with Some show thesis by (intro found) simp_all
next
  case None
  let ?x = "\<lambda>df. \<lparr>x_match = m, x_actions = [], x_denyAllRules = [], x_flow = None, x_dropFlow = df\<rparr>"
  from None run obtain df c1 where 1: "install_drop env dt m c = (Ok df, c1)"
    and p: "p = next_ctx c1" and c': "c' = c1\<lparr>ctxs := (ctxs c1)(p \<mapsto> ?x df), next_ctx := Suc p,
      globalConjMatchFlowCache := AList.update k p (globalConjMatchFlowCache c1)\<rparr>"
    unfolding k by (auto simp: find_or_create_ctx_def alloc_ctx_def Let_def gbind_Ok_iff gets_eval ret_eval modify_eval)
  note more = client_more [OF install_drop_more [OF 1]]
  have "df \<noteq> None \<longleftrightarrow> dt \<noteq> None" using 1 by (auto simp: install_drop_def gbind_Ok_iff ret_eval split: option.splits)
  with install_drop_actions [OF 1] show thesis
    by (intro created [of df]) (simp_all add: None p c' more(5-7))
qed

section \<open>Following an installation\<close>

text \<open>
  From \<open>c0\<close>, with the matches \<open>M\<close> found or created so far: entries of the rule are only in the contexts of \<open>M\<close>; a
  context that is new holds nothing else, an old one has kept its drop flow; the global cache has grown by
  matches of \<open>M\<close> to new contexts only, and agrees with \<open>M\<close>.
\<close>

definition tracked :: "32 word \<Rightarrow> 8 word \<Rightarrow> client \<Rightarrow> (string \<times> ctx_ptr) set \<Rightarrow> client \<Rightarrow> bool" where
  "tracked r n c0 M c \<longleftrightarrow> others_kept r c0 c \<and>
     (\<forall>p x. ctxs c p = Some x \<longrightarrow>
        (map_of (x_actions x) r \<noteq> None \<longrightarrow> 1 < n \<and> p \<in> snd ` M) \<and>
        (map_of (x_denyAllRules x) r \<noteq> None \<longrightarrow> \<not> 1 < n \<and> p \<in> snd ` M) \<and>
        (ctxs c0 p = None \<longrightarrow> p \<in> snd ` M \<and> AList.delete r (x_actions x) = [] \<and> AList.delete r (x_denyAllRules x) = []) \<and>
        (\<forall>x0. ctxs c0 p = Some x0 \<longrightarrow> x_dropFlow x = x_dropFlow x0)) \<and>
     (\<forall>(k, p) \<in> M. map_of (globalConjMatchFlowCache c) k = Some p) \<and>
     (\<forall>k p. map_of (globalConjMatchFlowCache c0) k = Some p \<longrightarrow> map_of (globalConjMatchFlowCache c) k = Some p) \<and>
     (\<forall>k p. map_of (globalConjMatchFlowCache c) k = Some p \<longrightarrow> map_of (globalConjMatchFlowCache c0) k = None \<longrightarrow>
        (k, p) \<in> M \<and> ctxs c0 p = None)"

lemma tracked_others: "tracked r n c0 M c \<Longrightarrow> others_kept r c0 c"
  by (simp add: tracked_def)

lemma trackedD:
  "tracked r n c0 M c \<Longrightarrow> ctxs c p = Some x \<Longrightarrow> \<not> (1 < n \<and> p \<in> snd ` M) \<Longrightarrow> map_of (x_actions x) r = None"
  "tracked r n c0 M c \<Longrightarrow> ctxs c p = Some x \<Longrightarrow> \<not> (\<not> 1 < n \<and> p \<in> snd ` M) \<Longrightarrow> map_of (x_denyAllRules x) r = None"
  "tracked r n c0 M c \<Longrightarrow> ctxs c p = Some x \<Longrightarrow> ctxs c0 p = None \<Longrightarrow>
     p \<in> snd ` M \<and> AList.delete r (x_actions x) = [] \<and> AList.delete r (x_denyAllRules x) = []"
  "tracked r n c0 M c \<Longrightarrow> (k, p) \<in> M \<Longrightarrow> map_of (globalConjMatchFlowCache c) k = Some p"
  "tracked r n c0 M c \<Longrightarrow> ctxs c p = Some x \<Longrightarrow> ctxs c0 p = Some x0 \<Longrightarrow> x_dropFlow x = x_dropFlow x0"
  "tracked r n c0 M c \<Longrightarrow> map_of (globalConjMatchFlowCache c0) k = Some p \<Longrightarrow>
     map_of (globalConjMatchFlowCache c) k = Some p"
  "tracked r n c0 M c \<Longrightarrow> map_of (globalConjMatchFlowCache c) k = Some p \<Longrightarrow>
     map_of (globalConjMatchFlowCache c0) k = None \<Longrightarrow> (k, p) \<in> M \<and> ctxs c0 p = None"
  unfolding tracked_def by blast+

lemma others_keptD: "others_kept r c c' \<Longrightarrow> ctxs c p = Some x \<Longrightarrow> \<exists>x'. ctxs c' p = Some x' \<and> others r x x'"
  by (simp add: others_kept_def)

lemma tracked_cong:
  "tracked r n c0 M c \<Longrightarrow> ctxs c' = ctxs c \<Longrightarrow> globalConjMatchFlowCache c' = globalConjMatchFlowCache c \<Longrightarrow>
   others_kept r c0 c' \<Longrightarrow> tracked r n c0 M c'"
  unfolding tracked_def by simp

lemma tracked_find:
  assumes t: "tracked r n c0 M c" and run: "find_or_create_ctx env dt m c = (Ok p, c')"
    and k: "k = generateGlobalMapKey m" and ok: "heap_ok c"
  shows "tracked r n c0 (insert (k, p) M) c' \<and> ctxs c' p \<noteq> None"
proof -
  have others: "others_kept r c0 c'" using keepsE [OF others_kept_find tracked_others [OF t] run] .
  from run k show ?thesis
  proof (cases rule: find_or_create_Ok)
    case found
    have "ctxs c p \<noteq> None"
      using ok found(1) by (auto simp: heap_ok_def dest: points_to_Some)
    with t found show ?thesis unfolding tracked_def by auto
  next
    case (created df)
    have "ctxs c p = None" using tracked_others [OF t] created(2) unfolding others_kept_def by (metis less_irrefl)
    then have new: "ctxs c0 p = None" using tracked_others [OF t] unfolding others_kept_def by (metis option.exhaust option.distinct(1))
    have key: "map_of (globalConjMatchFlowCache c0) k = None"
      using t created(1) unfolding tracked_def by (metis option.exhaust option.distinct(1))
    have M: "k' \<noteq> k" if "(k', p') \<in> M" for k' p' using t that created(1) unfolding tracked_def by auto
    have entries: "(map_of (x_actions x) r \<noteq> None \<longrightarrow> 1 < n \<and> q \<in> snd ` insert (k, p) M) \<and>
        (map_of (x_denyAllRules x) r \<noteq> None \<longrightarrow> \<not> 1 < n \<and> q \<in> snd ` insert (k, p) M) \<and>
        (ctxs c0 q = None \<longrightarrow> q \<in> snd ` insert (k, p) M \<and> AList.delete r (x_actions x) = [] \<and> AList.delete r (x_denyAllRules x) = []) \<and>
        (\<forall>x0. ctxs c0 q = Some x0 \<longrightarrow> x_dropFlow x = x_dropFlow x0)" if x: "ctxs c' q = Some x" for q x
    proof (cases "q = p")
      case True
      with x new show ?thesis by (auto simp: created(3))
    next
      case False
      then have "ctxs c q = Some x" using x by (simp add: created(3))
      with t show ?thesis unfolding tracked_def by auto
    qed
    show ?thesis
      using t others entries M key new created(1,3,4)
      unfolding tracked_def by (auto simp: update_Some_unfold)
  qed
qed

lemma enter_entry_facts:
  "x_dropFlow (enter_entry a x) = x_dropFlow x"
  "map_of (x_actions (enter_entry a x)) r \<noteq> None \<Longrightarrow> map_of (x_actions x) r \<noteq> None \<or> 1 < ca_nClause a \<and> r = ca_conjID a"
  "map_of (x_denyAllRules (enter_entry a x)) r \<noteq> None \<Longrightarrow>
     map_of (x_denyAllRules x) r \<noteq> None \<or> \<not> 1 < ca_nClause a \<and> r = ca_conjID a"
  "AList.delete (ca_conjID a) (x_actions (enter_entry a x)) = AList.delete (ca_conjID a) (x_actions x)"
  "AList.delete (ca_conjID a) (x_denyAllRules (enter_entry a x)) = AList.delete (ca_conjID a) (x_denyAllRules x)"
  by (auto simp: enter_entry_def delete_update_same update_Some_unfold split: if_splits)

lemma tracked_enter:
  assumes t: "tracked r n c0 M c" and a: "ca_conjID a = r" "ca_nClause a = n" and p: "p \<in> snd ` M"
    and x: "ctxs c p = Some x"
    and run: "(if 1 < ca_nClause a then addAction env p a else addDenyAllRule p (ca_conjID a)) c = (Ok (), c')"
  shows "tracked r n c0 M c'"
proof -
  have "keeps (others_kept r c0) (if 1 < ca_nClause a then addAction env p a else addDenyAllRule p (ca_conjID a))"
    using a by (auto intro: others_kept_actions)
  then have others: "others_kept r c0 c'" using tracked_others [OF t] run by (rule keepsE)
  from enter_Ok [OF x run] obtain fl c1 where more: "switch.more c1 = switch.more c"
    and c': "c' = set_ctx p ((enter_entry a x)\<lparr>x_flow := fl\<rparr>) c1" by blast
  note m = client_more [OF more]
  have entries: "(map_of (x_actions y) r \<noteq> None \<longrightarrow> 1 < n \<and> q \<in> snd ` M) \<and>
      (map_of (x_denyAllRules y) r \<noteq> None \<longrightarrow> \<not> 1 < n \<and> q \<in> snd ` M) \<and>
      (ctxs c0 q = None \<longrightarrow> q \<in> snd ` M \<and> AList.delete r (x_actions y) = [] \<and> AList.delete r (x_denyAllRules y) = []) \<and>
      (\<forall>x0. ctxs c0 q = Some x0 \<longrightarrow> x_dropFlow y = x_dropFlow x0)" if y: "ctxs c' q = Some y" for q y
  proof (cases "q = p")
    case True
    with y have "y = (enter_entry a x)\<lparr>x_flow := fl\<rparr>" by (simp add: c')
    then have same: "x_actions y = x_actions (enter_entry a x)" "x_denyAllRules y = x_denyAllRules (enter_entry a x)"
      "x_dropFlow y = x_dropFlow x" by (simp_all add: enter_entry_facts(1))
    have old: "(map_of (x_actions x) r \<noteq> None \<longrightarrow> 1 < n \<and> p \<in> snd ` M) \<and>
      (map_of (x_denyAllRules x) r \<noteq> None \<longrightarrow> \<not> 1 < n \<and> p \<in> snd ` M) \<and>
      (ctxs c0 p = None \<longrightarrow> p \<in> snd ` M \<and> AList.delete r (x_actions x) = [] \<and> AList.delete r (x_denyAllRules x) = []) \<and>
      (\<forall>x0. ctxs c0 p = Some x0 \<longrightarrow> x_dropFlow x = x_dropFlow x0)"
      using t x unfolding tracked_def by blast
    show ?thesis
      using old p enter_entry_facts(2,3) [of a x r] enter_entry_facts(4,5) [of a x]
      unfolding same a True by (intro conjI) (blast | simp)+
  next
    case False
    then have "ctxs c q = Some y" using y by (simp add: c' m)
    with t show ?thesis unfolding tracked_def by blast
  qed
  have "globalConjMatchFlowCache c' = globalConjMatchFlowCache c" by (simp add: c' m)
  with t others entries show ?thesis unfolding tracked_def by simp
qed

text \<open>A clause that is being filled.\<close>

lemma on_fst_Ok_iff: "on_fst m (s, t) = (Ok a, u) \<longleftrightarrow> (\<exists>s'. m s = (Ok a, s') \<and> u = (s', t))"
  by (auto simp: on_fst_def split: prod.splits)

fun filling :: "32 word \<Rightarrow> 8 word \<Rightarrow> client \<Rightarrow> (string \<times> ctx_ptr) set \<Rightarrow> clause_state \<Rightarrow> bool" where
  "filling r n c0 M (c, cl) \<longleftrightarrow> np_ok c \<and> tracked r n c0 (M \<union> set (cl_matches cl)) c \<and>
     clause_ok c r cl \<and> ca_nClause (cl_action cl) = n"

lemma addConjunctiveMatchFlow_filling:
  assumes fair: "fair_env env"
  shows "triple (\<lambda>_. True) (filling r n c0 M) (addConjunctiveMatchFlow env m) (\<lambda>_. filling r n c0 M)"
proof (rule tripleI)
  fix s x s' assume pre: "filling r n c0 M s" and run: "addConjunctiveMatchFlow env m s = (x, s')"
  obtain c cl where s: "s = (c, cl)" by (cases s)
  let ?k = "generateGlobalMapKey m"
  have np: "np_ok c" and t: "tracked r n c0 (M \<union> set (cl_matches cl)) c" and cl: "clause_ok c r cl"
    and n: "ca_nClause (cl_action cl) = n" using pre by (simp_all add: s)
  show "case x of Ok a \<Rightarrow> filling r n c0 M s' | _ \<Rightarrow> True"
  proof (cases "x = Ok ()")
    case False
    then show ?thesis by (cases x) simp_all
  next
    case True
    show ?thesis
    proof (cases "map_of (cl_matches cl) ?k")
      case (Some q)
      with run True pre show ?thesis by (simp add: addConjunctiveMatchFlow_def Let_def s go_eval)
    next
      case None
      with run True obtain p c1 c2 where 1: "find_or_create_ctx env (cl_dropTable cl) m c = (Ok p, c1)"
        and 2: "(if 1 < ca_nClause (cl_action cl) then addAction env p (cl_action cl)
          else addDenyAllRule p (ca_conjID (cl_action cl))) c1 = (Ok (), c2)"
        and s': "s' = (c2, cl\<lparr>cl_matches := AList.update ?k p (cl_matches cl)\<rparr>)"
        by (auto simp: addConjunctiveMatchFlow_def Let_def s gbind_Ok_iff gets_eval modify_eval on_fst_Ok_iff)
      have "heap_ok c" using np by (simp add: np_ok_def)
      from tracked_find [OF t 1 refl this] obtain y where
        t1: "tracked r n c0 (insert (?k, p) (M \<union> set (cl_matches cl))) c1" and y: "ctxs c1 p = Some y" by auto
      have "ca_conjID (cl_action cl) = r" using cl by (simp add: clause_ok_def)
      from tracked_enter [OF t1 this n _ y 2] have t2: "tracked r n c0 (insert (?k, p) (M \<union> set (cl_matches cl))) c2" by simp
      have inv: "clause_inv c r (cl_ruleTable cl) (c, cl)" using np cl by (simp add: np_ok_def extends_refl)
      have run': "addConjunctiveMatchFlow env m (c, cl) = (Ok (), s')" using run True s by simp
      from keepsE [OF addConjunctiveMatchFlow_keeps [OF fair] inv run'] s'
      have "extends c c2" and "clause_ok c2 r (cl\<lparr>cl_matches := AList.update ?k p (cl_matches cl)\<rparr>)" by simp_all
      with extends_np_ok [OF np] t2 None n True s' show ?thesis by (simp add: update_absent)
    qed
  qed
qed

lemma triple_gfor:
  "(\<And>x. x \<in> set xs \<Longrightarrow> triple E P (body x) (\<lambda>_. P)) \<Longrightarrow> triple E P (gfor xs body) (\<lambda>_. P)"
  by (induction xs) (auto intro: triple_ret triple_gbind)

lemma triple_reader:
  "(\<And>a. triple E P (f a) Q) \<Longrightarrow> triple E P (gbind (gets g) f) Q"
  by (fastforce simp: triple_def gbind_def gets_def)

lemma triple_deref:
  "(\<And>a. triple E P (f a) Q) \<Longrightarrow> (\<And>s. E s) \<Longrightarrow> triple E P (gbind (deref v) f) Q"
  by (cases v) (auto simp: triple_def deref_def gbind_def panic_def ret_def)

lemma loops_filling:
  assumes "fair_env env"
  shows "triple (\<lambda>_. True) (filling r n c0 M) (addAddrFlows env ty as) (\<lambda>_. filling r n c0 M)"
    and "triple (\<lambda>_. True) (filling r n c0 M) (addServiceFlows env ps) (\<lambda>_. filling r n c0 M)"
  unfolding addAddrFlows_def addServiceFlows_def case_prod_unfold
  by (intro triple_gfor triple_reader triple_deref addConjunctiveMatchFlow_filling assms TrueI)+

text \<open>The clauses of a rule, one after the other.\<close>

definition opt_matches :: "clause option \<Rightarrow> (string \<times> ctx_ptr) set" where
  "opt_matches cl = (case cl of None \<Rightarrow> {} | Some d \<Rightarrow> set (cl_matches d))"

definition same_count :: "8 word \<Rightarrow> clause option \<Rightarrow> bool" where
  "same_count n cl \<longleftrightarrow> (\<forall>d. cl = Some d \<longrightarrow> ca_nClause (cl_action d) = n)"

lemma install_clause_tracked:
  assumes add: "\<And>xs M. triple (\<lambda>_. True) (filling r n c0 M) (add xs) (\<lambda>_. filling r n c0 M)"
    and ok: "np_ok c" and t: "tracked r n c0 M c"
    and run: "install_clause items (newClause r i n rt dt) add c = (Ok cl, c')"
  shows "np_ok c' \<and> tracked r n c0 (M \<union> opt_matches cl) c' \<and> same_count n cl"
proof (cases items)
  case None
  with run ok t show ?thesis by (simp add: install_clause_def ret_eval opt_matches_def same_count_def)
next
  case (Some xs)
  let ?cl = "newClause r i n rt dt"
  from run Some obtain d where 1: "add xs (c, ?cl) = (Ok (), (c', d))" and cl: "cl = Some d"
    by (auto simp: install_clause_def on_new_clause_def gbind_eval ret_eval split: prod.splits result.splits)
  have "filling r n c0 M (c, ?cl)" using ok t by (simp add: newClause_def clause_ok_def points_to_def)
  from tripleD [OF add this 1] show ?thesis by (simp add: cl opt_matches_def same_count_def)
qed

definition rule_matches :: "policyRuleConjunction \<Rightarrow> (string \<times> ctx_ptr) set" where
  "rule_matches pc = (\<Union>slot. opt_matches (slot_clause slot pc))"

lemma rule_matches_slots:
  "rule_matches pc = opt_matches (pc_fromClause pc) \<union> opt_matches (pc_toClause pc) \<union> opt_matches (pc_serviceClause pc)"
  unfolding rule_matches_def UNIV_clause_slot by (simp add: Un_assoc)

lemma installed_rule:
  assumes fair: "fair_env env" and ok: "np_ok c" and new: "getPolicyRuleConjunction c (pr_ID rule) = None"
    and none: "\<And>p x. ctxs c p = Some x \<Longrightarrow>
      map_of (x_actions x) (pr_ID rule) = None \<and> map_of (x_denyAllRules x) (pr_ID rule) = None"
    and run: "InstallPolicyRuleFlows env rule c = (Ok (), c')"
  shows "\<exists>n pc. getPolicyRuleConjunction c' (pr_ID rule) = Some pc \<and> tracked (pr_ID rule) n c (rule_matches pc) c' \<and>
    (\<forall>slot cl. slot_clause slot pc = Some cl \<longrightarrow> ca_nClause (cl_action cl) = n)"
proof -
  let ?r = "pr_ID rule"
  obtain n f t v where ids: "clause_ids rule = (n, f, t, v)" by (metis prod.exhaust)
  obtain rt dt where tabs: "rule_tables c rule = (rt, dt)" by (cases "rule_tables c rule")
  let ?acts = "if 1 < n then gbind (gets (\<lambda>c. action_flows c rule rt dt)) (\<lambda>fs. gbind (deref fs) (\<lambda>actionFlows.
    gseq (gfor actionFlows (flow_Add env)) (ret actionFlows))) else ret []"
  let ?from = "install_clause (pr_From rule) (newClause ?r f n rt (if is_egress rule then dt else None)) (addAddrFlows env SrcAddress)"
  let ?to = "install_clause (pr_To rule) (newClause ?r t n rt (if \<not> is_egress rule then dt else None)) (addAddrFlows env DstAddress)"
  let ?service = "install_clause (pr_Service rule) (newClause ?r v n rt None) (addServiceFlows env)"
  from run new obtain fs c0 c1 c2 c3 fc tc sc where 0: "?acts c = (Ok fs, c0)" and 1: "?from c0 = (Ok fc, c1)"
    and 2: "?to c1 = (Ok tc, c2)" and 3: "?service c2 = (Ok sc, c3)"
    and c': "c' = c3\<lparr>policyCache := AList.update ?r \<lparr>pc_id = ?r, pc_fromClause = fc, pc_toClause = tc,
        pc_serviceClause = sc, pc_actionFlows = fs\<rparr> (policyCache c3)\<rparr>"
    unfolding InstallPolicyRuleFlows_def by (auto simp: gets_eval gbind_Ok_iff ids tabs modify_eval)
  have "keeps np_ok ?acts" "keeps (others_kept ?r c) ?acts" by (intro go_keeps)+
  from keepsE [OF this(1) ok 0] keepsE [OF this(2) others_kept_refl [OF ok] 0]
  have ok0: "np_ok c0" and others0: "others_kept ?r c c0" .
  have "unchanged switch.more ?acts"
    unfolding unchanged_iff_keeps
    by (intro allI go_keeps) (rule unchanged_flow_ops(1) [unfolded unchanged_iff_keeps, rule_format])
  note m = client_more [OF unchangedD [OF this 0]]
  have "tracked ?r n c {} c" using others_kept_refl [OF ok] none unfolding tracked_def by auto
  then have t0: "tracked ?r n c {} c0" by (rule tracked_cong [OF _ m(6,5) others0])
  note s1 = install_clause_tracked [OF loops_filling(1) [OF fair] ok0 t0 1]
  note s2 = install_clause_tracked [OF loops_filling(1) [OF fair] conjunct1 [OF s1] conjunct1 [OF conjunct2 [OF s1]] 2]
  note s3 = install_clause_tracked [OF loops_filling(2) [OF fair] conjunct1 [OF s2] conjunct1 [OF conjunct2 [OF s2]] 3]
  let ?pc = "\<lparr>pc_id = ?r, pc_fromClause = fc, pc_toClause = tc, pc_serviceClause = sc, pc_actionFlows = fs\<rparr>"
  have "others_kept ?r c c'"
    using tracked_others [OF conjunct1 [OF conjunct2 [OF s3]]]
    by (rule others_kept_cong) (simp_all add: c' delete_update_same)
  then have "tracked ?r n c (rule_matches ?pc) c'"
    using s3 tracked_cong [of ?r n c "rule_matches ?pc" c3 c'] by (simp add: c' rule_matches_slots)
  moreover have "ca_nClause (cl_action cl) = n" if "slot_clause slot ?pc = Some cl" for slot cl
    using that s1 s2 s3 by (cases slot) (auto simp: same_count_def)
  moreover have "getPolicyRuleConjunction c' ?r = Some ?pc" by (simp add: c' getPolicyRuleConjunction_def update_Some_unfold)
  ultimately show ?thesis by blast
qed

section \<open>Uninstalling what was installed\<close>

text \<open>The contexts of a rule are those its matches point to.\<close>

lemma opt_matches_ctxs:
  "\<forall>d. cl = Some d \<longrightarrow> clause_ok c r d \<Longrightarrow> snd ` opt_matches cl = (\<Union>d \<in> set_option cl. clause_ctxs d)"
  by (cases cl) (simp_all add: opt_matches_def clause_ctxs_def clause_ok_def points_to_def ran_distinct)

lemma rule_matches_ctxs:
  assumes "np_ok c" and "map_of (policyCache c) r = Some pc"
  shows "snd ` rule_matches pc = rule_ctxs pc"
proof -
  have "snd ` opt_matches (slot_clause slot pc) = (\<Union>d \<in> set_option (slot_clause slot pc). clause_ctxs d)" for slot
    using slot_ok [OF assms] by (intro opt_matches_ctxs) blast
  then show ?thesis by (simp add: rule_matches_def rule_ctxs_def image_UN)
qed

text \<open>The key of a match is the key of its context.\<close>

lemma rule_matches_key:
  assumes "np_ok c" and "map_of (policyCache c) r = Some pc" and "(k, p) \<in> rule_matches pc"
  shows "\<exists>x. ctxs c p = Some x \<and> ctx_key x = k"
proof -
  obtain slot cl where "slot_clause slot pc = Some cl" "(k, p) \<in> set (cl_matches cl)"
    using assms(3) by (auto simp: rule_matches_def opt_matches_def split: option.splits)
  with slot_ok [OF assms(1,2)] show ?thesis by (fastforce simp: clause_ok_def points_to_def)
qed

text \<open>
  The states of a round trip: \<open>c\<close> before the installation, \<open>c1\<close> after it, \<open>c2\<close> after the uninstallation.
\<close>

definition trip :: "32 word \<Rightarrow> 8 word \<Rightarrow> policyRuleConjunction \<Rightarrow> client \<Rightarrow> client \<Rightarrow> client \<Rightarrow> bool" where
  "trip r n pc c c1 c2 \<longleftrightarrow> tracked r n c (rule_matches pc) c1 \<and> others_kept r c1 c2 \<and>
     only_at (rule_ctxs pc) c1 c2 \<and> snd ` rule_matches pc = rule_ctxs pc \<and>
     (\<forall>(k, p) \<in> rule_matches pc. \<exists>x. ctxs c1 p = Some x \<and> ctx_key x = k) \<and>
     (\<forall>p \<in> rule_ctxs pc. \<exists>a. ca_conjID a = r \<and> ca_nClause a = n \<and> gone a p c2)"

lemma trip_no_entries:
  assumes t: "trip r n pc c c1 c2" and x: "ctxs c1 p = Some x" "ctxs c2 p = Some y"
  shows "map_of (x_actions y) r = None \<and> map_of (x_denyAllRules y) r = None"
proof (cases "p \<in> rule_ctxs pc")
  case False
  then have "y = x" using t x unfolding trip_def only_at_def by auto
  moreover have "tracked r n c (rule_matches pc) c1" "p \<notin> snd ` rule_matches pc"
    using t False by (simp_all add: trip_def)
  then have "map_of (x_actions x) r = None" "map_of (x_denyAllRules x) r = None"
    using trackedD(1,2) [of r n c "rule_matches pc" c1 p x] x(1) by simp_all
  ultimately show ?thesis by simp
next
  case True
  then obtain a where a: "ca_conjID a = r" "ca_nClause a = n" "gone a p c2" using t unfolding trip_def by blast
  then have g: "if 1 < n then map_of (x_actions y) r = None else map_of (x_denyAllRules y) r = None"
    using x(2) unfolding gone_def by auto
  have "shrunk x y" using t x only_atD(1) [of "rule_ctxs pc" c1 c2 p x] unfolding trip_def by auto
  moreover have "(1 < n \<longrightarrow> map_of (x_denyAllRules x) r = None) \<and> (\<not> 1 < n \<longrightarrow> map_of (x_actions x) r = None)"
    using t trackedD(1,2) [of r n c "rule_matches pc" c1 p x] x(1) by (simp add: trip_def)
  ultimately show ?thesis using g unfolding shrunk_def by (cases "1 < n") simp_all
qed

lemma trip_old:
  assumes t: "trip r n pc c c1 c2" and x: "ctxs c p = Some x"
    and none: "map_of (x_actions x) r = None" "map_of (x_denyAllRules x) r = None"
  shows "\<exists>y. ctxs c2 p = Some y \<and> x_match y = x_match x \<and> x_actions y = x_actions x \<and>
    x_denyAllRules y = x_denyAllRules x \<and> (x_dropFlow y = x_dropFlow x \<or> p \<in> rule_ctxs pc \<and> emptied x)"
proof -
  have tr: "tracked r n c (rule_matches pc) c1" and ok: "others_kept r c1 c2" using t by (simp_all add: trip_def)
  from others_keptD [OF tracked_others [OF tr] x] obtain x1 where x1: "ctxs c1 p = Some x1" "others r x x1" by blast
  from others_keptD [OF ok x1(1)] obtain y where y: "ctxs c2 p = Some y" "others r x1 y" by blast
  have "x_actions y = x_actions x" "x_denyAllRules y = x_denyAllRules x"
    using trip_no_entries [OF t x1(1) y(1)] none x1(2) y(2) by (simp_all add: others_def delete_absent)
  moreover have drop: "x_dropFlow x1 = x_dropFlow x" using trackedD(5) [OF tr x1(1) x] .
  moreover have "x_dropFlow y = x_dropFlow x1 \<or> p \<in> rule_ctxs pc \<and> emptied y"
  proof (cases "p \<in> rule_ctxs pc")
    case False
    then show ?thesis using t x1(1) y(1) unfolding trip_def only_at_def by auto
  next
    case True
    have "only_at (rule_ctxs pc) c1 c2" using t by (simp add: trip_def)
    from only_atD(1) [OF this x1(1)] y(1) True show ?thesis by auto
  qed
  ultimately show ?thesis using x1(2) y by (auto simp: others_def emptied_def)
qed

lemma trip_new:
  assumes t: "trip r n pc c c1 c2" and new: "ctxs c p = None" and y: "ctxs c2 p = Some y" and x: "ctxs c1 p = Some x"
  shows "emptied y \<and> x_dropFlow y = None \<and> map_of (globalConjMatchFlowCache c2) (ctx_key y) = None"
proof -
  have p: "p \<in> rule_ctxs pc" and "AList.delete r (x_actions x) = []" "AList.delete r (x_denyAllRules x) = []"
    using t trackedD(3) [OF _ x new] unfolding trip_def by auto
  moreover have "others_kept r c1 c2" using t by (simp add: trip_def)
  with others_keptD [OF this x] y have "others r x y" by simp
  ultimately have "emptied y" using trip_no_entries [OF t x y] by (simp add: others_def emptied_def delete_absent)
  moreover obtain a where "gone a p c2" using t p unfolding trip_def by blast
  ultimately show ?thesis using y unfolding gone_def by auto
qed

lemma trip_global:
  assumes t: "trip r n pc c c1 c2"
    and none: "\<And>p x. ctxs c p = Some x \<Longrightarrow> map_of (x_actions x) r = None \<and> map_of (x_denyAllRules x) r = None"
    and live: "\<And>k p. map_of (globalConjMatchFlowCache c) k = Some p \<Longrightarrow> \<exists>x. ctxs c p = Some x \<and> \<not> emptied x"
  shows "map_of (globalConjMatchFlowCache c2) k = map_of (globalConjMatchFlowCache c) k"
proof (cases "map_of (globalConjMatchFlowCache c) k")
  case (Some p)
  have tr: "tracked r n c (rule_matches pc) c1" and only: "only_at (rule_ctxs pc) c1 c2" using t by (simp_all add: trip_def)
  have g1: "map_of (globalConjMatchFlowCache c1) k = Some p" using trackedD(6) [OF tr Some] .
  have "map_of (globalConjMatchFlowCache c2) k = map_of (globalConjMatchFlowCache c1) k"
  proof (rule ccontr)
    assume "map_of (globalConjMatchFlowCache c2) k \<noteq> map_of (globalConjMatchFlowCache c1) k"
    from only_atD(2) [OF only this] obtain q y where q: "q \<in> rule_ctxs pc" and y: "ctxs c2 q = Some y" "emptied y" "ctx_key y = k"
      by blast
    have "q \<in> snd ` rule_matches pc" using q t by (simp add: trip_def)
    then obtain k' where m: "(k', q) \<in> rule_matches pc" by auto
    with t obtain x1 where x1: "ctxs c1 q = Some x1" "ctx_key x1 = k'" unfolding trip_def by blast
    have "x_match y = x_match x1" using only_atD(1) [OF only x1(1)] y(1) by (auto simp: shrunk_def)
    then have "k' = k" using x1(2) y(3) by simp
    with trackedD(4) [OF tr m] g1 have "q = p" by simp
    with live [OF Some] obtain x where x: "ctxs c q = Some x" "\<not> emptied x" by blast
    from trip_old [OF t x(1)] none [OF x(1)] y(1,2) x(2) show False by (auto simp: emptied_def)
  qed
  with g1 Some show ?thesis by simp
next
  case None
  have tr: "tracked r n c (rule_matches pc) c1" and only: "only_at (rule_ctxs pc) c1 c2" using t by (simp_all add: trip_def)
  show ?thesis
  proof (cases "map_of (globalConjMatchFlowCache c1) k")
    case N: None
    show ?thesis
    proof (rule ccontr)
      assume "map_of (globalConjMatchFlowCache c2) k \<noteq> map_of (globalConjMatchFlowCache c) k"
      with None N only_atD(2) [OF only, of k] show False by simp
    qed
  next
    case (Some p)
    from trackedD(7) [OF tr Some None] have m: "(k, p) \<in> rule_matches pc" and new: "ctxs c p = None" by blast+
    from m t obtain x1 where x1: "ctxs c1 p = Some x1" "ctx_key x1 = k" unfolding trip_def by blast
    from only_atD(1) [OF only x1(1)] obtain y where y: "ctxs c2 p = Some y" "x_match y = x_match x1"
      unfolding shrunk_def by blast
    from trip_new [OF t new y(1) x1(1)] y(2) x1(2) None show ?thesis by simp
  qed
qed

text \<open>An installation and an uninstallation that both returned nil are such a trip.\<close>

lemma UninstallPolicyRuleFlows_None:
  "UninstallPolicyRuleFlows env r c = (Ok (), c') \<Longrightarrow> map_of (policyCache c') r = None"
  by (auto simp: UninstallPolicyRuleFlows_def gbind_Ok_iff gets_eval modify_eval ret_eval getPolicyRuleConjunction_def
      delete_conv' split: option.splits)

lemma restore_trip:
  assumes fair: "fair_env env" and ok: "np_ok c" and new: "getPolicyRuleConjunction c (pr_ID rule) = None"
    and none: "\<And>p x. ctxs c p = Some x \<Longrightarrow>
      map_of (x_actions x) (pr_ID rule) = None \<and> map_of (x_denyAllRules x) (pr_ID rule) = None"
    and inst: "InstallPolicyRuleFlows env rule c = (Ok (), c1)"
    and un: "UninstallPolicyRuleFlows env (pr_ID rule) c1 = (Ok (), c2)"
  shows "\<exists>n pc. trip (pr_ID rule) n pc c c1 c2"
proof -
  let ?r = "pr_ID rule"
  have ok1: "np_ok c1" using keepsE [OF InstallPolicyRuleFlows_keeps [OF fair] ok inst] .
  have "\<exists>n pc. getPolicyRuleConjunction c1 ?r = Some pc \<and> tracked ?r n c (rule_matches pc) c1 \<and>
    (\<forall>slot cl. slot_clause slot pc = Some cl \<longrightarrow> ca_nClause (cl_action cl) = n)"
    by (rule installed_rule [OF fair ok new _ inst]) (rule none)
  then obtain n pc where pc: "map_of (policyCache c1) ?r = Some pc"
    and t: "tracked ?r n c (rule_matches pc) c1" and n: "\<And>slot cl. slot_clause slot pc = Some cl \<Longrightarrow> ca_nClause (cl_action cl) = n"
    by (auto simp: getPolicyRuleConjunction_def)
  note un' = UninstallPolicyRuleFlows_Ok [OF fair un ok1 pc]
  have "np_ok c1 \<and> others_kept ?r c1 c1" using ok1 by (simp add: others_kept_refl)
  from keepsE [OF others_kept_Uninstall [OF fair] this un] have others: "others_kept ?r c1 c2" by simp
  have gone: "\<exists>a. ca_conjID a = ?r \<and> ca_nClause a = n \<and> gone a p c2" if p: "p \<in> rule_ctxs pc" for p
  proof -
    obtain slot cl where "slot_clause slot pc = Some cl" "p \<in> clause_ctxs cl" using p by (auto simp: rule_ctxs_def)
    with un'(3) n slot_ok [OF ok1 pc] show ?thesis unfolding clause_ok_def by blast
  qed
  have "\<forall>(k, p) \<in> rule_matches pc. \<exists>x. ctxs c1 p = Some x \<and> ctx_key x = k"
    using rule_matches_key [OF ok1 pc] by blast
  with t others un'(1) rule_matches_ctxs [OF ok1 pc] gone show ?thesis unfolding trip_def by blast
qed

lemma trip_created:
  assumes "trip r n pc c c1 c2" and "ctxs c2 p = Some y"
  shows "\<exists>x. ctxs c1 p = Some x"
proof (cases "p \<in> rule_ctxs pc")
  case True
  then have "p \<in> snd ` rule_matches pc" using assms(1) by (simp add: trip_def)
  with assms(1) show ?thesis unfolding trip_def by fastforce
next
  case False
  with assms show ?thesis unfolding trip_def only_at_def by auto
qed

lemma trip_policies:
  assumes "trip r n pc c c1 c2" and "k \<noteq> r"
  shows "map_of (policyCache c2) k = map_of (policyCache c) k"
proof (rule map_of_same_delete [OF assms(2)])
  show "AList.delete r (policyCache c2) = AList.delete r (policyCache c)"
    using assms(1) unfolding trip_def tracked_def others_kept_def by simp
qed

end
