(* ===== verification/PolicyInstall.thy ===== *)
theory PolicyInstall
  imports PolicyRestore
begin

text \<open>
  What an installation that returned nil has put in place: for every address and service port of the rule, the context of
  its match holds the rule's action.
\<close>

section \<open>The entry of an action\<close>

definition holds_entry :: "conjunctiveAction \<Rightarrow> ctx_ptr \<Rightarrow> client \<Rightarrow> bool" where
  "holds_entry a p c \<longleftrightarrow> (\<exists>x. ctxs c p = Some x \<and>
     (if 1 < ca_nClause a then map_of (x_actions x) (ca_conjID a) = Some a
      else map_of (x_denyAllRules x) (ca_conjID a) \<noteq> None))"

lemma holds_entry_cong: "ctxs c' = ctxs c \<Longrightarrow> holds_entry a p c' = holds_entry a p c"
  by (simp add: holds_entry_def)

text \<open>Entering another action never takes an entry away, and gives the action its own if there was none under its id.\<close>

lemma entered:
  assumes x: "ctxs c p = Some x"
    and run: "(if 1 < ca_nClause a then addAction env p a else addDenyAllRule p (ca_conjID a)) c = (Ok (), c')"
  shows "holds_entry b q c \<Longrightarrow> holds_entry b q c'"
    and "(1 < ca_nClause a \<Longrightarrow> map_of (x_actions x) (ca_conjID a) = None) \<Longrightarrow> holds_entry a p c'"
    and "ctxs c' q = Some y \<Longrightarrow> map_of (x_actions y) r \<noteq> None \<Longrightarrow>
      \<exists>y0. ctxs c q = Some y0 \<and> x_match y0 = x_match y \<and> (map_of (x_actions y0) r \<noteq> None \<or> q = p)"
proof -
  from enter_Ok [OF x run] obtain fl c1 where more: "switch.more c1 = switch.more c"
    and c': "c' = set_ctx p ((enter_entry a x)\<lparr>x_flow := fl\<rparr>) c1" by blast
  note m = client_more [OF more]
  show "holds_entry b q c'" if "holds_entry b q c"
    using that x by (auto simp: holds_entry_def c' m enter_entry_def update_Some_unfold split: if_splits)
  show "holds_entry a p c'" if "1 < ca_nClause a \<Longrightarrow> map_of (x_actions x) (ca_conjID a) = None"
    using that by (auto simp: holds_entry_def c' enter_entry_def update_Some_unfold)
  have "x_match (enter_entry a x) = x_match x" by (simp add: enter_entry_def)
  then show "\<exists>y0. ctxs c q = Some y0 \<and> x_match y0 = x_match y \<and> (map_of (x_actions y0) r \<noteq> None \<or> q = p)"
    if "ctxs c' q = Some y" "map_of (x_actions y) r \<noteq> None"
    using that x by (auto simp: c' m split: if_splits)
qed

section \<open>Filling a clause\<close>

text \<open>
  \<open>U\<close> are the keys of the earlier clauses and \<open>D\<close> those of this one so far: the rule has actions under no other key. \<open>H\<close>
  are the entries of the earlier clauses.
\<close>

fun placing ::
  "conjunctiveAction \<Rightarrow> table option \<Rightarrow> string set \<Rightarrow> (conjunctiveAction \<times> ctx_ptr) set \<Rightarrow> string set \<Rightarrow> clause_state \<Rightarrow> bool"
where
  "placing a rt U H D (c, cl) \<longleftrightarrow> np_ok c \<and> clause_ok c (ca_conjID a) cl \<and> cl_action cl = a \<and> cl_ruleTable cl = rt \<and>
     fst ` set (cl_matches cl) = D \<and> (\<forall>(k, p) \<in> set (cl_matches cl). holds_entry a p c) \<and>
     (\<forall>p x. ctxs c p = Some x \<longrightarrow> map_of (x_actions x) (ca_conjID a) \<noteq> None \<longrightarrow> ctx_key x \<in> U \<union> D) \<and>
     (\<forall>(b, p) \<in> H. holds_entry b p c)"

lemma found_facts:
  assumes run: "find_or_create_ctx env dt m c = (Ok p, c')" and ok: "heap_ok c"
  shows "\<exists>x. ctxs c' p = Some x \<and> ctx_key x = generateGlobalMapKey m"
    and "holds_entry b q c \<Longrightarrow> holds_entry b q c'"
    and "ctxs c' q = Some y \<Longrightarrow> map_of (x_actions y) r \<noteq> None \<Longrightarrow> ctxs c q = Some y"
proof -
  obtain k where k: "k = generateGlobalMapKey m" by blast
  from run k have "(\<exists>x. ctxs c' p = Some x \<and> ctx_key x = generateGlobalMapKey m) \<and>
    (holds_entry b q c \<longrightarrow> holds_entry b q c') \<and>
    (ctxs c' q = Some y \<longrightarrow> map_of (x_actions y) r \<noteq> None \<longrightarrow> ctxs c q = Some y)"
  proof (cases rule: find_or_create_Ok)
    case found
    from ok found(1) show ?thesis by (auto simp: found(2) k heap_ok_def dest: points_to_Some)
  next
    case (created df)
    have "ctxs c p = None" using ok created(2) unfolding heap_ok_def by (metis less_irrefl not_None_eq)
    with created(3) show ?thesis by (auto simp: holds_entry_def split: if_splits)
  qed
  then show "\<exists>x. ctxs c' p = Some x \<and> ctx_key x = generateGlobalMapKey m" "holds_entry b q c \<Longrightarrow> holds_entry b q c'"
    "ctxs c' q = Some y \<Longrightarrow> map_of (x_actions y) r \<noteq> None \<Longrightarrow> ctxs c q = Some y" by blast+
qed

lemma addConjunctiveMatchFlow_placing:
  assumes fair: "fair_env env" and fresh: "generateGlobalMapKey m \<notin> U"
  shows "triple (\<lambda>_. True) (placing a rt U H D) (addConjunctiveMatchFlow env m)
    (\<lambda>_. placing a rt U H (insert (generateGlobalMapKey m) D))"
proof (rule tripleI)
  fix s x s' assume pre: "placing a rt U H D s" and run: "addConjunctiveMatchFlow env m s = (x, s')"
  obtain c cl where s: "s = (c, cl)" by (cases s)
  let ?k = "generateGlobalMapKey m" and ?r = "ca_conjID a"
  have np: "np_ok c" and cl: "clause_ok c ?r cl" and a: "cl_action cl = a" and rt: "cl_ruleTable cl = rt"
    and D: "fst ` set (cl_matches cl) = D" and held: "\<And>k p. (k, p) \<in> set (cl_matches cl) \<Longrightarrow> holds_entry a p c"
    and only: "\<And>p x. ctxs c p = Some x \<Longrightarrow> map_of (x_actions x) ?r \<noteq> None \<Longrightarrow> ctx_key x \<in> U \<union> D"
    and H: "\<And>b p. (b, p) \<in> H \<Longrightarrow> holds_entry b p c"
    using pre by (auto simp: s)
  show "case x of Ok _ \<Rightarrow> placing a rt U H (insert ?k D) s' | _ \<Rightarrow> True"
  proof (cases "x = Ok ()")
    case False
    then show ?thesis by (cases x) simp_all
  next
    case True
    show ?thesis
    proof (cases "map_of (cl_matches cl) ?k")
      case (Some q)
      then have "(?k, q) \<in> set (cl_matches cl)" by (rule map_of_SomeD)
      then have "?k \<in> D" using D by force
      then have "insert ?k D = D" by blast
      with Some run True pre show ?thesis by (simp add: addConjunctiveMatchFlow_def Let_def s go_eval)
    next
      case None
      with run True obtain p c1 c2 where 1: "find_or_create_ctx env (cl_dropTable cl) m c = (Ok p, c1)"
        and 2: "(if 1 < ca_nClause (cl_action cl) then addAction env p (cl_action cl)
          else addDenyAllRule p (ca_conjID (cl_action cl))) c1 = (Ok (), c2)"
        and s': "s' = (c2, cl\<lparr>cl_matches := AList.update ?k p (cl_matches cl)\<rparr>)"
        by (auto simp: addConjunctiveMatchFlow_def Let_def s gbind_Ok_iff gets_eval modify_eval on_fst_Ok_iff)
      note 2 = 2 [unfolded a]
      have new: "?k \<notin> D" using None D by (auto simp: map_of_eq_None_iff)
      have "heap_ok c" using np by (simp add: np_ok_def)
      note f = found_facts [OF 1 this]
      from f(1) obtain y where y: "ctxs c1 p = Some y" "ctx_key y = ?k" by blast
      have none: "map_of (x_actions y) ?r = None"
      proof (rule ccontr)
        assume some: "map_of (x_actions y) ?r \<noteq> None"
        from only [OF f(3) [OF y(1) some] some] y(2) fresh new show False by simp
      qed
      note e = entered [OF y(1) 2]
      have only': "ctx_key z \<in> U \<union> insert ?k D" if z: "ctxs c2 q = Some z" "map_of (x_actions z) ?r \<noteq> None" for q z
      proof -
        from e(3) [OF z] obtain z0 where z0: "ctxs c1 q = Some z0" "x_match z0 = x_match z"
          "map_of (x_actions z0) ?r \<noteq> None \<or> q = p" by blast
        show ?thesis
        proof (cases "q = p")
          case True
          with y z0 show ?thesis by simp
        next
          case False
          with z0 have some: "map_of (x_actions z0) ?r \<noteq> None" by simp
          from only [OF f(3) [OF z0(1) some] some] z0(2) show ?thesis by auto
        qed
      qed
      have inv: "clause_inv c ?r (cl_ruleTable cl) (c, cl)" using np cl by (simp add: np_ok_def extends_refl)
      have run': "addConjunctiveMatchFlow env m (c, cl) = (Ok (), s')" using run True s by simp
      from keepsE [OF addConjunctiveMatchFlow_keeps [OF fair] inv run'] s'
      have ext: "extends c c2" and cl2: "clause_ok c2 ?r (cl\<lparr>cl_matches := AList.update ?k p (cl_matches cl)\<rparr>)" by simp_all
      have np2: "np_ok c2" using extends_np_ok [OF np ext] .
      have here: "holds_entry a p c2" using e(2) none by simp
      have old: "holds_entry b q c2" if "holds_entry b q c" for b q using e(1) [OF f(2) [OF that]] .
      have "placing a rt U H (insert ?k D) (c2, cl\<lparr>cl_matches := AList.update ?k p (cl_matches cl)\<rparr>)"
        using np2 cl2 a rt D held H old here only' None by (auto simp: update_absent)
      with True s' show ?thesis by simp
    qed
  qed
qed

text \<open>All the items of a clause; one without a match ends in a panic.\<close>

definition match_keys :: "conjunctiveMatch option list \<Rightarrow> string set" where
  "match_keys ms = {generateGlobalMapKey m |m. Some m \<in> set ms}"

lemma match_keys_Cons: "match_keys (Some m # ms) = insert (generateGlobalMapKey m) (match_keys ms)"
  by (auto simp: match_keys_def)

abbreviation add_items ::
  "env \<Rightarrow> (clause \<Rightarrow> 'x \<Rightarrow> conjunctiveMatch option) \<Rightarrow> 'x list \<Rightarrow> (clause_state, unit) go" where
  "add_items env mk xs \<equiv> gfor xs (\<lambda>x. gbind (gets (\<lambda>(c, cl). mk cl x)) (\<lambda>m. gbind (deref m) (addConjunctiveMatchFlow env)))"

lemma add_items_placing:
  assumes fair: "fair_env env" and mk: "\<And>cl x. cl_ruleTable cl = rt \<Longrightarrow> mk cl x = mt x"
    and fresh: "match_keys (map mt xs) \<inter> U = {}"
  shows "triple (\<lambda>_. True) (placing a rt U H D) (add_items env mk xs)
    (\<lambda>_ s. (\<forall>x \<in> set xs. mt x \<noteq> None) \<and> placing a rt U H (match_keys (map mt xs) \<union> D) s)"
  using fresh
proof (induction xs arbitrary: D)
  case Nil
  show ?case by (rule tripleI) (auto simp: ret_eval match_keys_def)
next
  case (Cons x xs)
  let ?body = "\<lambda>x. gbind (gets (\<lambda>(c, cl). mk cl x)) (\<lambda>m. gbind (deref m) (addConjunctiveMatchFlow env))"
  show ?case
  proof (rule tripleI)
    fix s r s' assume pre: "placing a rt U H D s" and run: "add_items env mk (x # xs) s = (r, s')"
    obtain c cl where s: "s = (c, cl)" by (cases s)
    have m: "mk cl x = mt x" using pre by (intro mk) (simp add: s)
    show "case r of Ok _ \<Rightarrow> (\<forall>y \<in> set (x # xs). mt y \<noteq> None) \<and>
        placing a rt U H (match_keys (map mt (x # xs)) \<union> D) s' | _ \<Rightarrow> True"
    proof (cases r)
      case (Ok u)
      with run obtain s1 where 1: "?body x s = (Ok (), s1)" and 2: "add_items env mk xs s1 = (Ok (), s')"
        by (auto simp: gbind_Ok_iff)
      from 1 m obtain v where v: "mt x = Some v" and 3: "addConjunctiveMatchFlow env v s = (Ok (), s1)"
        by (auto simp: gbind_Ok_iff gets_eval deref_def ret_eval panic_eval s split: option.splits)
      have "generateGlobalMapKey v \<notin> U" using Cons.prems v by (auto simp: match_keys_def)
      from tripleD [OF addConjunctiveMatchFlow_placing [OF fair this] pre 3]
      have 4: "placing a rt U H (insert (generateGlobalMapKey v) D) s1" by simp
      have "match_keys (map mt xs) \<inter> U = {}" using Cons.prems by (auto simp: match_keys_def)
      from tripleD [OF Cons.IH [OF this] 4 2] Ok show ?thesis by (simp add: v match_keys_Cons)
    qed simp_all
  qed
qed

section \<open>The clauses of a rule\<close>

definition staged :: "32 word \<Rightarrow> string set \<Rightarrow> (conjunctiveAction \<times> ctx_ptr) set \<Rightarrow> client \<Rightarrow> bool" where
  "staged r U H c \<longleftrightarrow> np_ok c \<and>
     (\<forall>p x. ctxs c p = Some x \<longrightarrow> map_of (x_actions x) r \<noteq> None \<longrightarrow> ctx_key x \<in> U) \<and>
     (\<forall>(b, p) \<in> H. holds_entry b p c)"

definition clause_entries :: "clause option \<Rightarrow> (conjunctiveAction \<times> ctx_ptr) set" where
  "clause_entries cl = (case cl of None \<Rightarrow> {} | Some d \<Rightarrow> (\<lambda>(k, p). (cl_action d, p)) ` set (cl_matches d))"

definition listed :: "'x list option \<Rightarrow> 'x list" where
  "listed xs = (case xs of None \<Rightarrow> [] | Some ys \<Rightarrow> ys)"

lemma install_clause_staged:
  fixes items :: "'x list option"
  assumes fair: "fair_env env" and mk: "\<And>cl x. cl_ruleTable cl = rt \<Longrightarrow> mk cl x = mt x"
    and fresh: "match_keys (map mt (listed items)) \<inter> U = {}" and st: "staged r U H c"
    and run: "install_clause items (newClause r i n rt dt) (add_items env mk) c = (Ok cl, c')"
  shows "staged r (U \<union> match_keys (map mt (listed items))) (H \<union> clause_entries cl) c'"
    and "\<forall>x \<in> set (listed items). mt x \<noteq> None"
    and "\<forall>m \<in> set (map mt (listed items)). \<exists>d p v. cl = Some d \<and> cl_action d = \<lparr>ca_conjID = r, ca_clauseID = i, ca_nClause = n\<rparr> \<and>
      m = Some v \<and> (generateGlobalMapKey v, p) \<in> set (cl_matches d)"
proof -
  let ?a = "\<lparr>ca_conjID = r, ca_clauseID = i, ca_nClause = n\<rparr>" and ?cl = "newClause r i n rt dt"
  let ?ms = "map mt (listed items)"
  have "staged r (U \<union> match_keys ?ms) (H \<union> clause_entries cl) c' \<and> (\<forall>x \<in> set (listed items). mt x \<noteq> None) \<and>
    (\<forall>m \<in> set ?ms. \<exists>d p v. cl = Some d \<and> cl_action d = ?a \<and> m = Some v \<and> (generateGlobalMapKey v, p) \<in> set (cl_matches d))"
  proof (cases items)
    case None
    with run st show ?thesis
      by (auto simp: install_clause_def ret_eval clause_entries_def listed_def match_keys_def)
  next
    case (Some xs)
    from run Some obtain d where 1: "add_items env mk xs (c, ?cl) = (Ok (), (c', d))" and cl: "cl = Some d"
      by (auto simp: install_clause_def on_new_clause_def gbind_eval ret_eval split: prod.splits result.splits)
    have xs: "listed items = xs" by (simp add: listed_def Some)
    have pre: "placing ?a rt U H {} (c, ?cl)"
      using st by (auto simp: staged_def newClause_def clause_ok_def points_to_def)
    from tripleD [OF add_items_placing [where mt = mt, OF fair mk fresh [unfolded xs]] pre 1]
    have all: "\<forall>x \<in> set xs. mt x \<noteq> None" and post: "placing ?a rt U H (match_keys (map mt xs)) (c', d)" by simp_all
    have "\<exists>p v. m = Some v \<and> (generateGlobalMapKey v, p) \<in> set (cl_matches d)" if m: "m \<in> set (map mt xs)" for m
    proof -
      from m all obtain v where v: "m = Some v" by auto
      with m have "generateGlobalMapKey v \<in> match_keys (map mt xs)" by (auto simp: match_keys_def)
      then have "generateGlobalMapKey v \<in> fst ` set (cl_matches d)" using post by simp
      with v show ?thesis by force
    qed
    with all post show ?thesis unfolding xs cl by (auto simp: staged_def clause_entries_def)
  qed
  then show "staged r (U \<union> match_keys ?ms) (H \<union> clause_entries cl) c'" "\<forall>x \<in> set (listed items). mt x \<noteq> None"
    "\<forall>m \<in> set ?ms. \<exists>d p v. cl = Some d \<and> cl_action d = ?a \<and> m = Some v \<and> (generateGlobalMapKey v, p) \<in> set (cl_matches d)"
    by blast+
qed

section \<open>The rule\<close>

text \<open>The matches of a slot of the rule: one for each address or port, none where it has no match.\<close>

definition slot_matches :: "client \<Rightarrow> PolicyRule \<Rightarrow> clause_slot \<Rightarrow> conjunctiveMatch option list" where
  "slot_matches c rule slot =
     (let cl = newClause (pr_ID rule) 0 0 (fst (rule_tables c rule)) None
      in case slot of
           FromClause \<Rightarrow> map (\<lambda>a. generateAddressConjMatch cl a SrcAddress) (listed (pr_From rule))
         | ToClause \<Rightarrow> map (\<lambda>a. generateAddressConjMatch cl a DstAddress) (listed (pr_To rule))
         | ServiceClause \<Rightarrow> map (generateServicePortConjMatch cl) (listed (pr_Service rule)))"

definition slot_action :: "PolicyRule \<Rightarrow> clause_slot \<Rightarrow> conjunctiveAction" where
  "slot_action rule slot = (case clause_ids rule of (n, fromID, toID, serviceID) \<Rightarrow>
     \<lparr>ca_conjID = pr_ID rule,
      ca_clauseID = (case slot of FromClause \<Rightarrow> fromID | ToClause \<Rightarrow> toID | ServiceClause \<Rightarrow> serviceID),
      ca_nClause = n\<rparr>)"

text \<open>The kind of a match tells its slot, so the keys of different slots differ.\<close>

fun key_slot :: "match_key \<Rightarrow> clause_slot option" where
  "key_slot MatchSrcIPKey = Some FromClause" | "key_slot MatchSrcIPNetKey = Some FromClause"
| "key_slot MatchSrcOFPortKey = Some FromClause" | "key_slot MatchDstIPKey = Some ToClause"
| "key_slot MatchDstIPNetKey = Some ToClause" | "key_slot MatchDstOFPortKey = Some ToClause"
| "key_slot MatchTCPDstPortKey = Some ServiceClause" | "key_slot MatchUDPDstPortKey = Some ServiceClause"
| "key_slot MatchSCTPDstPortKey = Some ServiceClause" | "key_slot Unsupported = None"

lemma match_slots:
  "Some m = generateAddressConjMatch cl a SrcAddress \<Longrightarrow> key_slot (cm_matchKey m) = Some FromClause"
  "Some m = generateAddressConjMatch cl a DstAddress \<Longrightarrow> key_slot (cm_matchKey m) = Some ToClause"
  by (cases a; cases "cl_ruleTable cl"; simp add: generateAddressConjMatch_def)+

lemma service_slot:
  assumes "Some m = generateServicePortConjMatch cl q"
  shows "key_slot (cm_matchKey m) = Some ServiceClause"
proof -
  from assms obtain k where "getServiceMatchType (npp_Protocol q) = Some k" "cm_matchKey m = k"
    by (cases "getServiceMatchType (npp_Protocol q)"; cases "npp_IntVal q"; cases "cl_ruleTable cl")
      (simp_all add: generateServicePortConjMatch_def)
  then show ?thesis by (cases "npp_Protocol q") (auto simp: getServiceMatchType_def simp del: not_None_eq split: if_splits)
qed

lemma slot_matches_kind: "Some m \<in> set (slot_matches c rule slot) \<Longrightarrow> key_slot (cm_matchKey m) = Some slot"
  by (cases slot) (auto simp: slot_matches_def Let_def intro: match_slots service_slot)

lemma slot_keys_disjoint:
  assumes "slot \<noteq> slot'"
  shows "match_keys (slot_matches c rule slot) \<inter> match_keys (slot_matches c rule slot') = {}"
proof -
  have "generateGlobalMapKey m \<noteq> generateGlobalMapKey m'"
    if "Some m \<in> set (slot_matches c rule slot)" "Some m' \<in> set (slot_matches c rule slot')" for m m'
    using slot_matches_kind [OF that(1)] slot_matches_kind [OF that(2)] assms by (auto simp: global_key_inject)
  then show ?thesis by (fastforce simp: match_keys_def)
qed

lemma installed_entries:
  assumes fair: "fair_env env" and ok: "np_ok c" and new: "getPolicyRuleConjunction c (pr_ID rule) = None"
    and none: "\<And>p x. ctxs c p = Some x \<Longrightarrow> map_of (x_actions x) (pr_ID rule) = None"
    and run: "InstallPolicyRuleFlows env rule c = (Ok (), c')"
  shows "\<exists>pc. getPolicyRuleConjunction c' (pr_ID rule) = Some pc \<and> (\<forall>slot. \<forall>m \<in> set (slot_matches c rule slot).
    \<exists>cl v p. slot_clause slot pc = Some cl \<and> m = Some v \<and> (generateGlobalMapKey v, p) \<in> set (cl_matches cl) \<and>
      holds_entry (slot_action rule slot) p c')"
proof -
  let ?r = "pr_ID rule"
  obtain n f t v where ids: "clause_ids rule = (n, f, t, v)" by (metis prod.exhaust)
  obtain rt dt where tabs: "rule_tables c rule = (rt, dt)" by (cases "rule_tables c rule")
  let ?acts = "if 1 < n then gbind (gets (\<lambda>c. action_flows c rule rt dt)) (\<lambda>fs. gbind (deref fs) (\<lambda>actionFlows.
    gseq (gfor actionFlows (flow_Add env)) (ret actionFlows))) else ret []"
  let ?from = "install_clause (pr_From rule) (newClause ?r f n rt (if is_egress rule then dt else None)) (addAddrFlows env SrcAddress)"
  let ?to = "install_clause (pr_To rule) (newClause ?r t n rt (if \<not> is_egress rule then dt else None)) (addAddrFlows env DstAddress)"
  let ?service = "install_clause (pr_Service rule) (newClause ?r v n rt None) (addServiceFlows env)"
  from run new obtain fs c0 c1 c2 c3 fc tc sc where 0: "?acts c = (Ok fs, c0)" and 1: "?from c0 = (Ok fc, c1)"
    and 2: "?to c1 = (Ok tc, c2)" and 3: "?service c2 = (Ok sc, c3)"
    and c': "c' = c3\<lparr>policyCache := AList.update ?r \<lparr>pc_id = ?r, pc_fromClause = fc, pc_toClause = tc,
        pc_serviceClause = sc, pc_actionFlows = fs\<rparr> (policyCache c3)\<rparr>"
    unfolding InstallPolicyRuleFlows_def by (auto simp: gets_eval gbind_Ok_iff ids tabs modify_eval)
  let ?cl = "newClause ?r 0 0 rt None"
  have same: "generateAddressConjMatch cl a ty = generateAddressConjMatch ?cl a ty"
    "generateServicePortConjMatch cl q = generateServicePortConjMatch ?cl q" if "cl_ruleTable cl = rt" for cl a ty q
    using that by (simp_all add: generateAddressConjMatch_def generateServicePortConjMatch_def newClause_def)
  have keys: "slot_matches c rule FromClause = map (\<lambda>a. generateAddressConjMatch ?cl a SrcAddress) (listed (pr_From rule))"
    "slot_matches c rule ToClause = map (\<lambda>a. generateAddressConjMatch ?cl a DstAddress) (listed (pr_To rule))"
    "slot_matches c rule ServiceClause = map (generateServicePortConjMatch ?cl) (listed (pr_Service rule))"
    by (simp_all add: slot_matches_def tabs Let_def)
  have "keeps np_ok ?acts" by (intro go_keeps)
  from keepsE [OF this ok 0] have ok0: "np_ok c0" .
  have "unchanged switch.more ?acts"
    unfolding unchanged_iff_keeps
    by (intro allI go_keeps) (rule unchanged_flow_ops(1) [unfolded unchanged_iff_keeps, rule_format])
  note m = client_more [OF unchangedD [OF this 0]]
  have st0: "staged ?r {} {} c0" using ok0 none by (auto simp: staged_def m)
  let ?k = "\<lambda>slot. match_keys (slot_matches c rule slot)"
  note step1 = install_clause_staged [where items = "pr_From rule", OF fair _ _ st0 1 [unfolded addAddrFlows_def]]
  note step1 = step1 [where mt = "\<lambda>a. generateAddressConjMatch ?cl a SrcAddress", OF same(1), folded keys, simplified]
  have st1: "staged ?r (?k FromClause) (clause_entries fc) c1" using step1(1) by simp
  note step2 = install_clause_staged [where items = "pr_To rule", OF fair _ _ st1 2 [unfolded addAddrFlows_def]]
  note step2 = step2 [where mt = "\<lambda>a. generateAddressConjMatch ?cl a DstAddress", OF same(1), folded keys,
      OF _ slot_keys_disjoint]
  have st2: "staged ?r (?k FromClause \<union> ?k ToClause) (clause_entries fc \<union> clause_entries tc) c2" using step2(1) by simp
  note step3 = install_clause_staged [where items = "pr_Service rule", OF fair _ _ st2 3 [unfolded addServiceFlows_def]]
  have "?k ServiceClause \<inter> (?k FromClause \<union> ?k ToClause) = {}"
    using slot_keys_disjoint [of ServiceClause FromClause c rule] slot_keys_disjoint [of ServiceClause ToClause c rule] by auto
  note step3 = step3 [where mt = "generateServicePortConjMatch ?cl", OF same(2), folded keys, OF _ this]
  let ?pc = "\<lparr>pc_id = ?r, pc_fromClause = fc, pc_toClause = tc, pc_serviceClause = sc, pc_actionFlows = fs\<rparr>"
  have held: "holds_entry (cl_action d) p c'" if "cl \<in> {fc, tc, sc}" "cl = Some d" "(k, p) \<in> set (cl_matches d)" for cl d k p
  proof -
    have "(cl_action d, p) \<in> clause_entries fc \<union> clause_entries tc \<union> clause_entries sc"
      using that by (force simp: clause_entries_def)
    with step3(1) have "holds_entry (cl_action d) p c3" by (auto simp: staged_def)
    then show ?thesis by (subst holds_entry_cong [of c' c3]) (simp_all add: c')
  qed
  have act: "slot_action rule slot = \<lparr>ca_conjID = ?r, ca_clauseID = (case slot of FromClause \<Rightarrow> f | ToClause \<Rightarrow> t
      | ServiceClause \<Rightarrow> v), ca_nClause = n\<rparr>" for slot by (simp add: slot_action_def ids)
  have "\<exists>cl v p. slot_clause slot ?pc = Some cl \<and> m = Some v \<and> (generateGlobalMapKey v, p) \<in> set (cl_matches cl) \<and>
      holds_entry (slot_action rule slot) p c'" if "m \<in> set (slot_matches c rule slot)" for slot m
    using that step1(3) step2(3) step3(3) held by (cases slot) (fastforce simp: act)+
  moreover have "getPolicyRuleConjunction c' ?r = Some ?pc" by (simp add: c' getPolicyRuleConjunction_def update_Some_unfold)
  ultimately show ?thesis by blast
qed

end
