(* ===== verification/PolicyMirror.thy ===== *)
theory PolicyMirror
  imports PolicyInstall
begin

text \<open>
  The contexts as a picture of the cached rules: as long as every call has returned nil, a context holds the action
  of a rule exactly when a clause of the rule in the cache has a match of that context.
\<close>

section \<open>Claims\<close>

text \<open>A claim: the action a clause has under a key, and the context it believes to be there.\<close>

type_synonym claim = "conjunctiveAction \<times> string \<times> ctx_ptr"

definition clause_claims :: "clause \<Rightarrow> claim set" where
  "clause_claims cl = {(cl_action cl, k, p) |k p. (k, p) \<in> set (cl_matches cl)}"

definition claimed_by :: "claim set \<Rightarrow> 32 word \<Rightarrow> string \<Rightarrow> bool" where
  "claimed_by E r k \<longleftrightarrow> (\<exists>a p. (a, k, p) \<in> E \<and> ca_conjID a = r)"

definition ctx_mirrors :: "claim set \<Rightarrow> ctx_ptr \<Rightarrow> conjMatchFlowContext \<Rightarrow> bool" where
  "ctx_mirrors E p x \<longleftrightarrow>
     (\<forall>r a. map_of (x_actions x) r = Some a \<longleftrightarrow> ca_conjID a = r \<and> 1 < ca_nClause a \<and> (a, ctx_key x, p) \<in> E) \<and>
     (\<forall>r. map_of (x_denyAllRules x) r \<noteq> None \<longleftrightarrow> (\<exists>a. ca_conjID a = r \<and> \<not> 1 < ca_nClause a \<and> (a, ctx_key x, p) \<in> E))"

definition mirror :: "claim set \<Rightarrow> client \<Rightarrow> bool" where
  "mirror E c \<longleftrightarrow>
     (\<forall>p x. ctxs c p = Some x \<longrightarrow> ctx_mirrors E p x \<and>
        (map_of (globalConjMatchFlowCache c) (ctx_key x) = Some p \<longleftrightarrow> \<not> emptied x)) \<and>
     (\<forall>(a, k, p) \<in> E. \<exists>x. ctxs c p = Some x \<and> ctx_key x = k)"

lemma mirror_cong:
  "mirror E c \<Longrightarrow> ctxs c' = ctxs c \<Longrightarrow> globalConjMatchFlowCache c' = globalConjMatchFlowCache c \<Longrightarrow> mirror E c'"
  by (simp add: mirror_def)

lemma mirrorD:
  assumes "mirror E c"
  shows "ctxs c p = Some x \<Longrightarrow> ctx_mirrors E p x"
    and "ctxs c p = Some x \<Longrightarrow> map_of (globalConjMatchFlowCache c) (ctx_key x) = Some p \<longleftrightarrow> \<not> emptied x"
    and "(a, k, p) \<in> E \<Longrightarrow> \<exists>x. ctxs c p = Some x \<and> ctx_key x = k"
  using assms unfolding mirror_def by blast+

lemma unclaimed:
  assumes "ctx_mirrors E p x" and "\<not> claimed_by E r (ctx_key x)"
  shows "map_of (x_actions x) r = None" and "map_of (x_denyAllRules x) r = None"
  using assms unfolding ctx_mirrors_def claimed_by_def by (metis option.exhaust)+

lemma ctx_mirrors_flows [simp]:
  "ctx_mirrors E p (x\<lparr>x_flow := f\<rparr>) = ctx_mirrors E p x" "ctx_mirrors E p (x\<lparr>x_dropFlow := f\<rparr>) = ctx_mirrors E p x"
  by (simp_all add: ctx_mirrors_def)

text \<open>A claim of another context does not matter to this one.\<close>

lemma ctx_mirrors_other:
  "(p \<noteq> q \<or> ctx_key x \<noteq> k) \<Longrightarrow> ctx_mirrors (insert (a, k, p) E) q x = ctx_mirrors E q x"
  by (auto simp: ctx_mirrors_def)

lemma ctx_mirrors_enter:
  assumes x: "ctx_mirrors E p x" and free: "\<not> claimed_by E (ca_conjID a) (ctx_key x)"
  shows "ctx_mirrors (insert (a, ctx_key x, p) E) p (enter_entry a x)" and "\<not> emptied (enter_entry a x)"
proof -
  note none = unclaimed [OF x free]
  show "ctx_mirrors (insert (a, ctx_key x, p) E) p (enter_entry a x)"
    using x none free
    by (auto simp: ctx_mirrors_def enter_entry_def claimed_by_def update_Some_unfold split: if_splits)
  show "\<not> emptied (enter_entry a x)"
    using none by (auto simp: emptied_def enter_entry_def update_absent)
qed

lemma ctx_mirrors_leave:
  assumes x: "ctx_mirrors (insert (a, ctx_key x, p) E) p x" and free: "\<not> claimed_by E (ca_conjID a) (ctx_key x)"
  shows "ctx_mirrors E p (leave_entry a x)" and "\<not> emptied x"
proof -
  have out: "(b, ctx_key x, p) \<notin> E" if "ca_conjID b = ca_conjID a" for b
    using free that by (auto simp: claimed_by_def)
  show "ctx_mirrors E p (leave_entry a x)"
    using x out unfolding ctx_mirrors_def leave_entry_def by (auto simp: delete_conv')
  have "(1 < ca_nClause a \<longrightarrow> map_of (x_actions x) (ca_conjID a) = Some a) \<and>
    (\<not> 1 < ca_nClause a \<longrightarrow> map_of (x_denyAllRules x) (ca_conjID a) \<noteq> None)"
    using x unfolding ctx_mirrors_def by auto
  then show "\<not> emptied x" by (auto simp: emptied_def)
qed

section \<open>A match that is added or deleted\<close>

lemma enter_entry_match [simp]: "x_match (enter_entry a x) = x_match x"
  by (simp add: enter_entry_def)

lemma mirror_add:
  assumes m: "mirror E c" and ok: "heap_ok c" and free: "\<not> claimed_by E (ca_conjID a) k"
    and k: "k = generateGlobalMapKey mt" and find: "find_or_create_ctx env dt mt c = (Ok p, c1)"
    and enter: "(if 1 < ca_nClause a then addAction env p a else addDenyAllRule p (ca_conjID a)) c1 = (Ok (), c2)"
  shows "mirror (insert (a, k, p) E) c2"
proof -
  have "\<exists>x. ctxs c1 p = Some x \<and> ctx_key x = k \<and> ctx_mirrors E p x \<and> map_of (globalConjMatchFlowCache c1) k = Some p \<and>
    (\<forall>q y. q \<noteq> p \<longrightarrow> ctxs c1 q = Some y \<longrightarrow> ctx_mirrors E q y \<and>
      (map_of (globalConjMatchFlowCache c1) (ctx_key y) = Some q \<longleftrightarrow> \<not> emptied y)) \<and>
    (\<forall>(b, l, q) \<in> E. \<exists>y. ctxs c1 q = Some y \<and> ctx_key y = l)"
    using find k
  proof (cases rule: find_or_create_Ok)
    case found
    from ok found(1) obtain x where "ctxs c p = Some x" "ctx_key x = k"
      by (auto simp: heap_ok_def dest: points_to_Some)
    with found m show ?thesis unfolding mirror_def by blast
  next
    case (created df)
    have new: "ctxs c p = None" using ok created(2) unfolding heap_ok_def by (metis less_irrefl not_None_eq)
    then have out: "(b, l, p) \<notin> E" for b l using mirrorD(3) [OF m] by fastforce
    have old: "ctx_mirrors E q y \<and> (map_of (globalConjMatchFlowCache c1) (ctx_key y) = Some q \<longleftrightarrow> \<not> emptied y)"
      if "q \<noteq> p" "ctxs c1 q = Some y" for q y
    proof -
      have y: "ctxs c q = Some y" using that by (simp add: created(3))
      have "emptied y" if "ctx_key y = k" using mirrorD(2) [OF m y] that created(1) by simp
      with mirrorD(1,2) [OF m y] \<open>q \<noteq> p\<close> show ?thesis by (auto simp: created(4) update_Some_unfold)
    qed
    have "\<exists>y. ctxs c1 q = Some y \<and> ctx_key y = l" if "(b, l, q) \<in> E" for b l q
      using mirrorD(3) [OF m that] new by (auto simp: created(3))
    then have claims: "\<forall>(b, l, q) \<in> E. \<exists>y. ctxs c1 q = Some y \<and> ctx_key y = l" by blast
    have "\<exists>x. ctxs c1 p = Some x \<and> ctx_key x = k \<and> ctx_mirrors E p x \<and> map_of (globalConjMatchFlowCache c1) k = Some p"
      using out k by (simp add: created(3,4) ctx_mirrors_def)
    with old claims show ?thesis by blast
  qed
  then obtain x where x: "ctxs c1 p = Some x" "ctx_key x = k" "ctx_mirrors E p x"
    "map_of (globalConjMatchFlowCache c1) k = Some p"
    and old: "\<And>q y. q \<noteq> p \<Longrightarrow> ctxs c1 q = Some y \<Longrightarrow> ctx_mirrors E q y \<and>
      (map_of (globalConjMatchFlowCache c1) (ctx_key y) = Some q \<longleftrightarrow> \<not> emptied y)"
    and claims: "\<And>b l q. (b, l, q) \<in> E \<Longrightarrow> \<exists>y. ctxs c1 q = Some y \<and> ctx_key y = l" by blast
  from enter_Ok [OF x(1) enter] obtain fl d where d: "switch.more d = switch.more c1"
    and c2: "c2 = set_ctx p ((enter_entry a x)\<lparr>x_flow := fl\<rparr>) d" by blast
  note dm = client_more [OF d]
  note here = ctx_mirrors_enter [OF x(3), of a, unfolded x(2), OF free]
  have "ctx_mirrors (insert (a, k, p) E) q y \<and> (map_of (globalConjMatchFlowCache c2) (ctx_key y) = Some q \<longleftrightarrow> \<not> emptied y)"
    if "ctxs c2 q = Some y" for q y
  proof (cases "q = p")
    case True
    with that have "y = (enter_entry a x)\<lparr>x_flow := fl\<rparr>" by (simp add: c2)
    with here x True show ?thesis by (simp add: c2 dm)
  next
    case False
    with that old [of q y] show ?thesis by (simp add: c2 dm ctx_mirrors_other)
  qed
  moreover have "\<exists>y. ctxs c2 q = Some y \<and> ctx_key y = l" if "(b, l, q) \<in> insert (a, k, p) E" for b l q
    using that claims [of b l q] x(1,2) by (auto simp: c2 dm)
  ultimately show ?thesis unfolding mirror_def by blast
qed

lemma mirror_delete:
  assumes m: "mirror (insert (cl_action cl, k, p) E) c" and free: "\<not> claimed_by E (ca_conjID (cl_action cl)) k"
    and p: "map_of (cl_matches cl) k = Some p"
    and run: "deleteConjunctiveMatchFlow env k (c, cl) = (Ok (), (c', cl'))"
  shows "mirror E c'"
proof -
  let ?a = "cl_action cl"
  from mirrorD(3) [OF m, of ?a k p] obtain x where x: "ctxs c p = Some x" "ctx_key x = k" by blast
  let ?y = "leave_entry ?a x"
  note ok = deleteConjunctiveMatchFlow_Ok [OF p x(1) run refl]
  from ok(1) obtain fl where fl: "ctxs c' = (ctxs c)(p \<mapsto> ?y\<lparr>x_flow := fl,
      x_dropFlow := (if emptied ?y then None else x_dropFlow x)\<rparr>)" by blast
  note here = ctx_mirrors_leave [of ?a x p E, unfolded x(2), OF mirrorD(1) [OF m x(1)] free]
  have top: "map_of (globalConjMatchFlowCache c) k = Some p" using mirrorD(2) [OF m x(1)] here(2) x(2) by simp
  have "ctx_mirrors E q y \<and> (map_of (globalConjMatchFlowCache c') (ctx_key y) = Some q \<longleftrightarrow> \<not> emptied y)"
    if y: "ctxs c' q = Some y" for q y
  proof (cases "q = p")
    case True
    with y here(1) top x(2) show ?thesis by (auto simp: fl ok(2) delete_conv')
  next
    case False
    with y have y: "ctxs c q = Some y" by (simp add: fl)
    have "emptied y" if "ctx_key y = k" using mirrorD(2) [OF m y] that top False by auto
    with mirrorD(1,2) [OF m y] False x(2) show ?thesis
      by (auto simp: ok(2) delete_conv' ctx_mirrors_other)
  qed
  moreover have "\<exists>y. ctxs c' q = Some y \<and> ctx_key y = l" if "(b, l, q) \<in> E" for b l q
    using mirrorD(3) [OF m, of b l q] that x by (auto simp: fl)
  ultimately show ?thesis unfolding mirror_def by blast
qed

section \<open>The clauses\<close>

definition slot_key :: "clause_slot \<Rightarrow> string \<Rightarrow> bool" where
  "slot_key slot k \<longleftrightarrow> (\<exists>m. k = generateGlobalMapKey m \<and> key_slot (cm_matchKey m) = Some slot)"

lemma slot_key_unique: "slot_key s k \<Longrightarrow> slot_key s' k \<Longrightarrow> s' = s"
  by (auto simp: slot_key_def global_key_inject)

text \<open>
  A clause of rule \<open>r\<close> at work, beside the claims \<open>E\<close> of all the others, which have none of this rule under the
  clause's kind of key.
\<close>

definition leaves_slot :: "claim set \<Rightarrow> 32 word \<Rightarrow> clause_slot \<Rightarrow> bool" where
  "leaves_slot E r slot \<longleftrightarrow> (\<forall>k. slot_key slot k \<longrightarrow> \<not> claimed_by E r k)"

fun mirrored :: "client \<Rightarrow> 32 word \<Rightarrow> table option \<Rightarrow> clause_slot \<Rightarrow> claim set \<Rightarrow> clause_state \<Rightarrow> bool" where
  "mirrored c0 r rt slot E (c, cl) \<longleftrightarrow> clause_inv c0 r rt (c, cl) \<and> (\<forall>(k, p) \<in> set (cl_matches cl). slot_key slot k) \<and>
     mirror (E \<union> clause_claims cl) c"

lemma clause_claims_update:
  assumes "map_of (cl_matches cl) k = None"
  shows "clause_claims (cl\<lparr>cl_matches := AList.update k p (cl_matches cl)\<rparr>)
    = insert (cl_action cl, k, p) (clause_claims cl)"
  using assms by (auto simp: clause_claims_def update_absent)

lemma set_delete_wf: "wf_map m \<Longrightarrow> set (AList.delete k m) = {(l, p) \<in> set m. l \<noteq> k}"
  by (auto simp: AList.delete_eq)

lemma clause_claims_delete:
  assumes "wf_map (cl_matches cl)" and "map_of (cl_matches cl) k = Some p"
  shows "clause_claims cl = insert (cl_action cl, k, p)
    (clause_claims (cl\<lparr>cl_matches := AList.delete k (cl_matches cl)\<rparr>))"
  using assms map_of_SomeD [OF assms(2)]
  by (auto simp: clause_claims_def set_delete_wf dest: eq_key_imp_eq_value)

lemma claimed_by_clause:
  "claimed_by (E \<union> clause_claims cl) r k \<Longrightarrow> claimed_by E r k \<or> (\<exists>p. (k, p) \<in> set (cl_matches cl))"
  by (auto simp: claimed_by_def clause_claims_def)

lemma add_mirrored:
  assumes fair: "fair_env env" and E: "leaves_slot E r slot" and slot: "key_slot (cm_matchKey m) = Some slot"
  shows "triple (\<lambda>_. True) (mirrored c0 r rt slot E) (addConjunctiveMatchFlow env m) (\<lambda>_. mirrored c0 r rt slot E)"
proof (rule tripleI)
  fix s x s' assume pre: "mirrored c0 r rt slot E s" and run: "addConjunctiveMatchFlow env m s = (x, s')"
  obtain c cl where s: "s = (c, cl)" by (cases s)
  obtain c2 cl2 where s': "s' = (c2, cl2)" by (cases s')
  let ?k = "generateGlobalMapKey m"
  have inv: "clause_inv c0 r rt (c, cl)" and keys: "\<And>k p. (k, p) \<in> set (cl_matches cl) \<Longrightarrow> slot_key slot k"
    and mir: "mirror (E \<union> clause_claims cl) c" using pre by (auto simp: s)
  have inv': "clause_inv c0 r rt (c2, cl2)"
    using keepsE [OF addConjunctiveMatchFlow_keeps [OF fair] inv run [unfolded s]] s' by simp
  have k: "slot_key slot ?k" using slot by (auto simp: slot_key_def)
  show "case x of Ok _ \<Rightarrow> mirrored c0 r rt slot E s' | _ \<Rightarrow> True"
  proof (cases "x = Ok ()")
    case False
    then show ?thesis by (cases x) simp_all
  next
    case True
    show ?thesis
    proof (cases "map_of (cl_matches cl) ?k")
      case (Some q)
      with run True pre show ?thesis by (simp add: addConjunctiveMatchFlow_def Let_def s go_eval)
    next
      case None
      with run True s' obtain p c1 where 1: "find_or_create_ctx env (cl_dropTable cl) m c = (Ok p, c1)"
        and 2: "(if 1 < ca_nClause (cl_action cl) then addAction env p (cl_action cl)
          else addDenyAllRule p (ca_conjID (cl_action cl))) c1 = (Ok (), c2)"
        and cl2: "cl2 = cl\<lparr>cl_matches := AList.update ?k p (cl_matches cl)\<rparr>"
        by (auto simp: addConjunctiveMatchFlow_def Let_def s gbind_Ok_iff gets_eval modify_eval on_fst_Ok_iff)
      have r: "ca_conjID (cl_action cl) = r" using inv by (simp add: clause_ok_def)
      have "\<not> claimed_by (E \<union> clause_claims cl) r ?k"
        using E k None by (auto simp: leaves_slot_def map_of_eq_None_iff dest!: claimed_by_clause) force
      from mirror_add [OF mir clause_inv_heap_ok [OF inv] _ refl 1 2] this r
      have "mirror (E \<union> clause_claims cl2) c2" by (simp add: cl2 clause_claims_update [OF None])
      with True inv' keys k s' None show ?thesis by (auto simp: cl2 update_absent simp del: clause_inv.simps)
    qed
  qed
qed

lemma delete_mirrored:
  assumes fair: "fair_env env" and E: "leaves_slot E r slot"
  shows "triple (\<lambda>_. True) (mirrored c0 r rt slot E) (deleteConjunctiveMatchFlow env k) (\<lambda>_. mirrored c0 r rt slot E)"
proof (rule tripleI)
  fix s x s' assume pre: "mirrored c0 r rt slot E s" and run: "deleteConjunctiveMatchFlow env k s = (x, s')"
  obtain c cl where s: "s = (c, cl)" by (cases s)
  obtain c2 cl2 where s': "s' = (c2, cl2)" by (cases s')
  have inv: "clause_inv c0 r rt (c, cl)" and keys: "\<And>k p. (k, p) \<in> set (cl_matches cl) \<Longrightarrow> slot_key slot k"
    and mir: "mirror (E \<union> clause_claims cl) c" using pre by (auto simp: s)
  have inv': "clause_inv c0 r rt (c2, cl2)"
    using deleteConjunctiveMatchFlow_inv [OF fair inv, of k] run by (simp add: s s')
  show "case x of Ok _ \<Rightarrow> mirrored c0 r rt slot E s' | _ \<Rightarrow> True"
  proof (cases "x = Ok ()")
    case False
    then show ?thesis by (cases x) simp_all
  next
    case True
    show ?thesis
    proof (cases "map_of (cl_matches cl) k")
      case None
      with run True pre show ?thesis by (simp add: deleteConjunctiveMatchFlow_def s go_eval)
    next
      case (Some p)
      have r: "ca_conjID (cl_action cl) = r" and pts: "points_to c (cl_matches cl)" using inv by (simp_all add: clause_ok_def)
      then have wf: "wf_map (cl_matches cl)" by (simp add: points_to_def)
      have run': "deleteConjunctiveMatchFlow env k (c, cl) = (Ok (), (c2, cl2))" using run True by (simp add: s s')
      from deleteConjunctiveMatchFlow_step(6) [OF pts Some run']
      have cl2: "cl2 = cl\<lparr>cl_matches := AList.delete k (cl_matches cl)\<rparr>" .
      note claims = clause_claims_delete [OF wf Some, folded cl2]
      have "slot_key slot k" using keys map_of_SomeD [OF Some] by blast
      then have "\<not> claimed_by (E \<union> clause_claims cl2) r k"
        using E wf by (auto simp: leaves_slot_def cl2 set_delete_wf dest!: claimed_by_clause)
      with mirror_delete [of cl k p "E \<union> clause_claims cl2" c env c2 cl2] mir claims r Some run'
      have "mirror (E \<union> clause_claims cl2) c2" by simp
      with True inv' keys s' wf show ?thesis by (auto simp: cl2 set_delete_wf simp del: clause_inv.simps)
    qed
  qed
qed

text \<open>Their loops.\<close>

lemma triple_read:
  assumes "\<And>s v. P s \<Longrightarrow> g s = Some v \<Longrightarrow> triple E P (f v) Q" and "\<And>s. P s \<Longrightarrow> E s"
  shows "triple E P (gbind (gets g) (\<lambda>m. gbind (deref m) f)) Q"
proof (rule tripleI)
  fix s r s' assume "P s" and "gbind (gets g) (\<lambda>m. gbind (deref m) f) s = (r, s')"
  with assms(1) [of s] assms(2) [of s] show "case r of Ok a \<Rightarrow> Q a s' | _ \<Rightarrow> E s'"
    by (cases "g s") (auto simp: gbind_eval gets_eval deref_eval dest: tripleD)
qed

lemma address_slot:
  "getAddressClause ty = Some slot \<Longrightarrow> generateAddressConjMatch cl a ty = Some m \<Longrightarrow> key_slot (cm_matchKey m) = Some slot"
  by (cases ty) (auto intro: match_slots [OF sym])

lemma loops_mirrored:
  assumes fair: "fair_env env" and E: "leaves_slot E r slot"
  shows "getAddressClause ty = Some slot \<Longrightarrow>
      triple (\<lambda>_. True) (mirrored c0 r rt slot E) (addAddrFlows env ty as) (\<lambda>_. mirrored c0 r rt slot E)"
    and "slot = ServiceClause \<Longrightarrow>
      triple (\<lambda>_. True) (mirrored c0 r rt slot E) (addServiceFlows env ps) (\<lambda>_. mirrored c0 r rt slot E)"
    and "triple (\<lambda>_. True) (mirrored c0 r rt slot E) (deleteAddrFlows env ty as) (\<lambda>_. mirrored c0 r rt slot E)"
    and "triple (\<lambda>_. True) (mirrored c0 r rt slot E)
      (gfor es (\<lambda>(key, _). deleteConjunctiveMatchFlow env key)) (\<lambda>_. mirrored c0 r rt slot E)"
  unfolding addAddrFlows_def addServiceFlows_def deleteAddrFlows_def
  by (intro triple_gfor triple_read add_mirrored [OF fair E] delete_mirrored [OF fair E];
      auto intro: address_slot service_slot [OF sym] delete_mirrored [OF fair E] split: prod.splits)+

section \<open>The cached rules\<close>

definition opt_claims :: "clause option \<Rightarrow> claim set" where
  "opt_claims cl = (case cl of None \<Rightarrow> {} | Some d \<Rightarrow> clause_claims d)"

definition slot_claims :: "client \<Rightarrow> 32 word \<Rightarrow> clause_slot \<Rightarrow> claim set" where
  "slot_claims c r slot = opt_claims (Option.bind (getPolicyRuleConjunction c r) (slot_clause slot))"

definition rule_claims :: "client \<Rightarrow> claim set" where
  "rule_claims c = (\<Union>r slot. slot_claims c r slot)"

definition mirrors :: "client \<Rightarrow> bool" where
  "mirrors c \<longleftrightarrow> np_ok c \<and> (\<forall>r slot. \<forall>(a, k, p) \<in> slot_claims c r slot. slot_key slot k) \<and> mirror (rule_claims c) c"

lemma mirrorsD:
  "mirrors c \<Longrightarrow> np_ok c" "mirrors c \<Longrightarrow> (a, k, p) \<in> slot_claims c r slot \<Longrightarrow> slot_key slot k"
  "mirrors c \<Longrightarrow> mirror (rule_claims c) c"
  unfolding mirrors_def by blast+

lemma mirrorsI:
  assumes "np_ok c" "\<And>r slot a k p. (a, k, p) \<in> slot_claims c r slot \<Longrightarrow> slot_key slot k" "mirror (rule_claims c) c"
  shows "mirrors c"
  unfolding mirrors_def using assms by blast

lemma mirrors_same:
  assumes "mirrors c" and "np_ok c'" and "slot_claims c' = slot_claims c" and "ctxs c' = ctxs c"
    and "globalConjMatchFlowCache c' = globalConjMatchFlowCache c"
  shows "mirrors c'"
  using assms mirror_cong [of "rule_claims c" c c'] by (simp add: mirrors_def rule_claims_def)

lemma opt_claims_simps [simp]: "opt_claims None = {}" "opt_claims (Some cl) = clause_claims cl"
  by (simp_all add: opt_claims_def)

lemma claim_id: "np_ok c \<Longrightarrow> (a, k, p) \<in> slot_claims c r slot \<Longrightarrow> ca_conjID a = r"
  by (auto simp: slot_claims_def clause_claims_def bind_eq_Some_conv cached_clause_id opt_claims_def split: option.splits)

lemma slot_claims_update:
  "slot_claims (c\<lparr>policyCache := AList.update r pc (policyCache c)\<rparr>) r' s =
     (if r' = r then opt_claims (slot_clause s pc) else slot_claims c r' s)"
  by (simp add: slot_claims_def getPolicyRuleConjunction_def)

lemma slot_claims_put:
  assumes "policyCache c1 = policyCache c" and "getPolicyRuleConjunction c r = Some pc"
  shows "slot_claims (put_clause r slot cl c1) r' s' = (if r' = r \<and> s' = slot then clause_claims cl else slot_claims c r' s')"
  using assms by (auto simp: slot_claims_def getPolicyRuleConjunction_def put_clause_def set_slot_simps)

text \<open>One clause is taken out of the cache, worked on and put back.\<close>

definition rest_claims :: "client \<Rightarrow> 32 word \<Rightarrow> clause_slot \<Rightarrow> claim set" where
  "rest_claims c r slot = (\<Union>(r', s') \<in> - {(r, slot)}. slot_claims c r' s')"

lemma in_rest_claims: "e \<in> rest_claims c r slot \<longleftrightarrow> (\<exists>r' s'. (r' \<noteq> r \<or> s' \<noteq> slot) \<and> e \<in> slot_claims c r' s')"
  by (auto simp: rest_claims_def)

lemma in_rule_claims: "e \<in> rule_claims c \<longleftrightarrow> (\<exists>r s. e \<in> slot_claims c r s)"
  by (simp add: rule_claims_def)

lemma rule_claims_split: "rule_claims c = rest_claims c r slot \<union> slot_claims c r slot"
  by (rule set_eqI) (auto simp: in_rest_claims in_rule_claims)

lemma rest_leaves_slot:
  assumes "mirrors c"
  shows "leaves_slot (rest_claims c r slot) r slot"
proof -
  have False if k: "slot_key slot k" and E: "(a, k, p) \<in> slot_claims c r' s" "r' \<noteq> r \<or> s \<noteq> slot" and a: "ca_conjID a = r"
    for k a p r' s
    using slot_key_unique [OF k mirrorsD(2) [OF assms E(1)]] claim_id [OF mirrorsD(1) [OF assms] E(1)] E(2) a by simp
  then show ?thesis unfolding leaves_slot_def claimed_by_def in_rest_claims by blast
qed

lemma cached_mirrored:
  assumes c: "mirrors c" and pc: "getPolicyRuleConjunction c r = Some pc" and cl: "slot_clause slot pc = Some cl"
  shows "mirrored c r (cl_ruleTable cl) slot (rest_claims c r slot) (c, cl)"
proof -
  note ok = mirrorsD(1) [OF c]
  have old: "slot_claims c r slot = clause_claims cl" using pc cl by (simp add: slot_claims_def)
  have "clause_inv c r (cl_ruleTable cl) (c, cl)"
    using ok slot_ok [OF ok _ cl] pc by (simp add: extends_refl np_ok_def getPolicyRuleConjunction_def)
  moreover have "slot_key slot k" if "(k, p) \<in> set (cl_matches cl)" for k p
    using that by (intro mirrorsD(2) [OF c, of "cl_action cl" k p r slot]) (simp add: old clause_claims_def)
  ultimately show ?thesis using mirrorsD(3) [OF c] by (auto simp: rule_claims_split [of c r slot] old)
qed

lemma on_cached_mirrors:
  assumes c: "mirrors c" and pc: "getPolicyRuleConjunction c r = Some pc" and cl: "slot_clause slot pc = Some cl"
    and m: "\<And>E. leaves_slot E r slot \<Longrightarrow> triple (\<lambda>_. True) (mirrored c r (cl_ruleTable cl) slot E) m
      (\<lambda>_. mirrored c r (cl_ruleTable cl) slot E)"
    and inv: "keeps (clause_inv c r (cl_ruleTable cl)) m"
    and run: "on_cached_clause r slot cl m c = (Ok (), c')"
  shows "mirrors c'"
proof -
  from run obtain c1 cl1 where 1: "m (c, cl) = (Ok (), (c1, cl1))" and c': "c' = put_clause r slot cl1 c1"
    by (auto simp: on_cached_clause_def split: prod.splits)
  note ok = mirrorsD(1) [OF c]
  have pc': "map_of (policyCache c) r = Some pc" using pc by (simp add: getPolicyRuleConjunction_def)
  let ?E = "rest_claims c r slot"
  from tripleD [OF m [OF rest_leaves_slot [OF c]] cached_mirrored [OF c pc cl] 1]
  have post: "mirrored c r (cl_ruleTable cl) slot ?E (c1, cl1)" by simp
  then have same: "policyCache c1 = policyCache c" by (simp add: extends_def heap_le_def)
  note claims = slot_claims_put [OF same pc]
  have "rule_claims c' = ?E \<union> clause_claims cl1"
    by (rule set_eqI) (auto simp: in_rule_claims in_rest_claims c' claims split: if_splits)
  moreover have "ctxs c' = ctxs c1" "globalConjMatchFlowCache c' = globalConjMatchFlowCache c1"
    by (simp_all add: c' put_clause_def split: option.split)
  ultimately have "mirror (rule_claims c') c'" using mirror_cong [of _ c1 c'] post by simp
  moreover have "np_ok c'" using on_cached_clause_ok [OF ok pc' cl inv] run by simp
  moreover have "slot_key s k" if "(a, k, p) \<in> slot_claims c' r' s" for r' s a k p
    using that post mirrorsD(2) [OF c] by (auto simp: c' claims clause_claims_def split: if_splits)
  ultimately show ?thesis by (intro mirrorsI)
qed

lemma address_calls_mirror:
  assumes fair: "fair_env env" and c: "mirrors c"
  shows "AddPolicyRuleAddress env r ty as c = (Ok (), c') \<Longrightarrow> mirrors c'"
    and "DeletePolicyRuleAddress env r ty as c = (Ok (), c') \<Longrightarrow> mirrors c'"
proof -
  have "mirrors c'" if run: "on_address_clause r ty m c = (Ok (), c')"
    and m: "\<And>c0 rt slot E. getAddressClause ty = Some slot \<Longrightarrow> leaves_slot E r slot \<Longrightarrow>
      triple (\<lambda>_. True) (mirrored c0 r rt slot E) m (\<lambda>_. mirrored c0 r rt slot E)"
    and inv: "\<And>c0 rt. keeps (clause_inv c0 r rt) m" for m
  proof -
    from run obtain pc slot cl where pc: "getPolicyRuleConjunction c r = Some pc" and slot: "getAddressClause ty = Some slot"
      and cl: "slot_clause slot pc = Some cl" and 1: "on_cached_clause r slot cl m c = (Ok (), c')"
      by (auto simp: on_address_clause_def gbind_eval gets_eval throw_eval split: option.splits)
    from on_cached_mirrors [OF c pc cl m [OF slot] inv 1] show ?thesis .
  qed
  note lift = this
  show "AddPolicyRuleAddress env r ty as c = (Ok (), c') \<Longrightarrow> mirrors c'"
    unfolding AddPolicyRuleAddress_def by (rule lift) (assumption | rule loops_mirrored(1) clause_loops_keep(1) fair)+
  show "DeletePolicyRuleAddress env r ty as c = (Ok (), c') \<Longrightarrow> mirrors c'"
    unfolding DeletePolicyRuleAddress_def by (rule lift) (assumption | rule loops_mirrored(3) clause_loops_keep(3) fair)+
qed

section \<open>Uninstalling\<close>

lemma deleted_matches:
  assumes "gfor es (\<lambda>(key, _). deleteConjunctiveMatchFlow env key) (c, cl) = (Ok (), (c', cl'))"
    and "points_to c (cl_matches cl)"
  shows "set (cl_matches cl') = {(k, p) \<in> set (cl_matches cl). k \<notin> fst ` set es}"
  using assms
proof (induction es arbitrary: c cl)
  case Nil
  then show ?case by (auto simp: ret_eval)
next
  case (Cons e es)
  obtain k v where e: "e = (k, v)" by (cases e)
  from Cons.prems(1) obtain c1 cl1 where 1: "deleteConjunctiveMatchFlow env k (c, cl) = (Ok (), (c1, cl1))"
    and 2: "gfor es (\<lambda>(key, _). deleteConjunctiveMatchFlow env key) (c1, cl1) = (Ok (), (c', cl'))"
    by (auto simp: e gbind_Ok_iff)
  show ?case
  proof (cases "map_of (cl_matches cl) k")
    case None
    with 1 have "c1 = c" "cl1 = cl" by (simp_all add: deleteConjunctiveMatchFlow_def go_eval)
    with Cons.IH [OF 2] Cons.prems(2) None show ?thesis by (auto simp: e map_of_eq_None_iff image_iff)
  next
    case (Some p)
    note st = deleteConjunctiveMatchFlow_step [OF Cons.prems(2) Some 1]
    have wf: "wf_map (cl_matches cl)" using Cons.prems(2) by (simp add: points_to_def)
    from Cons.IH [OF 2 st(4)] show ?thesis by (auto simp: e st(6) set_delete_wf [OF wf])
  qed
qed

lemma deleteAllMatches_empties:
  assumes fair: "fair_env env" and run: "deleteAllMatches env (c, cl) = (Ok (), (c', cl'))"
    and pts: "points_to c (cl_matches cl)"
  shows "clause_claims cl' = {}"
proof -
  have "gfor (go_range env c (cl_matches cl)) (\<lambda>(key, _). deleteConjunctiveMatchFlow env key) (c, cl) = (Ok (), (c', cl'))"
    using run by (simp add: deleteAllMatches_def gbind_eval gets_eval)
  note left = deleted_matches [OF this pts, unfolded set_go_range [OF fair]]
  have "e \<notin> set (cl_matches cl')" for e
    unfolding left by (cases e) force
  then show ?thesis by (simp add: clause_claims_def)
qed

lemma deleteAllMatches_mirrored:
  assumes "fair_env env" and "leaves_slot E r slot"
  shows "triple (\<lambda>_. True) (mirrored c0 r rt slot E) (deleteAllMatches env) (\<lambda>_. mirrored c0 r rt slot E)"
proof (rule tripleI)
  fix s x s' assume pre: "mirrored c0 r rt slot E s" and run: "deleteAllMatches env s = (x, s')"
  obtain c cl where s: "s = (c, cl)" by (cases s)
  have "gfor (go_range env c (cl_matches cl)) (\<lambda>(key, _). deleteConjunctiveMatchFlow env key) s = (x, s')"
    using run by (simp add: deleteAllMatches_def gbind_eval gets_eval s)
  from tripleD [OF loops_mirrored(4) [OF assms] pre this]
  show "case x of Ok _ \<Rightarrow> mirrored c0 r rt slot E s' | _ \<Rightarrow> True" .
qed

lemma delete_clause_mirrors:
  assumes fair: "fair_env env" and c: "mirrors c" and run: "delete_clause env r slot c = (Ok (), c')"
  shows "mirrors c'" and "slot_claims c' r' s = (if r' = r \<and> s = slot then {} else slot_claims c r' s)"
proof -
  have "mirrors c' \<and> (\<forall>r' s. slot_claims c' r' s = (if r' = r \<and> s = slot then {} else slot_claims c r' s))"
  proof (cases "Option.bind (getPolicyRuleConjunction c r) (slot_clause slot)")
    case None
    with run c show ?thesis by (auto simp: delete_clause_def gbind_eval gets_eval ret_eval slot_claims_def)
  next
    case (Some cl)
    then obtain pc where pc: "getPolicyRuleConjunction c r = Some pc" and cl: "slot_clause slot pc = Some cl"
      by (auto simp: bind_eq_Some_conv)
    have 1: "on_cached_clause r slot cl (deleteAllMatches env) c = (Ok (), c')"
      using run Some by (simp add: delete_clause_def gbind_eval gets_eval)
    then obtain c1 cl1 where 2: "deleteAllMatches env (c, cl) = (Ok (), (c1, cl1))" and c': "c' = put_clause r slot cl1 c1"
      by (auto simp: on_cached_clause_def split: prod.splits)
    have "clause_ok c r cl"
      using slot_ok [OF mirrorsD(1) [OF c]] pc cl by (simp add: getPolicyRuleConjunction_def)
    then have pts: "points_to c (cl_matches cl)" by (simp add: clause_ok_def)
    have "slot_claims c' r' s = (if r' = r \<and> s = slot then {} else slot_claims c r' s)" for r' s
      using slot_claims_put [OF deleteAllMatches_Ok(2) [OF fair 2 pts] pc] deleteAllMatches_empties [OF fair 2 pts]
      by (simp add: c')
    moreover have "mirrors c'"
      by (rule on_cached_mirrors [OF c pc cl deleteAllMatches_mirrored [OF fair] _ 1])
        (assumption | rule safe_keeps clause_loops_keep(4) fair)+
    ultimately show ?thesis by blast
  qed
  then show "mirrors c'" "slot_claims c' r' s = (if r' = r \<and> s = slot then {} else slot_claims c r' s)" by blast+
qed

lemma mirrors_more:
  assumes "mirrors c" and "switch.more c' = switch.more (c :: client)"
  shows "mirrors c'"
proof -
  note m = client_more [OF assms(2)]
  have "extends c c'" using extends_more [OF _ assms(2)] mirrorsD(1) [OF assms(1)] by (simp add: np_ok_def)
  from mirrors_same [OF assms(1) extends_np_ok [OF mirrorsD(1) [OF assms(1)] this]] show ?thesis
    by (simp add: m slot_claims_def getPolicyRuleConjunction_def fun_eq_iff)
qed

lemma Uninstall_mirrors:
  assumes fair: "fair_env env" and c: "mirrors c" and run: "UninstallPolicyRuleFlows env r c = (Ok (), c')"
  shows "mirrors c'"
proof (cases "getPolicyRuleConjunction c r")
  case None
  with run c show ?thesis by (simp add: UninstallPolicyRuleFlows_def gbind_eval gets_eval ret_eval)
next
  case (Some pc)
  from run Some obtain c0 c1 c2 c3 where 0: "gfor (pc_actionFlows pc) (flow_Delete env) c = (Ok (), c0)"
    and 1: "delete_clause env r FromClause c0 = (Ok (), c1)" and 2: "delete_clause env r ToClause c1 = (Ok (), c2)"
    and 3: "delete_clause env r ServiceClause c2 = (Ok (), c3)"
    and c': "c' = c3\<lparr>policyCache := AList.delete r (policyCache c3)\<rparr>"
    by (auto simp: UninstallPolicyRuleFlows_def gbind_Ok_iff gets_eval modify_eval)
  have "unchanged switch.more (gfor (pc_actionFlows pc) (flow_Delete env) :: (client, unit) go)"
    unfolding unchanged_iff_keeps
    by (intro allI keeps_gfor) (rule unchanged_flow_ops(3) [unfolded unchanged_iff_keeps, rule_format])
  from mirrors_more [OF c unchangedD [OF this 0]] have m0: "mirrors c0" .
  note d1 = delete_clause_mirrors [OF fair m0 1]
  note d2 = delete_clause_mirrors [OF fair d1(1) 2]
  note d3 = delete_clause_mirrors [OF fair d2(1) 3]
  have none: "slot_claims c3 r s = {}" for s by (cases s) (simp_all add: d1(2) d2(2) d3(2))
  have "slot_claims c' r' s = slot_claims c3 r' s" for r' s
    using none [of s] by (simp add: c' slot_claims_def getPolicyRuleConjunction_def)
  moreover have "np_ok c'" using safeD [OF UninstallPolicyRuleFlows_safe [OF fair] mirrorsD(1) [OF c] run] by simp
  ultimately show ?thesis
    by (intro mirrors_same [OF d3(1)]) (simp_all add: fun_eq_iff, simp_all add: c')
qed

section \<open>Installing\<close>

definition keyed_in :: "clause_slot \<Rightarrow> claim set \<Rightarrow> bool" where
  "keyed_in slot E \<longleftrightarrow> (\<forall>(a, k, p) \<in> E. slot_key slot k)"

lemma leaves_slot_Un: "leaves_slot E r slot \<Longrightarrow> keyed_in s F \<Longrightarrow> s \<noteq> slot \<Longrightarrow> leaves_slot (E \<union> F) r slot"
  unfolding leaves_slot_def claimed_by_def keyed_in_def by (blast dest: slot_key_unique)

lemma install_clause_mirror:
  assumes ok: "np_ok c" and m: "mirror E c" and E: "leaves_slot E r slot"
    and add: "\<And>xs c0. triple (\<lambda>_. True) (mirrored c0 r rt slot E) (add xs) (\<lambda>_. mirrored c0 r rt slot E)"
    and run: "install_clause items (newClause r i n rt dt) add c = (Ok cl, c')"
  shows "np_ok c'" and "policyCache c' = policyCache c" and "mirror (E \<union> opt_claims cl) c'" and "keyed_in slot (opt_claims cl)"
proof -
  let ?cl = "newClause r i n rt dt"
  have "np_ok c' \<and> policyCache c' = policyCache c \<and> mirror (E \<union> opt_claims cl) c' \<and> keyed_in slot (opt_claims cl)"
  proof (cases items)
    case None
    with run ok m show ?thesis by (auto simp: install_clause_def ret_eval keyed_in_def)
  next
    case (Some xs)
    with run obtain d where 1: "add xs (c, ?cl) = (Ok (), (c', d))" and cl: "cl = Some d"
      by (auto simp: install_clause_def on_new_clause_def gbind_eval ret_eval split: prod.splits result.splits)
    have "clause_inv c r rt (c, ?cl)"
      using ok by (simp add: newClause_def clause_ok_def points_to_def np_ok_def extends_refl)
    then have "mirrored c r rt slot E (c, ?cl)" using m by (simp add: newClause_def clause_claims_def)
    from tripleD [OF add this 1] have post: "mirrored c r rt slot E (c', d)" by simp
    then have "extends c c'" by simp
    with post extends_np_ok [OF ok this] show ?thesis
      by (auto simp: cl extends_def heap_le_def keyed_in_def clause_claims_def)
  qed
  then show "np_ok c'" "policyCache c' = policyCache c" "mirror (E \<union> opt_claims cl) c'" "keyed_in slot (opt_claims cl)"
    by blast+
qed

text \<open>The steps of an installation that returns nil, each clause added to the claims of those before it.\<close>

definition rule_actions :: "env \<Rightarrow> PolicyRule \<Rightarrow> 8 word \<Rightarrow> table option \<Rightarrow> table option \<Rightarrow> (client, flow list) go" where
  "rule_actions env rule n rt dt = (if 1 < n then gbind (gets (\<lambda>c. action_flows c rule rt dt)) (\<lambda>fs. gbind (deref fs)
     (\<lambda>actionFlows. gseq (gfor actionFlows (flow_Add env)) (ret actionFlows))) else ret [])"

lemma Install_steps:
  assumes fair: "fair_env env" and c: "mirrors c" and None: "getPolicyRuleConjunction c (pr_ID rule) = None"
    and run: "InstallPolicyRuleFlows env rule c = (Ok (), c')"
  obtains n f t v rt dt fs c0 c1 c2 c3 fc tc sc where "clause_ids rule = (n, f, t, v)" and "rule_tables c rule = (rt, dt)"
    and "rule_actions env rule n rt dt c = (Ok fs, c0)"
    and "install_clause (pr_From rule) (newClause (pr_ID rule) f n rt (if is_egress rule then dt else None))
      (addAddrFlows env SrcAddress) c0 = (Ok fc, c1)"
    and "install_clause (pr_To rule) (newClause (pr_ID rule) t n rt (if \<not> is_egress rule then dt else None))
      (addAddrFlows env DstAddress) c1 = (Ok tc, c2)"
    and "install_clause (pr_Service rule) (newClause (pr_ID rule) v n rt None) (addServiceFlows env) c2 = (Ok sc, c3)"
    and "c' = c3\<lparr>policyCache := AList.update (pr_ID rule) \<lparr>pc_id = pr_ID rule, pc_fromClause = fc, pc_toClause = tc,
        pc_serviceClause = sc, pc_actionFlows = fs\<rparr> (policyCache c3)\<rparr>"
    and "policyCache c3 = policyCache c"
    and "np_ok c0" "mirror (rule_claims c) c0" "leaves_slot (rule_claims c) (pr_ID rule) FromClause"
    and "np_ok c1" "mirror (rule_claims c \<union> opt_claims fc) c1" "leaves_slot (rule_claims c \<union> opt_claims fc) (pr_ID rule) ToClause"
    and "np_ok c2" "mirror (rule_claims c \<union> opt_claims fc \<union> opt_claims tc) c2"
      "leaves_slot (rule_claims c \<union> opt_claims fc \<union> opt_claims tc) (pr_ID rule) ServiceClause"
    and "mirror (rule_claims c \<union> opt_claims fc \<union> opt_claims tc \<union> opt_claims sc) c3"
    and "keyed_in FromClause (opt_claims fc)" "keyed_in ToClause (opt_claims tc)" "keyed_in ServiceClause (opt_claims sc)"
proof -
  let ?r = "pr_ID rule" and ?E = "rule_claims c"
  obtain n f t v where ids: "clause_ids rule = (n, f, t, v)" by (metis prod.exhaust)
  obtain rt dt where tabs: "rule_tables c rule = (rt, dt)" by (cases "rule_tables c rule")
  from run None obtain fs c0 c1 c2 c3 fc tc sc where 0: "rule_actions env rule n rt dt c = (Ok fs, c0)"
    and 1: "install_clause (pr_From rule) (newClause ?r f n rt (if is_egress rule then dt else None))
      (addAddrFlows env SrcAddress) c0 = (Ok fc, c1)"
    and 2: "install_clause (pr_To rule) (newClause ?r t n rt (if \<not> is_egress rule then dt else None))
      (addAddrFlows env DstAddress) c1 = (Ok tc, c2)"
    and 3: "install_clause (pr_Service rule) (newClause ?r v n rt None) (addServiceFlows env) c2 = (Ok sc, c3)"
    and c': "c' = c3\<lparr>policyCache := AList.update ?r \<lparr>pc_id = ?r, pc_fromClause = fc, pc_toClause = tc,
        pc_serviceClause = sc, pc_actionFlows = fs\<rparr> (policyCache c3)\<rparr>"
    unfolding InstallPolicyRuleFlows_def rule_actions_def by (auto simp: gets_eval gbind_Ok_iff ids tabs modify_eval)
  have "unchanged switch.more (rule_actions env rule n rt dt)"
    unfolding unchanged_iff_keeps rule_actions_def
    by (intro allI go_keeps) (rule unchanged_flow_ops(1) [unfolded unchanged_iff_keeps, rule_format])
  note more = unchangedD [OF this 0]
  have m0: "mirrors c0" using c more by (rule mirrors_more)
  have E: "rule_claims c0 = ?E"
    using client_more(4) [OF more] by (simp add: rule_claims_def slot_claims_def getPolicyRuleConjunction_def)
  have "ca_conjID a \<noteq> ?r" if "(a, k, p) \<in> ?E" for a k p
    using that None claim_id [OF mirrorsD(1) [OF c]] by (fastforce simp: in_rule_claims slot_claims_def)
  then have free: "leaves_slot ?E ?r slot" for slot by (auto simp: leaves_slot_def claimed_by_def)
  note s1 = install_clause_mirror [OF mirrorsD(1) [OF m0] mirrorsD(3) [OF m0, unfolded E] free
      loops_mirrored(1) [OF fair free getAddressClause.simps(1)] 1]
  have free2: "leaves_slot (?E \<union> opt_claims fc) ?r ToClause" by (rule leaves_slot_Un [OF free s1(4)]) simp
  note s2 = install_clause_mirror [OF s1(1,3) free2 loops_mirrored(1) [OF fair free2 getAddressClause.simps(2)] 2]
  have free3: "leaves_slot (?E \<union> opt_claims fc \<union> opt_claims tc) ?r ServiceClause"
    by (rule leaves_slot_Un [OF leaves_slot_Un [OF free s1(4)] s2(4)]) simp_all
  note s3 = install_clause_mirror [OF s2(1,3) free3 loops_mirrored(2) [OF fair free3 refl] 3]
  have "policyCache c3 = policyCache c" using client_more(4) [OF more] s1(2) s2(2) s3(2) by simp
  from that [OF ids tabs 0 1 2 3 c' this mirrorsD(1) [OF m0] mirrorsD(3) [OF m0, unfolded E] free s1(1,3) free2 s2(1,3) free3
      s3(3) s1(4) s2(4) s3(4)]
  show thesis .
qed

lemma Install_mirrors:
  assumes fair: "fair_env env" and c: "mirrors c" and run: "InstallPolicyRuleFlows env rule c = (Ok (), c')"
  shows "mirrors c'"
proof (cases "getPolicyRuleConjunction c (pr_ID rule)")
  case (Some pc)
  with run c show ?thesis by (auto simp: InstallPolicyRuleFlows_def gbind_eval gets_eval ret_eval split: prod.splits)
next
  case None
  let ?r = "pr_ID rule" and ?E = "rule_claims c"
  from Install_steps [OF fair c None run] obtain fs c3 fc tc sc where
    c': "c' = c3\<lparr>policyCache := AList.update ?r \<lparr>pc_id = ?r, pc_fromClause = fc, pc_toClause = tc,
        pc_serviceClause = sc, pc_actionFlows = fs\<rparr> (policyCache c3)\<rparr>"
    and cache: "policyCache c3 = policyCache c" and m3: "mirror (?E \<union> opt_claims fc \<union> opt_claims tc \<union> opt_claims sc) c3"
    and keyed: "keyed_in FromClause (opt_claims fc)" "keyed_in ToClause (opt_claims tc)" "keyed_in ServiceClause (opt_claims sc)"
    by metis
  let ?pc = "\<lparr>pc_id = ?r, pc_fromClause = fc, pc_toClause = tc, pc_serviceClause = sc, pc_actionFlows = fs\<rparr>"
  have old: "slot_claims c3 r' s = slot_claims c r' s" for r' s
    using cache by (simp add: slot_claims_def getPolicyRuleConjunction_def)
  have new: "slot_claims c' r' s = (if r' = ?r then opt_claims (slot_clause s ?pc) else slot_claims c r' s)" for r' s
    unfolding c' slot_claims_update old ..
  have none: "slot_claims c ?r s = {}" for s using None by (simp add: slot_claims_def)
  have "e \<in> ?E \<union> opt_claims fc \<union> opt_claims tc \<union> opt_claims sc" if "e \<in> slot_claims c' r' s" for e r' s
    using that unfolding new by (cases s) (auto simp: in_rule_claims split: if_splits)
  moreover have "e \<in> slot_claims c' r' s" if "e \<in> slot_claims c r' s" for e r' s
    using that none [of s] by (auto simp: new)
  moreover have "opt_claims fc \<union> opt_claims tc \<union> opt_claims sc \<subseteq> rule_claims c'"
    using new [of ?r FromClause] new [of ?r ToClause] new [of ?r ServiceClause] unfolding rule_claims_def by fastforce
  ultimately have claims: "rule_claims c' = ?E \<union> opt_claims fc \<union> opt_claims tc \<union> opt_claims sc"
    by (auto simp: in_rule_claims subset_iff) blast+
  have np: "np_ok c'" using keepsE [OF InstallPolicyRuleFlows_keeps [OF fair] mirrorsD(1) [OF c] run] .
  have mir: "mirror (rule_claims c') c'" unfolding claims by (rule mirror_cong [OF m3]) (simp_all add: c')
  have keys: "slot_key s k" if "(a, k, p) \<in> slot_claims c' r' s" for r' s a k p
    using that mirrorsD(2) [OF c] keyed unfolding new keyed_in_def by (cases s) (auto split: if_splits)
  show ?thesis using np keys mir by (rule mirrorsI)
qed

section \<open>Calls that returned nil\<close>

interpretation picture: cache_blind mirrors env for env
proof unfold_locales
  show "keeps mirrors (flow_Add env f)" "keeps mirrors (flow_Modify env f)" "keeps mirrors (flow_Delete env f)" for f
    by (rule keepsI, rule mirrors_more, assumption, rule flow_op_more [OF prod.collapse [symmetric]])+
  show "keeps mirrors (run env (OfctlShow b))" for b
    by (rule keepsI, rule mirrors_more, assumption) (simp add: run_eq)
  show "mirrors (c\<lparr>caches := x\<rparr>)" if "mirrors c" for c x
    using that policies.caches_update [OF mirrorsD(1) [OF that], of x]
    by (rule mirrors_same) (simp_all add: slot_claims_def getPolicyRuleConjunction_def fun_eq_iff)
qed

lemma invoke_mirrors:
  assumes "fair_env env" and "mirrors c" and "invoke env k c = (Ok (), c')"
  shows "mirrors c'"
proof (cases "call_rule k")
  case None
  then have "keeps mirrors (invoke env k)"
    by (cases k) (simp_all add: picture.keeps_Initialize picture.keeps_client_go)
  with assms(2,3) show ?thesis by (blast dest: keepsE)
next
  case (Some r)
  with assms show ?thesis
    by (cases k) (auto intro: Install_mirrors Uninstall_mirrors address_calls_mirror)
qed

lemma fresh_mirrors: "fresh_client c \<Longrightarrow> mirrors c"
  using fresh_client_invs(3) [of c]
  by (auto simp: fresh_client_def mirrors_def mirror_def rule_claims_def slot_claims_def getPolicyRuleConjunction_def)

text \<open>The state after calls that have all returned nil; none otherwise.\<close>

fun after_nil :: "env \<Rightarrow> call list \<Rightarrow> client \<Rightarrow> client option" where
  "after_nil env [] c = Some c"
| "after_nil env (k # ks) c = (case invoke env k c of (Ok _, c') \<Rightarrow> after_nil env ks c' | _ \<Rightarrow> None)"

lemma after_nil_mirrors:
  "fair_env env \<Longrightarrow> mirrors c \<Longrightarrow> after_nil env ks c = Some c' \<Longrightarrow> mirrors c'"
proof (induction ks arbitrary: c)
  case Nil
  then show ?case by simp
next
  case (Cons k ks)
  then obtain d where "invoke env k c = (Ok (), d)" "after_nil env ks d = Some c'"
    by (auto split: prod.splits result.splits)
  with Cons invoke_mirrors [of env c k d] show ?case by blast
qed

text \<open>In terms of the cache.\<close>

lemma slot_claims_iff:
  "(a, k, p) \<in> slot_claims c r slot \<longleftrightarrow> (\<exists>pc cl. getPolicyRuleConjunction c r = Some pc \<and>
     slot_clause slot pc = Some cl \<and> cl_action cl = a \<and> (k, p) \<in> set (cl_matches cl))"
  by (auto simp: slot_claims_def opt_claims_def clause_claims_def bind_eq_Some_conv split: option.splits)

lemma mirrors_entries:
  assumes c: "mirrors c" and x: "ctxs c p = Some x"
  shows "map_of (x_actions x) r = Some a \<longleftrightarrow> (\<exists>pc slot cl. getPolicyRuleConjunction c r = Some pc \<and>
      slot_clause slot pc = Some cl \<and> cl_action cl = a \<and> 1 < ca_nClause a \<and> (ctx_key x, p) \<in> set (cl_matches cl))"
    and "map_of (x_denyAllRules x) r \<noteq> None \<longleftrightarrow> (\<exists>pc slot cl. getPolicyRuleConjunction c r = Some pc \<and>
      slot_clause slot pc = Some cl \<and> \<not> 1 < ca_nClause (cl_action cl) \<and> (ctx_key x, p) \<in> set (cl_matches cl))"
    and "map_of (globalConjMatchFlowCache c) (ctx_key x) = Some p \<longleftrightarrow> \<not> emptied x"
proof -
  have claim: "ca_conjID a = r \<and> (a, k, q) \<in> rule_claims c \<longleftrightarrow> (\<exists>slot. (a, k, q) \<in> slot_claims c r slot)" for a r k q
    using claim_id [OF mirrorsD(1) [OF c]] by (auto simp: in_rule_claims)
  note m = mirrorD [OF mirrorsD(3) [OF c]]
  show "map_of (x_actions x) r = Some a \<longleftrightarrow> (\<exists>pc slot cl. getPolicyRuleConjunction c r = Some pc \<and>
      slot_clause slot pc = Some cl \<and> cl_action cl = a \<and> 1 < ca_nClause a \<and> (ctx_key x, p) \<in> set (cl_matches cl))"
    using m(1) [OF x] claim [of a r] unfolding ctx_mirrors_def slot_claims_iff by blast
  show "map_of (x_denyAllRules x) r \<noteq> None \<longleftrightarrow> (\<exists>pc slot cl. getPolicyRuleConjunction c r = Some pc \<and>
      slot_clause slot pc = Some cl \<and> \<not> 1 < ca_nClause (cl_action cl) \<and> (ctx_key x, p) \<in> set (cl_matches cl))"
  proof -
    have "map_of (x_denyAllRules x) r \<noteq> None \<longleftrightarrow> (\<exists>a. \<not> 1 < ca_nClause a \<and> ca_conjID a = r \<and> (a, ctx_key x, p) \<in> rule_claims c)"
      using m(1) [OF x] unfolding ctx_mirrors_def by blast
    then show ?thesis unfolding claim slot_claims_iff by blast
  qed
  show "map_of (globalConjMatchFlowCache c) (ctx_key x) = Some p \<longleftrightarrow> \<not> emptied x"
    using m(2) [OF x] .
qed

end
