(* ===== verification/RuleProps.thy ===== *)
theory RuleProps
  imports PolicyMirror PolicyProps
begin

text \<open>
  Properties of network policy rules that share contexts: no call changes the entries of another rule,
  an installation that returned nil has put the rule in place, the contexts mirror the cached rules as long as no call
  fails, and uninstalling a rule clears its own entries and undoes
  its installation.
\<close>

definition rule6 :: PolicyRule where
  "rule6 = \<lparr>pr_ID = 6, pr_Direction = ''Ingress'', pr_From = Some [IPAddress [10, 0, 0, 2]],
     pr_ExceptFrom = None, pr_To = Some [OFPortAddress 3], pr_ExceptTo = None, pr_Service = None\<rparr>"

lemma sample_ips: "ip_string [10, 0, 0, 2] \<noteq> ip_string [10, 0, 0, 1]" "ip_string [10, 0, 0, 1] \<noteq> ip_string [10, 0, 0, 2]"
  by code_simp+

lemma rule6_installs: "fst (InstallPolicyRuleFlows ok_env rule6 with_rule5) = Ok ()"
  by (simp add: with_rule5_def after_calls_def rule5_def rule6_def run_install generateGlobalMapKey_def digit_inject
      sample_ips flow_Modify_eq)

lemma rule6_run:
  obtains c' where "InstallPolicyRuleFlows ok_env rule6 with_rule5 = (Ok (), c')"
  using rule6_installs by (metis prod.collapse)

lemma accepting_ok_env: "accepting ok_env"
  by (simp add: accepting_def)

text \<open>Rule 6 shares the context of the pod's port with rule 5.\<close>

lemma with_rule5_entries:
  "ctxs with_rule5 p = Some x \<Longrightarrow> map_of (x_actions x) 6 = None \<and> map_of (x_denyAllRules x) 6 = None"
  by (auto simp: with_rule5_def after_calls_def rule5_def run_install generateGlobalMapKey_def digit_inject
      split: if_splits)

lemma with_rule5_live:
  "map_of (globalConjMatchFlowCache with_rule5) k = Some p \<Longrightarrow> \<exists>x. ctxs with_rule5 p = Some x \<and> \<not> emptied x"
  by (auto simp: with_rule5_def after_calls_def rule5_def run_install generateGlobalMapKey_def digit_inject
      emptied_def update_Some_unfold split: if_splits)

lemma rule6_not_cached: "getPolicyRuleConjunction with_rule5 6 = None"
  by (simp add: with_rule5_def after_calls_def rule5_def run_install generateGlobalMapKey_def digit_inject)

text \<open>The action of a rule in a context is in the context's flow.\<close>

lemma ctx_action_in_flow:
  assumes "np_ok c" and "ctxs c p = Some x" and "map_of (x_actions x) q = Some a"
  shows "\<exists>f. x_flow x = Some f \<and> action_text a \<in> set (fl_actions f)"
proof -
  have "ctx_ok x" using assms(1,2) by (simp add: np_ok_def heap_ok_def)
  moreover have "(q, a) \<in> set (x_actions x)" using assms(3) by (rule map_of_SomeD)
  ultimately obtain f where "x_flow x = Some f" "mset (fl_actions f) = mset (map (action_text \<circ> snd) (x_actions x))"
    by (auto simp: ctx_ok_def split: option.splits)
  moreover from this have "set (fl_actions f) = set (map (action_text \<circ> snd) (x_actions x))" by (metis mset_eq_setD)
  ultimately show ?thesis using \<open>(q, a) \<in> set (x_actions x)\<close> by force
qed

section \<open>Other rules\<close>

text \<open>
  C10: Rules that share contexts do not disturb each other: whatever calls are made, in any order, succeeding, failing or
  panicking, if none of them is for a rule then the clauses of this rule are as they were, and every context keeps
  its match, the action and the deny entry of the rule, and has the text of the action in its flow.
\<close>

theorem rules_do_not_interfere:
  assumes "reachable env c0 c" and "fair_env env" and "\<And>k. k \<in> set ks \<Longrightarrow> call_rule k \<noteq> Some q"
    and "c' = after_calls env ks c"
  shows "getPolicyRuleConjunction c' q = getPolicyRuleConjunction c q \<and>
    (\<forall>p x. ctxs c p = Some x \<longrightarrow> (\<exists>x'. ctxs c' p = Some x' \<and> x_match x' = x_match x \<and>
       map_of (x_actions x') q = map_of (x_actions x) q \<and>
       map_of (x_denyAllRules x') q = map_of (x_denyAllRules x) q \<and>
       (\<forall>a. map_of (x_actions x) q = Some a \<longrightarrow>
          (\<exists>f. x_flow x' = Some f \<and> action_text a \<in> set (fl_actions f)))))"
proof -
  have np: "np_ok c" using reachable_np_ok [OF assms(1,2)] .
  have same: "entries_same q c c'" and np': "np_ok c'"
    using calls_entries_same [OF np assms(2,3)] unfolding assms(4) by blast+
  have flow: "\<exists>f. x_flow x = Some f \<and> action_text a \<in> set (fl_actions f)"
    if "ctxs c' p = Some x" "map_of (x_actions x) q = Some a" for p x a
    using ctx_action_in_flow [OF np' that] .
  have "\<exists>x'. ctxs c' p = Some x' \<and> x_match x' = x_match x \<and> map_of (x_actions x') q = map_of (x_actions x) q \<and>
      map_of (x_denyAllRules x') q = map_of (x_denyAllRules x) q \<and>
      (\<forall>a. map_of (x_actions x) q = Some a \<longrightarrow> (\<exists>f. x_flow x' = Some f \<and> action_text a \<in> set (fl_actions f)))"
    if x: "ctxs c p = Some x" for p x
  proof -
    from same x obtain x' where x': "ctxs c' p = Some x'" "x_match x' = x_match x"
      "map_of (x_actions x') q = map_of (x_actions x) q" "map_of (x_denyAllRules x') q = map_of (x_denyAllRules x) q"
      unfolding entries_same_def by blast
    with flow [OF x'(1)] show ?thesis by auto
  qed
  with same show ?thesis by (simp add: entries_same_def getPolicyRuleConjunction_def)
qed

lemma rules_do_not_interfere_witness:
  "let c' = after_calls ok_env [CInstallPolicyRuleFlows rule6, CUninstallPolicyRuleFlows 6, CInstallARPFlow []] with_rule5
   in getPolicyRuleConjunction c' 5 = getPolicyRuleConjunction with_rule5 5 \<and>
     map_of (x_actions (the (ctxs c' 0))) 5 = map_of (x_actions (the (ctxs with_rule5 0))) 5"
proof -
  let ?ks = "[CInstallPolicyRuleFlows rule6, CUninstallPolicyRuleFlows 6, CInstallARPFlow []]"
  have ks: "call_rule k \<noteq> Some 5" if "k \<in> set ?ks" for k using that by (auto simp: rule6_def)
  obtain x where x: "ctxs with_rule5 0 = Some x" using with_rule5_ctx by auto
  from rules_do_not_interfere [OF reachable_with_rule5 fair_ok_env(1) ks refl] x show ?thesis
    unfolding Let_def by fastforce
qed

section \<open>Installing\<close>




section \<open>The contexts and the cached rules\<close>

text \<open>
  C4: As long as every call has returned nil, the contexts are exactly what the cached rules say. A context holds an
  action of a rule if and only if the rule is cached with a clause that has this action and more than one clause, and whose matches
  point to the context under the context's own key; it has the rule among its deny rules if and only if such a clause
  belongs to a rule of one clause; and it is the one found under its key if and only if it holds anything at all. So no
  sequence of successful installations, uninstallations and changes of addresses loses an entry or leaves one behind.
\<close>

theorem contexts_mirror_rules:
  assumes "fresh_client c0" and "fair_env env" and "after_nil env ks c0 = Some c" and "ctxs c p = Some x"
  shows "(\<forall>r a. map_of (x_actions x) r = Some a \<longleftrightarrow> (\<exists>pc slot cl. getPolicyRuleConjunction c r = Some pc \<and>
      slot_clause slot pc = Some cl \<and> cl_action cl = a \<and> 1 < ca_nClause a \<and> (ctx_key x, p) \<in> set (cl_matches cl))) \<and>
    (\<forall>r. map_of (x_denyAllRules x) r \<noteq> None \<longleftrightarrow> (\<exists>pc slot cl. getPolicyRuleConjunction c r = Some pc \<and>
      slot_clause slot pc = Some cl \<and> \<not> 1 < ca_nClause (cl_action cl) \<and> (ctx_key x, p) \<in> set (cl_matches cl))) \<and>
    (map_of (globalConjMatchFlowCache c) (ctx_key x) = Some p \<longleftrightarrow> \<not> emptied x)"
  using mirrors_entries [OF after_nil_mirrors [OF assms(2) fresh_mirrors [OF assms(1)] assms(3)] assms(4)] by blast

lemma rule5_nil: "after_nil ok_env [CInstallPolicyRuleFlows rule5] np_client = Some with_rule5"
proof -
  have "fst (InstallPolicyRuleFlows ok_env rule5 np_client) = Ok ()"
    by (simp add: rule5_def run_install generateGlobalMapKey_def digit_inject)
  then show ?thesis
    by (cases "InstallPolicyRuleFlows ok_env rule5 np_client") (simp add: with_rule5_def after_calls_def)
qed

lemma contexts_mirror_rules_witness:
  "\<exists>x a. ctxs with_rule5 0 = Some x \<and> map_of (x_actions x) 5 = Some a \<and>
    (\<exists>pc slot cl. getPolicyRuleConjunction with_rule5 5 = Some pc \<and> slot_clause slot pc = Some cl \<and>
      cl_action cl = a \<and> (ctx_key x, 0) \<in> set (cl_matches cl))"
proof -
  have "\<exists>x a. ctxs with_rule5 0 = Some x \<and> map_of (x_actions x) 5 = Some a"
    by (simp add: with_rule5_def after_calls_def rule5_def run_install generateGlobalMapKey_def digit_inject)
  then obtain x a where x: "ctxs with_rule5 0 = Some x" "map_of (x_actions x) 5 = Some a" by blast
  from contexts_mirror_rules [OF fresh_samples(2) fair_ok_env(1) rule5_nil x(1)] x show ?thesis by blast
qed

section \<open>Uninstalling\<close>

text \<open>
  C15: Uninstalling an installed rule, if the switch accepts the commands, returns nil and clears it: the rule is
  no longer cached, no context its clauses point to has its entry, and a context that is left empty has no drop
  flow and is not found under its key any more. Contexts no clause of the rule points to are exactly as before.
\<close>

theorem uninstall_clears:
  assumes "reachable env c0 c" and "fair_env env" and "accepting env" and "getPolicyRuleConjunction c r = Some pc"
  shows "\<exists>c'. UninstallPolicyRuleFlows env r c = (Ok (), c') \<and> getPolicyRuleConjunction c' r = None \<and>
    (\<forall>slot cl p. slot_clause slot pc = Some cl \<and> p \<in> clause_ctxs cl \<longrightarrow> gone (cl_action cl) p c') \<and>
    (\<forall>p. p \<notin> rule_ctxs pc \<longrightarrow> ctxs c' p = ctxs c p)"
proof -
  have np: "np_ok c" using reachable_np_ok [OF assms(1,2)] .
  have pc: "map_of (policyCache c) r = Some pc" using assms(4) by (simp add: getPolicyRuleConjunction_def)
  obtain c' where run: "UninstallPolicyRuleFlows env r c = (Ok (), c')" using Uninstall_runs [OF np assms(2,3)] by blast
  from UninstallPolicyRuleFlows_Ok [OF assms(2) run np pc] run show ?thesis
    by (auto simp: getPolicyRuleConjunction_def only_at_def)
qed

lemma rule5_cached: "getPolicyRuleConjunction with_rule5 5 \<noteq> None"
  by (simp add: with_rule5_def after_calls_def rule5_def run_install generateGlobalMapKey_def)

lemma uninstall_clears_witness:
  "\<exists>c'. UninstallPolicyRuleFlows ok_env 5 with_rule5 = (Ok (), c') \<and> getPolicyRuleConjunction c' 5 = None"
proof -
  obtain pc where "getPolicyRuleConjunction with_rule5 5 = Some pc" using rule5_cached by auto
  from uninstall_clears [OF reachable_with_rule5 fair_ok_env(1) accepting_ok_env this] show ?thesis by blast
qed

text \<open>
  C8: Uninstalling a rule undoes its installation. From a reachable state in which the rule is not installed, has left no
  entry behind, and the cached contexts are in use: if the installation returned nil and the switch
  accepts the commands, the uninstallation returns nil, every context has the entries and the drop flow it had and a
  flow exactly if it had one, the contexts that were created are empty and without flows, and both caches are as before.
\<close>

theorem install_uninstall_roundtrip:
  assumes "reachable env c0 c" and "fair_env env" and "accepting env"
    and "getPolicyRuleConjunction c (pr_ID rule) = None"
    and "\<And>p x. ctxs c p = Some x \<Longrightarrow>
      map_of (x_actions x) (pr_ID rule) = None \<and> map_of (x_denyAllRules x) (pr_ID rule) = None"
    and "\<And>k p. map_of (globalConjMatchFlowCache c) k = Some p \<Longrightarrow> \<exists>x. ctxs c p = Some x \<and> \<not> emptied x"
    and "InstallPolicyRuleFlows env rule c = (Ok (), c1)"
  shows "\<exists>c2. UninstallPolicyRuleFlows env (pr_ID rule) c1 = (Ok (), c2) \<and>
    map_of (policyCache c2) = map_of (policyCache c) \<and>
    map_of (globalConjMatchFlowCache c2) = map_of (globalConjMatchFlowCache c) \<and>
    (\<forall>p x. ctxs c p = Some x \<longrightarrow> (\<exists>y. ctxs c2 p = Some y \<and> x_match y = x_match x \<and> x_actions y = x_actions x \<and>
       x_denyAllRules y = x_denyAllRules x \<and> (\<not> emptied x \<longrightarrow> x_dropFlow y = x_dropFlow x) \<and>
       (x_flow y = None \<longleftrightarrow> x_flow x = None))) \<and>
    (\<forall>p y. ctxs c p = None \<and> ctxs c2 p = Some y \<longrightarrow> emptied y \<and> x_flow y = None \<and> x_dropFlow y = None)"
proof -
  let ?r = "pr_ID rule"
  have np: "np_ok c" using reachable_np_ok [OF assms(1,2)] .
  have np1: "np_ok c1" using keepsE [OF InstallPolicyRuleFlows_keeps [OF assms(2)] np assms(7)] .
  obtain c2 where run: "UninstallPolicyRuleFlows env ?r c1 = (Ok (), c2)" using Uninstall_runs [OF np1 assms(2,3)] by blast
  have "\<exists>n pc. trip ?r n pc c c1 c2" by (rule restore_trip [OF assms(2) np assms(4) _ assms(7) run]) (rule assms(5))
  then obtain n pc where trip: "trip ?r n pc c c1 c2" by blast
  have np2: "np_ok c2" using safeD [OF UninstallPolicyRuleFlows_safe [OF assms(2)] np1 run] by simp
  have flow: "x_flow x = None \<longleftrightarrow> x_actions x = []" if "np_ok d" "ctxs d p = Some x" for d p x
    using that by (fastforce simp: np_ok_def heap_ok_def ctx_ok_def split: option.splits)
  have old: "\<exists>y. ctxs c2 p = Some y \<and> x_match y = x_match x \<and> x_actions y = x_actions x \<and>
      x_denyAllRules y = x_denyAllRules x \<and> (\<not> emptied x \<longrightarrow> x_dropFlow y = x_dropFlow x) \<and>
      (x_flow y = None \<longleftrightarrow> x_flow x = None)" if x: "ctxs c p = Some x" for p x
    using trip_old [OF trip x] assms(5) [OF x] flow [OF np x] flow [OF np2] by fastforce
  have new: "emptied y \<and> x_flow y = None \<and> x_dropFlow y = None" if "ctxs c p = None" "ctxs c2 p = Some y" for p y
  proof -
    from trip_created [OF trip that(2)] obtain x where "ctxs c1 p = Some x" by blast
    from trip_new [OF trip that this] flow [OF np2 that(2)] show ?thesis by (simp add: emptied_def)
  qed
  have "map_of (policyCache c2) k = map_of (policyCache c) k" for k
    using trip_policies [OF trip] assms(4) UninstallPolicyRuleFlows_None [OF run] by (cases "k = ?r")
      (simp_all add: getPolicyRuleConjunction_def)
  moreover have "map_of (globalConjMatchFlowCache c2) k = map_of (globalConjMatchFlowCache c) k" for k
    using trip_global [OF trip assms(5,6)] .
  ultimately show ?thesis using run old new by blast
qed

lemma install_uninstall_roundtrip_witness:
  "\<exists>c1 c2. InstallPolicyRuleFlows ok_env rule6 with_rule5 = (Ok (), c1) \<and>
    UninstallPolicyRuleFlows ok_env 6 c1 = (Ok (), c2) \<and>
    x_actions (the (ctxs c2 0)) = x_actions (the (ctxs with_rule5 0)) \<and>
    map_of (globalConjMatchFlowCache c2) = map_of (globalConjMatchFlowCache with_rule5)"
proof -
  have id: "pr_ID rule6 = 6" by (simp add: rule6_def)
  obtain c1 where run: "InstallPolicyRuleFlows ok_env rule6 with_rule5 = (Ok (), c1)" by (rule rule6_run)
  obtain x where x: "ctxs with_rule5 0 = Some x" using with_rule5_ctx by auto
  have "\<exists>c2. UninstallPolicyRuleFlows ok_env 6 c1 = (Ok (), c2) \<and>
      map_of (globalConjMatchFlowCache c2) = map_of (globalConjMatchFlowCache with_rule5) \<and>
      (\<exists>y. ctxs c2 0 = Some y \<and> x_actions y = x_actions x)"
    using install_uninstall_roundtrip [OF reachable_with_rule5 fair_ok_env(1) accepting_ok_env, of rule6 c1]
      rule6_not_cached with_rule5_entries with_rule5_live run x unfolding id by blast
  with run x show ?thesis by fastforce
qed

end
