(* ===== verification/PolicyTexts.thy ===== *)
theory PolicyTexts
  imports PolicyMirror
begin

text \<open>
  The match texts of the flows of contexts: what they are, that they tell contexts of different keys apart, and
  that no other flow of the program has one of them.
\<close>

section \<open>Matches that come from rules\<close>

text \<open>A network as \<open>net.ParseCIDR\<close> gives it for IPv4.\<close>

definition proper_net :: "ipnet \<Rightarrow> bool" where
  "proper_net n \<longleftrightarrow> length (ipnet_IP n) = 4 \<and> (\<exists>l \<in> {0..32}. ipnet_Mask n = CIDRMask l 32)"

fun proper_address :: "address \<Rightarrow> bool" where
  "proper_address (IPNetAddress n) = proper_net n"
| "proper_address _ = True"

text \<open>The protocol and the field of a match; none for a kind that does not go with the value.\<close>

fun match_fields :: "match_key \<Rightarrow> match_value \<Rightarrow> (string \<times> string) option" where
  "match_fields MatchDstIPKey (MV_IP a) = Some (''ip'', ''nw_dst='' @ ip_string a)"
| "match_fields MatchDstIPNetKey (MV_IPNet n) = Some (''ip'', ''nw_dst='' @ ipnet_string n)"
| "match_fields MatchSrcIPKey (MV_IP a) = Some (''ip'', ''nw_src='' @ ip_string a)"
| "match_fields MatchSrcIPNetKey (MV_IPNet n) = Some (''ip'', ''nw_src='' @ ipnet_string n)"
| "match_fields MatchDstOFPortKey (MV_Int32 p) = Some (''ip'', ''reg1[0..31]='' @ hex0x (unat p))"
| "match_fields MatchSrcOFPortKey (MV_Int32 p) = Some (''ip'', ''in_port='' @ dec (unat p))"
| "match_fields MatchTCPDstPortKey (MV_Uint16 p) = Some (''tcp'', ''tcp_dst='' @ dec (unat p))"
| "match_fields MatchUDPDstPortKey (MV_Uint16 p) = Some (''udp'', ''udp_dst='' @ dec (unat p))"
| "match_fields MatchSCTPDstPortKey (MV_Uint16 p) = Some (''sctp'', ''sct_dst='' @ dec (unat p))"
| "match_fields _ _ = None"

lemma digits_13: "digit 0 = CHR ''0''" "digit 1 = CHR ''1''" "digit (Suc 0) = CHR ''1''" "digit 3 = CHR ''3''"
  by (simp_all add: digit_def)

lemma addFlowMatch_fields:
  assumes "match_fields k v = Some (pr, fd)"
  shows "\<exists>b'. addFlowMatch b k v = Some b' \<and> fl_matchers b' = fl_matchers b @ [pr, fd] \<and> fl_table b' = fl_table b"
  using assms
  by (cases "(k, v)" rule: match_fields.cases)
    (auto simp: match_defs ProtocolIP_def ProtocolTCP_def ProtocolUDP_def ProtocolSCTP_def portCacheReg_def
      ofPortRegRange_def to_lower_def dec_int_def digits_13)

definition match_text :: "table_id \<Rightarrow> conjunctiveMatch \<Rightarrow> string" where
  "match_text t m = (case match_fields (cm_matchKey m) (cm_matchValue m) of
     Some (pr, fd) \<Rightarrow> ''table='' @ dec (unat t) @ '','' @ pr @ '','' @ fd | None \<Rightarrow> [])"

section \<open>Texts of addresses\<close>

lemma fmt_base_chars: "2 \<le> b \<Longrightarrow> b \<le> 16 \<Longrightarrow> c \<in> set (fmt_base b n) \<Longrightarrow> c \<in> set ''0123456789abcdef''"
proof (induction n rule: less_induct)
  case (less n)
  show ?case
  proof (cases "n < b")
    case True
    with less.prems show ?thesis using digit_in [of n] by (simp add: fmt_base_less)
  next
    case False
    then have "fmt_base b n = fmt_base b (n div b) @ [digit (n mod b)]" using less.prems(1) by (subst fmt_base.simps) simp
    with less.prems consider "c \<in> set (fmt_base b (n div b))" | "c = digit (n mod b)" by auto
    then show ?thesis
    proof cases
      case 1
      have "n div b < n" using False less.prems(1) by (intro div_less_dividend) auto
      from less.IH [OF this less.prems(1,2) 1] show ?thesis .
    next
      case 2
      have "n mod b < 16" using less.prems(1,2) by (meson le_less_trans less_le_trans mod_less_divisor zero_less_numeral less_numeral_extra(3) not_less)
      with 2 show ?thesis using digit_in by blast
    qed
  qed
qed

lemma fmt_base_inject:
  assumes "2 \<le> b" "b \<le> 16"
  shows "fmt_base b m = fmt_base b n \<longleftrightarrow> m = n"
proof
  show "fmt_base b m = fmt_base b n \<Longrightarrow> m = n"
  proof (induction m arbitrary: n rule: less_induct)
    case (less m)
    have step: "fmt_base b k = fmt_base b (k div b) @ [digit (k mod b)]" if "\<not> k < b" for k
      using that assms(1) by (subst fmt_base.simps) simp
    have d: "k mod b < 16" for k using assms by (meson le_less_trans less_le_trans mod_less_divisor not_less zero_less_numeral)
    show ?case
    proof (cases "m < b"; cases "n < b")
      assume "m < b" "n < b"
      with less.prems digit_inject [of m n] assms show ?thesis by (simp add: fmt_base_less)
    next
      assume "m < b" "\<not> n < b"
      with less.prems step [of n] have "[] = fmt_base b (n div b)" by (simp add: fmt_base_less)
      then show ?thesis by (metis fmt_base_nonempty)
    next
      assume "\<not> m < b" "n < b"
      with less.prems step [of m] show ?thesis by (simp add: fmt_base_less)
    next
      assume big: "\<not> m < b" "\<not> n < b"
      with less.prems step have eq: "fmt_base b (m div b) = fmt_base b (n div b)" "m mod b = n mod b"
        using digit_inject [OF d [of m] d [of n]] by simp_all
      have "m div b < m" using big assms(1) by (intro div_less_dividend) auto
      from less.IH [OF this eq(1)] eq(2) show ?thesis by (metis div_mult_mod_eq)
    qed
  qed
qed simp

lemma set_join: "set (join sep xs) \<subseteq> set sep \<union> (\<Union>x \<in> set xs. set x)"
  by (induction sep xs rule: join.induct) auto

lemma separator_free:
  assumes sep: "s \<in> {CHR ''/'', CHR '' ''}"
  shows "s \<notin> set (ip_string a)"
proof -
  have no: "s \<notin> set ''0123456789abcdef''" using sep by auto
  have marks: "s \<noteq> CHR ''.''" "s \<noteq> CHR '':''" using sep by auto
  have hex: "s \<notin> set (hex n)" for n using no fmt_base_chars [of 16 s n] by linarith
  have dec: "s \<notin> set (dec n)" for n using no fmt_base_chars [of 10 s n] by linarith
  have join: "s \<notin> set (join sep xs)" if "s \<notin> set sep" "\<And>x. x \<in> set xs \<Longrightarrow> s \<notin> set x" for sep xs
    using set_join [of sep xs] that by blast
  have hex2: "s \<notin> set (hex2 w)" for w
  proof -
    have "unat w div 16 < 16" using unsigned_less [of w, where 'a = nat] by (simp add: less_mult_imp_div_less)
    with digit_in no have "s \<noteq> digit (unat w div 16)" by metis
    moreover have "s \<noteq> digit (unat w mod 16)" using digit_in [of "unat w mod 16"] no by fastforce
    ultimately show ?thesis by (simp add: hex2_def)
  qed
  then have "s \<notin> set (hexString bs)" for bs by (auto simp: hexString_def)
  moreover have "s \<notin> set (dotted b)" for b unfolding dotted_def by (rule join) (auto simp: dec marks)
  moreover have "s \<notin> set (ip6_string b)" for b
  proof -
    have "s \<notin> set (join '':'' (map hex gs))" for gs by (rule join) (auto simp: hex marks)
    then show ?thesis using sep by (auto simp: ip6_string_def Let_def split: prod.split)
  qed
  ultimately show ?thesis using sep by (auto simp: ip_string_def)
qed

lemma split_at_separator:
  assumes "x @ s # y = x' @ s # y'" and "s \<notin> set x" "s \<notin> set x'"
  shows "x = x' \<and> y = y'"
proof -
  let ?p = "\<lambda>c. c \<noteq> s"
  have "takeWhile ?p (z @ s # w) = z" if "s \<notin> set z" for z w
    using that by (induction z) auto
  from this [OF assms(2), of y] this [OF assms(3), of y'] assms(1) have "x = x'" by simp
  with assms(1) show ?thesis by simp
qed

lemma slash_free: "CHR ''/'' \<notin> set (ip_string a)"
  by (rule separator_free) simp

lemma simple_CIDRMask: "\<forall>l \<in> set [0..<33]. simpleMaskLength (CIDRMask l 32) = Some l \<and> length (CIDRMask l 32) = 4"
  by code_simp

lemma proper_net_string:
  assumes "proper_net n"
  shows "\<exists>l \<le> 32. ipnet_Mask n = CIDRMask l 32 \<and> ipnet_string n = ip_string (ipnet_IP n) @ CHR ''/'' # dec l"
proof -
  from assms obtain l where l: "length (ipnet_IP n) = 4" "l \<le> 32" "ipnet_Mask n = CIDRMask l 32"
    by (auto simp: proper_net_def)
  have "l \<in> set [0..<33]" using l(2) by simp
  with simple_CIDRMask have "simpleMaskLength (CIDRMask l 32) = Some l" "length (CIDRMask l 32) = 4" by blast+
  moreover have "ipnet_IP n \<noteq> []" using l(1) by auto
  ultimately show ?thesis using l by (auto simp: ipnet_string_def To4_def Let_def)
qed

lemma proper_net_inject:
  assumes "proper_net n" "proper_net n'" "ipnet_string n = ipnet_string n'"
  shows "value_text (MV_IPNet n) = value_text (MV_IPNet n')"
proof -
  obtain l l' where "ipnet_Mask n = CIDRMask l 32" "ipnet_string n = ip_string (ipnet_IP n) @ CHR ''/'' # dec l"
    "ipnet_Mask n' = CIDRMask l' 32" "ipnet_string n' = ip_string (ipnet_IP n') @ CHR ''/'' # dec l'"
    using proper_net_string assms(1,2) by meson
  with split_at_separator [OF _ slash_free slash_free, of "ipnet_IP n" "dec l" "ipnet_IP n'" "dec l'"] assms(3)
  show ?thesis by simp
qed

lemma net_not_ip: "proper_net n \<Longrightarrow> ip_string a \<noteq> ipnet_string n"
  using proper_net_string [of n] slash_free [of a] by force

section \<open>Texts and keys\<close>

definition good_match :: "conjunctiveMatch \<Rightarrow> bool" where
  "good_match m \<longleftrightarrow> cm_tableID m \<in> {egressRuleTable, ingressRuleTable} \<and>
     match_fields (cm_matchKey m) (cm_matchValue m) \<noteq> None \<and> (\<forall>n. cm_matchValue m = MV_IPNet n \<longrightarrow> proper_net n)"

definition drop_of :: "table_id \<Rightarrow> table_id" where
  "drop_of t = (if t = egressRuleTable then egressDefaultTable else ingressDefaultTable)"

definition policy_tables :: "table_id set" where
  "policy_tables = {egressRuleTable, ingressRuleTable, egressDefaultTable, ingressDefaultTable}"

definition policy_texts :: "string set" where
  "policy_texts = {match_text t m |t m. t \<in> policy_tables \<and> good_match m}"

fun kind_prefix :: "match_key \<Rightarrow> string" where
  "kind_prefix MatchDstIPKey = ''ip,nw_dst=''" | "kind_prefix MatchDstIPNetKey = ''ip,nw_dst=''"
| "kind_prefix MatchSrcIPKey = ''ip,nw_src=''" | "kind_prefix MatchSrcIPNetKey = ''ip,nw_src=''"
| "kind_prefix MatchDstOFPortKey = ''ip,reg1[0..31]=''" | "kind_prefix MatchSrcOFPortKey = ''ip,in_port=''"
| "kind_prefix MatchTCPDstPortKey = ''tcp,tcp_dst=''" | "kind_prefix MatchUDPDstPortKey = ''udp,udp_dst=''"
| "kind_prefix MatchSCTPDstPortKey = ''sctp,sct_dst=''" | "kind_prefix Unsupported = []"

fun field_value :: "match_key \<Rightarrow> match_value \<Rightarrow> string" where
  "field_value k (MV_IP a) = ip_string a"
| "field_value k (MV_IPNet n) = ipnet_string n"
| "field_value k (MV_Int32 p) = (if k = MatchDstOFPortKey then hex0x (unat p) else dec (unat p))"
| "field_value k (MV_Uint16 p) = dec (unat p)"

fun goes_with :: "match_key \<Rightarrow> match_value \<Rightarrow> bool" where
  "goes_with k (MV_IP a) = (k \<in> {MatchDstIPKey, MatchSrcIPKey})"
| "goes_with k (MV_IPNet n) = (k \<in> {MatchDstIPNetKey, MatchSrcIPNetKey})"
| "goes_with k (MV_Int32 p) = (k \<in> {MatchDstOFPortKey, MatchSrcOFPortKey})"
| "goes_with k (MV_Uint16 p) = (k \<in> {MatchTCPDstPortKey, MatchUDPDstPortKey, MatchSCTPDstPortKey})"

lemma field_parts:
  "match_fields k v = Some (pr, fd) \<Longrightarrow> pr @ '','' @ fd = kind_prefix k @ field_value k v \<and> goes_with k v"
  by (cases "(k, v)" rule: match_fields.cases) auto

lemma kind_prefix_inject:
  assumes "k \<noteq> Unsupported" "k' \<noteq> Unsupported" "kind_prefix k @ x = kind_prefix k' @ x'"
  shows "kind_prefix k = kind_prefix k' \<and> x = x'"
  using assms by (cases k; cases k') simp_all

lemma goes_with_supported: "goes_with k v \<Longrightarrow> k \<noteq> Unsupported"
  by (cases v) auto

lemma same_prefix_value:
  assumes "goes_with k v" "goes_with k' v'" "kind_prefix k = kind_prefix k'" "field_value k v = field_value k' v'"
    and "\<And>n. v = MV_IPNet n \<Longrightarrow> proper_net n" "\<And>n. v' = MV_IPNet n \<Longrightarrow> proper_net n"
  shows "k = k' \<and> value_text v = value_text v'"
proof (cases v; cases v')
  fix n n' assume v: "v = MV_IPNet n" "v' = MV_IPNet n'"
  with assms have "value_text v = value_text v'" by (simp only: v, intro proper_net_inject) simp_all
  with assms(1-3) v show ?thesis by auto
next
  fix a n assume "v = MV_IP a" "v' = MV_IPNet n"
  with assms net_not_ip show ?thesis by auto
next
  fix a n assume "v' = MV_IP a" "v = MV_IPNet n"
  with assms net_not_ip [THEN not_sym] show ?thesis by auto
qed (use assms in \<open>auto simp: hex0x_def fmt_base_inject word_unat_eq_iff [symmetric] split: if_splits\<close>)

lemma fields_inject:
  assumes "match_fields k v = Some (pr, fd)" "match_fields k' v' = Some (pr', fd')"
    and "\<And>n. v = MV_IPNet n \<Longrightarrow> proper_net n" "\<And>n. v' = MV_IPNet n \<Longrightarrow> proper_net n"
    and "pr @ '','' @ fd = pr' @ '','' @ fd'"
  shows "k = k' \<and> value_text v = value_text v'"
proof -
  note p = field_parts [OF assms(1)] and p' = field_parts [OF assms(2)]
  with assms(5) have "kind_prefix k @ field_value k v = kind_prefix k' @ field_value k' v'" by simp
  from kind_prefix_inject [OF _ _ this] p p' show ?thesis
    by (intro same_prefix_value) (auto simp: goes_with_supported assms(3,4))
qed

text \<open>A match text tells the table and the key.\<close>

lemma match_text_Some:
  "match_fields (cm_matchKey m) (cm_matchValue m) = Some (pr, fd) \<Longrightarrow>
   match_text t m = ''table='' @ dec (unat t) @ '','' @ pr @ '','' @ fd"
  by (simp add: match_text_def)

lemma match_text_inject:
  assumes "good_match m" "good_match m'" "match_text t m = match_text t' m'"
  shows "t = t' \<and> cm_matchKey m = cm_matchKey m' \<and> value_text (cm_matchValue m) = value_text (cm_matchValue m')"
proof -
  from assms(1,2) obtain pr fd pr' fd' where f: "match_fields (cm_matchKey m) (cm_matchValue m) = Some (pr, fd)"
    and f': "match_fields (cm_matchKey m') (cm_matchValue m') = Some (pr', fd')" by (auto simp: good_match_def)
  have "dec (unat t) @ '','' @ pr @ '','' @ fd = dec (unat t') @ '','' @ pr' @ '','' @ fd'"
    using assms(3) by (simp add: match_text_Some [OF f] match_text_Some [OF f'])
  from dec_append_inject [OF this] have "unat t = unat t'" "pr @ '','' @ fd = pr' @ '','' @ fd'"
    by (simp_all add: is_digit_def)
  moreover from fields_inject [OF f f' _ _ this(2)] assms(1,2)
  have "cm_matchKey m = cm_matchKey m' \<and> value_text (cm_matchValue m) = value_text (cm_matchValue m')"
    by (auto simp: good_match_def)
  ultimately show ?thesis by (simp add: word_unat_eq_iff)
qed

text \<open>And the key tells the text.\<close>

lemma CIDRMask_strings: "distinct (map (\<lambda>l. mask_string (CIDRMask l 32)) [0..<33])"
  by code_simp

lemma mask_string_inject:
  assumes "l \<le> 32" "l' \<le> 32" "mask_string (CIDRMask l 32) = mask_string (CIDRMask l' 32)"
  shows "l = l'"
  using CIDRMask_strings assms by (auto simp: distinct_map dest!: inj_onD)

lemma value_text_net:
  assumes "proper_net n" "proper_net n'" "value_text (MV_IPNet n) = value_text (MV_IPNet n')"
  shows "ipnet_string n = ipnet_string n'"
proof -
  from proper_net_string [OF assms(1)] proper_net_string [OF assms(2)] obtain l l' where
    l: "l \<le> 32" "ipnet_Mask n = CIDRMask l 32" "ipnet_string n = ip_string (ipnet_IP n) @ CHR ''/'' # dec l"
    "l' \<le> 32" "ipnet_Mask n' = CIDRMask l' 32" "ipnet_string n' = ip_string (ipnet_IP n') @ CHR ''/'' # dec l'" by blast
  from assms(3) have "ip_string (ipnet_IP n) @ CHR '' '' # (mask_string (ipnet_Mask n) @ ''}'') =
      ip_string (ipnet_IP n') @ CHR '' '' # (mask_string (ipnet_Mask n') @ ''}'')" by simp
  from split_at_separator [OF this] separator_free [of "CHR '' ''"]
  have "ip_string (ipnet_IP n) = ip_string (ipnet_IP n')" "mask_string (ipnet_Mask n) = mask_string (ipnet_Mask n')" by simp_all
  with mask_string_inject [OF l(1,4)] show ?thesis by (simp add: l)
qed

lemma dec_int_inject: "dec_int i = dec_int j \<Longrightarrow> i = j"
proof -
  have "CHR ''-'' # dec m \<noteq> dec n" for m n
    using dec_is_digit [of "CHR ''-''" n] by (cases "dec n") (auto simp: is_digit_def)
  then show "dec_int i = dec_int j \<Longrightarrow> i = j" by (auto simp: dec_int_def split: if_splits dest: not_sym)
qed

lemma same_value_fields:
  assumes "goes_with k v" "goes_with k v'" "value_text v = value_text v'"
    and "\<And>n. v = MV_IPNet n \<Longrightarrow> proper_net n" "\<And>n. v' = MV_IPNet n \<Longrightarrow> proper_net n"
  shows "match_fields k v = match_fields k v'"
proof (cases v; cases v')
  fix n n' assume v: "v = MV_IPNet n" "v' = MV_IPNet n'"
  with assms have "ipnet_string n = ipnet_string n'" by (simp only: v, intro value_text_net) simp_all
  with v show ?thesis by (cases k) simp_all
next
  fix p p' assume v: "v = MV_Int32 p" "v' = MV_Int32 p'"
  with assms(3) have "dec_int (sint p) = dec_int (sint p')" by simp
  from dec_int_inject [OF this] have "p = p'" by (rule signed_word_eqI)
  with v show ?thesis by simp
next
  fix a a' assume v: "v = MV_IP a" "v' = MV_IP a'"
  with assms(3) show ?thesis by (cases k) simp_all
qed (use assms(1-3) in auto)

lemma match_text_of_key:
  assumes "good_match m" "good_match m'" "generateGlobalMapKey m = generateGlobalMapKey m'"
  shows "match_text t m = match_text t m'"
proof -
  have "goes_with (cm_matchKey m) (cm_matchValue m)" "goes_with (cm_matchKey m') (cm_matchValue m')"
    using assms(1,2) field_parts by (auto simp: good_match_def)
  then have "match_fields (cm_matchKey m) (cm_matchValue m) = match_fields (cm_matchKey m') (cm_matchValue m')"
    using assms same_value_fields [of "cm_matchKey m" "cm_matchValue m" "cm_matchValue m'"]
    by (simp add: global_key_inject good_match_def)
  then show ?thesis by (simp add: match_text_def)
qed

definition ctx_text :: "conjMatchFlowContext \<Rightarrow> string" where
  "ctx_text x = match_text (cm_tableID (x_match x)) (x_match x)"

definition drop_text :: "conjMatchFlowContext \<Rightarrow> string" where
  "drop_text x = match_text (drop_of (cm_tableID (x_match x))) (x_match x)"

lemma ctx_texts:
  assumes "good_match (x_match x)" "good_match (x_match y)"
  shows "ctx_text x = ctx_text y \<Longrightarrow> ctx_key x = ctx_key y" and "drop_text x = drop_text y \<Longrightarrow> ctx_key x = ctx_key y"
    and "ctx_text x \<noteq> drop_text y" and "ctx_text x \<in> policy_texts" "drop_text x \<in> policy_texts"
proof -
  note inj = match_text_inject [OF assms]
  have tabs: "cm_tableID (x_match x) \<in> {egressRuleTable, ingressRuleTable}" "cm_tableID (x_match y) \<in> {egressRuleTable, ingressRuleTable}"
    using assms by (simp_all only: good_match_def)
  have one: "drop_of t = drop_of t' \<Longrightarrow> t = t'" and other: "t \<noteq> drop_of t'"
    if "t \<in> {egressRuleTable, ingressRuleTable}" "t' \<in> {egressRuleTable, ingressRuleTable}"
    for t t' using that by (auto simp: drop_of_def table_ids)
  show "ctx_key x = ctx_key y" if "ctx_text x = ctx_text y"
    using inj [OF that [unfolded ctx_text_def]] unfolding global_key_inject .
  show "ctx_key x = ctx_key y" if "drop_text x = drop_text y"
    using inj [OF that [unfolded drop_text_def]] one [OF tabs] unfolding global_key_inject by blast
  show "ctx_text x \<noteq> drop_text y"
    using inj [of "cm_tableID (x_match x)" "drop_of (cm_tableID (x_match y))"] other [OF tabs]
    unfolding ctx_text_def drop_text_def by blast
  show "ctx_text x \<in> policy_texts" "drop_text x \<in> policy_texts"
    using assms(1) by (auto simp: policy_texts_def policy_tables_def ctx_text_def drop_text_def drop_of_def good_match_def)
qed

end
