(* ===== verification/PolicyForeign.thy ===== *)
theory PolicyForeign
  imports PolicyTexts
begin

text \<open>
  The flows that are not those of contexts: the flows of nodes, pods and gateways, which client.go keeps in its caches,
  and the action and exception flows of rules. None has the match text of a context's flow.
\<close>

section \<open>Foreign flows\<close>

definition foreign :: "flow \<Rightarrow> bool" where
  "foreign f \<longleftrightarrow> MatchString f \<notin> policy_texts"

lemma MatchString_table_prefix: "MatchString f = ''table='' @ dec (unat (GetID (fl_table f))) @
    (if fl_matchers f \<noteq> [] then '','' @ join '','' (fl_matchers f) else [])"
  by (simp add: MatchString_def flow_format_def)

lemma policy_text_parts:
  assumes "MatchString f \<in> policy_texts"
  shows "GetID (fl_table f) \<in> policy_tables"
    and "\<exists>k v. goes_with k v \<and> join '','' (fl_matchers f) = kind_prefix k @ field_value k v"
proof -
  from assms obtain t m where t: "t \<in> policy_tables" and m: "good_match m" and eq: "MatchString f = match_text t m"
    by (auto simp: policy_texts_def)
  from m obtain pr fd where fields: "match_fields (cm_matchKey m) (cm_matchValue m) = Some (pr, fd)"
    by (auto simp: good_match_def)
  let ?r = "if fl_matchers f \<noteq> [] then '','' @ join '','' (fl_matchers f) else []"
  have "dec (unat (GetID (fl_table f))) @ ?r = dec (unat t) @ '','' @ pr @ '','' @ fd"
    using eq by (simp add: MatchString_table_prefix match_text_Some [OF fields])
  from dec_append_inject [OF this] have "unat (GetID (fl_table f)) = unat t" and r: "?r = '','' @ pr @ '','' @ fd"
    by (auto simp: is_digit_def)
  with t show "GetID (fl_table f) \<in> policy_tables" by (simp add: word_unat_eq_iff [symmetric])
  have "join '','' (fl_matchers f) = pr @ '','' @ fd" using r by (cases "fl_matchers f = []") simp_all
  with field_parts [OF fields] show "\<exists>k v. goes_with k v \<and> join '','' (fl_matchers f) = kind_prefix k @ field_value k v"
    by auto
qed

lemma outside_foreign: "GetID (fl_table f) \<notin> policy_tables \<Longrightarrow> foreign f"
  using policy_text_parts(1) by (auto simp: foreign_def)

lemma kind_prefix_not_conj:
  "k \<noteq> Unsupported \<Longrightarrow> ''conj_id='' @ x \<noteq> kind_prefix k @ y" "k \<noteq> Unsupported \<Longrightarrow> ''ip,conj_id='' @ x \<noteq> kind_prefix k @ y"
  by (cases k; simp)+

text \<open>The action and exception flows match a conjunction id.\<close>

lemma matchers_conj_foreign:
  assumes "fl_matchers f = (''conj_id='' @ x) # ms \<or> fl_matchers f = [''ip'', ''conj_id='' @ x]"
  shows "foreign f"
proof (rule ccontr)
  assume "\<not> foreign f"
  then obtain k v where k: "goes_with k v" "join '','' (fl_matchers f) = kind_prefix k @ field_value k v"
    using policy_text_parts(2) unfolding foreign_def by blast
  have "\<exists>y. join '','' (fl_matchers f) = ''conj_id='' @ y \<or> join '','' (fl_matchers f) = ''ip,conj_id='' @ y"
    using assms by (cases ms) auto
  with k kind_prefix_not_conj goes_with_supported show False by metis
qed

lemma those_in: "those xs = Some ys \<Longrightarrow> y \<in> set ys \<Longrightarrow> Some y \<in> set xs"
  by (induction xs arbitrary: ys) (auto split: option.splits)

lemma action_flow_foreign:
  assumes "action_flows c rule rt dt = Some fs" "f \<in> set fs"
  shows "foreign f"
proof -
  have "foreign f" if "conjunctionActionFlow c i t n = Some f" for i t n
    using that by (intro matchers_conj_foreign [of f "dec (unat i)" "[]"])
      (auto simp: conjunctionActionFlow_def flow_at_def match_defs Resubmit_def act_def ProtocolIP_def)
  moreover have "foreign f" if e: "conjunctionExceptionFlow c i t n k v = Some f" for i t n k v
  proof -
    from e obtain tab b where b: "addFlowMatch (chain (BuildFlow tab) [Priority priorityNormal, MatchConjID i]) k v = Some b"
      and f: "f = Done (Resubmit emptyPlaceholderStr n b)"
      by (auto simp: conjunctionExceptionFlow_def bind_eq_Some_conv)
    have "\<exists>ms. fl_matchers b' = fl_matchers b0 @ ms" if "addFlowMatch b0 k v = Some b'" for b0 b'
      using that by (induction b0 k v rule: addFlowMatch.induct) (auto simp: match_defs)
    from this [OF b] obtain ms where "fl_matchers f = (''conj_id='' @ dec (unat i)) # ms"
      by (auto simp: f match_defs Resubmit_def act_def)
    then show ?thesis by (intro matchers_conj_foreign [of f "dec (unat i)" ms]) simp
  qed
  ultimately show ?thesis
    using assms those_in by (fastforce simp: action_flows_def except_flows_def bind_eq_Some_conv split: option.splits)
qed

text \<open>The flows of client.go are in other tables.\<close>

lemma builder_tables:
  "fl_table (MatchProtocol pr b) = fl_table b" "fl_table (Priority w b) = fl_table b" "fl_table (MatchInPort w b) = fl_table b"
  "fl_table (MatchDstIP a b) = fl_table b" "fl_table (MatchDstIPNet n b) = fl_table b" "fl_table (MatchSrcIP a b) = fl_table b"
  "fl_table (MatchDstMAC m b) = fl_table b" "fl_table (MatchSrcMAC m b) = fl_table b" "fl_table (MatchARPOp op b) = fl_table b"
  "fl_table (MatchARPSha m b) = fl_table b" "fl_table (MatchARPSpa a b) = fl_table b" "fl_table (MatchARPTpa a b) = fl_table b"
  "fl_table (MatchTPSrc q b) = fl_table b" "fl_table (act x b) = fl_table b" "fl_table (Done b) = fl_table b"
  by (simp_all add: match_defs act_def)

lemma flow_at_foreign:
  assumes "flow_at c k ms = Some f" and "wf_pipeline c" and "k \<notin> policy_tables"
    and "\<And>t. fl_table (chain (BuildFlow t) (ms t)) = t"
  shows "foreign f"
proof -
  from assms(1) obtain t where t: "table_at c k = Some t" and f: "f = Done (chain (BuildFlow t) (ms t))"
    by (auto simp: flow_at_def)
  have "GetID (fl_table f) = k" using wf_pipelineD [OF assms(2) t] by (simp add: f builder_tables assms(4))
  with assms(3) show ?thesis by (simp add: outside_foreign)
qed

lemma not_policy_tables:
  "classifierTable \<notin> policy_tables" "spoofGuardTable \<notin> policy_tables" "arpResponderTable \<notin> policy_tables"
  "dnatTable \<notin> policy_tables" "l3ForwardingTable \<notin> policy_tables" "l2ForwardingCalcTable \<notin> policy_tables"
  "allFlowTable \<notin> policy_tables" "clusterFowardTable \<notin> policy_tables" "coreDnsSNATTTable \<notin> policy_tables"
  by (simp_all add: policy_tables_def table_ids)

lemma client_flows_foreign:
  assumes "wf_pipeline c"
  shows "arpResponderFlow c a = Some f \<Longrightarrow> foreign f" "l3FwdFlowToRemote c m n a = Some f \<Longrightarrow> foreign f"
    "ipTunFlowWithoutInPort c n a = Some f \<Longrightarrow> foreign f" "ipTunFlowMatchIP c a p a' = Some f \<Longrightarrow> foreign f"
    "localIPFlowWithIPnet c n = Some f \<Longrightarrow> foreign f" "localIPFlowWithIP c a = Some f \<Longrightarrow> foreign f"
    "classifierTableFlowWithInPort c p = Some f \<Longrightarrow> foreign f" "coreDnsSNATTFlowWithInPort c p a = Some f \<Longrightarrow> foreign f"
    "podClassifierFlow c p = Some f \<Longrightarrow> foreign f" "podIPSpoofGuardFlow c a m p = Some f \<Longrightarrow> foreign f"
    "arpSpoofGuardFlow c a m p = Some f \<Longrightarrow> foreign f" "l2ForwardCalcFlow c m p = Some f \<Longrightarrow> foreign f"
    "l3FlowsToPod c m a m' = Some f \<Longrightarrow> foreign f" "serviceCIDRDNATFlow c n p = Some f \<Longrightarrow> foreign f"
    "gatewayClassifierFlow c p = Some f \<Longrightarrow> foreign f" "gatewayIPSpoofGuardFlow c p = Some f \<Longrightarrow> foreign f"
    "gatewayARPSpoofGuardFlow c p = Some f \<Longrightarrow> foreign f" "l3ToGatewayFlow c a m = Some f \<Longrightarrow> foreign f"
    "tunnelClassifierFlow c p = Some f \<Longrightarrow> foreign f" "arpNormalFlow c = Some f \<Longrightarrow> foreign f"
    "classifierDefaultFlow c = Some f \<Longrightarrow> foreign f" "coreDNSSNATDefaultFlow c = Some f \<Longrightarrow> foreign f"
    "clusterForwardDefaultFlow c = Some f \<Longrightarrow> foreign f"
  unfolding arpResponderFlow_def l3FwdFlowToRemote_def ipTunFlowWithoutInPort_def ipTunFlowMatchIP_def
    localIPFlowWithIPnet_def localIPFlowWithIP_def classifierTableFlowWithInPort_def coreDnsSNATTFlowWithInPort_def
    podClassifierFlow_def podIPSpoofGuardFlow_def arpSpoofGuardFlow_def l2ForwardCalcFlow_def l3FlowsToPod_def
    serviceCIDRDNATFlow_def gatewayClassifierFlow_def gatewayIPSpoofGuardFlow_def gatewayARPSpoofGuardFlow_def
    l3ToGatewayFlow_def tunnelClassifierFlow_def arpNormalFlow_def classifierDefaultFlow_def coreDNSSNATDefaultFlow_def
    clusterForwardDefaultFlow_def
  by (erule flow_at_foreign [OF _ assms]; simp add: not_policy_tables action_defs match_defs)+

lemma arpFlow_foreign:
  assumes "wf_pipeline c" and "arpFlow c as = Some (f, g)"
  shows "foreign f \<and> foreign g"
proof -
  from assms(2) obtain t where t: "table_at c clusterFowardTable = Some t"
    and fg: "f = Done (chain (BuildFlow t) ([Priority priorityNormal, MatchProtocol ProtocolARP, MatchARPOp 1] @
        concat (map (\<lambda>a. [SetTunnelDst a, Normal]) as)))"
      "g = Done (chain (BuildFlow t) ([Priority priorityNormal, MatchProtocol ProtocolARP, MatchARPOp 2] @
        concat (map (\<lambda>a. [SetTunnelDst a, Normal]) as)))"
    by (auto simp: arpFlow_def Let_def)
  have "fl_table (chain b (concat (map (\<lambda>a. [SetTunnelDst a, Normal]) as))) = fl_table b" for b
    by (induction as arbitrary: b) (simp_all add: action_defs)
  moreover have "GetID t \<notin> policy_tables" using wf_pipelineD [OF assms(1) t] not_policy_tables by simp
  ultimately show ?thesis unfolding fg by (simp add: outside_foreign match_defs)
qed

section \<open>What client.go leaves of them\<close>

text \<open>The switch as far as match texts of contexts go.\<close>

definition policy_view :: "client \<Rightarrow> string \<Rightarrow> flow option" where
  "policy_view c s = (if s \<in> policy_texts then on_switch c s else None)"

definition caches_foreign :: "client \<Rightarrow> bool" where
  "caches_foreign c \<longleftrightarrow> (\<forall>cat key fc k f. map_of (caches c cat) key = Some fc \<longrightarrow> (k, f) \<in> set fc \<longrightarrow> foreign f)"

definition untouched :: "client \<Rightarrow> client \<Rightarrow> bool" where
  "untouched c0 c \<longleftrightarrow> policy_view c = policy_view c0 \<and> pipeline c = pipeline c0 \<and> policyCache c = policyCache c0 \<and>
     ctxs c = ctxs c0 \<and> globalConjMatchFlowCache c = globalConjMatchFlowCache c0 \<and> next_ctx c = next_ctx c0 \<and>
     wf_pipeline c0 \<and> caches_foreign c"

lemma policy_view_hist:
  "hist c' = (OfctlAdd f, b) # hist c \<Longrightarrow> foreign f \<Longrightarrow> policy_view c' = policy_view c"
  "hist c' = (OfctlMod f, b) # hist c \<Longrightarrow> foreign f \<Longrightarrow> policy_view c' = policy_view c"
  "hist c' = (OfctlDel f, b) # hist c \<Longrightarrow> foreign f \<Longrightarrow> policy_view c' = policy_view c"
  "hist c' = (OfctlShow x, b) # hist c \<Longrightarrow> policy_view c' = policy_view c"
  by (auto simp: policy_view_def fun_eq_iff foreign_def)

lemma caches_foreign_more: "caches c' = caches c \<Longrightarrow> caches_foreign c' = caches_foreign c"
  by (simp add: caches_foreign_def)

lemma untouched_wf: "untouched c0 c \<Longrightarrow> wf_pipeline c"
  by (simp add: untouched_def wf_pipeline_def)

lemma untouched_step:
  assumes "untouched c0 c" and "policy_view c' = policy_view c" and "switch.more c' = switch.more c"
  shows "untouched c0 c'"
  using assms client_more [OF assms(3)] caches_foreign_more [of c' c] by (simp add: untouched_def)

lemma flow_op_hist:
  "\<exists>b. hist (snd (flow_Add env f c)) = (OfctlAdd f, b) # hist c"
  "\<exists>b. hist (snd (flow_Modify env f c)) = (OfctlMod f, b) # hist c"
  "\<exists>b. hist (snd (flow_Delete env f c)) = (OfctlDel f, b) # hist c"
  by (auto simp: flow_op_eqs)

lemma untouched_flow_ops:
  assumes "foreign f"
  shows "keeps (untouched c0) (client_Add env f)" "keeps (untouched c0) (client_Delete env f)"
    "keeps (untouched c0) (flow_Add env f)" "keeps (untouched c0) (flow_Delete env f)"
proof -
  have "untouched c0 (snd (flow_Add env f c)) \<and> untouched c0 (snd (flow_Delete env f c))" if c: "untouched c0 c" for c
  proof
    obtain r c1 where 1: "flow_Add env f c = (r, c1)" by (cases "flow_Add env f c")
    with flow_op_hist(1) [of env f c] obtain b where "hist c1 = (OfctlAdd f, b) # hist c" by auto
    from untouched_step [OF c policy_view_hist(1) [OF this assms] flow_op_more(1) [OF 1]] 1
    show "untouched c0 (snd (flow_Add env f c))" by simp
    obtain r c2 where 2: "flow_Delete env f c = (r, c2)" by (cases "flow_Delete env f c")
    with flow_op_hist(3) [of env f c] obtain b where "hist c2 = (OfctlDel f, b) # hist c" by auto
    from untouched_step [OF c policy_view_hist(3) [OF this assms] flow_op_more(3) [OF 2]] 2
    show "untouched c0 (snd (flow_Delete env f c))" by simp
  qed
  then show "keeps (untouched c0) (flow_Add env f)" "keeps (untouched c0) (flow_Delete env f)" by (simp_all add: keeps_def)
  then show "keeps (untouched c0) (client_Add env f)" "keeps (untouched c0) (client_Delete env f)"
    by (simp_all add: client_Add_def client_Delete_def)
qed

lemma untouched_show: "keeps (untouched c0) (run env (OfctlShow b))"
proof (rule keepsI)
  fix c assume "untouched c0 c"
  then show "untouched c0 (snd (run env (OfctlShow b) c))"
    by (rule untouched_step) (simp_all add: run_eq policy_view_def fun_eq_iff)
qed

lemma caches_foreign_set:
  assumes "caches_foreign c" and "\<And>k f. (k, f) \<in> set fc \<Longrightarrow> foreign f"
  shows "caches_foreign (set_flows cat key fc c)"
  using assms by (auto simp: caches_foreign_def set_flows_def split: if_splits)

lemma untouched_caches:
  assumes "untouched c0 c" and "caches_foreign (c\<lparr>caches := x\<rparr>)"
  shows "untouched c0 (c\<lparr>caches := x\<rparr>)"
proof -
  have "policy_view (c\<lparr>caches := x\<rparr>) = policy_view c" by (simp add: policy_view_def fun_eq_iff)
  with assms show ?thesis by (simp add: untouched_def)
qed

lemma untouched_set:
  assumes "untouched c0 c" and "\<And>k f. (k, f) \<in> set fc \<Longrightarrow> foreign f"
  shows "untouched c0 (set_flows cat key fc c)"
  using untouched_caches [OF assms(1)] caches_foreign_set [of c fc cat key] assms
  by (simp add: set_flows_def untouched_def)

lemma flows_in_foreign: "untouched c0 c \<Longrightarrow> (k, f) \<in> set (flows_in c cat key) \<Longrightarrow> foreign f"
  unfolding untouched_def caches_foreign_def flows_in_def by (auto split: option.splits) metis

lemma untouched_drop: "untouched c0 c \<Longrightarrow> untouched c0 (drop_key cat key c)"
  unfolding drop_key_def
  by (rule untouched_caches) (auto simp: untouched_def caches_foreign_def delete_conv' split: if_splits)

lemma untouched_addMissingFlows:
  assumes "\<And>f. f \<in> set fs \<Longrightarrow> foreign f"
  shows "keeps (untouched c0) (addMissingFlows (client_Add env) cat key fs)"
proof -
  have "keeps (untouched c0) (modify (load_or_store cat key))"
    by (rule keepsI) (auto simp: modify_eval load_or_store_def intro: untouched_set)
  moreover have "keeps (untouched c0)
      (modify (\<lambda>c. set_flows cat key (AList.update (MatchString f) f (flows_in c cat key)) c))" if "foreign f" for f
    using that flows_in_foreign
    by (intro keepsI) (auto simp: modify_eval intro!: untouched_set dest!: in_set_update)
  ultimately show ?thesis
    unfolding addMissingFlows_def add_missing_def using assms by (intro go_keeps untouched_flow_ops) auto
qed

lemma untouched_deleteFlows:
  assumes fair: "fair_env env"
  shows "keeps (untouched c0) (deleteFlows env (client_Delete env) cat key)"
proof (rule keepsI)
  fix c assume c: "untouched c0 c"
  show "untouched c0 (snd (deleteFlows env (client_Delete env) cat key c))"
  proof (cases "map_of (caches c cat) key")
    case None
    with c show ?thesis by (simp add: deleteFlows_def)
  next
    case (Some fc)
    have "keeps (untouched c0) (delete_one (client_Delete env) cat key e)" if "e \<in> set (go_range env c fc)" for e
    proof -
      obtain k f where e: "e = (k, f)" by (cases e)
      have "foreign f"
        using that c Some unfolding e set_go_range [OF fair] untouched_def caches_foreign_def by blast
      moreover have "keeps (untouched c0) (modify (\<lambda>c. set_flows cat key (AList.delete k (flows_in c cat key)) c))"
        using flows_in_foreign by (intro keepsI) (auto simp: modify_eval intro!: untouched_set dest!: in_set_delete)
      ultimately show ?thesis unfolding delete_one_def e prod.case by (intro go_keeps untouched_flow_ops)
    qed
    then have "keeps (untouched c0) (gfor (go_range env c fc) (delete_one (client_Delete env) cat key))"
      by (intro go_keeps)
    from keepsD [OF this c] Some show ?thesis
      by (auto simp: deleteFlows_def go_eval untouched_drop split: prod.split)
  qed
qed

text \<open>Every method of client.go.\<close>

lemma untouched_with_flows:
  assumes "\<And>c. untouched c0 c \<Longrightarrow> \<forall>x \<in> set (mk c). \<forall>f. x = Some f \<longrightarrow> foreign f"
    and "\<And>fs. (\<And>f. f \<in> set fs \<Longrightarrow> foreign f) \<Longrightarrow> keeps (untouched c0) (k fs)"
  shows "keeps (untouched c0) (with_flows (\<lambda>c. those (mk c)) k)"
proof (rule keepsI)
  fix c assume c: "untouched c0 c"
  show "untouched c0 (snd (with_flows (\<lambda>c. those (mk c)) k c))"
  proof (cases "those (mk c)")
    case None
    with c show ?thesis by (simp add: with_flows_def go_eval)
  next
    case (Some fs)
    have "keeps (untouched c0) (k fs)" using assms(1) [OF c] those_in [OF Some] by (intro assms(2)) blast
    with c Some show ?thesis by (simp add: with_flows_def go_eval keeps_def)
  qed
qed

lemma untouched_add_flow:
  assumes "\<And>c f. untouched c0 c \<Longrightarrow> mk c = Some f \<Longrightarrow> foreign f"
  shows "keeps (untouched c0) (add_flow env mk)"
proof (rule keepsI)
  fix c assume c: "untouched c0 c"
  show "untouched c0 (snd (add_flow env mk c))"
    using c assms [OF c] untouched_flow_ops(1) [of _ c0 env]
    by (cases "mk c") (auto simp: add_flow_def go_eval keeps_def)
qed

lemma untouched_Initialize: "keeps (untouched c0) (Initialize env)"
proof -
  have loop: "keeps (untouched c0) (connect_loop env nm m n)" for nm m n
    by (induction n) (auto intro!: go_keeps untouched_show)
  have connect: "keeps (untouched c0) (\<lambda>c. Connect env (bridge_of c) n c)" for n
    by (rule keepsI) (simp add: Connect_def keepsD [OF loop])
  show ?thesis unfolding Initialize_def add_or_wrap_def
    by (intro go_keeps untouched_add_flow connect) (erule client_flows_foreign [OF untouched_wf], assumption)+
qed

lemmas own_flow = client_flows_foreign [OF untouched_wf]

lemma untouched_installs:
  "keeps (untouched c0) (InstallNodeFlows env h m g n t)" "keeps (untouched c0) (InstallCorednsFlow env p i a)"
  "keeps (untouched c0) (InstallPodFlows env i a m m' p)" "keeps (untouched c0) (InstallClusterServiceCIDRFlows env n p)"
  "keeps (untouched c0) (InstallGatewayFlows env a m p)" "keeps (untouched c0) (InstallTunnelFlows env p)"
proof -
  show "keeps (untouched c0) (InstallNodeFlows env h m g n t)" unfolding InstallNodeFlows_def
    by (intro untouched_with_flows untouched_addMissingFlows) (auto intro: own_flow(1,2))
  show "keeps (untouched c0) (InstallCorednsFlow env p i a)" unfolding InstallCorednsFlow_def
    by (intro untouched_with_flows untouched_addMissingFlows) (auto intro: own_flow(7,8))
  show "keeps (untouched c0) (InstallPodFlows env i a m m' p)" unfolding InstallPodFlows_def
    by (intro untouched_with_flows untouched_addMissingFlows) (auto intro: own_flow(9-13))
  show "keeps (untouched c0) (InstallClusterServiceCIDRFlows env n p)" unfolding InstallClusterServiceCIDRFlows_def
    by (rule untouched_add_flow) (rule own_flow(14))
  show "keeps (untouched c0) (InstallGatewayFlows env a m p)" unfolding InstallGatewayFlows_def
    by (intro go_keeps untouched_add_flow) (auto intro: own_flow(12,15-18))
  show "keeps (untouched c0) (InstallTunnelFlows env p)" unfolding InstallTunnelFlows_def
    by (intro go_keeps untouched_add_flow) (auto intro: own_flow(12,19))
qed

lemma untouched_parsed:
  "keeps (untouched c0) (InstallTunFlow env d p a)" "keeps (untouched c0) (InstallLocalIPFlow env nn l)"
  unfolding InstallTunFlow_def InstallLocalIPFlow_def
  by (intro go_keeps untouched_with_flows untouched_addMissingFlows;
      auto intro: own_flow(3-6) split: sum.splits)+

lemma untouched_InstallARPFlow: "keeps (untouched c0) (InstallARPFlow env ds)"
proof (rule keepsI)
  fix c assume c: "untouched c0 c"
  show "untouched c0 (snd (InstallARPFlow env ds c))"
  proof (cases "arpFlow c (map ParseIP ds)")
    case None
    with c show ?thesis by (simp add: InstallARPFlow_def go_eval)
  next
    case (Some fg)
    obtain f g where fg: "fg = (f, g)" by (cases fg)
    have "foreign f \<and> foreign g" using arpFlow_foreign [OF untouched_wf [OF c]] Some fg by blast
    then have "keeps (untouched c0) (gseq (addMissingFlows (client_Add env) GeneralCache ArpRequest [f])
        (addMissingFlows (client_Add env) GeneralCache ArpResponse [g]))"
      by (intro go_keeps untouched_addMissingFlows) auto
    from keepsD [OF this c] Some fg show ?thesis
      by (simp add: InstallARPFlow_def gbind_eval [of "gets _"] gets_eval deref_def)
  qed
qed

lemma client_call_untouched:
  assumes "fair_env env" and "call_rule k = None"
  shows "keeps (untouched c0) (invoke env k)"
proof -
  have "keeps (untouched c0) Disconnect"
    unfolding Disconnect_def bridge_Disconnect_def by (intro go_keeps)
  with assms show ?thesis
    by (cases k) (simp_all add: untouched_Initialize untouched_installs untouched_parsed untouched_InstallARPFlow
        UninstallNodeFlows_def UninstallTunFlow_def UninstallCorednsFlow_def UninstallPodFlows_def untouched_deleteFlows)
qed

end
