(* ===== verification/PolicySwitch.thy ===== *)
theory PolicySwitch
  imports PolicyForeign
begin

text \<open>
  The switch as a picture of the contexts: of the flows with the match text of a context it has exactly those that
  the contexts record, as long as every call has returned nil.
\<close>

section \<open>The picture\<close>

definition has_flow :: "conjMatchFlowContext \<Rightarrow> bool" where
  "has_flow x \<longleftrightarrow> x_flow x \<noteq> None \<or> x_dropFlow x \<noteq> None"

definition flows_named :: "conjMatchFlowContext \<Rightarrow> bool" where
  "flows_named x \<longleftrightarrow> good_match (x_match x) \<and> (\<forall>f. x_flow x = Some f \<longrightarrow> MatchString f = ctx_text x) \<and>
     (\<forall>f. x_dropFlow x = Some f \<longrightarrow> MatchString f = drop_text x)"

definition on_top :: "client \<Rightarrow> ctx_ptr \<Rightarrow> conjMatchFlowContext \<Rightarrow> bool" where
  "on_top c p x \<longleftrightarrow> map_of (globalConjMatchFlowCache c) (ctx_key x) = Some p"

definition switched :: "client \<Rightarrow> bool" where
  "switched c \<longleftrightarrow> wf_pipeline c \<and>
     (\<forall>p x. ctxs c p = Some x \<longrightarrow> flows_named x \<and>
        (\<forall>f. x_flow x = Some f \<longrightarrow> policy_view c (ctx_text x) = Some f) \<and>
        (\<forall>f. x_dropFlow x = Some f \<longrightarrow> policy_view c (drop_text x) = Some f) \<and>
        (has_flow x \<longrightarrow> on_top c p x)) \<and>
     (\<forall>s f. policy_view c s = Some f \<longrightarrow> (\<exists>p x. ctxs c p = Some x \<and>
        (s = ctx_text x \<and> x_flow x = Some f \<or> s = drop_text x \<and> x_dropFlow x = Some f)))"

lemma switchedD:
  assumes "switched c"
  shows "wf_pipeline c" and "ctxs c p = Some x \<Longrightarrow> flows_named x"
    and "ctxs c p = Some x \<Longrightarrow> x_flow x = Some f \<Longrightarrow> policy_view c (ctx_text x) = Some f"
    and "ctxs c p = Some x \<Longrightarrow> x_dropFlow x = Some f \<Longrightarrow> policy_view c (drop_text x) = Some f"
    and "ctxs c p = Some x \<Longrightarrow> has_flow x \<Longrightarrow> on_top c p x"
    and "policy_view c s = Some f \<Longrightarrow> \<exists>p x. ctxs c p = Some x \<and>
        (s = ctx_text x \<and> x_flow x = Some f \<or> s = drop_text x \<and> x_dropFlow x = Some f)"
  using assms unfolding switched_def by blast+

lemma text_simps [simp]:
  "ctx_text (x\<lparr>x_flow := f\<rparr>) = ctx_text x" "ctx_text (x\<lparr>x_dropFlow := f\<rparr>) = ctx_text x"
  "ctx_text (x\<lparr>x_actions := a\<rparr>) = ctx_text x" "ctx_text (x\<lparr>x_denyAllRules := d\<rparr>) = ctx_text x"
  "drop_text (x\<lparr>x_flow := f\<rparr>) = drop_text x" "drop_text (x\<lparr>x_dropFlow := f\<rparr>) = drop_text x"
  "drop_text (x\<lparr>x_actions := a\<rparr>) = drop_text x" "drop_text (x\<lparr>x_denyAllRules := d\<rparr>) = drop_text x"
  by (simp_all add: ctx_text_def drop_text_def)

lemma text_match: "x_match x = x_match y \<Longrightarrow> ctx_text x = ctx_text y" "x_match x = x_match y \<Longrightarrow> drop_text x = drop_text y"
  by (simp_all add: ctx_text_def drop_text_def)

text \<open>The texts of a key no context with flows has are not on the switch; those of a context on top are its own.\<close>

lemma view_free:
  assumes c: "switched c" and y: "good_match (x_match y)"
    and free: "\<And>q z. ctxs c q = Some z \<Longrightarrow> ctx_key z = ctx_key y \<Longrightarrow> \<not> has_flow z"
  shows "policy_view c (ctx_text y) = None" and "policy_view c (drop_text y) = None"
proof -
  have False if "policy_view c s = Some f" and s: "s = ctx_text y \<or> s = drop_text y" for s f
  proof -
    from switchedD(6) [OF c that(1)] obtain q z where z: "ctxs c q = Some z"
      "s = ctx_text z \<and> x_flow z = Some f \<or> s = drop_text z \<and> x_dropFlow z = Some f" by blast
    then have "has_flow z" by (auto simp: has_flow_def)
    moreover have g: "good_match (x_match z)" using switchedD(2) [OF c z(1)] by (simp add: flows_named_def)
    have "ctx_key z = ctx_key y"
      using s z(2) ctx_texts(1,2) [OF g y] ctx_texts(3) [OF g y] ctx_texts(3) [OF y g] by metis
    ultimately show False using free [OF z(1)] by blast
  qed
  note no = this
  show "policy_view c (ctx_text y) = None" using no [of "ctx_text y"] by (cases "policy_view c (ctx_text y)") auto
  show "policy_view c (drop_text y) = None" using no [of "drop_text y"] by (cases "policy_view c (drop_text y)") auto
qed

lemma only_top:
  assumes c: "switched c" and x: "on_top c p x" and z: "ctxs c q = Some z" "q \<noteq> p" "ctx_key z = ctx_key x"
  shows "\<not> has_flow z"
  using switchedD(5) [OF c z(1)] x z(2,3) by (auto simp: on_top_def)

lemma view_own:
  assumes c: "switched c" and x: "ctxs c p = Some x" and top: "on_top c p x"
  shows "policy_view c (ctx_text x) = x_flow x" and "policy_view c (drop_text x) = x_dropFlow x"
proof -
  have g: "good_match (x_match x)" using switchedD(2) [OF c x] by (simp add: flows_named_def)
  have "x_flow x = Some f" if "policy_view c (ctx_text x) = Some f" for f
  proof -
    from switchedD(6) [OF c that] obtain q z where z: "ctxs c q = Some z"
      "ctx_text x = ctx_text z \<and> x_flow z = Some f \<or> ctx_text x = drop_text z \<and> x_dropFlow z = Some f" by blast
    have gz: "good_match (x_match z)" using switchedD(2) [OF c z(1)] by (simp add: flows_named_def)
    from z(2) ctx_texts(3) [OF g gz] have t: "ctx_text z = ctx_text x" "x_flow z = Some f" by auto
    then have "has_flow z" by (simp add: has_flow_def)
    with only_top [OF c top z(1)] ctx_texts(1) [OF gz g t(1)] have "q = p" by blast
    with z(1) x t(2) show ?thesis by simp
  qed
  with switchedD(3) [OF c x] show "policy_view c (ctx_text x) = x_flow x" by (metis option.exhaust)
  have "x_dropFlow x = Some f" if "policy_view c (drop_text x) = Some f" for f
  proof -
    from switchedD(6) [OF c that] obtain q z where z: "ctxs c q = Some z"
      "drop_text x = ctx_text z \<and> x_flow z = Some f \<or> drop_text x = drop_text z \<and> x_dropFlow z = Some f" by blast
    have gz: "good_match (x_match z)" using switchedD(2) [OF c z(1)] by (simp add: flows_named_def)
    from z(2) ctx_texts(3) [OF gz g] have t: "drop_text z = drop_text x" "x_dropFlow z = Some f" by auto
    then have "has_flow z" by (simp add: has_flow_def)
    with only_top [OF c top z(1)] ctx_texts(2) [OF gz g t(1)] have "q = p" by blast
    with z(1) x t(2) show ?thesis by simp
  qed
  with switchedD(4) [OF c x] show "policy_view c (drop_text x) = x_dropFlow x" by (metis option.exhaust)
qed

text \<open>A context is created or changed, and its two texts are set to what it records.\<close>

lemma switched_update:
  assumes c: "switched c" and y: "flows_named y" and ctxs: "ctxs c' = (ctxs c)(p \<mapsto> y)"
    and old: "\<And>x. ctxs c p = Some x \<Longrightarrow> x_match x = x_match y"
    and view: "policy_view c' = (policy_view c)(ctx_text y := x_flow y, drop_text y := x_dropFlow y)"
    and wf: "wf_pipeline c'" and top: "has_flow y \<Longrightarrow> on_top c' p y"
    and others: "\<And>q z. q \<noteq> p \<Longrightarrow> ctxs c q = Some z \<Longrightarrow> has_flow z \<Longrightarrow> on_top c' q z \<and> ctx_key z \<noteq> ctx_key y"
  shows "switched c'"
proof -
  have gy: "good_match (x_match y)" using y by (simp add: flows_named_def)
  have dif: "ctx_text y \<noteq> drop_text y" using ctx_texts(3) [OF gy gy] .
  have elsewhere: "policy_view c' s = policy_view c s" if "q \<noteq> p" "ctxs c q = Some z" "has_flow z" "s = ctx_text z \<or> s = drop_text z"
    for q z s
  proof -
    have g: "good_match (x_match z)" using switchedD(2) [OF c that(2)] by (simp add: flows_named_def)
    have "s \<noteq> ctx_text y" "s \<noteq> drop_text y"
      using that(4) others [OF that(1-3)] ctx_texts(1,2) [OF g gy] ctx_texts(3) [OF g gy] ctx_texts(3) [OF gy g] by metis+
    then show ?thesis by (simp add: view)
  qed
  have ctx: "flows_named z \<and> (\<forall>f. x_flow z = Some f \<longrightarrow> policy_view c' (ctx_text z) = Some f) \<and>
      (\<forall>f. x_dropFlow z = Some f \<longrightarrow> policy_view c' (drop_text z) = Some f) \<and> (has_flow z \<longrightarrow> on_top c' q z)"
    if z: "ctxs c' q = Some z" for q z
  proof (cases "q = p")
    case True
    with z have "z = y" by (simp add: ctxs)
    with y top True dif show ?thesis by (simp add: view)
  next
    case False
    with z have z: "ctxs c q = Some z" by (simp add: ctxs)
    note e = elsewhere [OF False z] and d = switchedD(2-4) [OF c z]
    show ?thesis
    proof (cases "has_flow z")
      case True
      with e d others [OF False z] show ?thesis by auto
    next
      case False
      with d(1) show ?thesis by (auto simp: has_flow_def)
    qed
  qed
  have recorded: "\<exists>q z. ctxs c' q = Some z \<and> (s = ctx_text z \<and> x_flow z = Some f \<or> s = drop_text z \<and> x_dropFlow z = Some f)"
    if s: "policy_view c' s = Some f" for s f
  proof (cases "s = ctx_text y \<or> s = drop_text y")
    case True
    with s dif have "s = ctx_text y \<and> x_flow y = Some f \<or> s = drop_text y \<and> x_dropFlow y = Some f"
      by (auto simp: view)
    then show ?thesis by (auto simp: ctxs intro!: exI [of _ p])
  next
    case False
    with s have "policy_view c s = Some f" by (simp add: view)
    from switchedD(6) [OF c this] obtain q z where z: "ctxs c q = Some z"
      "s = ctx_text z \<and> x_flow z = Some f \<or> s = drop_text z \<and> x_dropFlow z = Some f" by blast
    have "q \<noteq> p" using z False text_match [OF old, of z] by auto
    with z show ?thesis by (auto simp: ctxs)
  qed
  from wf ctx recorded show ?thesis unfolding switched_def by blast
qed

section \<open>The flows of a context\<close>

lemma MatchString_conjunctions:
  "MatchString (chain b (map (\<lambda>a. Conjunction (ca_conjID a) (ca_clauseID a) (ca_nClause a)) acts)) = MatchString b"
  by (induction acts arbitrary: b) simp_all

lemma MatchString_fields:
  assumes "match_fields k v = Some (pr, fd)" and "addFlowMatch (chain (BuildFlow t) [Priority n]) k v = Some b"
  shows "MatchString b = ''table='' @ dec (unat (GetID t)) @ '','' @ pr @ '','' @ fd"
  using addFlowMatch_fields [OF assms(1), of "chain (BuildFlow t) [Priority n]"] assms(2)
  by (auto simp: MatchString_def flow_format_def BuildFlow_def Priority_def)

lemma built_texts:
  assumes "wf_pipeline c" and "good_match m"
  shows "conjunctiveMatchFlow c t (cm_matchKey m) (cm_matchValue m) acts = Some f \<Longrightarrow> MatchString f = match_text t m"
    and "defaultDropFlow c t (cm_matchKey m) (cm_matchValue m) = Some f \<Longrightarrow> MatchString f = match_text t m"
proof -
  from assms(2) obtain pr fd where fields: "match_fields (cm_matchKey m) (cm_matchValue m) = Some (pr, fd)"
    by (auto simp: good_match_def)
  have nm: "MatchString b = match_text t m"
    if "table_at c t = Some u" "addFlowMatch (chain (BuildFlow u) [Priority n]) (cm_matchKey m) (cm_matchValue m) = Some b" for u b n
    using MatchString_fields [OF fields that(2)] wf_pipelineD [OF assms(1) that(1)] by (simp add: match_text_Some [OF fields])
  show "conjunctiveMatchFlow c t (cm_matchKey m) (cm_matchValue m) acts = Some f \<Longrightarrow> MatchString f = match_text t m"
    using nm by (auto simp: conjunctiveMatchFlow_def bind_eq_Some_conv MatchString_conjunctions)
  show "defaultDropFlow c t (cm_matchKey m) (cm_matchValue m) = Some f \<Longrightarrow> MatchString f = match_text t m"
    using nm by (auto simp: defaultDropFlow_def bind_eq_Some_conv Drop_def)
qed

lemma view_ops:
  assumes "MatchString f = s" and "s \<in> policy_texts"
  shows "flow_Add env f c = (Ok u, c') \<Longrightarrow> policy_view c' = (policy_view c)(s := Some f)"
    and "flow_Delete env f c = (Ok u, c') \<Longrightarrow> policy_view c' = (policy_view c)(s := None)"
    and "flow_Modify env f c = (Ok u, c') \<Longrightarrow> policy_view c s \<noteq> None \<Longrightarrow> policy_view c' = (policy_view c)(s := Some f)"
  using assms by (auto simp: flow_op_eqs policy_view_def fun_eq_iff split: if_splits)

lemma policy_view_set [simp]:
  "policy_view (set_ctx p x c) = policy_view c" "policy_view (c\<lparr>globalConjMatchFlowCache := g\<rparr>) = policy_view c"
  "policy_view (c\<lparr>policyCache := ps\<rparr>) = policy_view c" "policy_view (c\<lparr>ctxs := xs\<rparr>) = policy_view c"
  "policy_view (c\<lparr>next_ctx := n\<rparr>) = policy_view c"
  by (simp_all add: policy_view_def fun_eq_iff set_ctx_def)

lemma installOrUpdateFlow_view:
  assumes c: "switched c" and x: "ctxs c p = Some x" and top: "on_top c p x"
    and run: "installOrUpdateFlow env p acts c = (Ok (), c')"
  obtains fl c1 where "switch.more c1 = switch.more c" "c' = set_ctx p (x\<lparr>x_flow := fl\<rparr>) c1"
    "policy_view c1 = (policy_view c)(ctx_text x := fl)" "\<And>f. fl = Some f \<Longrightarrow> MatchString f = ctx_text x"
proof -
  have named: "flows_named x" using switchedD(2) [OF c x] .
  then have g: "good_match (x_match x)" by (simp add: flows_named_def)
  have s: "ctx_text x \<in> policy_texts" using ctx_texts(4) [OF g g] .
  show thesis
  proof (cases "x_flow x")
    case None
    show thesis
    proof (cases "acts = []")
      case True
      with run None x have "c' = set_ctx p (x\<lparr>x_flow := x_flow x\<rparr>) c"
        by (simp add: installOrUpdateFlow_def go_eval get_ctx_Some ctx_own_flow set_ctx_same)
      with that [of c None] None view_own(1) [OF c x top] show thesis by (auto simp: fun_eq_iff)
    next
      case False
      with run None x obtain f c1 where f: "conjunctiveMatchFlow c (cm_tableID (x_match x)) (cm_matchKey (x_match x))
          (cm_matchValue (x_match x)) acts = Some f" and add: "flow_Add env f c = (Ok (), c1)"
        and c': "modify_ctx p (\<lambda>x. x\<lparr>x_flow := Some f\<rparr>) c1 = (Ok (), c')"
        by (auto simp: installOrUpdateFlow_def gbind_Ok_iff gets_eval get_ctx_Some deref_def ret_eval panic_eval split: option.splits)
      have nm: "MatchString f = ctx_text x" using built_texts(1) [OF switchedD(1) [OF c] g f] by (simp add: ctx_text_def)
      have x1: "ctxs c1 p = Some x" using client_more(6) [OF flow_op_more(1) [OF add]] x by simp
      show thesis
        by (rule that [of c1 "Some f"])
          (use c' x1 nm flow_op_more(1) [OF add] view_ops(1) [OF nm s add] in \<open>auto simp: modify_ctx_Some\<close>)
    qed
  next
    case (Some f0)
    let ?f = "Done (conj_builder (CopyToBuilder f0) acts)"
    from run Some x obtain c1 where md: "flow_Modify env ?f c = (Ok (), c1)"
      and c': "modify_ctx p (\<lambda>x. x\<lparr>x_flow := Some ?f\<rparr>) c1 = (Ok (), c')"
      by (auto simp: installOrUpdateFlow_def gbind_Ok_iff gets_eval get_ctx_Some Let_def)
    have nm: "MatchString ?f = ctx_text x"
      using named Some by (simp add: conj_builder_def MatchString_conjunctions flows_named_def)
    have x1: "ctxs c1 p = Some x" using client_more(6) [OF flow_op_more(2) [OF md]] x by simp
    have there: "policy_view c (ctx_text x) \<noteq> None" using switchedD(3) [OF c x Some] by simp
    show thesis
      by (rule that [of c1 "Some ?f"])
        (use c' x1 nm flow_op_more(2) [OF md] view_ops(3) [OF nm s md there] in \<open>auto simp: modify_ctx_Some\<close>)
  qed
qed

lemma switched_step:
  assumes c: "switched c" and x: "ctxs c p = Some x" and top: "on_top c p x"
    and more: "switch.more c1 = switch.more c" and y: "x_match y = x_match x"
    and view: "policy_view c1 = (policy_view c)(ctx_text x := x_flow y, drop_text x := x_dropFlow y)"
    and names: "\<And>f. x_flow y = Some f \<Longrightarrow> MatchString f = ctx_text x" "\<And>f. x_dropFlow y = Some f \<Longrightarrow> MatchString f = drop_text x"
  shows "switched (set_ctx p y c1) \<and> on_top (set_ctx p y c1) p y"
proof -
  note m = client_more [OF more]
  have t: "ctx_text y = ctx_text x" "drop_text y = drop_text x" using text_match [OF y] by simp_all
  have top': "on_top (set_ctx p y c1) p y" using top y by (simp add: on_top_def m)
  have "switched (set_ctx p y c1)"
  proof (rule switched_update [OF c])
    show "flows_named y" using switchedD(2) [OF c x] names t y by (simp add: flows_named_def)
    show "wf_pipeline (set_ctx p y c1)" using switchedD(1) [OF c] by (simp add: wf_pipeline_def m)
    show "on_top (set_ctx p y c1) q z \<and> ctx_key z \<noteq> ctx_key y" if "q \<noteq> p" "ctxs c q = Some z" "has_flow z" for q z
      using only_top [OF c top that(2,1)] that(3) switchedD(5) [OF c that(2,3)] y by (auto simp: on_top_def m)
  qed (use x y view t top' in \<open>auto simp: m\<close>)
  with top' show ?thesis by blast
qed

text \<open>Entering, leaving, and dropping an emptied context.\<close>

lemma own_drop: "switched c \<Longrightarrow> ctxs c p = Some x \<Longrightarrow> on_top c p x \<Longrightarrow>
  (policy_view c)(ctx_text x := fl, drop_text x := x_dropFlow x) = (policy_view c)(ctx_text x := fl)"
  using ctx_texts(3) [of x x] switchedD(2) [of c p x] view_own(2) [of c p x]
  by (simp add: fun_upd_idem_iff flows_named_def)

lemma switched_flow:
  assumes c: "switched c" and x: "ctxs c p = Some x" and top: "on_top c p x"
    and more: "switch.more c1 = switch.more c" and y: "x_match y = x_match x" "x_dropFlow y = x_dropFlow x" "x_flow y = fl"
    and view: "policy_view c1 = (policy_view c)(ctx_text x := fl)" and nm: "\<And>f. fl = Some f \<Longrightarrow> MatchString f = ctx_text x"
  shows "switched (set_ctx p y c1) \<and> on_top (set_ctx p y c1) p y"
  using switchedD(2) [OF c x] own_drop [OF c x top, of fl] y view nm
  by (intro switched_step [OF c x top more]) (simp_all add: flows_named_def)

lemma switched_same_flow:
  assumes c: "switched c" and x: "ctxs c p = Some x" and top: "on_top c p x"
    and y: "x_match y = x_match x" "x_dropFlow y = x_dropFlow x" "x_flow y = x_flow x"
  shows "switched (set_ctx p y c) \<and> on_top (set_ctx p y c) p y"
proof -
  have "policy_view c = (policy_view c)(ctx_text x := x_flow x)" using view_own(1) [OF c x top] by (simp add: fun_eq_iff)
  with switched_flow [OF c x top refl y] switchedD(2) [OF c x] show ?thesis by (simp add: flows_named_def)
qed

lemma switched_actions:
  assumes c: "switched c" and x: "ctxs c p = Some x" and top: "on_top c p x"
    and run: "gseq (installOrUpdateFlow env p acts) (modify_ctx p (\<lambda>x. x\<lparr>x_actions := g (x_actions x)\<rparr>)) c = (Ok (), c')"
  shows "switched c' \<and> (\<exists>y. ctxs c' p = Some y \<and> on_top c' p y)"
proof -
  from run obtain c2 where 1: "installOrUpdateFlow env p acts c = (Ok (), c2)"
    and 2: "modify_ctx p (\<lambda>x. x\<lparr>x_actions := g (x_actions x)\<rparr>) c2 = (Ok (), c')" by (auto simp: gbind_Ok_iff)
  from installOrUpdateFlow_view [OF c x top 1] obtain fl c1 where io: "switch.more c1 = switch.more c"
    "c2 = set_ctx p (x\<lparr>x_flow := fl\<rparr>) c1" "policy_view c1 = (policy_view c)(ctx_text x := fl)"
    "\<And>f. fl = Some f \<Longrightarrow> MatchString f = ctx_text x" by metis
  let ?y = "x\<lparr>x_flow := fl, x_actions := g (x_actions x)\<rparr>"
  have "c' = set_ctx p ?y c1" using 2 by (simp add: io(2) modify_ctx_Some)
  with switched_flow [OF c x top io(1) _ _ _ io(3,4), of ?y] show ?thesis by simp
qed

lemma enter_switched:
  assumes c: "switched c" and x: "ctxs c p = Some x" and top: "on_top c p x"
    and run: "(if 1 < ca_nClause a then addAction env p a else addDenyAllRule p (ca_conjID a)) c = (Ok (), c')"
  shows "switched c'"
proof (cases "1 < ca_nClause a")
  case False
  with run x have "c' = set_ctx p (x\<lparr>x_denyAllRules := AList.update (ca_conjID a) True (x_denyAllRules x)\<rparr>) c"
    by (simp add: addDenyAllRule_def modify_ctx_Some)
  with switched_same_flow [OF c x top] show ?thesis by simp
next
  case True
  show ?thesis
  proof (cases "map_of (x_actions x) (ca_conjID a)")
    case (Some b)
    with run x True c show ?thesis by (simp add: addAction_def go_eval get_ctx_Some)
  next
    case None
    with run x True have "gseq (installOrUpdateFlow env p (ranged_actions env x c @ [a]))
        (modify_ctx p (\<lambda>x. x\<lparr>x_actions := AList.update (ca_conjID a) a (x_actions x)\<rparr>)) c = (Ok (), c')"
      by (auto simp: addAction_def gbind_Ok_iff get_ctx_Some gets_eval)
    from switched_actions [OF c x top this] show ?thesis by blast
  qed
qed

lemma leave_switched:
  assumes c: "switched c" and x: "ctxs c p = Some x" and top: "on_top c p x"
    and run: "leave_ctx env a p c = (Ok (), c')"
  shows "switched c' \<and> (\<exists>y. ctxs c' p = Some y \<and> on_top c' p y)"
proof (cases "1 < ca_nClause a")
  case False
  have "c' = (if map_of (x_denyAllRules x) (ca_conjID a) \<noteq> None
      then set_ctx p (x\<lparr>x_denyAllRules := AList.delete (ca_conjID a) (x_denyAllRules x)\<rparr>) c else c)"
    using run x False by (auto simp: leave_ctx_def go_eval get_ctx_Some modify_ctx_Some split: if_splits)
  with c x top switched_same_flow [OF c x top, of "x\<lparr>x_denyAllRules := AList.delete (ca_conjID a) (x_denyAllRules x)\<rparr>"]
  show ?thesis by (auto simp: on_top_def)
next
  case True
  show ?thesis
  proof (cases "map_of (x_actions x) (ca_conjID a)")
    case None
    with run x True c top show ?thesis by (auto simp: leave_ctx_def go_eval get_ctx_Some)
  next
    case (Some b)
    with run x True have del: "deleteAction env p (ca_conjID a) c = (Ok (), c')"
      by (simp add: leave_ctx_def go_eval get_ctx_Some)
    let ?g = "AList.delete (ca_conjID a)"
    show ?thesis
    proof (cases "length (x_actions x) = 1 \<and> x_flow x \<noteq> None")
      case False
      then have "gseq (installOrUpdateFlow env p (filter (\<lambda>act. ca_conjID act \<noteq> ca_conjID a) (ranged_actions env x c)))
          (modify_ctx p (\<lambda>x. x\<lparr>x_actions := ?g (x_actions x)\<rparr>)) c = (Ok (), c')"
        using del by (auto simp: deleteAction_def get_ctx_Some [OF x] gbind_eval [of "get_ctx p"] gbind_eval [of "gets _"] gets_eval gbind_assoc)
      from switched_actions [OF c x top this] show ?thesis .
    next
      case True
      then obtain f where f: "x_flow x = Some f" by blast
      with del True x obtain c1 where 1: "flow_Delete env f c = (Ok (), c1)"
        and 2: "gseq (modify_ctx p (\<lambda>x. x\<lparr>x_flow := None\<rparr>)) (modify_ctx p (\<lambda>x. x\<lparr>x_actions := ?g (x_actions x)\<rparr>)) c1 = (Ok (), c')"
        by (auto simp: deleteAction_def gbind_Ok_iff get_ctx_Some gets_eval)
      note more = flow_op_more(3) [OF 1]
      have g: "good_match (x_match x)" and nm: "MatchString f = ctx_text x"
        using switchedD(2) [OF c x] f by (simp_all add: flows_named_def)
      let ?y = "x\<lparr>x_flow := None, x_actions := ?g (x_actions x)\<rparr>"
      have "c' = set_ctx p ?y c1" using 2 client_more(6) [OF more] x by (simp add: gbind_eval modify_ctx_Some)
      with switched_flow [OF c x top more _ _ _ view_ops(2) [OF nm ctx_texts(4) [OF g g] 1], of ?y] show ?thesis by simp
    qed
  qed
qed

lemma switched_global:
  assumes c: "switched c" and "\<And>q z. ctxs c q = Some z \<Longrightarrow> has_flow z \<Longrightarrow> map_of g (ctx_key z) = Some q"
  shows "switched (c\<lparr>globalConjMatchFlowCache := g\<rparr>)"
  unfolding switched_def using switchedD [OF c] assms(2) by (auto simp: on_top_def wf_pipeline_def)

lemma drop_switched:
  assumes c: "switched c" and ok: "heap_ok c" and x: "ctxs c p = Some x" and top: "on_top c p x"
    and run: "drop_empty_ctx env p c = (Ok (), c')"
  shows "switched c'"
proof (cases "emptied x")
  case False
  with run x c show ?thesis by (auto simp: drop_empty_ctx_def go_eval get_ctx_Some emptied_def)
next
  case True
  have "ctx_ok x" using ok x by (simp add: heap_ok_def)
  with True have flow: "x_flow x = None" by (auto simp: ctx_ok_def emptied_def split: option.splits)
  have "\<exists>c1. switched c1 \<and> on_top c1 p (x\<lparr>x_dropFlow := None\<rparr>) \<and> ctxs c1 p = Some (x\<lparr>x_dropFlow := None\<rparr>) \<and>
    c' = c1\<lparr>globalConjMatchFlowCache := AList.delete (ctx_key x) (globalConjMatchFlowCache c1)\<rparr>"
  proof (cases "x_dropFlow x")
    case None
    then have same: "x\<lparr>x_dropFlow := None\<rparr> = x" by (cases x) simp
    show ?thesis unfolding same using run x True None c top
      by (intro exI [of _ c]) (auto simp: drop_empty_ctx_def go_eval get_ctx_Some emptied_def)
  next
    case (Some f)
    with run x True obtain c1 where 1: "flow_Delete env f c = (Ok (), c1)"
      and 2: "gseq (modify_ctx p (\<lambda>x. x\<lparr>x_dropFlow := None\<rparr>)) (modify (\<lambda>c. c\<lparr>globalConjMatchFlowCache :=
        AList.delete (ctx_key x) (globalConjMatchFlowCache c)\<rparr>)) c1 = (Ok (), c')"
      by (auto simp: drop_empty_ctx_def gbind_Ok_iff get_ctx_Some emptied_def)
    have "ctxs c1 p = Some x" using client_more(6) [OF flow_op_more(3) [OF 1]] x by simp
    with 2 have c': "c' = (set_ctx p (x\<lparr>x_dropFlow := None\<rparr>) c1)\<lparr>globalConjMatchFlowCache :=
        AList.delete (ctx_key x) (globalConjMatchFlowCache c1)\<rparr>"
      by (simp add: gbind_eval modify_ctx_Some modify_eval)
    note more = flow_op_more(3) [OF 1]
    have g: "good_match (x_match x)" and nm: "MatchString f = drop_text x"
      using switchedD(2) [OF c x] Some by (simp_all add: flows_named_def)
    have "policy_view c1 = (policy_view c)(drop_text x := None)" using view_ops(2) [OF nm ctx_texts(5) [OF g g] 1] .
    also have "\<dots> = (policy_view c)(ctx_text x := None, drop_text x := None)"
      using view_own(1) [OF c x top] flow by (simp add: fun_eq_iff)
    finally have "switched (set_ctx p (x\<lparr>x_dropFlow := None\<rparr>) c1) \<and> on_top (set_ctx p (x\<lparr>x_dropFlow := None\<rparr>) c1) p (x\<lparr>x_dropFlow := None\<rparr>)"
      using flow by (intro switched_step [OF c x top more]) simp_all
    with c' show ?thesis by (intro exI [of _ "set_ctx p (x\<lparr>x_dropFlow := None\<rparr>) c1"]) simp
  qed
  then obtain c1 where c1: "switched c1" "on_top c1 p (x\<lparr>x_dropFlow := None\<rparr>)" "ctxs c1 p = Some (x\<lparr>x_dropFlow := None\<rparr>)"
    and c': "c' = c1\<lparr>globalConjMatchFlowCache := AList.delete (ctx_key x) (globalConjMatchFlowCache c1)\<rparr>" by blast
  have "map_of (AList.delete (ctx_key x) (globalConjMatchFlowCache c1)) (ctx_key z) = Some q"
    if z: "ctxs c1 q = Some z" "has_flow z" for q z
  proof -
    have "q \<noteq> p" using z c1(3) flow by (auto simp: has_flow_def)
    with only_top [OF c1(1,2) z(1)] z(2) have "ctx_key z \<noteq> ctx_key x" by auto
    with switchedD(5) [OF c1(1) z] show ?thesis by (simp add: on_top_def)
  qed
  with switched_global [OF c1(1)] show ?thesis unfolding c' by blast
qed

lemma found_switched:
  assumes c: "switched c" and ok: "heap_ok c" and g: "good_match m"
    and dt: "\<And>t. dt = Some t \<Longrightarrow> GetID t = drop_of (cm_tableID m)"
    and run: "find_or_create_ctx env dt m c = (Ok p, c')"
  shows "switched c' \<and> (\<exists>x. ctxs c' p = Some x \<and> on_top c' p x)"
proof (cases "map_of (globalConjMatchFlowCache c) (generateGlobalMapKey m)")
  case (Some q)
  with run have "q = p" "c' = c" by (simp_all add: find_or_create_ctx_def Let_def go_eval)
  moreover from ok Some obtain x where "ctxs c q = Some x" "ctx_key x = generateGlobalMapKey m"
    by (auto simp: heap_ok_def dest: points_to_Some)
  ultimately show ?thesis using c Some by (auto simp: on_top_def)
next
  case None
  let ?x = "\<lambda>df. \<lparr>x_match = m, x_actions = [], x_denyAllRules = [], x_flow = None, x_dropFlow = df\<rparr>"
  from None run obtain df c1 where 1: "install_drop env dt m c = (Ok df, c1)" and p: "p = next_ctx c1"
    and c': "c' = c1\<lparr>ctxs := (ctxs c1)(p \<mapsto> ?x df), next_ctx := Suc p,
      globalConjMatchFlowCache := AList.update (generateGlobalMapKey m) p (globalConjMatchFlowCache c1)\<rparr>"
    by (auto simp: find_or_create_ctx_def alloc_ctx_def Let_def gbind_Ok_iff gets_eval ret_eval modify_eval)
  note more = client_more [OF install_drop_more [OF 1]]
  have new: "ctxs c p = None" using ok p more unfolding heap_ok_def by (metis less_irrefl not_None_eq)
  have free: "\<not> has_flow z" if "ctxs c q = Some z" "ctx_key z = generateGlobalMapKey m" for q z
    using switchedD(5) [OF c that(1)] that(2) None by (auto simp: on_top_def)
  have none: "policy_view c (ctx_text (?x df)) = None" "policy_view c (drop_text (?x df)) = None"
    by (rule view_free [OF c]; use g free in simp)+
  have s: "drop_text (?x df) \<in> policy_texts" using ctx_texts(5) [of "?x df" "?x df"] g by simp
  have "(\<forall>f. df = Some f \<longrightarrow> MatchString f = drop_text (?x df)) \<and> policy_view c1 = (policy_view c)(drop_text (?x df) := df)"
  proof (cases dt)
    case None
    with 1 have "df = None" "c1 = c" by (simp_all add: install_drop_def ret_eval)
    with none(2) show ?thesis by (auto simp: fun_eq_iff)
  next
    case (Some t)
    with 1 obtain f where f: "defaultDropFlow c (GetID t) (cm_matchKey m) (cm_matchValue m) = Some f"
      and add: "flow_Add env f c = (Ok (), c1)" and df: "df = Some f"
      by (auto simp: install_drop_def gbind_Ok_iff gets_eval deref_def ret_eval panic_eval split: option.splits)
    have nm: "MatchString f = drop_text (?x df)"
      using built_texts(2) [OF switchedD(1) [OF c] g f] dt [OF Some] by (simp add: drop_text_def)
    with view_ops(1) [OF nm s add] df show ?thesis by simp
  qed
  then have nm: "\<And>f. df = Some f \<Longrightarrow> MatchString f = drop_text (?x df)"
    and view: "policy_view c1 = (policy_view c)(drop_text (?x df) := df)" by blast+
  have top: "on_top c' p (?x df)" by (simp add: c' on_top_def)
  have "switched c'"
  proof (rule switched_update [OF c, of "?x df"])
    show "flows_named (?x df)" using g nm by (simp add: flows_named_def)
    show "ctxs c' = (ctxs c)(p \<mapsto> ?x df)" by (simp add: c' more)
    show "policy_view c' = (policy_view c)(ctx_text (?x df) := x_flow (?x df), drop_text (?x df) := x_dropFlow (?x df))"
      using none(1) view by (auto simp: c' fun_eq_iff)
    show "wf_pipeline c'" using switchedD(1) [OF c] by (simp add: c' wf_pipeline_def more)
    show "on_top c' q z \<and> ctx_key z \<noteq> ctx_key (?x df)" if "q \<noteq> p" "ctxs c q = Some z" "has_flow z" for q z
      using free [OF that(2)] that(3) switchedD(5) [OF c that(2,3)] by (auto simp: on_top_def c' more)
  qed (use new top in simp_all)
  with top show ?thesis by (auto simp: c')
qed

section \<open>Drop flows\<close>

text \<open>The matches of the pods a rule applies to: what they send in egress rules, what they receive in ingress rules.\<close>

definition guards :: "table_id \<Rightarrow> clause_slot \<Rightarrow> bool" where
  "guards t slot \<longleftrightarrow> t = egressRuleTable \<and> slot = FromClause \<or> t = ingressRuleTable \<and> slot = ToClause"

definition guarded :: "conjunctiveMatch \<Rightarrow> bool" where
  "guarded m \<longleftrightarrow> (\<exists>slot. key_slot (cm_matchKey m) = Some slot \<and> guards (cm_tableID m) slot)"

definition drop_right :: "conjMatchFlowContext \<Rightarrow> bool" where
  "drop_right x \<longleftrightarrow> (x_dropFlow x \<noteq> None \<longleftrightarrow> guarded (x_match x)) \<and> (\<forall>f. x_dropFlow x = Some f \<longrightarrow> fl_actions f = [''drop''])"

definition guards_ok :: "client \<Rightarrow> bool" where
  "guards_ok c \<longleftrightarrow> (\<forall>p x. ctxs c p = Some x \<longrightarrow> on_top c p x \<longrightarrow> drop_right x)"

lemma guards_okD: "guards_ok c \<Longrightarrow> ctxs c p = Some x \<Longrightarrow> on_top c p x \<Longrightarrow> drop_right x"
  by (simp add: guards_ok_def)

lemma drop_right_cong: "x_dropFlow y = x_dropFlow x \<Longrightarrow> x_match y = x_match x \<Longrightarrow> drop_right y = drop_right x"
  by (simp add: drop_right_def)

text \<open>A step that sets one context, with the drop flow its match asks for while it is on top.\<close>

lemma guards_ok_set:
  assumes c: "guards_ok c" and ctxs: "ctxs c' = (ctxs c)(p \<mapsto> y)"
    and own: "on_top c' p y \<Longrightarrow> drop_right y"
    and others: "\<And>q z. q \<noteq> p \<Longrightarrow> ctxs c q = Some z \<Longrightarrow> on_top c' q z \<Longrightarrow> on_top c q z"
  shows "guards_ok c'"
  unfolding guards_ok_def
proof (intro allI impI)
  fix q z assume z: "ctxs c' q = Some z" and top: "on_top c' q z"
  show "drop_right z"
  proof (cases "q = p")
    case True
    with z top own show ?thesis by (simp add: ctxs)
  next
    case False
    with z have "ctxs c q = Some z" by (simp add: ctxs)
    from guards_okD [OF c this others [OF False this top]] show ?thesis .
  qed
qed

lemma add_guards:
  assumes c: "guards_ok c" and ok: "heap_ok c" and dt: "dt \<noteq> None \<longleftrightarrow> guarded m"
    and find: "find_or_create_ctx env dt m c = (Ok p, c1)"
    and enter: "(if 1 < ca_nClause a then addAction env p a else addDenyAllRule p (ca_conjID a)) c1 = (Ok (), c2)"
  shows "guards_ok c2"
proof -
  have "guards_ok c1 \<and> ctxs c1 p \<noteq> None"
    using find refl
  proof (cases rule: find_or_create_Ok)
    case found
    with c ok show ?thesis by (auto simp: heap_ok_def dest: points_to_Some)
  next
    case (created df)
    have "on_top c q z" if "q \<noteq> p" "on_top c1 q z" for q z
      using that by (auto simp: on_top_def created(4) split: if_splits)
    with guards_ok_set [OF c created(3)] created(5,6) dt show ?thesis by (simp add: created(3) drop_right_def)
  qed
  then obtain x where c1: "guards_ok c1" and x: "ctxs c1 p = Some x" by blast
  from enter_Ok [OF x enter] obtain fl d where d: "switch.more d = switch.more c1"
    and c2: "c2 = set_ctx p ((enter_entry a x)\<lparr>x_flow := fl\<rparr>) d" by blast
  note dm = client_more [OF d]
  have drop: "drop_right ((enter_entry a x)\<lparr>x_flow := fl\<rparr>) = drop_right x" by (rule drop_right_cong) (simp_all add: enter_entry_def)
  show ?thesis
  proof (rule guards_ok_set [OF c1, of _ p])
    show "ctxs c2 = (ctxs c1)(p \<mapsto> (enter_entry a x)\<lparr>x_flow := fl\<rparr>)" by (simp add: c2 dm)
  qed (use guards_okD [OF c1 x] in \<open>simp_all add: on_top_def c2 dm drop\<close>)
qed

lemma delete_guards:
  assumes c: "guards_ok c" and p: "map_of (cl_matches cl) k = Some p" and x: "ctxs c p = Some x"
    and run: "deleteConjunctiveMatchFlow env k (c, cl) = (Ok (), (c', cl'))"
  shows "guards_ok c'"
proof -
  let ?y = "leave_entry (cl_action cl) x"
  note ok = deleteConjunctiveMatchFlow_Ok [OF p x run refl]
  from ok(1) obtain fl where fl: "ctxs c' = (ctxs c)(p \<mapsto> ?y\<lparr>x_flow := fl,
      x_dropFlow := (if emptied ?y then None else x_dropFlow x)\<rparr>)" by blast
  have sub: "map_of (globalConjMatchFlowCache c') l = Some q \<Longrightarrow> map_of (globalConjMatchFlowCache c) l = Some q" for l q
    by (auto simp: ok(2) delete_conv' split: if_splits)
  have "\<not> emptied ?y" if "map_of (globalConjMatchFlowCache c') (ctx_key x) = Some p"
    using that by (auto simp: ok(2) delete_conv')
  moreover have "drop_right (?y\<lparr>x_flow := fl, x_dropFlow := x_dropFlow x\<rparr>) = drop_right x" by (rule drop_right_cong) simp_all
  ultimately show ?thesis
    by (intro guards_ok_set [OF c fl]) (use guards_okD [OF c x] sub in \<open>auto simp: on_top_def\<close>)
qed

definition shown :: "client \<Rightarrow> bool" where
  "shown c \<longleftrightarrow> switched c \<and> guards_ok c"

section \<open>Clauses\<close>

text \<open>
  The tables of a clause: a rule table, and the default table of its direction if its slot has the pods the rule
  applies to.
\<close>

definition clause_tables :: "clause_slot \<Rightarrow> clause \<Rightarrow> bool" where
  "clause_tables slot cl \<longleftrightarrow> (\<forall>t. cl_ruleTable cl = Some t \<longrightarrow> GetID t \<in> {egressRuleTable, ingressRuleTable} \<and>
     (\<forall>d. cl_dropTable cl = Some d \<longrightarrow> GetID d = drop_of (GetID t)) \<and> (cl_dropTable cl \<noteq> None \<longleftrightarrow> guards (GetID t) slot))"

lemma clause_tables_matches [simp]: "clause_tables slot (cl\<lparr>cl_matches := ms\<rparr>) = clause_tables slot cl"
  by (simp add: clause_tables_def)

definition clause_match :: "clause \<Rightarrow> conjunctiveMatch \<Rightarrow> bool" where
  "clause_match cl m \<longleftrightarrow> good_match m \<and> (\<forall>d. cl_dropTable cl = Some d \<longrightarrow> GetID d = drop_of (cm_tableID m)) \<and>
     (cl_dropTable cl \<noteq> None \<longleftrightarrow> guarded m)"

lemma clause_matches:
  assumes "clause_tables slot cl"
  shows "generateAddressConjMatch cl a ty = Some m \<Longrightarrow> getAddressClause ty = Some slot \<Longrightarrow> proper_address a \<Longrightarrow> clause_match cl m"
    and "generateServicePortConjMatch cl port = Some m \<Longrightarrow> slot = ServiceClause \<Longrightarrow> clause_match cl m"
proof -
  show "clause_match cl m" if m: "generateAddressConjMatch cl a ty = Some m" and "getAddressClause ty = Some slot" "proper_address a"
  proof -
    have k: "key_slot (cm_matchKey m) = Some slot" using address_slot [OF that(2) m] .
    from m obtain t where t: "cl_ruleTable cl = Some t" and m: "cm_tableID m = GetID t" "cm_matchKey m = GetMatchKey a ty"
      "cm_matchValue m = GetValue a" by (auto simp: generateAddressConjMatch_def)
    have "match_fields (GetMatchKey a ty) (GetValue a) \<noteq> None \<and> (\<forall>n. GetValue a = MV_IPNet n \<longrightarrow> proper_net n)"
      using that(2,3) by (cases a; cases ty) auto
    with t m k assms show ?thesis by (auto simp: clause_match_def good_match_def clause_tables_def guarded_def)
  qed
  show "clause_match cl m" if m: "generateServicePortConjMatch cl port = Some m" "slot = ServiceClause"
  proof -
    have s: "key_slot (cm_matchKey m) = Some slot" using service_slot [OF m(1) [symmetric]] m(2) by simp
    from m(1) obtain t k w where t: "cl_ruleTable cl = Some t" and k: "getServiceMatchType (npp_Protocol port) = Some k"
      and m: "m = \<lparr>cm_tableID = GetID t, cm_matchKey = k, cm_matchValue = MV_Uint16 w\<rparr>"
      by (auto simp: generateServicePortConjMatch_def bind_eq_Some_conv)
    have "match_fields k (MV_Uint16 w) \<noteq> None" for w
      using k by (auto simp: getServiceMatchType_def simp del: not_None_eq split: if_splits)
    with t m s assms show ?thesis by (auto simp: clause_match_def good_match_def clause_tables_def guarded_def)
  qed
qed

fun pictured :: "client \<Rightarrow> 32 word \<Rightarrow> table option \<Rightarrow> clause_slot \<Rightarrow> claim set \<Rightarrow> clause_state \<Rightarrow> bool" where
  "pictured c0 r rt slot E (c, cl) \<longleftrightarrow> mirrored c0 r rt slot E (c, cl) \<and> clause_tables slot cl \<and> shown c"

lemma add_pictured:
  assumes fair: "fair_env env" and E: "leaves_slot E r slot" and slot: "key_slot (cm_matchKey m) = Some slot"
  shows "triple (\<lambda>_. True) (\<lambda>s. pictured c0 r rt slot E s \<and> clause_match (snd s) m) (addConjunctiveMatchFlow env m)
    (\<lambda>_. pictured c0 r rt slot E)"
proof (rule tripleI)
  fix s x s' assume pre: "pictured c0 r rt slot E s \<and> clause_match (snd s) m" and run: "addConjunctiveMatchFlow env m s = (x, s')"
  obtain c cl where s: "s = (c, cl)" by (cases s)
  have mir: "mirrored c0 r rt slot E (c, cl)" and sw: "switched c" and gs: "guards_ok c" and tabs: "clause_tables slot cl" and cm: "clause_match cl m"
    using pre by (simp_all add: s shown_def)
  show "case x of Ok _ \<Rightarrow> pictured c0 r rt slot E s' | _ \<Rightarrow> True"
  proof (cases "x = Ok ()")
    case False
    then show ?thesis by (cases x) simp_all
  next
    case True
    have post: "mirrored c0 r rt slot E s'" using tripleD [OF add_mirrored [OF fair E slot] mir run [unfolded s]] True by simp
    have ok: "heap_ok c" using mir by (auto intro: clause_inv_heap_ok)
    show ?thesis
    proof (cases "map_of (cl_matches cl) (generateGlobalMapKey m)")
      case (Some q)
      with run True pre show ?thesis by (simp add: addConjunctiveMatchFlow_def Let_def s go_eval)
    next
      case None
      with run True obtain p c1 c2 where 1: "find_or_create_ctx env (cl_dropTable cl) m c = (Ok p, c1)"
        and 2: "(if 1 < ca_nClause (cl_action cl) then addAction env p (cl_action cl)
          else addDenyAllRule p (ca_conjID (cl_action cl))) c1 = (Ok (), c2)"
        and s': "s' = (c2, cl\<lparr>cl_matches := AList.update (generateGlobalMapKey m) p (cl_matches cl)\<rparr>)"
        by (auto simp: addConjunctiveMatchFlow_def Let_def s gbind_Ok_iff gets_eval modify_eval on_fst_Ok_iff)
      from found_switched [OF sw ok _ _ 1] cm obtain y where "switched c1" "ctxs c1 p = Some y" "on_top c1 p y"
        unfolding clause_match_def by blast
      with enter_switched [OF this 2] add_guards [OF gs ok _ 1 2] cm post tabs True show ?thesis
        by (simp add: s' shown_def clause_match_def del: mirrored.simps)
    qed
  qed
qed

lemma delete_pictured:
  assumes fair: "fair_env env" and E: "leaves_slot E r slot"
  shows "triple (\<lambda>_. True) (pictured c0 r rt slot E) (deleteConjunctiveMatchFlow env k) (\<lambda>_. pictured c0 r rt slot E)"
proof (rule tripleI)
  fix s x s' assume pre: "pictured c0 r rt slot E s" and run: "deleteConjunctiveMatchFlow env k s = (x, s')"
  obtain c cl where s: "s = (c, cl)" by (cases s)
  have mir: "mirrored c0 r rt slot E (c, cl)" and sw: "switched c" and gs: "guards_ok c" and tabs: "clause_tables slot cl"
    using pre by (simp_all add: s shown_def)
  show "case x of Ok _ \<Rightarrow> pictured c0 r rt slot E s' | _ \<Rightarrow> True"
  proof (cases "x = Ok ()")
    case False
    then show ?thesis by (cases x) simp_all
  next
    case True
    have post: "mirrored c0 r rt slot E s'" using tripleD [OF delete_mirrored [OF fair E] mir run [unfolded s]] True by simp
    show ?thesis
    proof (cases "map_of (cl_matches cl) k")
      case None
      with run True pre show ?thesis by (simp add: deleteConjunctiveMatchFlow_def s go_eval)
    next
      case (Some p)
      with run True obtain c1 c2 where 1: "leave_ctx env (cl_action cl) p c = (Ok (), c1)"
        and 2: "drop_empty_ctx env p c1 = (Ok (), c2)" and s': "s' = (c2, cl\<lparr>cl_matches := AList.delete k (cl_matches cl)\<rparr>)"
        by (auto simp: deleteConjunctiveMatchFlow_def s gbind_Ok_iff gets_eval modify_eval on_fst_Ok_iff)
      have claim: "(cl_action cl, k, p) \<in> E \<union> clause_claims cl" using map_of_SomeD [OF Some] by (auto simp: clause_claims_def)
      have m: "mirror (E \<union> clause_claims cl) c" and ok: "heap_ok c" using mir by (auto intro: clause_inv_heap_ok)
      from mirrorD(3) [OF m claim] obtain y where y: "ctxs c p = Some y" "ctx_key y = k" by blast
      have "\<not> emptied y"
        using mirrorD(1) [OF m y(1)] claim y(2) unfolding ctx_mirrors_def emptied_def
        by (cases "1 < ca_nClause (cl_action cl)") force+
      with mirrorD(2) [OF m y(1)] have top: "on_top c p y" by (simp add: on_top_def)
      from leave_switched [OF sw y(1) top 1] obtain z where sw1: "switched c1" "ctxs c1 p = Some z" "on_top c1 p z" by blast
      have "heap_ok c1" using leave_ctx_extends [OF fair ok y(1) 1] by (simp add: extends_def)
      from drop_switched [OF sw1(1) this sw1(2,3) 2] delete_guards [OF gs Some y(1)] run post tabs True show ?thesis
        by (simp add: s s' shown_def del: mirrored.simps)
    qed
  qed
qed

end
