(* ===== verification/PolicyPicture.thy ===== *)
theory PolicyPicture
  imports PolicySwitch
begin

text \<open>
  The loops over a clause, the cached rules and the calls: each that returns nil keeps the switch a picture of the
  contexts, if the networks of its addresses are proper.
\<close>

section \<open>The loops of a clause\<close>

text \<open>A value is read of the state and may be nil; what was read is known of the step that follows.\<close>

lemma triple_read_at:
  assumes "\<And>v. triple E (\<lambda>s. P s \<and> g s = Some v) (f v) Q" and "\<And>s. P s \<Longrightarrow> E s"
  shows "triple E P (gbind (gets g) (\<lambda>m. gbind (deref m) f)) Q"
proof (rule tripleI)
  fix s r s' assume s: "P s" and run: "gbind (gets g) (\<lambda>m. gbind (deref m) f) s = (r, s')"
  show "case r of Ok a \<Rightarrow> Q a s' | _ \<Rightarrow> E s'"
  proof (cases "g s")
    case None
    with run s assms(2) show ?thesis by (auto simp: gbind_eval gets_eval deref_eval)
  next
    case (Some v)
    with run have "f v s = (r, s')" by (simp add: gbind_eval gets_eval deref_eval)
    from tripleD [OF assms(1) [of v] _ this] s Some show ?thesis by simp
  qed
qed

lemma loops_pictured:
  assumes fair: "fair_env env" and E: "leaves_slot E r slot"
  shows "getAddressClause ty = Some slot \<Longrightarrow> list_all proper_address as \<Longrightarrow>
      triple (\<lambda>_. True) (pictured c0 r rt slot E) (addAddrFlows env ty as) (\<lambda>_. pictured c0 r rt slot E)"
    and "slot = ServiceClause \<Longrightarrow>
      triple (\<lambda>_. True) (pictured c0 r rt slot E) (addServiceFlows env ps) (\<lambda>_. pictured c0 r rt slot E)"
    and "triple (\<lambda>_. True) (pictured c0 r rt slot E) (deleteAddrFlows env ty as) (\<lambda>_. pictured c0 r rt slot E)"
    and "triple (\<lambda>_. True) (pictured c0 r rt slot E)
      (gfor es (\<lambda>(key, _). deleteConjunctiveMatchFlow env key)) (\<lambda>_. pictured c0 r rt slot E)"
proof -
  have step: "triple (\<lambda>_. True) (\<lambda>s. pictured c0 r rt slot E s \<and> (case s of (c, cl) \<Rightarrow> mk cl) = Some m)
      (addConjunctiveMatchFlow env m) (\<lambda>_. pictured c0 r rt slot E)"
    if "\<And>cl. mk cl = Some m \<Longrightarrow> clause_tables slot cl \<Longrightarrow> key_slot (cm_matchKey m) = Some slot \<and> clause_match cl m" for mk m
  proof (cases "key_slot (cm_matchKey m) = Some slot")
    case True
    show ?thesis
      by (rule triple_pre [OF add_pictured [OF fair E True]]) (auto dest: that simp del: mirrored.simps)
  next
    case False
    with that show ?thesis by (auto simp: triple_def simp del: mirrored.simps)
  qed
  show "triple (\<lambda>_. True) (pictured c0 r rt slot E) (addAddrFlows env ty as) (\<lambda>_. pictured c0 r rt slot E)"
    if "getAddressClause ty = Some slot" "list_all proper_address as"
    unfolding addAddrFlows_def
    by (intro triple_gfor triple_read_at step conjI TrueI)
      (use that in \<open>auto intro: address_slot clause_matches(1) simp: list_all_iff\<close>)
  show "triple (\<lambda>_. True) (pictured c0 r rt slot E) (addServiceFlows env ps) (\<lambda>_. pictured c0 r rt slot E)"
    if "slot = ServiceClause"
    unfolding addServiceFlows_def
    by (intro triple_gfor triple_read_at step conjI TrueI) (use that in \<open>auto intro: service_slot [OF sym] clause_matches(2)\<close>)
  show "triple (\<lambda>_. True) (pictured c0 r rt slot E) (deleteAddrFlows env ty as) (\<lambda>_. pictured c0 r rt slot E)"
    unfolding deleteAddrFlows_def by (intro triple_gfor triple_read delete_pictured [OF fair E] TrueI)
  show "triple (\<lambda>_. True) (pictured c0 r rt slot E)
      (gfor es (\<lambda>(key, _). deleteConjunctiveMatchFlow env key)) (\<lambda>_. pictured c0 r rt slot E)"
    by (intro triple_gfor) (auto intro: delete_pictured [OF fair E] split: prod.splits)
qed

lemma deleteAllMatches_pictured:
  assumes "fair_env env" and "leaves_slot E r slot"
  shows "triple (\<lambda>_. True) (pictured c0 r rt slot E) (deleteAllMatches env) (\<lambda>_. pictured c0 r rt slot E)"
proof (rule tripleI)
  fix s x s' assume pre: "pictured c0 r rt slot E s" and run: "deleteAllMatches env s = (x, s')"
  obtain c cl where s: "s = (c, cl)" by (cases s)
  have "gfor (go_range env c (cl_matches cl)) (\<lambda>(key, _). deleteConjunctiveMatchFlow env key) s = (x, s')"
    using run by (simp add: deleteAllMatches_def gbind_eval gets_eval s)
  from tripleD [OF loops_pictured(4) [OF assms] pre this]
  show "case x of Ok _ \<Rightarrow> pictured c0 r rt slot E s' | _ \<Rightarrow> True" .
qed

section \<open>The cached rules\<close>

definition plain_rules :: "client \<Rightarrow> bool" where
  "plain_rules c \<longleftrightarrow> (\<forall>r pc. getPolicyRuleConjunction c r = Some pc \<longrightarrow> (\<forall>f \<in> set (pc_actionFlows pc). foreign f) \<and>
     (\<forall>slot cl. slot_clause slot pc = Some cl \<longrightarrow> clause_tables slot cl))"

lemma plain_rulesD:
  "plain_rules c \<Longrightarrow> getPolicyRuleConjunction c r = Some pc \<Longrightarrow> f \<in> set (pc_actionFlows pc) \<Longrightarrow> foreign f"
  "plain_rules c \<Longrightarrow> getPolicyRuleConjunction c r = Some pc \<Longrightarrow> slot_clause slot pc = Some cl \<Longrightarrow> clause_tables slot cl"
  by (auto simp: plain_rules_def)

lemma plain_rules_cache: "policyCache c' = policyCache c \<Longrightarrow> plain_rules c' = plain_rules c"
  by (simp add: plain_rules_def getPolicyRuleConjunction_def)

lemma plain_rules_put:
  assumes c: "plain_rules c" and cl: "clause_tables slot cl"
  shows "plain_rules (put_clause r slot cl c)"
proof (cases "map_of (policyCache c) r")
  case None
  with c show ?thesis by (simp add: put_clause_def)
next
  case (Some pc)
  then have pc: "getPolicyRuleConjunction c r = Some pc" by (simp add: getPolicyRuleConjunction_def)
  have put: "getPolicyRuleConjunction (put_clause r slot cl c) r' =
      (if r' = r then Some (set_slot slot cl pc) else getPolicyRuleConjunction c r')" for r'
    using Some by (simp add: put_clause_def getPolicyRuleConjunction_def)
  have "clause_tables s d" if "slot_clause s (set_slot slot cl pc) = Some d" for s d
    using that cl plain_rulesD(2) [OF c pc, of s d] by (cases "s = slot") (auto simp: set_slot_simps)
  moreover have "pc_actionFlows (set_slot slot cl pc) = pc_actionFlows pc" by (cases slot) simp_all
  ultimately show ?thesis
    using plain_rulesD [OF c] plain_rulesD(1) [OF c pc] unfolding plain_rules_def put by (auto split: if_splits)
qed

lemma shown_wf: "shown c \<Longrightarrow> wf_pipeline c"
  by (simp add: shown_def switchedD(1))

lemma shown_cong:
  assumes "shown c" and "policy_view c' = policy_view c" and "ctxs c' = ctxs c"
    and "globalConjMatchFlowCache c' = globalConjMatchFlowCache c" and "pipeline c' = pipeline c"
  shows "shown c'"
  using assms by (simp add: shown_def switched_def guards_ok_def on_top_def wf_pipeline_def)

lemma shown_untouched: "shown c \<Longrightarrow> untouched c c' \<Longrightarrow> shown c'"
  by (rule shown_cong) (simp_all add: untouched_def)

lemma shown_put: "shown c \<Longrightarrow> shown (put_clause r slot cl c)"
  by (erule shown_cong) (simp_all add: put_clause_def split: option.split)

lemma on_cached_pictures:
  assumes c: "mirrors c" and sw: "shown c" and plain: "plain_rules c"
    and pc: "getPolicyRuleConjunction c r = Some pc" and cl: "slot_clause slot pc = Some cl"
    and m: "\<And>E. leaves_slot E r slot \<Longrightarrow> triple (\<lambda>_. True) (pictured c r (cl_ruleTable cl) slot E) m
      (\<lambda>_. pictured c r (cl_ruleTable cl) slot E)"
    and run: "on_cached_clause r slot cl m c = (Ok (), c')"
  shows "shown c' \<and> plain_rules c'"
proof -
  from run obtain c1 cl1 where 1: "m (c, cl) = (Ok (), (c1, cl1))" and c': "c' = put_clause r slot cl1 c1"
    by (auto simp: on_cached_clause_def split: prod.splits)
  have "pictured c r (cl_ruleTable cl) slot (rest_claims c r slot) (c, cl)"
    using cached_mirrored [OF c pc cl] sw plain_rulesD(2) [OF plain pc cl] by simp
  from tripleD [OF m [OF rest_leaves_slot [OF c]] this 1]
  have post: "pictured c r (cl_ruleTable cl) slot (rest_claims c r slot) (c1, cl1)" by simp
  then have "policyCache c1 = policyCache c" by (simp add: extends_def heap_le_def)
  then have "plain_rules c1" using plain plain_rules_cache by blast
  with post show ?thesis unfolding c' by (simp add: shown_put plain_rules_put del: mirrored.simps)
qed

lemma address_calls_picture:
  assumes fair: "fair_env env" and c: "mirrors c" "shown c" "plain_rules c"
  shows "list_all proper_address as \<Longrightarrow> AddPolicyRuleAddress env r ty as c = (Ok (), c') \<Longrightarrow> shown c' \<and> plain_rules c'"
    and "DeletePolicyRuleAddress env r ty as c = (Ok (), c') \<Longrightarrow> shown c' \<and> plain_rules c'"
proof -
  have "shown c' \<and> plain_rules c'" if run: "on_address_clause r ty m c = (Ok (), c')"
    and m: "\<And>c0 rt slot E. getAddressClause ty = Some slot \<Longrightarrow> leaves_slot E r slot \<Longrightarrow>
      triple (\<lambda>_. True) (pictured c0 r rt slot E) m (\<lambda>_. pictured c0 r rt slot E)" for m
  proof -
    from run obtain pc slot cl where pc: "getPolicyRuleConjunction c r = Some pc" and slot: "getAddressClause ty = Some slot"
      and cl: "slot_clause slot pc = Some cl" and 1: "on_cached_clause r slot cl m c = (Ok (), c')"
      by (auto simp: on_address_clause_def gbind_eval gets_eval throw_eval split: option.splits)
    from on_cached_pictures [OF c pc cl m [OF slot] 1] show ?thesis .
  qed
  note lift = this
  show "list_all proper_address as \<Longrightarrow> AddPolicyRuleAddress env r ty as c = (Ok (), c') \<Longrightarrow> shown c' \<and> plain_rules c'"
    unfolding AddPolicyRuleAddress_def by (rule lift) (assumption | rule loops_pictured(1) fair)+
  show "DeletePolicyRuleAddress env r ty as c = (Ok (), c') \<Longrightarrow> shown c' \<and> plain_rules c'"
    unfolding DeletePolicyRuleAddress_def by (rule lift) (assumption | rule loops_pictured(3) fair)+
qed

lemma delete_clause_pictures:
  assumes fair: "fair_env env" and c: "mirrors c" "shown c" "plain_rules c"
    and run: "delete_clause env r slot c = (Ok (), c')"
  shows "mirrors c' \<and> shown c' \<and> plain_rules c'"
proof (cases "Option.bind (getPolicyRuleConjunction c r) (slot_clause slot)")
  case None
  with run c show ?thesis by (auto simp: delete_clause_def gbind_eval gets_eval ret_eval)
next
  case (Some cl)
  then obtain pc where pc: "getPolicyRuleConjunction c r = Some pc" and cl: "slot_clause slot pc = Some cl"
    by (auto simp: bind_eq_Some_conv)
  have 1: "on_cached_clause r slot cl (deleteAllMatches env) c = (Ok (), c')"
    using run Some by (simp add: delete_clause_def gbind_eval gets_eval)
  from on_cached_pictures [OF c pc cl deleteAllMatches_pictured [OF fair] 1] delete_clause_mirrors(1) [OF fair c(1) run]
  show ?thesis by blast
qed

section \<open>Installing and uninstalling\<close>

lemma foreign_flows_picture:
  assumes c: "shown c" "caches_foreign c" and fs: "\<And>f. f \<in> set fs \<Longrightarrow> foreign f"
  shows "gfor fs (flow_Add env) c = (r, c') \<Longrightarrow> shown c'" and "gfor fs (flow_Delete env) c = (r, c') \<Longrightarrow> shown c'"
proof -
  have "untouched c c" using c shown_wf [OF c(1)] by (simp add: untouched_def)
  moreover have "keeps (untouched c) (gfor fs (flow_Add env))" "keeps (untouched c) (gfor fs (flow_Delete env))"
    by (intro keeps_gfor untouched_flow_ops fs, assumption)+
  ultimately show "gfor fs (flow_Add env) c = (r, c') \<Longrightarrow> shown c'" "gfor fs (flow_Delete env) c = (r, c') \<Longrightarrow> shown c'"
    using shown_untouched [OF c(1)] by (blast dest: keepsE)+
qed

lemma Uninstall_pictures:
  assumes fair: "fair_env env" and c: "mirrors c" "shown c" "plain_rules c" "caches_foreign c"
    and run: "UninstallPolicyRuleFlows env r c = (Ok (), c')"
  shows "shown c' \<and> plain_rules c'"
proof (cases "getPolicyRuleConjunction c r")
  case None
  with run c show ?thesis by (simp add: UninstallPolicyRuleFlows_def gbind_eval gets_eval ret_eval)
next
  case (Some pc)
  from run Some obtain c0 c1 c2 c3 where 0: "gfor (pc_actionFlows pc) (flow_Delete env) c = (Ok (), c0)"
    and 1: "delete_clause env r FromClause c0 = (Ok (), c1)" and 2: "delete_clause env r ToClause c1 = (Ok (), c2)"
    and 3: "delete_clause env r ServiceClause c2 = (Ok (), c3)"
    and c': "c' = c3\<lparr>policyCache := AList.delete r (policyCache c3)\<rparr>"
    by (auto simp: UninstallPolicyRuleFlows_def gbind_Ok_iff gets_eval modify_eval)
  have "unchanged switch.more (gfor (pc_actionFlows pc) (flow_Delete env) :: (client, unit) go)"
    unfolding unchanged_iff_keeps
    by (intro allI keeps_gfor) (rule unchanged_flow_ops(3) [unfolded unchanged_iff_keeps, rule_format])
  note more = unchangedD [OF this 0]
  have "policyCache c0 = policyCache c" using client_more(4) [OF more] .
  then have plain: "plain_rules c0" using c(3) plain_rules_cache by blast
  have sw: "shown c0" by (rule foreign_flows_picture(2) [OF c(2,4) plain_rulesD(1) [OF c(3) Some] 0])
  from delete_clause_pictures [OF fair mirrors_more [OF c(1) more] sw plain 1]
  have "mirrors c1 \<and> shown c1 \<and> plain_rules c1" .
  then have "mirrors c2 \<and> shown c2 \<and> plain_rules c2" using delete_clause_pictures [OF fair _ _ _ 2] by blast
  then have "mirrors c3 \<and> shown c3 \<and> plain_rules c3" using delete_clause_pictures [OF fair _ _ _ 3] by blast
  moreover from this have "shown c'" by (intro shown_cong [of c3 c']) (simp_all add: c')
  ultimately show ?thesis
    by (auto simp: c' plain_rules_def getPolicyRuleConjunction_def delete_conv' split: if_splits)
qed

text \<open>The tables of a rule, in a pipeline whose tables have their own ids.\<close>

definition default_tables :: "client \<Rightarrow> bool" where
  "default_tables c \<longleftrightarrow> (table_at c egressRuleTable \<noteq> None \<longrightarrow> table_at c egressDefaultTable \<noteq> None) \<and>
     (table_at c ingressRuleTable \<noteq> None \<longrightarrow> table_at c ingressDefaultTable \<noteq> None)"

lemma rule_clause_tables:
  assumes wf: "wf_pipeline c" and dt: "default_tables c" and tabs: "rule_tables c rule = (rt, dt)"
  shows "clause_tables FromClause (newClause r i n rt (if is_egress rule then dt else None))"
    and "clause_tables ToClause (newClause r i n rt (if \<not> is_egress rule then dt else None))"
    and "clause_tables ServiceClause (newClause r i n rt None)"
  using tabs wf_pipelineD [OF wf] dt
  by (auto simp: rule_tables_def clause_tables_def newClause_def drop_of_def guards_def default_tables_def table_ids split: if_splits)

lemma install_clause_pictures:
  assumes ok: "np_ok c" and m: "mirror E c" and sw: "shown c" and tabs: "clause_tables slot (newClause r i n rt dt)"
    and add: "\<And>xs c0. items = Some xs \<Longrightarrow>
      triple (\<lambda>_. True) (pictured c0 r rt slot E) (add xs) (\<lambda>_. pictured c0 r rt slot E)"
    and run: "install_clause items (newClause r i n rt dt) add c = (Ok cl, c')"
  shows "shown c'" and "cl = Some d \<Longrightarrow> clause_tables slot d"
proof -
  let ?cl = "newClause r i n rt dt"
  have "shown c' \<and> (\<forall>d. cl = Some d \<longrightarrow> clause_tables slot d)"
  proof (cases items)
    case None
    with run sw show ?thesis by (auto simp: install_clause_def ret_eval)
  next
    case (Some xs)
    with run obtain d where 1: "add xs (c, ?cl) = (Ok (), (c', d))" and cl: "cl = Some d"
      by (auto simp: install_clause_def on_new_clause_def gbind_eval ret_eval split: prod.splits result.splits)
    have "clause_inv c r rt (c, ?cl)"
      using ok by (simp add: newClause_def clause_ok_def points_to_def np_ok_def extends_refl)
    then have "mirrored c r rt slot E (c, ?cl)" using m by (simp add: newClause_def clause_claims_def)
    then have "pictured c r rt slot E (c, ?cl)" using sw tabs by simp
    from tripleD [OF add [OF Some] this 1] show ?thesis by (simp add: cl del: mirrored.simps)
  qed
  then show "shown c'" "cl = Some d \<Longrightarrow> clause_tables slot d" by blast+
qed

lemma rule_actions_picture:
  assumes c: "shown c" "caches_foreign c" and run: "rule_actions env rule n rt dt c = (Ok fs, c')"
  shows "shown c'" and "f \<in> set fs \<Longrightarrow> foreign f"
proof -
  have "shown c' \<and> (\<forall>f \<in> set fs. foreign f)"
  proof (cases "1 < n")
    case False
    with run c show ?thesis by (simp add: rule_actions_def ret_eval)
  next
    case True
    with run have fs: "action_flows c rule rt dt = Some fs" and 1: "gfor fs (flow_Add env) c = (Ok (), c')"
      by (auto simp: rule_actions_def gbind_Ok_iff gets_eval deref_def ret_eval panic_eval split: option.splits)
    from foreign_flows_picture(1) [OF c action_flow_foreign [OF fs] 1] action_flow_foreign [OF fs] show ?thesis by blast
  qed
  then show "shown c'" "f \<in> set fs \<Longrightarrow> foreign f" by blast+
qed

lemma Install_pictures:
  assumes fair: "fair_env env" and c: "mirrors c" "shown c" "plain_rules c" "caches_foreign c" and dt: "default_tables c"
    and proper: "list_all proper_address (listed (pr_From rule))" "list_all proper_address (listed (pr_To rule))"
    and run: "InstallPolicyRuleFlows env rule c = (Ok (), c')"
  shows "shown c' \<and> plain_rules c'"
proof (cases "getPolicyRuleConjunction c (pr_ID rule)")
  case (Some pc)
  with run c show ?thesis by (auto simp: InstallPolicyRuleFlows_def gbind_eval gets_eval ret_eval split: prod.splits)
next
  case None
  let ?r = "pr_ID rule" and ?E = "rule_claims c"
  from Install_steps [OF fair c(1) None run] obtain n f t v rt dt fs c0 c1 c2 c3 fc tc sc where
    tabs: "rule_tables c rule = (rt, dt)" and 0: "rule_actions env rule n rt dt c = (Ok fs, c0)"
    and 1: "install_clause (pr_From rule) (newClause ?r f n rt (if is_egress rule then dt else None))
      (addAddrFlows env SrcAddress) c0 = (Ok fc, c1)"
    and 2: "install_clause (pr_To rule) (newClause ?r t n rt (if \<not> is_egress rule then dt else None))
      (addAddrFlows env DstAddress) c1 = (Ok tc, c2)"
    and 3: "install_clause (pr_Service rule) (newClause ?r v n rt None) (addServiceFlows env) c2 = (Ok sc, c3)"
    and c': "c' = c3\<lparr>policyCache := AList.update ?r \<lparr>pc_id = ?r, pc_fromClause = fc, pc_toClause = tc,
        pc_serviceClause = sc, pc_actionFlows = fs\<rparr> (policyCache c3)\<rparr>"
    and cache: "policyCache c3 = policyCache c"
    and m0: "np_ok c0" "mirror ?E c0" and E0: "leaves_slot ?E ?r FromClause"
    and m1: "np_ok c1" "mirror (?E \<union> opt_claims fc) c1" and E1: "leaves_slot (?E \<union> opt_claims fc) ?r ToClause"
    and m2: "np_ok c2" "mirror (?E \<union> opt_claims fc \<union> opt_claims tc) c2"
    and E2: "leaves_slot (?E \<union> opt_claims fc \<union> opt_claims tc) ?r ServiceClause"
    by metis
  note ct = rule_clause_tables [OF shown_wf [OF c(2)] dt tabs]
  have sw0: "shown c0" using rule_actions_picture(1) [OF c(2,4) 0] .
  note s1 = install_clause_pictures [OF m0 sw0 ct(1) loops_pictured(1) [OF fair E0 getAddressClause.simps(1)] 1]
  have "pr_From rule = Some xs \<Longrightarrow> list_all proper_address xs" "pr_To rule = Some xs \<Longrightarrow> list_all proper_address xs" for xs
    using proper by (simp_all add: listed_def)
  note proper = this
  have sw1: "shown c1" by (rule s1(1)) (rule proper)
  note s2 = install_clause_pictures [OF m1 sw1 ct(2) loops_pictured(1) [OF fair E1 getAddressClause.simps(2)] 2]
  have sw2: "shown c2" by (rule s2(1)) (rule proper)
  note s3 = install_clause_pictures [OF m2 sw2 ct(3) loops_pictured(2) [OF fair E2 refl] 3]
  have "shown c'" using s3(1) by (rule shown_cong) (simp_all add: c')
  let ?pc = "\<lparr>pc_id = ?r, pc_fromClause = fc, pc_toClause = tc, pc_serviceClause = sc, pc_actionFlows = fs\<rparr>"
  have "clause_tables slot d" if "slot_clause slot ?pc = Some d" for slot d
    using that s1(2) [OF proper(1)] s2(2) [OF proper(2)] s3(2) by (cases slot) auto
  moreover have "getPolicyRuleConjunction c' r = (if r = ?r then Some ?pc else getPolicyRuleConjunction c r)" for r
    by (simp add: c' cache getPolicyRuleConjunction_def)
  ultimately have "plain_rules c'"
    using plain_rulesD [OF c(3)] rule_actions_picture(2) [OF c(2,4) 0] by (auto simp: plain_rules_def split: if_splits)
  with \<open>shown c'\<close> show ?thesis by blast
qed

section \<open>The calls\<close>

definition in_step :: "client \<Rightarrow> bool" where
  "in_step c \<longleftrightarrow> mirrors c \<and> shown c \<and> plain_rules c \<and> caches_foreign c \<and> default_tables c"

fun proper_call :: "call \<Rightarrow> bool" where
  "proper_call (CInstallPolicyRuleFlows rule) =
     (list_all proper_address (listed (pr_From rule)) \<and> list_all proper_address (listed (pr_To rule)))"
| "proper_call (CAddPolicyRuleAddress r ty as) = list_all proper_address as"
| "proper_call _ = True"

interpretation foreign_caches: policy_blind caches_foreign env for env
  by unfold_locales (auto intro!: keepsI simp: flow_op_eqs run_eq after_def Let_def caches_foreign_def)

lemma invoke_in_step:
  assumes fair: "fair_env env" and c: "in_step c" and k: "proper_call k" and run: "invoke env k c = (Ok (), c')"
  shows "in_step c'"
proof -
  have m: "mirrors c'" using invoke_mirrors [OF fair _ run] c by (simp add: in_step_def)
  have "pipeline c' = pipeline c" using keepsE [OF pipelines.keeps_invoke refl run] .
  then have d: "default_tables c'" using c by (simp add: in_step_def default_tables_def table_at_def)
  show ?thesis
  proof (cases "call_rule k")
    case None
    have "untouched c c" using c shown_wf [of c] by (auto simp: in_step_def untouched_def)
    from keepsE [OF client_call_untouched [OF fair None] this run] have u: "untouched c c'" .
    then have "policyCache c' = policyCache c" and f: "caches_foreign c'" by (simp_all add: untouched_def)
    then have "plain_rules c'" using plain_rules_cache [of c' c] c by (simp add: in_step_def)
    moreover have "shown c'" using shown_untouched [OF _ u] c by (simp add: in_step_def)
    ultimately show ?thesis using m d f by (simp add: in_step_def)
  next
    case (Some r)
    then have "keeps caches_foreign (invoke env k)" by (cases k) (simp_all add: foreign_caches.keeps_policy_go)
    from keepsE [OF this _ run] c have "caches_foreign c'" by (simp add: in_step_def)
    moreover have "shown c' \<and> plain_rules c'"
    proof -
      have at: "mirrors c" "shown c" "plain_rules c" "caches_foreign c" "default_tables c" using c by (simp_all add: in_step_def)
      show ?thesis
      proof (cases k)
        case (CInstallPolicyRuleFlows rule)
        with k run show ?thesis by (intro Install_pictures [OF fair at, of rule]) simp_all
      next
        case (CUninstallPolicyRuleFlows i)
        with run show ?thesis by (intro Uninstall_pictures [OF fair at(1-4), of i]) simp
      next
        case (CAddPolicyRuleAddress i ty as)
        with k run show ?thesis by (intro address_calls_picture(1) [OF fair at(1-3), of as i ty]) simp_all
      next
        case (CDeletePolicyRuleAddress i ty as)
        with run show ?thesis by (intro address_calls_picture(2) [OF fair at(1-3), of i ty as]) simp
      qed (use Some in simp_all)
    qed
    ultimately show ?thesis using m d by (simp add: in_step_def)
  qed
qed

lemma after_nil_in_step:
  "fair_env env \<Longrightarrow> in_step c \<Longrightarrow> \<forall>k \<in> set ks. proper_call k \<Longrightarrow> after_nil env ks c = Some c' \<Longrightarrow> in_step c'"
proof (induction ks arbitrary: c)
  case Nil
  then show ?case by simp
next
  case (Cons k ks)
  then obtain d where "invoke env k c = (Ok (), d)" "after_nil env ks d = Some c'"
    by (auto split: prod.splits result.splits)
  with Cons invoke_in_step [of env c k d] show ?case by simp
qed

lemma fresh_in_step:
  assumes "fresh_client c" and "wf_pipeline c" and "default_tables c"
  shows "in_step c"
proof -
  have "on_switch c s = None" for s using assms(1) by (simp add: fresh_client_def)
  then have "policy_view c s = None" for s by (simp add: policy_view_def)
  then have "shown c" using assms by (simp add: shown_def guards_ok_def switched_def fresh_client_def)
  with fresh_mirrors [OF assms(1)] assms(1,3) show ?thesis
    by (simp add: in_step_def plain_rules_def caches_foreign_def getPolicyRuleConjunction_def fresh_client_def)
qed

end
