(* ===== verification/PolicyLocked.thy ===== *)
theory PolicyLocked
  imports PolicyPicture
begin

text \<open>
  Rules that are worked on at the same time. The lock of the global cache (conjMatchFlowLock) is held for one match at a
  time: what happens under it is one step, and the steps of different clauses, with flows that need no lock between
  them, come in any order.
\<close>

section \<open>The switch in terms of claims\<close>

definition rule_flow :: "client \<Rightarrow> conjunctiveMatch \<Rightarrow> flow option" where
  "rule_flow c m = on_switch c (match_text (cm_tableID m) m)"

definition default_flow :: "client \<Rightarrow> conjunctiveMatch \<Rightarrow> flow option" where
  "default_flow c m = on_switch c (match_text (drop_of (cm_tableID m)) m)"

definition claimed_actions :: "claim set \<Rightarrow> string \<Rightarrow> conjunctiveAction set" where
  "claimed_actions E k = {a. 1 < ca_nClause a \<and> (\<exists>p. (a, k, p) \<in> E)}"

definition claimed_key :: "claim set \<Rightarrow> string \<Rightarrow> bool" where
  "claimed_key E k \<longleftrightarrow> (\<exists>a p. (a, k, p) \<in> E)"

text \<open>
  What the switch says of a match, for a set of actions and whether the match is used at all: the flow in the rule table
  has these actions, each once, and is there if there are any; the flow in the default table drops, and is there if the
  match is used and is one of the pods a rule applies to.
\<close>

definition says :: "client \<Rightarrow> conjunctiveMatch \<Rightarrow> conjunctiveAction set \<Rightarrow> bool \<Rightarrow> bool" where
  "says c m A used \<longleftrightarrow> finite A \<and> (rule_flow c m = None \<longleftrightarrow> A = {}) \<and>
     (\<forall>f. rule_flow c m = Some f \<longrightarrow> mset (fl_actions f) = image_mset action_text (mset_set A)) \<and>
     (default_flow c m \<noteq> None \<longleftrightarrow> used \<and> guarded m) \<and> (\<forall>f. default_flow c m = Some f \<longrightarrow> fl_actions f = [''drop''])"

text \<open>A claim is to the context on top of its key, and a context on top is claimed.\<close>

lemma claim_top:
  assumes m: "mirror E c" and claim: "(a, k, p) \<in> E"
  shows "map_of (globalConjMatchFlowCache c) k = Some p"
proof -
  from mirrorD(3) [OF m claim] obtain x where x: "ctxs c p = Some x" "ctx_key x = k" by blast
  have "\<not> emptied x"
    using mirrorD(1) [OF m x(1)] claim x(2) unfolding ctx_mirrors_def emptied_def
    by (cases "1 < ca_nClause a") force+
  with mirrorD(2) [OF m x(1)] x(2) show ?thesis by simp
qed

lemma some_key: "xs \<noteq> [] \<Longrightarrow> \<exists>r v. map_of xs r = Some v"
  by (cases xs) (auto split: if_splits)

lemma top_claimed:
  assumes m: "mirror E c" and ok: "heap_ok c" and x: "ctxs c p = Some x"
    and top: "map_of (globalConjMatchFlowCache c) (ctx_key x) = Some p"
  shows "claimed_key E (ctx_key x)" and "claimed_actions E (ctx_key x) = snd ` set (x_actions x)"
proof -
  have xok: "ctx_ok x" using ok x by (simp add: heap_ok_def)
  note held = mirrorD(1) [OF m x, unfolded ctx_mirrors_def]
  have "a \<in> snd ` set (x_actions x) \<longleftrightarrow> (\<exists>r. map_of (x_actions x) r = Some a)" for a
    using xok by (force simp: ctx_ok_def)
  moreover have "a \<in> claimed_actions E (ctx_key x) \<longleftrightarrow> (\<exists>r. map_of (x_actions x) r = Some a)" for a
    using held claim_top [OF m, of a "ctx_key x"] top by (auto simp: claimed_actions_def)
  ultimately show "claimed_actions E (ctx_key x) = snd ` set (x_actions x)" by blast
  have "\<not> emptied x" using mirrorD(2) [OF m x] top by simp
  then consider r a where "map_of (x_actions x) r = Some a" | r v where "map_of (x_denyAllRules x) r = Some v"
    using some_key [of "x_actions x"] some_key [of "x_denyAllRules x"] unfolding emptied_def by blast
  then show "claimed_key E (ctx_key x)"
  proof cases
    case 1
    with held show ?thesis unfolding claimed_key_def by blast
  next
    case 2
    then have "map_of (x_denyAllRules x) r \<noteq> None" by simp
    with held show ?thesis unfolding claimed_key_def by blast
  qed
qed

lemma action_texts_once:
  assumes "ctx_ok x"
  shows "mset (map (action_text \<circ> snd) (x_actions x)) = image_mset action_text (mset_set (snd ` set (x_actions x)))"
proof -
  have wf: "wf_map (x_actions x)" and id: "\<And>k a. (k, a) \<in> set (x_actions x) \<Longrightarrow> ca_conjID a = k"
    using assms by (auto simp: ctx_ok_def)
  have "inj_on snd (set (x_actions x))" by (rule inj_onI) (metis id prod.collapse)
  with wf have "distinct (map snd (x_actions x))" by (simp add: distinct_map)
  then have "mset (map snd (x_actions x)) = mset_set (set (map snd (x_actions x)))" by (simp only: mset_set_set)
  then have "image_mset action_text (mset (map snd (x_actions x))) = image_mset action_text (mset_set (snd ` set (x_actions x)))"
    by simp
  then show ?thesis by (simp add: multiset.map_comp)
qed

lemma claims_say:
  assumes mir: "mirror E c" and ok: "heap_ok c" and sh: "shown c" and m: "good_match m" and k: "k = generateGlobalMapKey m"
  shows "says c m (claimed_actions E k) (claimed_key E k)"
proof -
  let ?y = "\<lparr>x_match = m, x_actions = [], x_denyAllRules = [], x_flow = None, x_dropFlow = None\<rparr>"
  have sw: "switched c" and gs: "guards_ok c" using sh by (simp_all add: shown_def)
  have "ctx_text ?y \<in> policy_texts" "drop_text ?y \<in> policy_texts" by (rule ctx_texts(4,5) [of ?y ?y]; simp add: m)+
  then have flows: "rule_flow c m = policy_view c (ctx_text ?y)" "default_flow c m = policy_view c (drop_text ?y)"
    by (simp_all add: rule_flow_def default_flow_def policy_view_def ctx_text_def drop_text_def)
  show ?thesis
  proof (cases "map_of (globalConjMatchFlowCache c) k")
    case None
    then have no: "(a, k, p) \<notin> E" for a p using claim_top [OF mir] by fastforce
    have "\<not> has_flow z" if "ctxs c q = Some z" "ctx_key z = ctx_key ?y" for q z
      using switchedD(5) [OF sw that(1)] that(2) None by (auto simp: on_top_def k)
    then have "policy_view c (ctx_text ?y) = None" "policy_view c (drop_text ?y) = None"
      using view_free [OF sw, of ?y] m by simp_all
    with no show ?thesis by (simp add: says_def flows claimed_actions_def claimed_key_def)
  next
    case (Some p)
    with ok obtain x where x: "ctxs c p = Some x" "ctx_key x = k" by (auto simp: heap_ok_def dest: points_to_Some)
    have top: "on_top c p x" using Some x(2) by (simp add: on_top_def)
    have xok: "ctx_ok x" using ok x by (simp add: heap_ok_def)
    have "good_match (x_match x)" using switchedD(2) [OF sw x(1)] by (simp add: flows_named_def)
    then have "match_text t (x_match x) = match_text t m" for t using match_text_of_key [OF _ m] x(2) k by simp
    moreover have "cm_tableID (x_match x) = cm_tableID m" using x(2) k by (simp add: global_key_inject)
    ultimately have "ctx_text ?y = ctx_text x" "drop_text ?y = drop_text x" by (simp_all add: ctx_text_def drop_text_def)
    then have own: "rule_flow c m = x_flow x" "default_flow c m = x_dropFlow x"
      using view_own [OF sw x(1) top] by (simp_all add: flows)
    note used = top_claimed [OF mir ok x(1), unfolded x(2), OF Some]
    have "guarded (x_match x) = guarded m" using x(2) k by (simp add: guarded_def global_key_inject)
    with guards_okD [OF gs x(1) top] used(1) own(2) have "default_flow c m \<noteq> None \<longleftrightarrow> claimed_key E k \<and> guarded m"
      "\<forall>f. default_flow c m = Some f \<longrightarrow> fl_actions f = [''drop'']" by (simp_all add: drop_right_def)
    moreover have "finite (claimed_actions E k)" "rule_flow c m = None \<longleftrightarrow> claimed_actions E k = {}"
      "\<forall>f. rule_flow c m = Some f \<longrightarrow> mset (fl_actions f) = image_mset action_text (mset_set (claimed_actions E k))"
      using xok action_texts_once [OF xok] used(2) by (cases "x_flow x"; auto simp: own(1) ctx_ok_def)+
    ultimately show ?thesis by (simp only: says_def simp_thms)
  qed
qed

section \<open>Steps\<close>

text \<open>
  The clauses that are worked on, by rule and slot. A step begins a clause as InstallPolicyRuleFlows does, adds or
  deletes one match of a clause under the lock, or adds or deletes a flow that is not of a context; that one may fail.
\<close>

type_synonym pool = "32 word \<times> clause_slot \<Rightarrow> clause option"

definition slot_drop :: "PolicyRule \<Rightarrow> clause_slot \<Rightarrow> table option \<Rightarrow> table option" where
  "slot_drop rule slot dt = (case slot of FromClause \<Rightarrow> if is_egress rule then dt else None
     | ToClause \<Rightarrow> if \<not> is_egress rule then dt else None | ServiceClause \<Rightarrow> None)"

inductive locked_step :: "env \<Rightarrow> client \<times> pool \<Rightarrow> client \<times> pool \<Rightarrow> bool" for env where
  begin_clause: "w (pr_ID rule, slot) = None \<Longrightarrow> rule_tables c rule = (rt, dt) \<Longrightarrow>
    locked_step env (c, w) (c, w((pr_ID rule, slot) \<mapsto> newClause (pr_ID rule) i n rt (slot_drop rule slot dt)))"
| add_address: "w (r, slot) = Some cl \<Longrightarrow> getAddressClause ty = Some slot \<Longrightarrow> proper_address a \<Longrightarrow>
    generateAddressConjMatch cl a ty = Some m \<Longrightarrow> addConjunctiveMatchFlow env m (c, cl) = (Ok (), (c', cl')) \<Longrightarrow>
    locked_step env (c, w) (c', w((r, slot) \<mapsto> cl'))"
| add_service: "w (r, ServiceClause) = Some cl \<Longrightarrow> generateServicePortConjMatch cl port = Some m \<Longrightarrow>
    addConjunctiveMatchFlow env m (c, cl) = (Ok (), (c', cl')) \<Longrightarrow>
    locked_step env (c, w) (c', w((r, ServiceClause) \<mapsto> cl'))"
| delete_match: "w (r, slot) = Some cl \<Longrightarrow> deleteConjunctiveMatchFlow env k (c, cl) = (Ok (), (c', cl')) \<Longrightarrow>
    locked_step env (c, w) (c', w((r, slot) \<mapsto> cl'))"
| other_flow: "foreign f \<Longrightarrow> m = flow_Add env f \<or> m = flow_Delete env f \<Longrightarrow> m c = (res, c') \<Longrightarrow>
    locked_step env (c, w) (c', w)"

definition pool_claims :: "pool \<Rightarrow> claim set" where
  "pool_claims w = (\<Union>s. opt_claims (w s))"

lemma in_pool_claims: "e \<in> pool_claims w \<longleftrightarrow> (\<exists>s. e \<in> opt_claims (w s))"
  by (simp add: pool_claims_def)

lemma pool_claims_put: "pool_claims (w(s \<mapsto> cl)) = pool_claims (w(s := None)) \<union> clause_claims cl"
proof (rule set_eqI)
  fix e
  have "(\<exists>t. e \<in> opt_claims ((w(s := v)) t)) \<longleftrightarrow> (\<exists>t. t \<noteq> s \<and> e \<in> opt_claims (w t)) \<or> e \<in> opt_claims v" for v
    by (metis fun_upd_apply)
  then show "e \<in> pool_claims (w(s \<mapsto> cl)) \<longleftrightarrow> e \<in> pool_claims (w(s := None)) \<union> clause_claims cl"
    by (simp add: in_pool_claims)
qed

definition locked_inv :: "client \<times> pool \<Rightarrow> bool" where
  "locked_inv = (\<lambda>(c, w). heap_ok c \<and> shown c \<and> caches_foreign c \<and> default_tables c \<and> mirror (pool_claims w) c \<and>
     (\<forall>r slot cl. w (r, slot) = Some cl \<longrightarrow> clause_ok c r cl \<and> clause_tables slot cl \<and>
        (\<forall>(k, p) \<in> set (cl_matches cl). slot_key slot k)))"

lemma locked_invD:
  assumes "locked_inv (c, w)"
  shows "heap_ok c" "shown c" "caches_foreign c" "default_tables c" "mirror (pool_claims w) c"
    and "w (r, slot) = Some cl \<Longrightarrow> clause_ok c r cl" "w (r, slot) = Some cl \<Longrightarrow> clause_tables slot cl"
    "w (r, slot) = Some cl \<Longrightarrow> (k, p) \<in> set (cl_matches cl) \<Longrightarrow> slot_key slot k"
  using assms unfolding locked_inv_def prod.case by blast+

text \<open>One clause at work, beside the claims of the others.\<close>

lemma pool_rest:
  assumes inv: "locked_inv (c, w)" and cl: "w (r, slot) = Some cl"
  shows "leaves_slot (pool_claims (w((r, slot) := None))) r slot"
    and "pictured c r (cl_ruleTable cl) slot (pool_claims (w((r, slot) := None))) (c, cl)"
proof -
  let ?E = "pool_claims (w((r, slot) := None))"
  have False if k: "slot_key slot k" and e: "(a, k, p) \<in> ?E" "ca_conjID a = r" for a k p
  proof -
    from e(1) obtain t where "(a, k, p) \<in> opt_claims ((w((r, slot) := None)) t)" by (auto simp: in_pool_claims)
    then obtain r' s d where d: "w (r', s) = Some d" "(r', s) \<noteq> (r, slot)" "(a, k, p) \<in> clause_claims d"
      by (cases t) (auto simp: opt_claims_def split: option.splits if_splits)
    then have "a = cl_action d" "(k, p) \<in> set (cl_matches d)" by (auto simp: clause_claims_def)
    with locked_invD(6,8) [OF inv d(1)] e(2) have "r' = r" "slot_key s k" by (auto simp: clause_ok_def)
    with slot_key_unique [OF k] d(2) show False by auto
  qed
  then show "leaves_slot ?E r slot" unfolding leaves_slot_def claimed_by_def by blast
  have "pool_claims w = ?E \<union> clause_claims cl" using pool_claims_put [of w "(r, slot)" cl] cl by (simp add: fun_upd_idem)
  with locked_invD(1,5) [OF inv] locked_invD(6,8) [OF inv cl]
  have "mirrored c r (cl_ruleTable cl) slot ?E (c, cl)" by (auto simp: extends_refl)
  with locked_invD(2,7) [OF inv] cl show "pictured c r (cl_ruleTable cl) slot ?E (c, cl)" by simp
qed

lemma locked_inv_clause:
  assumes inv: "locked_inv (c, w)" and cl: "w (r, slot) = Some cl"
    and m: "m = addConjunctiveMatchFlow env v \<or> m = deleteConjunctiveMatchFlow env k" and run: "m (c, cl) = (Ok (), (c', cl'))"
    and post: "pictured c r (cl_ruleTable cl) slot (pool_claims (w((r, slot) := None))) (c', cl')"
  shows "locked_inv (c', w((r, slot) \<mapsto> cl'))"
proof -
  have "pipelines.I' (pipeline c) (c', cl')"
    using m run pipelines.keeps_clause_ops [of "pipeline c" env, THEN keepsE, of "(c, cl)"]
    by (auto simp: pipelines.I'_def)
  then have p: "default_tables c'" using locked_invD(4) [OF inv]
    by (simp add: pipelines.I'_def default_tables_def table_at_def)
  have f: "caches_foreign c'"
    using m run locked_invD(3) [OF inv] foreign_caches.keeps_clause_ops [of env, THEN keepsE, of "(c, cl)"]
    by (auto simp: foreign_caches.I'_def)
  have le: "heap_le c c'" and ok: "heap_ok c'" using post by (auto simp: extends_def)
  have mir: "mirror (pool_claims (w((r, slot) \<mapsto> cl'))) c'" using post by (simp add: pool_claims_put)
  have "clause_ok c' r' d \<and> clause_tables s d \<and> (\<forall>(k, p) \<in> set (cl_matches d). slot_key s k)"
    if d: "(w((r, slot) \<mapsto> cl')) (r', s) = Some d" for r' s d
  proof (cases "(r', s) = (r, slot)")
    case True
    with d post show ?thesis by auto
  next
    case False
    with d have "w (r', s) = Some d" by (auto split: if_splits)
    with locked_invD(6-8) [OF inv this] clause_ok_mono [OF _ le] show ?thesis by blast
  qed
  with ok p f mir post show ?thesis by (simp add: locked_inv_def del: mirrored.simps)
qed

lemma begin_tables:
  assumes "wf_pipeline c" "default_tables c" "rule_tables c rule = (rt, dt)"
  shows "clause_tables slot (newClause r i n rt (slot_drop rule slot dt))"
  using rule_clause_tables [OF assms] by (cases slot) (simp_all add: slot_drop_def)

lemma locked_step_inv:
  assumes fair: "fair_env env" and step: "locked_step env s s'" and inv: "locked_inv s"
  shows "locked_inv s'"
  using step inv
proof cases
  case (begin_clause w rule slot c rt dt i n)
  let ?cl = "newClause (pr_ID rule) i n rt (slot_drop rule slot dt)"
  note at = locked_invD [OF inv [unfolded begin_clause(1)]]
  have "w((pr_ID rule, slot) := None) = w" using begin_clause(3) by (simp add: fun_upd_idem)
  then have "pool_claims (w((pr_ID rule, slot) \<mapsto> ?cl)) = pool_claims w"
    by (simp add: pool_claims_put clause_claims_def newClause_def)
  moreover have "clause_ok c (pr_ID rule) ?cl" "cl_matches ?cl = []"
    by (simp_all add: clause_ok_def newClause_def points_to_def)
  ultimately show ?thesis
    using at begin_tables [OF shown_wf [OF at(2)] at(4) begin_clause(4)]
    by (auto simp: locked_inv_def begin_clause(2) split: if_splits)
next
  case (add_address w r slot cl ty a m c c' cl')
  note rest = pool_rest [OF inv [unfolded add_address(1)] add_address(3)]
  have k: "key_slot (cm_matchKey m) = Some slot" using address_slot [OF add_address(4,6)] .
  have "clause_match cl m"
    using clause_matches(1) [OF locked_invD(7) [OF inv [unfolded add_address(1)] add_address(3)] add_address(6,4,5)] .
  with rest(2) have "pictured c r (cl_ruleTable cl) slot (pool_claims (w((r, slot) := None))) (c, cl) \<and> clause_match (snd (c, cl)) m"
    by (simp del: pictured.simps)
  from tripleD [OF add_pictured [OF fair rest(1) k] this add_address(7)] show ?thesis unfolding add_address(2)
    by (intro locked_inv_clause [OF inv [unfolded add_address(1)] add_address(3) disjI1 [OF refl] add_address(7)]) (simp del: pictured.simps)
next
  case (add_service w r cl port m c c' cl')
  note rest = pool_rest [OF inv [unfolded add_service(1)] add_service(3)]
  have k: "key_slot (cm_matchKey m) = Some ServiceClause" using service_slot [OF add_service(4) [symmetric]] .
  have "clause_match cl m"
    using clause_matches(2) [OF locked_invD(7) [OF inv [unfolded add_service(1)] add_service(3)] add_service(4) refl] .
  with rest(2) have "pictured c r (cl_ruleTable cl) ServiceClause (pool_claims (w((r, ServiceClause) := None))) (c, cl) \<and> clause_match (snd (c, cl)) m"
    by (simp del: pictured.simps)
  from tripleD [OF add_pictured [OF fair rest(1) k] this add_service(5)] show ?thesis unfolding add_service(2)
    by (intro locked_inv_clause [OF inv [unfolded add_service(1)] add_service(3) disjI1 [OF refl] add_service(5)]) (simp del: pictured.simps)
next
  case (delete_match w r slot cl k c c' cl')
  note rest = pool_rest [OF inv [unfolded delete_match(1)] delete_match(3)]
  from tripleD [OF delete_pictured [OF fair rest(1)] rest(2) delete_match(4)]
  show ?thesis unfolding delete_match(2)
    by (intro locked_inv_clause [OF inv [unfolded delete_match(1)] delete_match(3) disjI2 [OF refl] delete_match(4)]) (simp del: pictured.simps)
next
  case (other_flow f m c res c' w)
  note at = locked_invD [OF inv [unfolded other_flow(1)]]
  have "untouched c c" using at shown_wf by (simp add: untouched_def)
  moreover have "keeps (untouched c) m" using other_flow(4) untouched_flow_ops(3,4) [OF other_flow(3)] by auto
  ultimately have u: "untouched c c'" using other_flow(5) keepsE [of "untouched c" m c] by blast
  have "heap_ok c' \<and> heap_le c c'"
    using u at(1) by (simp add: untouched_def heap_ok_def heap_le_def points_to_def)
  moreover from this have "clause_ok c' r cl" if "w (r, slot) = Some cl" for r slot cl
    using clause_ok_mono locked_invD(6) [OF inv [unfolded other_flow(1)] that] by blast
  moreover have "default_tables c'" using at(4) u by (simp add: default_tables_def table_at_def untouched_def)
  moreover have "mirror (pool_claims w) c'" using u by (intro mirror_cong [OF at(5)]) (simp_all add: untouched_def)
  moreover have "caches_foreign c'" using u by (simp add: untouched_def)
  moreover note locked_invD(7,8) [OF inv [unfolded other_flow(1)]] shown_untouched [OF at(2) u]
  ultimately show ?thesis unfolding locked_inv_def other_flow(2) prod.case by blast
qed

inductive_cases locked_stepE: "locked_step env (c, w) s"

lemma locked_steps_inv:
  "rtranclp (locked_step env) s s' \<Longrightarrow> fair_env env \<Longrightarrow> locked_inv s \<Longrightarrow> locked_inv s'"
  by (induction rule: rtranclp_induct) (auto intro: locked_step_inv)

lemma fresh_locked_inv:
  assumes "fresh_client c" "wf_pipeline c" "default_tables c"
  shows "locked_inv (c, \<lambda>_. None)"
proof -
  have "in_step c" using fresh_in_step [OF assms] .
  moreover have "pool_claims (\<lambda>_. None) = {}" by (simp add: pool_claims_def)
  moreover have "rule_claims c = {}"
    using assms(1) by (simp add: rule_claims_def slot_claims_def getPolicyRuleConjunction_def fresh_client_def)
  ultimately show ?thesis
    using mirrorsD(1,3) [of c] by (simp add: locked_inv_def in_step_def np_ok_def)
qed

end
