(* ===== verification/PolicyEnforced.thy ===== *)
theory PolicyEnforced
  imports PolicyLocked
begin

text \<open>
  What the flows of a rule do to a packet: the clauses of a cached rule keep the actions it was installed with, and
  so the switch finds its conjunction exactly for the packets that satisfy a match of each clause.
\<close>

section \<open>The shape of a cached rule\<close>

fun slot_given :: "PolicyRule \<Rightarrow> clause_slot \<Rightarrow> bool" where
  "slot_given rule FromClause \<longleftrightarrow> pr_From rule \<noteq> None"
| "slot_given rule ToClause \<longleftrightarrow> pr_To rule \<noteq> None"
| "slot_given rule ServiceClause \<longleftrightarrow> pr_Service rule \<noteq> None"

definition shaped :: "32 word \<Rightarrow> policyRuleConjunction \<Rightarrow> bool" where
  "shaped r pc \<longleftrightarrow> (\<exists>rule. pr_ID rule = r \<and> (\<forall>slot. map_option cl_action (slot_clause slot pc) =
     (if slot_given rule slot then Some (slot_action rule slot) else None)))"

definition shapes :: "client \<Rightarrow> bool" where
  "shapes c \<longleftrightarrow> (\<forall>r pc. getPolicyRuleConjunction c r = Some pc \<longrightarrow> shaped r pc)"

lemma shapes_cache: "policyCache c' = policyCache c \<Longrightarrow> shapes c' = shapes c"
  by (simp add: shapes_def getPolicyRuleConjunction_def)

text \<open>Work on a clause leaves its action.\<close>

definition acting :: "conjunctiveAction \<Rightarrow> clause_state \<Rightarrow> bool" where
  "acting a s \<longleftrightarrow> cl_action (snd s) = a"

lemma acting_on_fst: "keeps (acting a) (on_fst m)"
  by (auto simp: keeps_def acting_def on_fst_def split: prod.split)

lemma acting_modify: "(\<And>cl. cl_action (f cl) = cl_action cl) \<Longrightarrow> keeps (acting a) (modify (\<lambda>(c, cl). (c, f cl)))"
  by (rule keepsI) (auto simp: acting_def modify_eval)

lemma acting_clause_ops:
  "keeps (acting a) (addConjunctiveMatchFlow env m)" "keeps (acting a) (deleteConjunctiveMatchFlow env k)"
  unfolding addConjunctiveMatchFlow_def deleteConjunctiveMatchFlow_def Let_def
  by (auto intro!: go_keeps acting_on_fst acting_modify)

lemma acting_loops:
  "keeps (acting a) (addAddrFlows env ty as)" "keeps (acting a) (addServiceFlows env ps)"
  "keeps (acting a) (deleteAddrFlows env ty as)" "keeps (acting a) (deleteAllMatches env)"
  unfolding addAddrFlows_def addServiceFlows_def deleteAddrFlows_def deleteAllMatches_def case_prod_unfold
  by (intro go_keeps acting_clause_ops)+

lemma shapes_put:
  assumes c: "shapes c" and pc: "getPolicyRuleConjunction c r = Some pc" and cl: "slot_clause slot pc = Some cl"
    and d: "cl_action d = cl_action cl"
  shows "shapes (put_clause r slot d c)"
proof -
  have "map_option cl_action (slot_clause s (set_slot slot d pc)) = map_option cl_action (slot_clause s pc)" for s
    using cl d by (simp add: set_slot_simps)
  then have "shaped r (set_slot slot d pc) = shaped r pc" by (simp add: shaped_def)
  with c pc show ?thesis
    by (auto simp: shapes_def put_clause_def getPolicyRuleConjunction_def split: if_splits)
qed

lemma on_cached_shapes:
  assumes c: "shapes c" and pc: "getPolicyRuleConjunction c r = Some pc" and cl: "slot_clause slot pc = Some cl"
    and m: "\<And>a. keeps (acting a) m" "\<And>ps. keeps (rules.I' ps) m"
  shows "shapes (snd (on_cached_clause r slot cl m c))"
proof -
  obtain res c1 d where run: "m (c, cl) = (res, (c1, d))" by (metis prod.exhaust)
  have d: "cl_action d = cl_action cl" using keepsE [OF m(1) _ run, of "cl_action cl"] by (simp add: acting_def)
  have same: "policyCache c1 = policyCache c" using keepsE [OF m(2) _ run, of "policyCache c"] by (simp add: rules.I'_def)
  then have "shapes c1" "getPolicyRuleConjunction c1 r = Some pc"
    using c pc shapes_cache [of c1 c] by (simp_all add: getPolicyRuleConjunction_def)
  with shapes_put [OF _ _ cl d] show ?thesis by (simp add: on_cached_clause_def run)
qed

lemma delete_clause_shapes: "keeps shapes (delete_clause env r slot)"
proof (rule keepsI)
  fix c assume c: "shapes c"
  show "shapes (snd (delete_clause env r slot c))"
  proof (cases "Option.bind (getPolicyRuleConjunction c r) (slot_clause slot)")
    case None
    with c show ?thesis by (auto simp: delete_clause_def go_eval)
  next
    case (Some cl)
    then obtain pc where pc: "getPolicyRuleConjunction c r = Some pc" and cl: "slot_clause slot pc = Some cl"
      by (auto simp: bind_eq_Some_conv)
    from on_cached_shapes [OF c pc cl acting_loops(4) rules.keeps_clause_loops(4)] Some
    show ?thesis by (simp add: delete_clause_def go_eval)
  qed
qed

lemma address_call_shapes:
  assumes m: "\<And>a. keeps (acting a) m" "\<And>ps. keeps (rules.I' ps) m"
  shows "keeps shapes (on_address_clause r ty m)"
proof (rule keepsI)
  fix c assume c: "shapes c"
  show "shapes (snd (on_address_clause r ty m c))"
    using c on_cached_shapes [OF c _ _ m]
    by (auto simp: on_address_clause_def go_eval split: option.splits)
qed

lemma shapes_flows: "keeps shapes (flow_Add env f)" "keeps shapes (flow_Modify env f)" "keeps shapes (flow_Delete env f)"
    "keeps shapes (run env (OfctlShow b))"
proof -
  note same = flow_op_more [OF prod.collapse [symmetric], THEN client_more(4), THEN shapes_cache]
  show "keeps shapes (flow_Add env f)" "keeps shapes (flow_Modify env f)" "keeps shapes (flow_Delete env f)"
    by (simp_all add: keeps_def same)
  show "keeps shapes (run env (OfctlShow b))"
    by (simp add: keeps_def run_eq shapes_def getPolicyRuleConjunction_def)
qed

interpretation shape: cache_blind shapes env for env
  by unfold_locales (auto simp: shapes_flows shapes_def getPolicyRuleConjunction_def)

lemma Uninstall_shapes: "keeps shapes (UninstallPolicyRuleFlows env r)"
proof -
  have "keeps shapes (modify (\<lambda>c. c\<lparr>policyCache := AList.delete r (policyCache c)\<rparr>))"
    by (rule keepsI) (auto simp: modify_eval shapes_def getPolicyRuleConjunction_def delete_conv' split: if_splits)
  then show ?thesis unfolding UninstallPolicyRuleFlows_def by (intro go_keeps delete_clause_shapes shapes_flows)
qed

lemma installed_action:
  assumes "install_clause items (newClause r i n rt dt) add c = (Ok cl, c')" and "\<And>a xs. keeps (acting a) (add xs)"
  shows "map_option cl_action cl =
    (if items \<noteq> None then Some \<lparr>ca_conjID = r, ca_clauseID = i, ca_nClause = n\<rparr> else None)"
proof (cases items)
  case None
  with assms(1) show ?thesis by (simp add: install_clause_def ret_eval)
next
  case (Some xs)
  let ?cl = "newClause r i n rt dt"
  from assms(1) Some obtain d where 1: "add xs (c, ?cl) = (Ok (), (c', d))" and cl: "cl = Some d"
    by (auto simp: install_clause_def on_new_clause_def gbind_eval ret_eval split: prod.splits result.splits)
  have "cl_action d = cl_action ?cl" using keepsE [OF assms(2) _ 1, of "cl_action ?cl"] by (simp add: acting_def)
  with cl Some show ?thesis by (simp add: newClause_def)
qed

lemma Install_shapes:
  assumes fair: "fair_env env" and c: "mirrors c" "shapes c" and run: "InstallPolicyRuleFlows env rule c = (Ok (), c')"
  shows "shapes c'"
proof (cases "getPolicyRuleConjunction c (pr_ID rule)")
  case (Some pc)
  with run c show ?thesis by (auto simp: InstallPolicyRuleFlows_def gbind_eval gets_eval ret_eval split: prod.splits)
next
  case None
  let ?r = "pr_ID rule"
  from Install_steps [OF fair c(1) None run] obtain n f t v rt dt fs c0 c1 c2 c3 fc tc sc where
    ids: "clause_ids rule = (n, f, t, v)"
    and 1: "install_clause (pr_From rule) (newClause ?r f n rt (if is_egress rule then dt else None))
      (addAddrFlows env SrcAddress) c0 = (Ok fc, c1)"
    and 2: "install_clause (pr_To rule) (newClause ?r t n rt (if \<not> is_egress rule then dt else None))
      (addAddrFlows env DstAddress) c1 = (Ok tc, c2)"
    and 3: "install_clause (pr_Service rule) (newClause ?r v n rt None) (addServiceFlows env) c2 = (Ok sc, c3)"
    and c': "c' = c3\<lparr>policyCache := AList.update ?r \<lparr>pc_id = ?r, pc_fromClause = fc, pc_toClause = tc,
        pc_serviceClause = sc, pc_actionFlows = fs\<rparr> (policyCache c3)\<rparr>"
    and cache: "policyCache c3 = policyCache c" by metis
  let ?pc = "\<lparr>pc_id = ?r, pc_fromClause = fc, pc_toClause = tc, pc_serviceClause = sc, pc_actionFlows = fs\<rparr>"
  note acts = installed_action [OF 1 acting_loops(1)] installed_action [OF 2 acting_loops(1)] installed_action [OF 3 acting_loops(2)]
  have "map_option cl_action (slot_clause slot ?pc) = (if slot_given rule slot then Some (slot_action rule slot) else None)" for slot
    using acts by (cases slot) (simp_all add: slot_action_def ids)
  then have "shaped ?r ?pc" unfolding shaped_def by blast
  with c(2) show ?thesis by (auto simp: shapes_def c' cache getPolicyRuleConjunction_def split: if_splits)
qed

lemma invoke_shapes:
  assumes "fair_env env" and "mirrors c" "shapes c" and "invoke env k c = (Ok (), c')"
  shows "shapes c'"
proof (cases "call_rule k")
  case None
  then have "keeps shapes (invoke env k)"
    by (cases k) (simp_all add: shape.keeps_Initialize shape.keeps_client_go)
  with assms(3,4) show ?thesis by (blast dest: keepsE)
next
  case (Some r)
  show ?thesis
  proof (cases "\<exists>rule. k = CInstallPolicyRuleFlows rule")
    case True
    with assms Install_shapes show ?thesis by auto
  next
    case False
    have "keeps shapes (AddPolicyRuleAddress env i ty as)" "keeps shapes (DeletePolicyRuleAddress env i ty as)" for i ty as
      unfolding AddPolicyRuleAddress_def DeletePolicyRuleAddress_def
      by (intro address_call_shapes acting_loops rules.keeps_clause_loops)+
    with False Some have "keeps shapes (invoke env k)" by (cases k) (simp_all add: Uninstall_shapes)
    with assms(3,4) show ?thesis by (blast dest: keepsE)
  qed
qed

lemma after_nil_shapes:
  "fair_env env \<Longrightarrow> mirrors c \<Longrightarrow> shapes c \<Longrightarrow> after_nil env ks c = Some c' \<Longrightarrow> shapes c'"
proof (induction ks arbitrary: c)
  case Nil
  then show ?case by simp
next
  case (Cons k ks)
  then obtain d where "invoke env k c = (Ok (), d)" "after_nil env ks d = Some c'"
    by (auto split: prod.splits result.splits)
  with Cons invoke_shapes [of env c k d] invoke_mirrors [of env c k d] show ?case by blast
qed

section \<open>The ids of the clauses\<close>

lemma three: "1 \<le> k \<Longrightarrow> k \<le> 3 \<Longrightarrow> k = 1 \<or> k = 2 \<or> k = (3 :: 8 word)"
proof -
  assume "1 \<le> k" "k \<le> 3"
  then have "unat k = unat (1 :: 8 word) \<or> unat k = unat (2 :: 8 word) \<or> unat k = unat (3 :: 8 word)"
    by (auto simp: word_le_nat_alt)
  then show ?thesis by (simp only: word_unat_eq_iff [symmetric])
qed

lemma up_to:
  "1 \<le> k \<and> k \<le> 1 \<longleftrightarrow> k = (1 :: 8 word)" "1 \<le> k \<and> k \<le> 2 \<longleftrightarrow> k = 1 \<or> k = (2 :: 8 word)"
  "1 \<le> k \<and> k \<le> 3 \<longleftrightarrow> k = 1 \<or> k = 2 \<or> k = (3 :: 8 word)"
proof -
  have le: "k \<le> 1 \<Longrightarrow> k \<le> 3" "k \<le> 2 \<Longrightarrow> k \<le> 3" by (simp_all add: word_le_nat_alt)
  show "1 \<le> k \<and> k \<le> 3 \<longleftrightarrow> k = 1 \<or> k = 2 \<or> k = (3 :: 8 word)" using three [of k] by auto
  show "1 \<le> k \<and> k \<le> 1 \<longleftrightarrow> k = (1 :: 8 word)" using three [of k] le(1) by auto
  show "1 \<le> k \<and> k \<le> 2 \<longleftrightarrow> k = 1 \<or> k = (2 :: 8 word)" using three [of k] le(2) by auto
qed

text \<open>The slots that are given have the ids from 1 to their number, each its own.\<close>

lemma slot_ids:
  assumes "slot_given rule s"
  shows "1 \<le> k \<and> k \<le> ca_nClause (slot_action rule s) \<longleftrightarrow> (\<exists>slot. slot_given rule slot \<and> slot_action rule slot =
      \<lparr>ca_conjID = pr_ID rule, ca_clauseID = k, ca_nClause = ca_nClause (slot_action rule s)\<rparr>)"
    and "slot_given rule s' \<Longrightarrow> slot_action rule s' = slot_action rule s \<Longrightarrow> s' = s"
proof -
  have all: "(\<exists>slot. P slot) \<longleftrightarrow> P FromClause \<or> P ToClause \<or> P ServiceClause" for P by (metis clause_slot.exhaust)
  show "1 \<le> k \<and> k \<le> ca_nClause (slot_action rule s) \<longleftrightarrow> (\<exists>slot. slot_given rule slot \<and> slot_action rule slot =
      \<lparr>ca_conjID = pr_ID rule, ca_clauseID = k, ca_nClause = ca_nClause (slot_action rule s)\<rparr>)"
    using assms unfolding all
    by (cases s; cases "pr_From rule"; cases "pr_To rule"; cases "pr_Service rule")
      (auto simp: slot_action_def clause_ids_def up_to)
  show "slot_given rule s' \<Longrightarrow> slot_action rule s' = slot_action rule s \<Longrightarrow> s' = s"
    using assms
    by (cases s; cases s'; cases "pr_From rule"; cases "pr_To rule"; cases "pr_Service rule")
      (auto simp: slot_action_def clause_ids_def)
qed

lemma conj_text_inject:
  "action_text a = action_text b \<longleftrightarrow> a = b"
proof
  assume "action_text a = action_text b"
  then have 1: "dec (unat (ca_conjID a)) @ ('','' @ dec (unat (ca_clauseID a)) @ ''/'' @ dec (unat (ca_nClause a)) @ '')'') =
      dec (unat (ca_conjID b)) @ ('','' @ dec (unat (ca_clauseID b)) @ ''/'' @ dec (unat (ca_nClause b)) @ '')'')"
    by (simp add: conj_text_def)
  from dec_append_inject [OF 1] have r: "unat (ca_conjID a) = unat (ca_conjID b)"
    and 2: "dec (unat (ca_clauseID a)) @ (''/'' @ dec (unat (ca_nClause a)) @ '')'') =
      dec (unat (ca_clauseID b)) @ (''/'' @ dec (unat (ca_nClause b)) @ '')'')" by (simp_all add: is_digit_def)
  from dec_append_inject [OF 2] have i: "unat (ca_clauseID a) = unat (ca_clauseID b)"
    and 3: "dec (unat (ca_nClause a)) @ '')'' = dec (unat (ca_nClause b)) @ '')''" by (simp_all add: is_digit_def)
  from dec_append_inject [OF 3] have "unat (ca_nClause a) = unat (ca_nClause b)" by (simp_all add: is_digit_def)
  with r i show "a = b" by (cases a; cases b) (simp add: word_unat_eq_iff [symmetric])
qed simp

section \<open>Packets\<close>

text \<open>
  A packet, by the match texts it satisfies. In a rule table the switch finds a conjunction for it, as ovs-ofctl
  describes the action, if for each of its dimensions a flow the packet satisfies has the action for that dimension.
\<close>

definition conj_hit :: "client \<Rightarrow> (string \<Rightarrow> bool) \<Rightarrow> table_id \<Rightarrow> conjunctiveAction \<Rightarrow> bool" where
  "conj_hit c sat t a \<longleftrightarrow> (\<exists>m f. good_match m \<and> cm_tableID m = t \<and> sat (match_text t m) \<and>
     rule_flow c m = Some f \<and> action_text a \<in> set (fl_actions f))"

definition conj_fires :: "client \<Rightarrow> (string \<Rightarrow> bool) \<Rightarrow> table_id \<Rightarrow> 32 word \<Rightarrow> 8 word \<Rightarrow> bool" where
  "conj_fires c sat t r n \<longleftrightarrow>
     (\<forall>k. 1 \<le> k \<and> k \<le> n \<longrightarrow> conj_hit c sat t \<lparr>ca_conjID = r, ca_clauseID = k, ca_nClause = n\<rparr>)"

text \<open>The packet satisfies one of the matches of a clause.\<close>

definition satisfies :: "(string \<Rightarrow> bool) \<Rightarrow> table_id \<Rightarrow> clause \<Rightarrow> bool" where
  "satisfies sat t cl \<longleftrightarrow> (\<exists>m p. good_match m \<and> cm_tableID m = t \<and> sat (match_text t m) \<and>
     (generateGlobalMapKey m, p) \<in> set (cl_matches cl))"

lemma conj_hit_iff:
  assumes c: "mirrors c" "shown c" and a: "1 < ca_nClause a"
  shows "conj_hit c sat t a \<longleftrightarrow> (\<exists>r pc slot cl. getPolicyRuleConjunction c r = Some pc \<and> slot_clause slot pc = Some cl \<and>
    cl_action cl = a \<and> satisfies sat t cl)"
proof -
  have act: "(\<exists>f. rule_flow c m = Some f \<and> action_text a \<in> set (fl_actions f)) \<longleftrightarrow>
      a \<in> claimed_actions (rule_claims c) (generateGlobalMapKey m)" if m: "good_match m" for m
  proof -
    let ?A = "claimed_actions (rule_claims c) (generateGlobalMapKey m)"
    have "says c m ?A (claimed_key (rule_claims c) (generateGlobalMapKey m))"
      using claims_say [OF mirrorsD(3) [OF c(1)] _ c(2) m refl] mirrorsD(1) [OF c(1)] by (simp add: np_ok_def)
    then have says: "finite ?A" "rule_flow c m = None \<longleftrightarrow> ?A = {}"
      "\<And>f. rule_flow c m = Some f \<Longrightarrow> mset (fl_actions f) = image_mset action_text (mset_set ?A)" by (auto simp: says_def)
    have "set (fl_actions f) = action_text ` ?A" if "rule_flow c m = Some f" for f
      using arg_cong [OF says(3) [OF that], of set_mset] says(1) by simp
    then show ?thesis using says(2) conj_text_inject by (cases "rule_flow c m") auto
  qed
  have "a \<in> claimed_actions (rule_claims c) k \<longleftrightarrow> (\<exists>r pc slot cl p. getPolicyRuleConjunction c r = Some pc \<and>
      slot_clause slot pc = Some cl \<and> cl_action cl = a \<and> (k, p) \<in> set (cl_matches cl))" for k
    unfolding claimed_actions_def in_rule_claims slot_claims_iff using a by blast
  with act show ?thesis unfolding conj_hit_def satisfies_def by blast
qed

lemma fires_iff:
  assumes c: "mirrors c" "shown c" "shapes c" and pc: "getPolicyRuleConjunction c r = Some pc"
    and s: "slot_clause s pc = Some e" and n: "n = ca_nClause (cl_action e)" "1 < n"
  shows "conj_fires c sat t r n \<longleftrightarrow> (\<forall>slot cl. slot_clause slot pc = Some cl \<longrightarrow> satisfies sat t cl)"
proof -
  from c(3) pc obtain rule where id: "pr_ID rule = r" and shape: "\<And>slot. map_option cl_action (slot_clause slot pc) =
      (if slot_given rule slot then Some (slot_action rule slot) else None)" by (auto simp: shapes_def shaped_def)
  have given: "slot_given rule slot \<longleftrightarrow> slot_clause slot pc \<noteq> None" for slot
    using shape [of slot] by (cases "slot_clause slot pc") (auto split: if_splits)
  have action: "cl_action cl = slot_action rule slot" if "slot_clause slot pc = Some cl" for slot cl
    using shape [of slot] that by (auto split: if_splits)
  have sg: "slot_given rule s" using given s by simp
  have ns: "ca_nClause (slot_action rule s) = n" using n action [OF s] by simp
  note ids = slot_ids(1) [OF sg, unfolded ns id]
  have conjID: "ca_conjID (cl_action d) = q" if "getPolicyRuleConjunction c q = Some pd" "slot_clause u pd = Some d" for q pd u d
    using cached_clause_id [OF mirrorsD(1) [OF c(1)] that] .
  have hit: "conj_hit c sat t (cl_action cl) \<longleftrightarrow> satisfies sat t cl"
    if cl: "slot_clause slot pc = Some cl" "ca_nClause (cl_action cl) = n" for slot cl
  proof -
    have "satisfies sat t cl" if "getPolicyRuleConjunction c q = Some pd" "slot_clause u pd = Some d"
      "cl_action d = cl_action cl" "satisfies sat t d" for q pd u d
    proof -
      have "q = r" using conjID [OF that(1,2)] conjID [OF pc cl(1)] that(3) by simp
      with that(1) pc have pd: "pd = pc" by simp
      with that(2) have "slot_given rule u" "slot_given rule slot" using given cl by auto
      moreover have "slot_action rule u = slot_action rule slot"
        using action [of u d] action [OF cl(1)] that(2,3) pd by simp
      ultimately have "u = slot" using slot_ids(2) by blast
      with that(2,4) pd cl(1) show ?thesis by simp
    qed
    with conj_hit_iff [OF c(1,2), of "cl_action cl"] cl n(2) pc show ?thesis by auto
  qed
  have at: "slot_given rule slot \<and> slot_action rule slot = a \<longleftrightarrow> (\<exists>cl. slot_clause slot pc = Some cl \<and> cl_action cl = a)"
    for slot a using given [of slot] action [of slot] by (cases "slot_clause slot pc") auto
  let ?a = "\<lambda>k. \<lparr>ca_conjID = r, ca_clauseID = k, ca_nClause = n\<rparr>"
  have clause: "1 \<le> k \<and> k \<le> n \<longleftrightarrow> (\<exists>slot cl. slot_clause slot pc = Some cl \<and> cl_action cl = ?a k)" for k
    unfolding ids at ..
  have id_of: "cl_action cl = ?a (ca_clauseID (cl_action cl))" if "slot_clause slot pc = Some cl" for slot cl
  proof -
    have "ca_conjID (cl_action cl) = r" using conjID [OF pc that] .
    moreover have "ca_nClause (cl_action cl) = n"
      unfolding action [OF that] ns [symmetric] by (simp add: slot_action_def split: prod.split)
    ultimately show ?thesis by (cases "cl_action cl") simp
  qed
  show ?thesis
  proof
    assume fires: "conj_fires c sat t r n"
    show "\<forall>slot cl. slot_clause slot pc = Some cl \<longrightarrow> satisfies sat t cl"
    proof (intro allI impI)
      fix slot cl assume cl: "slot_clause slot pc = Some cl"
      note id = id_of [OF cl]
      then have "ca_nClause (cl_action cl) = n" by (metis conjunctiveAction.select_convs(3))
      moreover have "1 \<le> ca_clauseID (cl_action cl) \<and> ca_clauseID (cl_action cl) \<le> n"
        unfolding clause using cl id by blast
      then have "conj_hit c sat t (cl_action cl)" using fires id unfolding conj_fires_def by metis
      ultimately show "satisfies sat t cl" using hit [OF cl] by blast
    qed
  next
    assume sat: "\<forall>slot cl. slot_clause slot pc = Some cl \<longrightarrow> satisfies sat t cl"
    show "conj_fires c sat t r n" unfolding conj_fires_def
    proof (intro allI impI)
      fix k assume "1 \<le> k \<and> k \<le> n"
      then obtain slot cl where cl: "slot_clause slot pc = Some cl" "cl_action cl = ?a k" unfolding clause by blast
      with sat hit [OF cl(1)] show "conj_hit c sat t (?a k)" by simp
    qed
  qed
qed

end
