(* ===== verification/SwitchProps.thy ===== *)
theory SwitchProps
  imports PolicyEnforced RuleProps
begin

text \<open>
  The switch and the rules: what is on the switch under the match text of a context, in terms of the clauses of the
  cached rules, and of clauses that are worked on at the same time.
\<close>

section \<open>The cached rules\<close>











section \<open>Packets\<close>








section \<open>Clauses at work at the same time\<close>











end
