(* ===== verification/PolicyStale.thy ===== *)
theory PolicyStale
  imports PolicyProps
begin


text \<open>A switch that refuses the second command.\<close>

definition env_refusing_second :: env where
  "env_refusing_second = \<lparr>executor = (\<lambda>h a. if length h = 1 then Some ''exit status 1'' else None),
     now = (\<lambda>n. n), iter = (\<lambda>n k. [0..<k])\<rparr>"








lemma pipeline_after [simp]: "pipeline (after env k f d c) = pipeline (c :: client)"
  by (simp add: after_def Let_def)




lemma sample_table_id [simp]: "GetID (sample_table k n) = k"
  by (simp add: sample_table_def GetID_def)







section \<open>The run\<close>

lemma accepts_refusing_second [simp]: "accepts env_refusing_second h k \<longleftrightarrow> length h \<noteq> 1"
  by (simp add: accepts_def env_refusing_second_def argvs_def)



end
