(* ===== verification/TcTools.thy ===== *)
theory TcTools
  imports GoNet
begin

text \<open>
  Package \<open>pkg/tctools\<close> and \<open>configureTC\<close> of \<open>pkg/cniserver/pod_configuration.go\<close>: parsing a bandwidth, and
  the queueing discipline, class and filter that limit the rate of a container interface. The
  netlink library is a parameter: what it answers to each request, and its constants.
\<close>

unbundle bit_operations_syntax

section \<open>Bandwidths\<close>

definition bandwidth_units :: "string list" where
  "bandwidth_units = [''k'', ''K'', ''m'', ''M'', ''kbps'', ''mbps'', ''Kbps'', ''Mbps'']"

text \<open>\<open>^[1-9][0-9]*\<close>: the digits at the start, if the first is not a zero.\<close>

definition find_number :: "string \<Rightarrow> string" where
  "find_number s =
     (case s of [] \<Rightarrow> [] | c # cs \<Rightarrow> if is_digit c \<and> c \<noteq> CHR ''0'' then takeWhile is_digit s else [])"

text \<open>\<open>(k|K|...)?$\<close>: the leftmost unit that ends the text.\<close>

fun find_unit :: "string \<Rightarrow> string" where
  "find_unit [] = []"
| "find_unit (c # cs) = (if (c # cs) \<in> set bandwidth_units then c # cs else find_unit cs)"

text \<open>The whole pattern: a number, then nothing or a unit.\<close>

definition bandwidth_matches :: "string \<Rightarrow> bool" where
  "bandwidth_matches s \<longleftrightarrow>
     find_number s \<noteq> [] \<and>
     (let r = drop (length (find_number s)) s in r = [] \<or> r \<in> set bandwidth_units)"

text \<open>\<open>strconv.ParseUint(s, 10, 32)\<close> of a text of digits.\<close>

definition ParseUint32 :: "string \<Rightarrow> nat option" where
  "ParseUint32 s = (if dec_value s < 2 ^ 32 then Some (dec_value s) else None)"

definition unit_factor :: "string \<Rightarrow> 64 word" where
  "unit_factor u =
     (if u \<in> {''k'', ''K'', ''kbps'', ''Kbps''} then 1000
      else if u \<in> {''m'', ''M'', ''mbps'', ''Mbps''} then 1000 * 1000
      else 1)"

definition errBandwidthFormat :: error where
  "errBandwidthFormat = ErrText
     (utf8 [0xe5, 0xb8, 0xa6, 0xe5, 0xae, 0xbd, 0xe6, 0xa0, 0xbc, 0xe5, 0xbc, 0x8f, 0xe4, 0xb8, 0x8d, 0xe6, 0xad, 0xa3, 0xe7, 0xa1, 0xae])"

definition errBandwidthNumber :: error where
  "errBandwidthNumber = ErrText
     (utf8 [0xe8, 0xa7, 0xa3, 0xe6, 0x9e, 0x90, 0xe5, 0xb8, 0xa6, 0xe5, 0xae, 0xbd, 0xe6, 0x95, 0xb0, 0xe5, 0xad, 0x97, 0xe5, 0xa4, 0xb1, 0xe8, 0xb4, 0xa5])"

definition validateBandwithFormat :: "string \<Rightarrow> error + 32 word" where
  "validateBandwithFormat bandwidth =
     (if \<not> bandwidth_matches bandwidth then Inl errBandwidthFormat
      else case ParseUint32 (find_number bandwidth) of
        None \<Rightarrow> Inl errBandwidthNumber
      | Some n \<Rightarrow> Inr (ucast (word_of_nat n * unit_factor (find_unit bandwidth))))"

record TCArgs =
  tc_Rate :: "32 word"
  tc_Burst :: "32 word"

text \<open>\<open>pod\<close> is what the API server answered: the annotations of the pod, which may be nil.\<close>

definition ConstructTcConfig ::
  "error + (string \<times> string) list option \<Rightarrow> error + TCArgs option" where
  "ConstructTcConfig pod =
     (case pod of
        Inl err \<Rightarrow> Inl err
      | Inr None \<Rightarrow> Inr None
      | Inr (Some annotations) \<Rightarrow>
          (case map_of annotations ''ciccni/egress-rate'' of
             None \<Rightarrow> Inr (Some \<lparr>tc_Rate = 0, tc_Burst = 0\<rparr>)
           | Some egressRate \<Rightarrow>
               (case validateBandwithFormat egressRate of
                  Inl err \<Rightarrow> Inl err
                | Inr rate \<Rightarrow> Inr (Some \<lparr>tc_Rate = rate, tc_Burst = rate div 10\<rparr>))))"

section \<open>Netlink objects\<close>

record HtbGlob =
  hg_Version :: "32 word"
  hg_Rate2Quantum :: "32 word"

record RateSpec =
  rs_CellLog :: "8 word"
  rs_Linklayer :: "8 word"
  rs_Overhead :: "16 word"
  rs_CellAlign :: "16 word"
  rs_Mpu :: "16 word"
  rs_Rate :: "32 word"

record U32Key =
  uk_Mask :: "32 word"
  uk_Val :: "32 word"
  uk_Off :: "32 word"

datatype tc_attr =
    HtbQdisc "HtbGlob option" "64 word option"
  | HtbClass RateSpec RateSpec
  | U32Filter "32 word" "32 word" "8 word" "U32Key list" "8 word"

record tc_object =
  tc_Ifindex :: "32 word"
  tc_Handle :: "32 word"
  tc_Parent :: "32 word"
  tc_Info :: "32 word"
  tc_Attribute :: tc_attr

datatype tc_request = QdiscAdd tc_object | ClassAdd tc_object | FilterAdd tc_object

text \<open>
  The library and the kernel: the index of an interface, whether a connection opens, the answer to
  a request after the ones sent before, and the handle arithmetic and constants of \<open>go-tc\<close>.
\<close>

record tc_env =
  InterfaceByName :: "string \<Rightarrow> error + int"
  tc_Open :: "tc_request list \<Rightarrow> error option"
  tc_answer :: "tc_request list \<Rightarrow> tc_request \<Rightarrow> error option"
  BuildHandle :: "32 word \<Rightarrow> 32 word \<Rightarrow> 32 word"
  HandleRoot :: "32 word"

definition TC_U32_TERMINAL :: "8 word" where "TC_U32_TERMINAL = 1"
definition TCA_CLS_FLAGS_SKIP_HW :: "32 word" where "TCA_CLS_FLAGS_SKIP_HW = 1"
definition tc_ProtocolIP :: "16 word" where "tc_ProtocolIP = 8"

lemmas tc_consts = TC_U32_TERMINAL_def TCA_CLS_FLAGS_SKIP_HW_def tc_ProtocolIP_def

definition createHTBObject ::
  "32 word \<Rightarrow> 32 word \<Rightarrow> 32 word \<Rightarrow> 64 word option \<Rightarrow> HtbGlob option \<Rightarrow> tc_object" where
  "createHTBObject ifIndex handle parent rate htbInit =
     \<lparr>tc_Ifindex = ifIndex, tc_Handle = handle, tc_Parent = parent, tc_Info = 0,
      tc_Attribute = HtbQdisc htbInit rate\<rparr>"

definition rate_spec :: "32 word \<Rightarrow> RateSpec" where
  "rate_spec r = \<lparr>rs_CellLog = 3, rs_Linklayer = 1, rs_Overhead = 0, rs_CellAlign = 0xffff,
     rs_Mpu = 0, rs_Rate = r\<rparr>"

definition createClassObject ::
  "32 word \<Rightarrow> 32 word \<Rightarrow> 32 word \<Rightarrow> 32 word \<Rightarrow> 32 word \<Rightarrow> tc_object" where
  "createClassObject ifIndex handle parent rate burst =
     \<lparr>tc_Ifindex = ifIndex, tc_Handle = handle, tc_Parent = parent, tc_Info = 0,
      tc_Attribute = HtbClass (rate_spec rate) (rate_spec (rate + burst))\<rparr>"

definition createFilterObject ::
  "32 word \<Rightarrow> 32 word \<Rightarrow> 32 word \<Rightarrow> 16 word \<Rightarrow> 16 word \<Rightarrow> U32Key list \<Rightarrow> tc_object" where
  "createFilterObject ifIndex parent flowid prio protocol keys =
     \<lparr>tc_Ifindex = ifIndex, tc_Handle = 0, tc_Parent = parent,
      tc_Info = push_bit 16 (ucast prio) OR ucast protocol,
      tc_Attribute = U32Filter flowid TCA_CLS_FLAGS_SKIP_HW TC_U32_TERMINAL keys
        (word_of_nat (length keys))\<rparr>"

section \<open>Requests\<close>

text \<open>The state is the list of requests that were accepted, the newest first.\<close>

definition tc_send :: "tc_env \<Rightarrow> tc_request \<Rightarrow> (tc_request list, unit) go" where
  "tc_send env r = (\<lambda>h. case tc_answer env h r of
     Some e \<Rightarrow> (Err e, h)
   | None \<Rightarrow> (Ok (), r # h))"

definition ifIndex_of :: "tc_env \<Rightarrow> string \<Rightarrow> (tc_request list, 32 word) go" where
  "ifIndex_of env ifName = (case InterfaceByName env ifName of
     Inl e \<Rightarrow> throw e | Inr i \<Rightarrow> ret (word_of_int i))"

definition createTcnl :: "tc_env \<Rightarrow> (tc_request list, unit) go" where
  "createTcnl env = (\<lambda>h. case tc_Open env h of Some e \<Rightarrow> (Err e, h) | None \<Rightarrow> (Ok (), h))"

definition addHTBToInterface :: "tc_env \<Rightarrow> string \<Rightarrow> (tc_request list, unit) go" where
  "addHTBToInterface env ifName =
     gbind (ifIndex_of env ifName) (\<lambda>idx.
     gseq (createTcnl env)
          (tc_send env (QdiscAdd (createHTBObject idx (BuildHandle env 1 0) (HandleRoot env) None
             (Some \<lparr>hg_Version = 3, hg_Rate2Quantum = 10\<rparr>)))))"

definition addHTBClass ::
  "tc_env \<Rightarrow> string \<Rightarrow> 32 word \<Rightarrow> 32 word \<Rightarrow> 32 word \<Rightarrow> 32 word \<Rightarrow> (tc_request list, unit) go" where
  "addHTBClass env ifName parent classid limit burst =
     gbind (ifIndex_of env ifName) (\<lambda>idx.
     let rate = limit
     in gseq (createTcnl env)
             (tc_send env (ClassAdd (createClassObject idx classid parent rate (rate + burst)))))"

text \<open>Four bytes as a little-endian number; fewer than four is an index out of range.\<close>

definition le_word :: "8 word list \<Rightarrow> 32 word option" where
  "le_word bs =
     (if length bs < 4 then None
      else Some (push_bit 24 (ucast (bs ! 3)) OR push_bit 16 (ucast (bs ! 2))
                 OR push_bit 8 (ucast (bs ! 1)) OR ucast (bs ! 0)))"

text \<open>
  The handles of the filter are the fixed ones, whatever \<open>parent\<close> and \<open>classId\<close> are. An address
  with no IPv4 form ends the call with the nil error that \<open>ParseCIDR\<close> left.
\<close>

definition AddTCFilterWithDstCidr ::
  "tc_env \<Rightarrow> string \<Rightarrow> 32 word \<Rightarrow> string \<Rightarrow> 32 word \<Rightarrow> 16 word \<Rightarrow> (tc_request list, unit) go" where
  "AddTCFilterWithDstCidr env ifName parent dstCidr classId prio =
     gbind (ifIndex_of env ifName) (\<lambda>idx.
     gseq (createTcnl env)
     (case ParseCIDR dstCidr of
        Inl err \<Rightarrow> throw err
      | Inr (ipAddr, cidr) \<Rightarrow>
          (let dstIP = To4 ipAddr
           in if dstIP = [] then ret ()
              else gbind (deref (le_word dstIP)) (\<lambda>dstIPUint32.
                   gbind (deref (le_word (ipnet_Mask cidr))) (\<lambda>maskUint32.
                   tc_send env (FilterAdd (createFilterObject idx (BuildHandle env 1 0)
                     (BuildHandle env 1 1) prio tc_ProtocolIP
                     [\<lparr>uk_Mask = maskUint32, uk_Val = dstIPUint32, uk_Off = 16\<rparr>])))))))"

text \<open>Deleting the root discipline is not written yet; the call does nothing.\<close>

definition DeleteRootFromInterface :: "string \<Rightarrow> (tc_request list, unit) go" where
  "DeleteRootFromInterface ifName = ret ()"

text \<open>\<open>get\<close> is what the kernel answers to a query of the filters of an interface, after the requests so far.\<close>

definition GetFilter ::
  "tc_env \<Rightarrow> (tc_request list \<Rightarrow> 32 word \<Rightarrow> error + tc_object list) \<Rightarrow> string \<Rightarrow> (tc_request list, tc_object list) go" where
  "GetFilter env get ifName =
     gbind (ifIndex_of env ifName) (\<lambda>idx.
     gseq (createTcnl env)
          (\<lambda>h. case get h idx of Inl err \<Rightarrow> (Err err, h) | Inr res \<Rightarrow> (Ok res, h)))"

definition CreateRootHTB :: "tc_env \<Rightarrow> string \<Rightarrow> (tc_request list, unit) go" where
  "CreateRootHTB env ifName = addHTBToInterface env ifName"

definition CreateHTBClass ::
  "tc_env \<Rightarrow> string \<Rightarrow> 32 word \<Rightarrow> 32 word \<Rightarrow> 32 word \<Rightarrow> 32 word \<Rightarrow> (tc_request list, unit) go" where
  "CreateHTBClass env ifName parent classid rate burst = addHTBClass env ifName parent classid rate burst"

definition configureTC :: "tc_env \<Rightarrow> string \<Rightarrow> 32 word \<Rightarrow> 32 word \<Rightarrow> (tc_request list, unit) go" where
  "configureTC env ifName rate burst =
     gseq (CreateRootHTB env ifName)
     (let classHandle = BuildHandle env 1 1; qdiscRootHandle = BuildHandle env 1 0
      in gseq (CreateHTBClass env ifName qdiscRootHandle classHandle rate burst)
              (AddTCFilterWithDstCidr env ifName qdiscRootHandle ''10.244.0.0/16'' classHandle 1))"

text \<open>A query sends no request, and answers what the kernel does.\<close>

lemma GetFilter_eq:
  "GetFilter env get ifName h = (case InterfaceByName env ifName of
     Inl e \<Rightarrow> (Err e, h)
   | Inr i \<Rightarrow> (case tc_Open env h of
       Some e \<Rightarrow> (Err e, h)
     | None \<Rightarrow> (case get h (word_of_int i) of Inl e \<Rightarrow> (Err e, h) | Inr res \<Rightarrow> (Ok res, h))))"
  by (simp add: GetFilter_def ifIndex_of_def createTcnl_def gbind_eval throw_eval ret_eval split: sum.split option.split)

section \<open>The unit of a valid bandwidth is what follows its number\<close>

lemma find_unit_skip: "(\<And>c. c \<in> set ds \<Longrightarrow> is_digit c) \<Longrightarrow> find_unit (ds @ r) = find_unit r"
proof (induction ds)
  case Nil
  then show ?case by simp
next
  case (Cons d ds)
  have "is_digit d" using Cons.prems by simp
  moreover have "\<not> is_digit (hd u)" if "u \<in> set bandwidth_units" for u
    using that by (auto simp: bandwidth_units_def is_digit_def)
  ultimately have "d # ds @ r \<notin> set bandwidth_units" by force
  with Cons show ?case by simp
qed

lemma find_unit_unit: "u \<in> set bandwidth_units \<Longrightarrow> find_unit u = u"
  by (cases u) simp_all

lemma find_number_prefix: "\<exists>r. s = find_number s @ r"
  by (cases s) (auto simp: find_number_def intro: exI [of _ "dropWhile is_digit s"])

lemma find_number_digits: "c \<in> set (find_number s) \<Longrightarrow> is_digit c"
  by (auto simp: find_number_def split: list.splits if_splits dest: set_takeWhileD)

lemma find_unit_rest:
  assumes "bandwidth_matches s"
  shows "find_unit s = drop (length (find_number s)) s"
proof -
  obtain r where s: "s = find_number s @ r" using find_number_prefix by blast
  then have r: "drop (length (find_number s)) s = r" by (metis append_eq_conv_conj)
  have "find_unit s = find_unit r" by (subst s) (rule find_unit_skip, rule find_number_digits)
  also have "\<dots> = r"
    using assms by (auto simp: bandwidth_matches_def r Let_def find_unit_unit)
  finally show ?thesis by (simp add: r)
qed

lemma dec_nonzero: "0 < n \<Longrightarrow> hd (dec n) \<noteq> CHR ''0''"
proof (induction n rule: less_induct)
  case (less n)
  show ?case
  proof (cases "n < 10")
    case True
    have "digit n \<noteq> digit 0" using less.prems True digit_inject [of n 0] by simp
    then show ?thesis using True by (simp add: fmt_base_less digit_def)
  next
    case False
    then have "dec n = dec (n div 10) @ [digit (n mod 10)]" by (subst fmt_base.simps) simp
    then show ?thesis using less.IH [of "n div 10"] False by (simp add: hd_append)
  qed
qed

lemma find_number_dec:
  assumes "0 < n" and "r = [] \<or> \<not> is_digit (hd r)"
  shows "find_number (dec n @ r) = dec n"
proof -
  obtain c cs where c: "dec n = c # cs" using fmt_base_nonempty by (cases "dec n") auto
  then have "is_digit c" and "c \<noteq> CHR ''0''"
    using dec_is_digit [of c n] dec_nonzero [OF assms(1)] by simp_all
  then show ?thesis using takeWhile_dec [OF assms(2), of n] by (simp add: find_number_def c)
qed

lemma unit_not_digit: "u \<in> set bandwidth_units \<Longrightarrow> \<not> is_digit (hd u)"
  by (auto simp: bandwidth_units_def is_digit_def)

text \<open>A printed number with a unit is read back as its value times the unit, modulo \<open>2 ^ 32\<close>.\<close>

lemma validate_dec:
  assumes "0 < n" and "u = [] \<or> u \<in> set bandwidth_units"
  shows "validateBandwithFormat (dec n @ u) =
    (if n < 2 ^ 32 then Inr (ucast (word_of_nat n * unit_factor u))
     else Inl errBandwidthNumber)"
proof -
  have num: "find_number (dec n @ u) = dec n"
    using assms unit_not_digit by (intro find_number_dec) auto
  then have m: "bandwidth_matches (dec n @ u)"
    using assms by (auto simp: bandwidth_matches_def)
  have "find_unit (dec n @ u) = u" using find_unit_rest [OF m] num by simp
  with num m show ?thesis by (simp add: validateBandwithFormat_def ParseUint32_def)
qed

end
