(* ===== verification/Iptables.thy ===== *)
theory Iptables
  imports Prelude
begin

text \<open>
  Package \<open>pkg/iptables\<close>: the preset rules and how they are put in place. The iptables library is a
  parameter over an unknown state of the kernel's tables.
\<close>

section \<open>The library\<close>

record 'k iptables =
  ListChains :: "'k \<Rightarrow> string \<Rightarrow> error + string list"
  NewChain :: "'k \<Rightarrow> string \<Rightarrow> string \<Rightarrow> error option \<times> 'k"
  Exists :: "'k \<Rightarrow> string \<Rightarrow> string \<Rightarrow> string list \<Rightarrow> error + bool"
  AppendRule :: "'k \<Rightarrow> string \<Rightarrow> string \<Rightarrow> string list \<Rightarrow> error option \<times> 'k"

record ipt_client =
  hostGateway :: string
  podCIDR :: string

text \<open>\<open>fresh\<close> is the error of \<open>iptables.New()\<close>.\<close>

definition ipt_NewClient :: "error option \<Rightarrow> string \<Rightarrow> string \<Rightarrow> error + ipt_client" where
  "ipt_NewClient fresh gw cidr = (case fresh of
     Some err \<Rightarrow> Inl (ErrWrap ''error creating IPTables instance: '' err)
   | None \<Rightarrow> Inr \<lparr>hostGateway = gw, podCIDR = cidr\<rparr>)"

section \<open>The rules\<close>

definition NATTable :: string where "NATTable = ''nat''"
definition FilterTable :: string where "FilterTable = ''filter''"
definition AcceptTarget :: string where "AcceptTarget = ''ACCEPT''"
definition MarkTarget :: string where "MarkTarget = ''MARK''"
definition MasqueradeTarget :: string where "MasqueradeTarget = ''MASQUERADE''"
definition ForwardChain :: string where "ForwardChain = ''FORWARD''"
definition CICCNIForwardChain :: string where "CICCNIForwardChain = ''CICCNI-FORWARD''"
definition CICCNIPostRoutingChain :: string where "CICCNIPostRoutingChain = ''CICCNI-POSTROUTING''"
definition PostRoutingChain :: string where "PostRoutingChain = ''POSTROUTING''"
definition ExternalPkgMark :: string where "ExternalPkgMark = ''0x40/0x40''"

lemmas ipt_consts = NATTable_def FilterTable_def AcceptTarget_def MarkTarget_def
  MasqueradeTarget_def ForwardChain_def CICCNIForwardChain_def CICCNIPostRoutingChain_def
  PostRoutingChain_def ExternalPkgMark_def

record ipt_rule =
  ru_table :: string
  ru_chain :: string
  ru_parameters :: "string list"
  ru_target :: string
  ru_targetOptions :: "string list"
  ru_comment :: string

definition rule_of ::
  "string \<Rightarrow> string \<Rightarrow> string list \<Rightarrow> string \<Rightarrow> string list \<Rightarrow> string \<Rightarrow> ipt_rule" where
  "rule_of tb ch ps tg os cm = \<lparr>ru_table = tb, ru_chain = ch, ru_parameters = ps, ru_target = tg,
     ru_targetOptions = os, ru_comment = cm\<rparr>"

definition preset_rules :: "ipt_client \<Rightarrow> ipt_rule list" where
  "preset_rules c =
    [rule_of FilterTable ForwardChain [] CICCNIForwardChain []
       (''ciccni: '' @ utf8 [0xe8, 0xb7, 0xb3, 0xe8, 0xbd, 0xac, 0xe8, 0x87, 0xb3] @ ''CICCNI-FORWARD''
        @ utf8 [0xe9, 0x93, 0xbe]),
     rule_of FilterTable CICCNIForwardChain [''-i'', hostGateway c, ''!'', ''-o'', hostGateway c]
       MarkTarget [''--set-xmark'', ExternalPkgMark]
       (''ciccni: '' @ utf8 [0xe6, 0xa0, 0x87, 0xe8, 0xae, 0xb0, 0xe4, 0xbd, 0x8d] @ ''0x40/0x40''),
     rule_of FilterTable CICCNIForwardChain [''-i'', hostGateway c, ''!'', ''-o'', hostGateway c]
       AcceptTarget []
       (''ciccni: '' @ utf8 [0xe6, 0x8e, 0xa5, 0xe6, 0x94, 0xb6] @ ''pod to External''
        @ utf8 [0xe5, 0x8c, 0x85]),
     rule_of FilterTable CICCNIForwardChain [''!'', ''-i'', hostGateway c, ''-o'', hostGateway c]
       AcceptTarget []
       (''ciccni: '' @ utf8 [0xe6, 0x8e, 0xa5, 0xe6, 0x94, 0xb6] @ ''external to pod traffic''),
     rule_of NATTable PostRoutingChain [] CICCNIPostRoutingChain []
       (''ciccni: '' @ utf8 [0xe8, 0xb7, 0xb3, 0xe8, 0xbd, 0xac, 0xe8, 0x87, 0xb3]
        @ ''CICCNI-POSTROUTING'' @ utf8 [0xe9, 0x93, 0xbe]),
     rule_of NATTable CICCNIPostRoutingChain [''-m'', ''mark'', ''--mark'', ExternalPkgMark]
       MasqueradeTarget [] ''ciccni: for host gateway'',
     rule_of FilterTable CICCNIForwardChain [] AcceptTarget []
       (''ciccni: '' @ utf8 [0xe9, 0xbb, 0x98, 0xe8, 0xae, 0xa4, 0xe6, 0x8e, 0xa5, 0xe5, 0x8f, 0x97])]"

definition rule_spec :: "ipt_rule \<Rightarrow> string list" where
  "rule_spec r = ru_parameters r @ [''-j'', ru_target r] @ ru_targetOptions r
     @ [''-m'', ''comment'', ''--comment'', ru_comment r]"

section \<open>Putting them in place\<close>

fun contains :: "string list \<Rightarrow> string \<Rightarrow> bool" where
  "contains [] targetChain = False"
| "contains (val # vals) targetChain = (val = targetChain \<or> contains vals targetChain)"

text \<open>\<open>%v\<close> of a slice of strings.\<close>

definition slice_text :: "string list \<Rightarrow> string" where
  "slice_text xs = ''['' @ join '' '' xs @ '']''"

definition ensureChain :: "'k iptables \<Rightarrow> string \<Rightarrow> string \<Rightarrow> ('k, unit) go" where
  "ensureChain ipt tb chain = (\<lambda>k. case ListChains ipt k tb of
     Inl err \<Rightarrow> (Err (ErrWrap (''error listing exsiting chains in table '' @ tb @ '': '') err), k)
   | Inr oriChains \<Rightarrow>
       if contains oriChains chain then (Ok (), k)
       else (case NewChain ipt k tb chain of
           (Some err, k') \<Rightarrow>
             (Err (ErrWrap (''error creating chain '' @ chain @ '' in table '' @ tb @ '': '') err), k')
         | (None, k') \<Rightarrow> (Ok (), k')))"

definition ensureRule :: "'k iptables \<Rightarrow> string \<Rightarrow> string \<Rightarrow> string list \<Rightarrow> ('k, unit) go" where
  "ensureRule ipt tb chain ruleSpec = (\<lambda>k. case Exists ipt k tb chain ruleSpec of
     Inl err \<Rightarrow> (Err (ErrWrap (''error checking if rule '' @ slice_text ruleSpec @ '' exists in table '' @ tb
         @ '' chain '' @ chain @ '': '') err), k)
   | Inr exist \<Rightarrow>
       if exist then (Ok (), k)
       else (case AppendRule ipt k tb chain ruleSpec of
           (Some err, k') \<Rightarrow>
             (Err (ErrWrap (''error appending rule '' @ slice_text ruleSpec @ '' to table '' @ tb
               @ '' chain '' @ chain @ '': '') err), k')
         | (None, k') \<Rightarrow> (Ok (), k')))"

definition SetUpRules :: "'k iptables \<Rightarrow> ipt_client \<Rightarrow> string \<Rightarrow> ('k, unit) go" where
  "SetUpRules ipt c outInterface =
     gseq (gfor (preset_rules c) (\<lambda>r. ensureChain ipt (ru_table r) (ru_chain r)))
          (gfor (preset_rules c) (\<lambda>r. ensureRule ipt (ru_table r) (ru_chain r) (rule_spec r)))"

section \<open>What is in place stays in place\<close>

definition has_chain :: "'k iptables \<Rightarrow> 'k \<Rightarrow> string \<Rightarrow> string \<Rightarrow> bool" where
  "has_chain ipt k tb ch \<longleftrightarrow> (case ListChains ipt k tb of Inl e \<Rightarrow> False | Inr cs \<Rightarrow> ch \<in> set cs)"

definition has_rule :: "'k iptables \<Rightarrow> 'k \<Rightarrow> string \<Rightarrow> string \<Rightarrow> string list \<Rightarrow> bool" where
  "has_rule ipt k tb ch spec \<longleftrightarrow> Exists ipt k tb ch spec = Inr True"

definition grows :: "'k iptables \<Rightarrow> 'k \<Rightarrow> 'k \<Rightarrow> bool" where
  "grows ipt k k' \<longleftrightarrow>
     (\<forall>tb ch. has_chain ipt k tb ch \<longrightarrow> has_chain ipt k' tb ch) \<and>
     (\<forall>tb ch spec. has_rule ipt k tb ch spec \<longrightarrow> has_rule ipt k' tb ch spec)"

text \<open>
  What iptables documents of its commands: \<open>-N\<close> creates the chain, \<open>-A\<close> appends the rule, and
  neither removes anything.
\<close>

definition ipt_documented :: "'k iptables \<Rightarrow> bool" where
  "ipt_documented ipt \<longleftrightarrow>
     (\<forall>k tb ch k'. NewChain ipt k tb ch = (None, k') \<longrightarrow> has_chain ipt k' tb ch \<and> grows ipt k k') \<and>
     (\<forall>k tb ch spec k'. AppendRule ipt k tb ch spec = (None, k') \<longrightarrow>
        has_rule ipt k' tb ch spec \<and> grows ipt k k')"

lemma contains_iff: "contains cs ch \<longleftrightarrow> ch \<in> set cs"
  by (induction cs) auto

lemma grows_refl [simp]: "grows ipt k k"
  by (simp add: grows_def)

lemma grows_trans: "grows ipt k k' \<Longrightarrow> grows ipt k' k'' \<Longrightarrow> grows ipt k k''"
  by (auto simp: grows_def)

lemma ensureChain_Ok:
  assumes "ipt_documented ipt" and "ensureChain ipt tb ch k = (Ok (), k')"
  shows "has_chain ipt k' tb ch \<and> grows ipt k k'"
proof -
  have "has_chain ipt k' tb ch \<and> grows ipt k k'" if "NewChain ipt k tb ch = (None, k')"
    using assms(1) that by (simp add: ipt_documented_def)
  then show ?thesis using assms(2)
    by (auto simp: ensureChain_def contains_iff has_chain_def
        split: sum.splits if_splits prod.splits option.splits)
qed

lemma ensureRule_Ok:
  assumes "ipt_documented ipt" and "ensureRule ipt tb ch spec k = (Ok (), k')"
  shows "has_rule ipt k' tb ch spec \<and> grows ipt k k'"
  using assms
  by (auto simp: ensureRule_def ipt_documented_def has_rule_def
      split: sum.splits if_splits prod.splits option.splits)

text \<open>A loop whose body establishes a fact that later bodies keep establishes it for every element.\<close>

lemma gfor_establishes:
  assumes step: "\<And>x k k'. body x k = (Ok (), k') \<Longrightarrow> P x k' \<and> R k k'"
    and keep: "\<And>x k k'. P x k \<Longrightarrow> R k k' \<Longrightarrow> P x k'"
    and refl: "\<And>k. R k k" and trans: "\<And>k k' k''. R k k' \<Longrightarrow> R k' k'' \<Longrightarrow> R k k''"
    and run: "gfor xs body k = (Ok (), k')"
  shows "R k k' \<and> (\<forall>x \<in> set xs. P x k')"
  using run
proof (induction xs arbitrary: k)
  case Nil
  then show ?case by (simp add: go_eval refl)
next
  case (Cons x xs)
  then obtain k1 where k1: "body x k = (Ok (), k1)" "gfor xs body k1 = (Ok (), k')"
    by (auto simp: gbind_Ok_iff)
  with Cons.IH [OF k1(2)] step [OF k1(1)] keep trans show ?case by auto
qed

lemma SetUpRules_chains_rules:
  assumes doc: "ipt_documented ipt" and run: "SetUpRules ipt c out k = (Ok (), k')"
  shows "grows ipt k k' \<and> (\<forall>r \<in> set (preset_rules c).
    has_chain ipt k' (ru_table r) (ru_chain r) \<and>
    has_rule ipt k' (ru_table r) (ru_chain r) (rule_spec r))"
proof -
  from run obtain k1 where
    1: "gfor (preset_rules c) (\<lambda>r. ensureChain ipt (ru_table r) (ru_chain r)) k = (Ok (), k1)" and
    2: "gfor (preset_rules c) (\<lambda>r. ensureRule ipt (ru_table r) (ru_chain r) (rule_spec r)) k1 = (Ok (), k')"
    by (auto simp: SetUpRules_def gbind_Ok_iff)
  have "grows ipt k k1 \<and> (\<forall>r \<in> set (preset_rules c). has_chain ipt k1 (ru_table r) (ru_chain r))"
    by (rule gfor_establishes [OF _ _ _ _ 1])
      (use ensureChain_Ok [OF doc] grows_trans in \<open>auto simp: grows_def\<close>)
  moreover have "grows ipt k1 k' \<and>
      (\<forall>r \<in> set (preset_rules c). has_rule ipt k' (ru_table r) (ru_chain r) (rule_spec r))"
    by (rule gfor_establishes [OF _ _ _ _ 2])
      (use ensureRule_Ok [OF doc] grows_trans in \<open>auto simp: grows_def\<close>)
  ultimately show ?thesis by (auto simp: grows_def)
qed

lemma SetUpRules_in_place:
  assumes "\<forall>r \<in> set (preset_rules c). has_chain ipt k (ru_table r) (ru_chain r) \<and>
    has_rule ipt k (ru_table r) (ru_chain r) (rule_spec r)"
  shows "SetUpRules ipt c out k = (Ok (), k)"
proof -
  have "gfor rs (\<lambda>r. ensureChain ipt (ru_table r) (ru_chain r)) k = (Ok (), k)"
    if "\<forall>r \<in> set rs. has_chain ipt k (ru_table r) (ru_chain r)" for rs
    using that by (induction rs)
      (auto simp: go_eval ensureChain_def has_chain_def contains_iff split: sum.splits)
  moreover have "gfor rs (\<lambda>r. ensureRule ipt (ru_table r) (ru_chain r) (rule_spec r)) k = (Ok (), k)"
    if "\<forall>r \<in> set rs. has_rule ipt k (ru_table r) (ru_chain r) (rule_spec r)" for rs
    using that by (induction rs) (auto simp: go_eval ensureRule_def has_rule_def)
  ultimately show ?thesis using assms by (auto simp: SetUpRules_def gbind_Ok_iff)
qed

section \<open>The setup does not fail on a working iptables\<close>

text \<open>The target of a rule: what follows its first \<open>-j\<close>.\<close>

fun jump_target :: "string list \<Rightarrow> string option" where
  "jump_target [] = None"
| "jump_target [x] = None"
| "jump_target (x # y # xs) = (if x = ''-j'' then Some y else jump_target (y # xs))"

definition target_known :: "'k iptables \<Rightarrow> 'k \<Rightarrow> string \<Rightarrow> string \<Rightarrow> bool" where
  "target_known ipt k tb t \<longleftrightarrow>
     t \<in> {AcceptTarget, MarkTarget, MasqueradeTarget} \<or> has_chain ipt k tb t"

text \<open>
  An iptables that works: the chains of a table can be listed, a chain that is not there can be
  created, and a rule can be looked for and appended once its chain and its target are there.
\<close>

definition ipt_working :: "'k iptables \<Rightarrow> bool" where
  "ipt_working ipt \<longleftrightarrow>
     (\<forall>k tb. \<exists>cs. ListChains ipt k tb = Inr cs) \<and>
     (\<forall>k tb ch. \<not> has_chain ipt k tb ch \<longrightarrow> fst (NewChain ipt k tb ch) = None) \<and>
     (\<forall>k tb ch spec t. has_chain ipt k tb ch \<longrightarrow> jump_target spec = Some t \<longrightarrow> target_known ipt k tb t \<longrightarrow>
        (\<exists>b. Exists ipt k tb ch spec = Inr b) \<and> fst (AppendRule ipt k tb ch spec) = None)"

lemma gfor_runs:
  assumes "\<And>x k. x \<in> set xs \<Longrightarrow> I k \<Longrightarrow> \<exists>k'. body x k = (Ok (), k') \<and> I k'" and "I k"
  shows "\<exists>k'. gfor xs body k = (Ok (), k') \<and> I k'"
  using assms
proof (induction xs arbitrary: k)
  case Nil
  then show ?case by (simp add: go_eval)
next
  case (Cons x xs)
  then obtain k1 where "body x k = (Ok (), k1)" "I k1" by fastforce
  with Cons.IH [of k1] Cons.prems(1) show ?case by (simp add: gbind_eval)
qed

lemma ensureChain_works:
  assumes "ipt_working ipt"
  shows "\<exists>k'. ensureChain ipt tb ch k = (Ok (), k')"
proof -
  obtain cs where cs: "ListChains ipt k tb = Inr cs" using assms unfolding ipt_working_def by metis
  have "fst (NewChain ipt k tb ch) = None" if "ch \<notin> set cs"
    using assms that cs by (simp add: ipt_working_def has_chain_def)
  then show ?thesis using cs
    by (cases "NewChain ipt k tb ch") (auto simp: ensureChain_def contains_iff)
qed

lemma ensureRule_works:
  assumes "ipt_working ipt" "has_chain ipt k tb ch" "jump_target spec = Some t" "target_known ipt k tb t"
  shows "\<exists>k'. ensureRule ipt tb ch spec k = (Ok (), k')"
proof -
  have "(\<exists>b. Exists ipt k tb ch spec = Inr b) \<and> fst (AppendRule ipt k tb ch spec) = None"
    using assms unfolding ipt_working_def by blast
  then show ?thesis by (cases "AppendRule ipt k tb ch spec") (auto simp: ensureRule_def)
qed

text \<open>The target of every preset rule is a built-in one or the chain of a preset rule of its table.\<close>

lemma preset_targets:
  assumes "hostGateway c \<noteq> ''-j''" and "r \<in> set (preset_rules c)"
  shows "jump_target (rule_spec r) = Some (ru_target r) \<and>
    (ru_target r \<in> {AcceptTarget, MarkTarget, MasqueradeTarget} \<or>
     (\<exists>r' \<in> set (preset_rules c). ru_table r' = ru_table r \<and> ru_chain r' = ru_target r))"
proof -
  let ?known = "{(FilterTable, CICCNIForwardChain), (NATTable, CICCNIPostRoutingChain)}"
  have "\<forall>r \<in> set (preset_rules c). jump_target (rule_spec r) = Some (ru_target r) \<and>
    (ru_target r \<in> {AcceptTarget, MarkTarget, MasqueradeTarget} \<or> (ru_table r, ru_target r) \<in> ?known)"
    using assms(1) by (simp add: preset_rules_def rule_of_def rule_spec_def ExternalPkgMark_def)
  moreover have "\<exists>r' \<in> set (preset_rules c). (ru_table r', ru_chain r') = p" if "p \<in> ?known" for p
    using that by (elim insertE emptyE) (simp_all add: preset_rules_def rule_of_def)
  ultimately show ?thesis using assms(2) by fastforce
qed

lemma SetUpRules_works:
  assumes doc: "ipt_documented ipt" and works: "ipt_working ipt" and gw: "hostGateway c \<noteq> ''-j''"
  shows "\<exists>k'. SetUpRules ipt c out k = (Ok (), k')"
proof -
  let ?I = "\<lambda>k. \<forall>r \<in> set (preset_rules c). has_chain ipt k (ru_table r) (ru_chain r)"
  have "\<exists>k1. gfor (preset_rules c) (\<lambda>r. ensureChain ipt (ru_table r) (ru_chain r)) k = (Ok (), k1) \<and> True"
    by (rule gfor_runs) (simp_all add: ensureChain_works [OF works])
  then obtain k1 where
    k1: "gfor (preset_rules c) (\<lambda>r. ensureChain ipt (ru_table r) (ru_chain r)) k = (Ok (), k1)"
    by blast
  have "?I k1"
    using gfor_establishes [OF _ _ _ _ k1, of "\<lambda>r k. has_chain ipt k (ru_table r) (ru_chain r)" "grows ipt"]
      ensureChain_Ok [OF doc] grows_trans by (auto simp: grows_def)
  moreover have "\<exists>k''. ensureRule ipt (ru_table r) (ru_chain r) (rule_spec r) k' = (Ok (), k'') \<and> ?I k''"
    if r: "r \<in> set (preset_rules c)" and I: "?I k'" for r k'
  proof -
    have "target_known ipt k' (ru_table r) (ru_target r)"
      using preset_targets [OF gw r] I by (auto simp: target_known_def)
    then obtain k'' where k'': "ensureRule ipt (ru_table r) (ru_chain r) (rule_spec r) k' = (Ok (), k'')"
      using ensureRule_works [OF works] preset_targets [OF gw r] I r by blast
    with ensureRule_Ok [OF doc k''] I show ?thesis by (auto simp: grows_def)
  qed
  ultimately have "\<exists>k'. gfor (preset_rules c)
      (\<lambda>r. ensureRule ipt (ru_table r) (ru_chain r) (rule_spec r)) k1 = (Ok (), k') \<and> ?I k'"
    by (intro gfor_runs)
  with k1 show ?thesis by (auto simp: SetUpRules_def gbind_eval)
qed

text \<open>A small iptables that behaves as documented: lists of chains and of rules.\<close>

type_synonym rule_list = "(string \<times> string) list \<times> (string \<times> string \<times> string list) list"

definition list_ipt :: "rule_list iptables" where
  "list_ipt = \<lparr>
     ListChains = (\<lambda>k tb. Inr (map snd (filter (\<lambda>p. fst p = tb) (fst k)))),
     NewChain = (\<lambda>k tb ch. (None, ((tb, ch) # fst k, snd k))),
     Exists = (\<lambda>k tb ch spec. Inr ((tb, ch, spec) \<in> set (snd k))),
     AppendRule = (\<lambda>k tb ch spec.
       if (tb, ch) \<in> set (fst k) then (None, (fst k, snd k @ [(tb, ch, spec)]))
       else (Some (ErrText ''No chain/target/match by that name''), k))\<rparr>"

lemma list_ipt_ok: "ipt_documented list_ipt" "ipt_working list_ipt"
proof -
  have "has_chain list_ipt k tb ch \<longleftrightarrow> (tb, ch) \<in> set (fst k)"
    and "has_rule list_ipt k tb ch spec \<longleftrightarrow> (tb, ch, spec) \<in> set (snd k)" for k tb ch spec
    by (force simp: has_chain_def has_rule_def list_ipt_def)+
  note has = this
  show "ipt_documented list_ipt"
    by (auto simp: ipt_documented_def grows_def has) (auto simp: list_ipt_def split: if_splits)
  show "ipt_working list_ipt"
    by (auto simp: ipt_working_def has) (auto simp: list_ipt_def)
qed

end
