(* ===== verification/OvsClient.thy ===== *)
theory OvsClient
  imports Prelude "HOL-Library.Monad_Syntax"
begin

text \<open>
  Package \<open>pkg/ovs\<close>: the transactions \<open>OVSBridge\<close> commits to the OVSDB server and how it reads the
  answers. The server and the helper functions of the OVSDB library are parameters; a failed type
  assertion, an index out of range and a lookup in a nil map that is then asserted are panics.
\<close>

section \<open>Values, transactions and the server\<close>

text \<open>What \<open>encoding/json\<close> makes of an answer. The numbers OVSDB sends here are integers.\<close>

datatype json =
    JNull
  | JBool bool
  | JNum int
  | JStr string
  | JList "json list"
  | JObj "(string \<times> json) list"

type_synonym cond = "json list list"

datatype tx_op =
    TxSelect string "string list" cond
  | TxInsert string json
  | TxUpdate string cond json
  | TxMutate string cond cond
  | TxWait string nat "string list" string "json list" cond

record action_result =
  ar_Rows :: "json list"
  ar_UUID :: "string list"

text \<open>
  The server answers a transaction after the ones committed before it, with an error and its
  temporary flag or with one result per operation. The library names an inserted row by the
  operations before it.
\<close>

record ovs_env =
  tx_commit :: "tx_op list list \<Rightarrow> tx_op list \<Rightarrow> (error \<times> bool) + action_result list"
  tx_name :: "tx_op list \<Rightarrow> string"
  MakeOVSDBSet :: "(string \<times> json) list \<Rightarrow> json list"
  MakeOVSDBMap :: "(string \<times> json) list \<Rightarrow> json list"
  GetIdListFromOVSDBSet :: "json list \<Rightarrow> string list"

record OVSBridge =
  br_name :: string
  br_datapathType :: string
  br_uuid :: string
  br_log :: "tx_op list list"

definition NewOVSBridge :: "string \<Rightarrow> string \<Rightarrow> OVSBridge" where
  "NewOVSBridge bridgeName ovsDatapathType =
     \<lparr>br_name = bridgeName, br_datapathType = ovsDatapathType, br_uuid = [], br_log = []\<rparr>"

definition commit :: "ovs_env \<Rightarrow> tx_op list \<Rightarrow> (OVSBridge, action_result list) go" where
  "commit env ops = (\<lambda>br.
     let br' = br\<lparr>br_log := ops # br_log br\<rparr>
     in case tx_commit env (br_log br) ops of
          Inl (err, temporary) \<Rightarrow> (Err (ErrTransaction err temporary), br')
        | Inr res \<Rightarrow> (Ok res, br'))"

section \<open>Errors\<close>

fun Error_text :: "error \<Rightarrow> string" where
  "Error_text (ErrText s) = s"
| "Error_text (ErrWrap s e) = s @ Error_text e"
| "Error_text (ErrExec what fl out) = what @ '' '' @ fl @ '': '' @ out"
| "Error_text (ErrConjunctionNotFound i) =
     ''policyRuleConjunction with ID '' @ dec (unat i) @ '' not found''"
| "Error_text (ErrTransaction e temporary) = Error_text e"

definition has_prefix :: "string \<Rightarrow> string \<Rightarrow> bool" where
  "has_prefix p s \<longleftrightarrow> take (length p) s = p"

fun Timeout :: "error \<Rightarrow> bool" where
  "Timeout (ErrTransaction e temporary) = has_prefix ''timed out:'' (Error_text e)"
| "Timeout e = False"

fun Temporary :: "error \<Rightarrow> bool" where
  "Temporary (ErrTransaction e temporary) = (temporary \<or> Timeout (ErrTransaction e temporary))"
| "Temporary e = False"

definition errPortNotFound :: error where
  "errPortNotFound = ErrTransaction (ErrText
     (utf8 [0xe6, 0x9c, 0xaa, 0xe6, 0x9f, 0xa5, 0xe8, 0xaf, 0xa2, 0xe5, 0x88, 0xb0, 0xe5, 0xaf, 0xb9, 0xe5, 0xba, 0x94, 0xe7, 0x9a, 0x84] @ ''port'')) False"

section \<open>Reading an answer\<close>

fun as_str :: "json \<Rightarrow> string option" where
  "as_str (JStr s) = Some s" | "as_str j = None"

fun as_list :: "json \<Rightarrow> json list option" where
  "as_list (JList l) = Some l" | "as_list j = None"

fun as_obj :: "json \<Rightarrow> (string \<times> json) list option" where
  "as_obj (JObj fs) = Some fs" | "as_obj j = None"

fun as_num :: "json \<Rightarrow> int option" where
  "as_num (JNum i) = Some i" | "as_num j = None"

definition field :: "string \<Rightarrow> (string \<times> json) list \<Rightarrow> json" where
  "field k fs = (case map_of fs k of None \<Rightarrow> JNull | Some j \<Rightarrow> j)"

definition idx :: "'a list \<Rightarrow> nat \<Rightarrow> 'a option" where
  "idx xs i = (if i < length xs then Some (xs ! i) else None)"

definition rows :: "action_result list \<Rightarrow> nat \<Rightarrow> json list option" where
  "rows res i = map_option ar_Rows (idx res i)"

definition row_uuid :: "json \<Rightarrow> string option" where
  "row_uuid row = do { fs \<leftarrow> as_obj row; l \<leftarrow> as_list (field ''_uuid'' fs); j \<leftarrow> idx l 1; as_str j }"

text \<open>A pair of an OVSDB map.\<close>

definition ovsdb_pair :: "json \<Rightarrow> (string \<times> string) option" where
  "ovsdb_pair j = do { l \<leftarrow> as_list j; k \<leftarrow> Option.bind (idx l 0) as_str;
     v \<leftarrow> Option.bind (idx l 1) as_str; Some (k, v) }"

definition buildMapFromOVSDBMap :: "json list \<Rightarrow> (string \<times> string) list option" where
  "buildMapFromOVSDBMap data = do {
     tag \<leftarrow> idx data 0;
     if tag = JStr ''map'' then do {
       l \<leftarrow> Option.bind (idx data 1) as_list;
       ps \<leftarrow> those (map ovsdb_pair l);
       Some (fold (\<lambda>(k, v) m. AList.update k v m) ps [])
     } else Some [] }"

definition makeOVSDBSetFromList :: "string list \<Rightarrow> json list" where
  "makeOVSDBSetFromList xs = [JStr ''set'', JList (map JStr xs)]"

section \<open>Rows\<close>

definition openflow_protocols :: "json list" where
  "openflow_protocols = makeOVSDBSetFromList [''OpenFlow10'', ''OpenFlow13'']"

text \<open>\<open>json:",omitempty"\<close>: an empty string, a zero and an empty slice are left out.\<close>

definition omit_str :: "string \<Rightarrow> string \<Rightarrow> (string \<times> json) list" where
  "omit_str k s = (if s = [] then [] else [(k, JStr s)])"

definition omit_num :: "string \<Rightarrow> int \<Rightarrow> (string \<times> json) list" where
  "omit_num k i = (if i = 0 then [] else [(k, JNum i)])"

definition omit_list :: "string \<Rightarrow> json list \<Rightarrow> (string \<times> json) list" where
  "omit_list k l = (if l = [] then [] else [(k, JList l)])"

definition Bridge_row :: "string \<Rightarrow> json list \<Rightarrow> string \<Rightarrow> json" where
  "Bridge_row name protocols datapathType =
     JObj ([(''name'', JStr name)] @ omit_list ''protocols'' protocols
       @ omit_str ''datapath_type'' datapathType)"

definition Port_row :: "string \<Rightarrow> json list \<Rightarrow> json list \<Rightarrow> json" where
  "Port_row name interfaces externalIDs =
     JObj ([(''name'', JStr name), (''interfaces'', JList interfaces)]
       @ omit_list ''external_ids'' externalIDs)"

definition Interface_row :: "string \<Rightarrow> string \<Rightarrow> 32 word \<Rightarrow> json list \<Rightarrow> json" where
  "Interface_row name ty ofPortRequest options =
     JObj ([(''name'', JStr name)] @ omit_str ''type'' ty
       @ omit_num ''ofport_request'' (sint ofPortRequest) @ omit_list ''options'' options)"

definition by_name :: "string \<Rightarrow> cond" where
  "by_name n = [[JStr ''name'', JStr ''=='', JStr n]]"

definition named_set :: "ovs_env \<Rightarrow> string \<Rightarrow> string list \<Rightarrow> json" where
  "named_set env k ids = JList (MakeOVSDBSet env [(k, JList (map JStr ids))])"

section \<open>The bridge\<close>

definition lookupByName :: "ovs_env \<Rightarrow> (OVSBridge, bool) go" where
  "lookupByName env =
     gbind (\<lambda>br. commit env [TxSelect ''Bridge'' [''_uuid''] (by_name (br_name br))] br) (\<lambda>res.
     gbind (deref (rows res 0)) (\<lambda>rs. case rs of
       [] \<Rightarrow> ret False
     | r # _ \<Rightarrow> gbind (deref (row_uuid r)) (\<lambda>u. gseq (modify (br_uuid_update (\<lambda>_. u))) (ret True))))"

definition updateProtocols :: "ovs_env \<Rightarrow> (OVSBridge, unit) go" where
  "updateProtocols env =
     gbind (\<lambda>br. commit env [TxUpdate ''Bridge'' (by_name (br_name br))
         (JObj [(''protocols'', JList openflow_protocols)])] br) (\<lambda>_. ret ())"

definition create_ops :: "ovs_env \<Rightarrow> OVSBridge \<Rightarrow> tx_op list" where
  "create_ops env br =
     (let ins = TxInsert ''Bridge'' (Bridge_row (br_name br) openflow_protocols (br_datapathType br))
      in [ins, TxMutate ''Open_vSwitch''
            [[JStr ''bridges'', JStr ''insert'', named_set env ''named-uuid'' [tx_name env []]]] []])"

text \<open>\<open>res[i].UUID[1]\<close>\<close>

definition result_uuid :: "action_result list \<Rightarrow> nat \<Rightarrow> string option" where
  "result_uuid res i = do { r \<leftarrow> idx res i; idx (ar_UUID r) 1 }"

definition br_create :: "ovs_env \<Rightarrow> (OVSBridge, unit) go" where
  "br_create env =
     gbind (\<lambda>br. commit env (create_ops env br) br) (\<lambda>res.
     gbind (deref (result_uuid res 0)) (\<lambda>u. modify (br_uuid_update (\<lambda>_. u))))"

definition br_Create :: "ovs_env \<Rightarrow> (OVSBridge, unit) go" where
  "br_Create env = gbind (lookupByName env) (\<lambda>exists.
     if exists then updateProtocols env else br_create env)"

definition br_Delete :: "ovs_env \<Rightarrow> (OVSBridge, unit) go" where
  "br_Delete env =
     gbind (\<lambda>br. commit env [TxMutate ''Open_vSwitch''
         [[JStr ''bridges'', JStr ''delete'', named_set env ''uuid'' [br_uuid br]]] []] br) (\<lambda>_. ret ())"

definition GetExternalIDs :: "ovs_env \<Rightarrow> (OVSBridge, (string \<times> string) list) go" where
  "GetExternalIDs env =
     gbind (\<lambda>br. commit env [TxSelect ''Bridge'' [''external_ids''] (by_name (br_name br))] br) (\<lambda>res.
     deref (do { rs \<leftarrow> rows res 0; r \<leftarrow> idx rs 0; fs \<leftarrow> as_obj r;
       l \<leftarrow> as_list (field ''external_ids'' fs); buildMapFromOVSDBMap l }))"

definition SetExternalIDs :: "ovs_env \<Rightarrow> (string \<times> json) list \<Rightarrow> (OVSBridge, unit) go" where
  "SetExternalIDs env externalIDs =
     gbind (\<lambda>br. commit env [TxUpdate ''Bridge'' (by_name (br_name br))
         (JObj [(''external_ids'', JList (MakeOVSDBMap env externalIDs))])] br) (\<lambda>_. ret ())"

section \<open>Ports\<close>

definition GetPortUUIDList :: "ovs_env \<Rightarrow> (OVSBridge, string list) go" where
  "GetPortUUIDList env =
     gbind (\<lambda>br. commit env [TxSelect ''Bridge'' [''ports''] (by_name (br_name br))] br) (\<lambda>res.
     deref (do { rs \<leftarrow> rows res 0; r \<leftarrow> idx rs 0; fs \<leftarrow> as_obj r;
       l \<leftarrow> as_list (field ''ports'' fs); Some (GetIdListFromOVSDBSet env l) }))"

definition DeletePorts :: "ovs_env \<Rightarrow> string list \<Rightarrow> (OVSBridge, unit) go" where
  "DeletePorts env portUUIDList =
     gbind (commit env [TxMutate ''Bridge''
         [[JStr ''ports'', JStr ''delete'', named_set env ''uuid'' portUUIDList]] []]) (\<lambda>_. ret ())"

definition DeletePort :: "ovs_env \<Rightarrow> string \<Rightarrow> (OVSBridge, unit) go" where
  "DeletePort env portUUID =
     gbind (commit env [TxMutate ''Bridge''
         [[JStr ''ports'', JStr ''delete'', named_set env ''uuid'' [portUUID]]] []]) (\<lambda>_. ret ())"

text \<open>A map that is nil is none.\<close>

definition port_ops ::
  "ovs_env \<Rightarrow> string \<Rightarrow> string \<Rightarrow> string \<Rightarrow> string \<Rightarrow> 32 word \<Rightarrow>
   (string \<times> json) list option \<Rightarrow> (string \<times> json) list option \<Rightarrow> tx_op list" where
  "port_ops env brName name ifName ifType ofPortRequest externalIDs options =
     (let ovsMap = (\<lambda>m. case m of None \<Rightarrow> [] | Some es \<Rightarrow> MakeOVSDBMap env es);
          insIf = TxInsert ''Interface'' (Interface_row ifName ifType ofPortRequest (ovsMap options));
          insPort = TxInsert ''Port'' (Port_row name
            (MakeOVSDBSet env [(''named-uuid'', JList [JStr (tx_name env [])])]) (ovsMap externalIDs))
      in [insIf, insPort,
          TxMutate ''Bridge''
            [[JStr ''ports'', JStr ''insert'', named_set env ''named-uuid'' [tx_name env [insIf]]]]
            (by_name brName)])"

definition createPort ::
  "ovs_env \<Rightarrow> string \<Rightarrow> string \<Rightarrow> string \<Rightarrow> 32 word \<Rightarrow>
   (string \<times> json) list option \<Rightarrow> (string \<times> json) list option \<Rightarrow> (OVSBridge, string) go" where
  "createPort env name ifName ifType ofPortRequest externalIDs options =
     gbind (\<lambda>br. commit env
         (port_ops env (br_name br) name ifName ifType ofPortRequest externalIDs options) br) (\<lambda>res.
     deref (result_uuid res 1))"

definition CreateInternalPort ::
  "ovs_env \<Rightarrow> string \<Rightarrow> 32 word \<Rightarrow> (string \<times> json) list option \<Rightarrow> (OVSBridge, string) go" where
  "CreateInternalPort env name ofPortRequest externalIDs =
     createPort env name name ''internal'' ofPortRequest externalIDs None"

definition createTunnelPort ::
  "ovs_env \<Rightarrow> string \<Rightarrow> string \<Rightarrow> 32 word \<Rightarrow> string \<Rightarrow> (OVSBridge, string) go" where
  "createTunnelPort env name ifType ofPortRequest remoteIP =
     (let options = (if remoteIP \<noteq> [] then [(''remote_ip'', JStr remoteIP)]
                     else [(''key'', JStr ''flow''), (''remote_ip'', JStr ''flow'')])
      in createPort env name name ifType ofPortRequest None (Some options))"

definition CreateVXLANPort :: "ovs_env \<Rightarrow> string \<Rightarrow> 32 word \<Rightarrow> string \<Rightarrow> (OVSBridge, string) go" where
  "CreateVXLANPort env name ofPortRequest remoteIP =
     createTunnelPort env name ''vxlan'' ofPortRequest remoteIP"

definition CreateGenevePort :: "ovs_env \<Rightarrow> string \<Rightarrow> 32 word \<Rightarrow> string \<Rightarrow> (OVSBridge, string) go" where
  "CreateGenevePort env name ofPortRequest remoteIP =
     createTunnelPort env name ''geneve'' ofPortRequest remoteIP"

definition CreatePort ::
  "ovs_env \<Rightarrow> string \<Rightarrow> string \<Rightarrow> (string \<times> json) list option \<Rightarrow> (OVSBridge, string) go" where
  "CreatePort env name ifDev externalIDs = createPort env name ifDev [] 0 externalIDs None"

definition GetOFPort :: "ovs_env \<Rightarrow> string \<Rightarrow> (OVSBridge, 32 word) go" where
  "GetOFPort env ifName =
     gbind (commit env
       [TxWait ''Interface'' 1000 [''ofport''] ''!=''
          [JObj [(''ofport'', JList (MakeOVSDBSet env []))]] (by_name ifName),
        TxSelect ''Interface'' [''ofport''] (by_name ifName)]) (\<lambda>res.
     deref (do { rs \<leftarrow> rows res 1; r \<leftarrow> idx rs 0; fs \<leftarrow> as_obj r;
       i \<leftarrow> as_num (field ''ofport'' fs); Some (word_of_int i) }))"

record OVSPortData =
  pd_UUID :: string
  pd_Name :: string
  pd_ExternalIDs :: "(string \<times> string) list option"
  pd_IFName :: string
  pd_OFPort :: "32 word"

definition buildPortDataCommon ::
  "(string \<times> json) list \<Rightarrow> (string \<times> json) list \<Rightarrow> OVSPortData \<Rightarrow> OVSPortData option" where
  "buildPortDataCommon port intf pd = do {
     name \<leftarrow> as_str (field ''name'' port);
     l \<leftarrow> as_list (field ''external_ids'' port);
     ids \<leftarrow> buildMapFromOVSDBMap l;
     Some (pd\<lparr>pd_Name := name, pd_ExternalIDs := Some ids,
       pd_OFPort := (case as_num (field ''ofport'' intf) of Some i \<Rightarrow> word_of_int i | None \<Rightarrow> 0)\<rparr>) }"

definition new_port_data :: "string \<Rightarrow> string \<Rightarrow> OVSPortData" where
  "new_port_data uuid ifName =
     \<lparr>pd_UUID = uuid, pd_Name = [], pd_ExternalIDs = None, pd_IFName = ifName, pd_OFPort = 0\<rparr>"

text \<open>None as the value is the nil pointer of a port that is not there.\<close>

definition GetPortData :: "ovs_env \<Rightarrow> string \<Rightarrow> string \<Rightarrow> (OVSBridge, OVSPortData option) go" where
  "GetPortData env portUUID ifName =
     gbind (commit env
       [TxSelect ''Port'' [''name'', ''external_ids'', ''interfaces'']
          [[JStr ''_uuid'', JStr ''=='', JList [JStr ''uuid'', JStr portUUID]]],
        TxSelect ''Interface'' [''_uuid'', ''ofport''] (by_name ifName)]) (\<lambda>res.
     gbind (deref (rows res 0)) (\<lambda>ports.
     if ports = [] then ret None
     else gbind (deref (rows res 1)) (\<lambda>intfs.
     if intfs = [] then throw (ErrTransaction (ErrText ''Interface not exists'') False)
     else gbind (deref (do { port \<leftarrow> as_obj (hd ports); intf \<leftarrow> as_obj (hd intfs);
              ifUUID \<leftarrow> row_uuid (hd intfs); ifs \<leftarrow> as_list (field ''interfaces'' port);
              Some (port, intf, ifUUID, GetIdListFromOVSDBSet env ifs) }))
       (\<lambda>(port, intf, ifUUID, ifUUIDList).
     if ifUUID \<notin> set ifUUIDList
     then throw (ErrTransaction (ErrText ''Interface is not attached to the port'') False)
     else gbind (deref (buildPortDataCommon port intf (new_port_data portUUID ifName)))
            (\<lambda>pd. ret (Some pd))))))"

text \<open>The rows of an answer by their uuid, the last of equal ones.\<close>

definition row_map :: "json list \<Rightarrow> (string \<times> (string \<times> json) list) list option" where
  "row_map rs = do {
     es \<leftarrow> those (map (\<lambda>r. do { u \<leftarrow> row_uuid r; fs \<leftarrow> as_obj r; Some (u, fs) }) rs);
     Some (fold (\<lambda>(u, fs) m. AList.update u fs m) es []) }"

definition map_row :: "(string \<times> (string \<times> json) list) list \<Rightarrow> string \<Rightarrow> (string \<times> json) list" where
  "map_row m u = (case map_of m u of None \<Rightarrow> [] | Some fs \<Rightarrow> fs)"

definition port_entry ::
  "ovs_env \<Rightarrow> (string \<times> (string \<times> json) list) list \<Rightarrow> (string \<times> (string \<times> json) list) list \<Rightarrow>
   string \<Rightarrow> OVSPortData option" where
  "port_entry env portMap ifMap uuid = do {
     let port = map_row portMap uuid;
     ifs \<leftarrow> as_list (field ''interfaces'' port);
     u \<leftarrow> idx (GetIdListFromOVSDBSet env ifs) 0;
     let intf = map_row ifMap u;
     n \<leftarrow> as_str (field ''name'' intf);
     buildPortDataCommon port intf (new_port_data uuid n) }"

definition read_port_list :: "ovs_env \<Rightarrow> action_result list \<Rightarrow> OVSPortData list option" where
  "read_port_list env res = do {
     bridges \<leftarrow> rows res 0;
     if bridges = [] then Some []
     else do {
       br \<leftarrow> as_obj (hd bridges);
       l \<leftarrow> as_list (field ''ports'' br);
       portRows \<leftarrow> rows res 1;
       portMap \<leftarrow> row_map portRows;
       ifRows \<leftarrow> rows res 2;
       ifMap \<leftarrow> row_map ifRows;
       those (map (port_entry env portMap ifMap) (GetIdListFromOVSDBSet env l)) } }"

definition GetPortList :: "ovs_env \<Rightarrow> (OVSBridge, OVSPortData list) go" where
  "GetPortList env =
     gbind (\<lambda>br. commit env
       [TxSelect ''Bridge'' [''ports''] (by_name (br_name br)),
        TxSelect ''Port'' [''_uuid'', ''name'', ''external_ids'', ''interfaces''] [],
        TxSelect ''Interface'' [''_uuid'', ''name'', ''ofport''] []] br) (\<lambda>res.
     deref (read_port_list env res))"

definition SetInterfaceMTU :: "ovs_env \<Rightarrow> string \<Rightarrow> int \<Rightarrow> (OVSBridge, unit) go" where
  "SetInterfaceMTU env name MTU =
     gbind (commit env [TxUpdate ''Interface'' (by_name name)
       (JObj [(''mtu_request'', JNum MTU)])]) (\<lambda>_. ret ())"

definition GetPortUUIDByIfName :: "ovs_env \<Rightarrow> string \<Rightarrow> (OVSBridge, string) go" where
  "GetPortUUIDByIfName env ifName =
     gbind (GetPortList env) (\<lambda>portList.
     case find (\<lambda>p. pd_IFName p = ifName) portList of
       Some p \<Rightarrow> ret (pd_UUID p)
     | None \<Rightarrow> throw errPortNotFound)"

end
