(* ===== verification/OvsRows.thy ===== *)
theory OvsRows
  imports OvsClient
begin

text \<open>
  The answers of an OVSDB server, as RFC 7047 writes them, for a view of the ports of the switch; what
  \<open>GetPortList\<close> and \<open>GetPortData\<close> read from them; and the two ends of \<open>br_Create\<close>.
\<close>

section \<open>A view of the ports and how the server writes it\<close>

record port_view =
  pv_uuid :: string
  pv_name :: string
  pv_ids :: "(string \<times> string) list"
  pv_if :: string
  pv_ifname :: string
  pv_ofport :: int

definition json_uuid :: "string \<Rightarrow> json list" where
  "json_uuid u = [JStr ''uuid'', JStr u]"

definition json_set :: "string list \<Rightarrow> json list" where
  "json_set us = (case us of
     [u] \<Rightarrow> json_uuid u | _ \<Rightarrow> [JStr ''set'', JList (map (\<lambda>u. JList (json_uuid u)) us)])"

definition json_map :: "(string \<times> string) list \<Rightarrow> json list" where
  "json_map es = [JStr ''map'', JList (map (\<lambda>(k, v). JList [JStr k, JStr v]) es)]"

definition port_fields :: "port_view \<Rightarrow> (string \<times> json) list" where
  "port_fields v = [(''_uuid'', JList (json_uuid (pv_uuid v))), (''name'', JStr (pv_name v)),
     (''external_ids'', JList (json_map (pv_ids v))), (''interfaces'', JList (json_set [pv_if v]))]"

definition if_fields :: "port_view \<Rightarrow> (string \<times> json) list" where
  "if_fields v = [(''_uuid'', JList (json_uuid (pv_if v))), (''name'', JStr (pv_ifname v)),
     (''ofport'', JNum (pv_ofport v))]"

text \<open>The answer to \<open>GetPortList\<close>: the bridge has the ports \<open>vs\<close>, the switch the ports \<open>ws\<close>.\<close>

definition port_answer :: "port_view list \<Rightarrow> port_view list \<Rightarrow> action_result list" where
  "port_answer vs ws =
     [\<lparr>ar_Rows = [JObj [(''ports'', JList (json_set (map pv_uuid vs)))]], ar_UUID = []\<rparr>,
      \<lparr>ar_Rows = map (JObj \<circ> port_fields) ws, ar_UUID = []\<rparr>,
      \<lparr>ar_Rows = map (JObj \<circ> if_fields) ws, ar_UUID = []\<rparr>]"

definition port_list_ops :: "OVSBridge \<Rightarrow> tx_op list" where
  "port_list_ops br =
     [TxSelect ''Bridge'' [''ports''] (by_name (br_name br)),
      TxSelect ''Port'' [''_uuid'', ''name'', ''external_ids'', ''interfaces''] [],
      TxSelect ''Interface'' [''_uuid'', ''name'', ''ofport''] []]"

text \<open>What the library documents of its reader of sets of uuids.\<close>

definition reads_sets :: "ovs_env \<Rightarrow> bool" where
  "reads_sets env \<longleftrightarrow> (\<forall>us. GetIdListFromOVSDBSet env (json_set us) = us)"

definition view_ok :: "port_view list \<Rightarrow> bool" where
  "view_ok ws \<longleftrightarrow> distinct (map pv_uuid ws) \<and> distinct (map pv_if ws) \<and> (\<forall>w \<in> set ws. wf_map (pv_ids w))"

definition view_data :: "port_view \<Rightarrow> OVSPortData" where
  "view_data v = \<lparr>pd_UUID = pv_uuid v, pd_Name = pv_name v, pd_ExternalIDs = Some (pv_ids v),
     pd_IFName = pv_ifname v, pd_OFPort = word_of_int (pv_ofport v)\<rparr>"

section \<open>Reading it back\<close>

lemma those_map_Some [simp]: "those (map (\<lambda>x. Some (g x)) xs) = Some (map g xs)"
  by (induction xs) simp_all

lemma those_map_cong: "(\<And>x. x \<in> set xs \<Longrightarrow> f x = Some (g x)) \<Longrightarrow> those (map f xs) = Some (map g xs)"
  by (induction xs) simp_all

lemma fold_update_distinct:
  "distinct (map fst (m @ es)) \<Longrightarrow> fold (\<lambda>(k, v) m. AList.update k v m) es m = m @ es"
proof (induction es arbitrary: m)
  case Nil
  then show ?case by simp
next
  case (Cons e es)
  obtain k v where e: "e = (k, v)" by (cases e)
  with Cons.prems have "map_of m k = None" by (auto simp: map_of_eq_None_iff)
  with Cons.IH [of "m @ [(k, v)]"] Cons.prems show ?case by (simp add: e update_absent)
qed

lemma buildMap_json_map: "wf_map es \<Longrightarrow> buildMapFromOVSDBMap (json_map es) = Some es"
proof -
  assume wf: "wf_map es"
  have "those (map (\<lambda>x. ovsdb_pair (case x of (k, v) \<Rightarrow> JList [JStr k, JStr v])) es) = Some (map id es)"
    by (rule those_map_cong) (auto simp: ovsdb_pair_def idx_def)
  with fold_update_distinct [of "[]" es] wf show ?thesis
    by (simp add: buildMapFromOVSDBMap_def json_map_def idx_def comp_def)
qed

lemma row_map_rows:
  assumes "distinct (map u ws)" and "\<And>w. row_uuid (JObj (g w)) = Some (u w)"
  shows "row_map (map (JObj \<circ> g) ws) = Some (map (\<lambda>w. (u w, g w)) ws)"
proof -
  have "distinct (map fst (map (\<lambda>w. (u w, g w)) ws))" using assms(1) by (simp add: comp_def)
  with fold_update_distinct [of "[]" "map (\<lambda>w. (u w, g w)) ws"] show ?thesis
    by (simp add: row_map_def comp_def assms(2))
qed

lemma row_uuid_fields: "row_uuid (JObj (port_fields w)) = Some (pv_uuid w)"
  "row_uuid (JObj (if_fields w)) = Some (pv_if w)"
  by (simp_all add: row_uuid_def port_fields_def if_fields_def json_uuid_def field_def idx_def)

lemma map_row_views:
  assumes "distinct (map u ws)" "w \<in> set ws"
  shows "map_row (map (\<lambda>w. (u w, g w)) ws) (u w) = g w"
proof -
  have "map_of (map (\<lambda>w. (u w, g w)) ws) (u w) = Some (g w)"
    using assms by (intro map_of_is_SomeI) (auto simp: comp_def)
  then show ?thesis by (simp add: map_row_def)
qed

lemma port_entry_view:
  assumes "reads_sets env" "view_ok ws" "w \<in> set ws"
  shows "port_entry env (map (\<lambda>w. (pv_uuid w, port_fields w)) ws)
      (map (\<lambda>w. (pv_if w, if_fields w)) ws) (pv_uuid w) = Some (view_data w)"
proof -
  have "wf_map (pv_ids w)" using assms by (auto simp: view_ok_def)
  note ids = buildMap_json_map [OF this]
  have "map_row (map (\<lambda>w. (pv_uuid w, port_fields w)) ws) (pv_uuid w) = port_fields w"
    "map_row (map (\<lambda>w. (pv_if w, if_fields w)) ws) (pv_if w) = if_fields w"
    using assms by (simp_all add: map_row_views view_ok_def)
  moreover have "GetIdListFromOVSDBSet env (json_set [pv_if w]) = [pv_if w]"
    using assms(1) unfolding reads_sets_def by blast
  ultimately show ?thesis
    by (simp add: port_entry_def port_fields_def if_fields_def field_def idx_def ids
        buildPortDataCommon_def new_port_data_def view_data_def)
qed

lemma read_port_list_view:
  assumes "reads_sets env" "view_ok ws" "set vs \<subseteq> set ws"
  shows "read_port_list env (port_answer vs ws) = Some (map view_data vs)"
proof -
  let ?ports = "map (\<lambda>w. (pv_uuid w, port_fields w)) ws"
  let ?ifs = "map (\<lambda>w. (pv_if w, if_fields w)) ws"
  have "row_map (map (JObj \<circ> port_fields) ws) = Some ?ports" "row_map (map (JObj \<circ> if_fields) ws) = Some ?ifs"
    using assms(2) by (simp_all add: row_map_rows view_ok_def row_uuid_fields)
  moreover have "those (map (port_entry env ?ports ?ifs \<circ> pv_uuid) vs) = Some (map view_data vs)"
    by (rule those_map_cong) (use port_entry_view [OF assms(1,2)] assms(3) in auto)
  moreover have "GetIdListFromOVSDBSet env (json_set (map pv_uuid vs)) = map pv_uuid vs"
    using assms(1) by (simp add: reads_sets_def)
  ultimately show ?thesis
    by (simp add: read_port_list_def port_answer_def rows_def idx_def field_def)
qed

lemma GetPortList_view:
  assumes "reads_sets env" "view_ok ws" "set vs \<subseteq> set ws"
    and "tx_commit env (br_log br) (port_list_ops br) = Inr (port_answer vs ws)"
  shows "GetPortList env br = (Ok (map view_data vs), br\<lparr>br_log := port_list_ops br # br_log br\<rparr>)"
  using assms(4) read_port_list_view [OF assms(1-3)]
  by (simp add: GetPortList_def gbind_eval commit_def port_list_ops_def [symmetric] deref_def ret_eval)

end
