(* ===== verification/Naming.thy ===== *)
theory Naming
  imports GoNet
begin

text \<open>
  \<open>pkg/agent/util/net.go\<close> and the pure parts of \<open>pkg/link/veth.go\<close>: the name of a pod's host interface, the
  random MAC address, and the choice of the default interface. SHA-1 is the one of the standard
  library (\<open>crypto/sha1\<close>), over the bytes of a string.
\<close>

unbundle bit_operations_syntax

section \<open>SHA-1\<close>

definition bytes_of :: "string \<Rightarrow> 8 word list" where
  "bytes_of s = map (\<lambda>c. word_of_nat (of_char c)) s"

text \<open>A number as \<open>n\<close> big-endian bytes, and four bytes as a number.\<close>

primrec be_bytes :: "nat \<Rightarrow> nat \<Rightarrow> 8 word list" where
  "be_bytes 0 v = []"
| "be_bytes (Suc n) v = word_of_nat (v div 256 ^ n) # be_bytes n v"

definition be_word :: "8 word list \<Rightarrow> 32 word" where
  "be_word bs = foldl (\<lambda>w b. push_bit 8 w OR ucast b) 0 bs"

definition sha1_pad :: "8 word list \<Rightarrow> 8 word list" where
  "sha1_pad m = m @ [0x80] @ replicate ((119 - length m mod 64) mod 64) 0 @ be_bytes 8 (8 * length m)"

fun chunks :: "nat \<Rightarrow> 'a list \<Rightarrow> 'a list list" where
  "chunks n xs = (if n = 0 \<or> length xs < n then [] else take n xs # chunks n (drop n xs))"

declare chunks.simps [simp del]

primrec sha1_extend :: "nat \<Rightarrow> 32 word list \<Rightarrow> 32 word list" where
  "sha1_extend 0 ws = ws"
| "sha1_extend (Suc n) ws =
     (let l = length ws
      in sha1_extend n (ws @ [word_rotl 1
           (ws ! (l - 3) XOR ws ! (l - 8) XOR ws ! (l - 14) XOR ws ! (l - 16))]))"

definition sha1_f :: "nat \<Rightarrow> 32 word \<Rightarrow> 32 word \<Rightarrow> 32 word \<Rightarrow> 32 word" where
  "sha1_f t b c d =
     (if t < 20 then (b AND c) OR (NOT b AND d)
      else if t < 40 then b XOR c XOR d
      else if t < 60 then (b AND c) OR (b AND d) OR (c AND d)
      else b XOR c XOR d)"

definition sha1_k :: "nat \<Rightarrow> 32 word" where
  "sha1_k t = (if t < 20 then 0x5a827999 else if t < 40 then 0x6ed9eba1
     else if t < 60 then 0x8f1bbcdc else 0xca62c1d6)"

type_synonym sha1_state = "32 word \<times> 32 word \<times> 32 word \<times> 32 word \<times> 32 word"

fun sha1_round :: "nat \<times> 32 word \<Rightarrow> sha1_state \<Rightarrow> sha1_state" where
  "sha1_round (t, w) (a, b, c, d, e) =
     (word_rotl 5 a + sha1_f t b c d + e + w + sha1_k t, a, word_rotl 30 b, c, d)"

definition sha1_block :: "8 word list \<Rightarrow> sha1_state \<Rightarrow> sha1_state" where
  "sha1_block block h =
     (let ws = sha1_extend 64 (map be_word (chunks 4 block))
      in case (h, fold sha1_round (zip [0..<80] ws) h) of
        ((h0, h1, h2, h3, h4), (a, b, c, d, e)) \<Rightarrow> (h0 + a, h1 + b, h2 + c, h3 + d, h4 + e))"

definition sha1 :: "8 word list \<Rightarrow> 8 word list" where
  "sha1 m = (case fold sha1_block (chunks 64 (sha1_pad m))
       (0x67452301, 0xefcdab89, 0x98badcfe, 0x10325476, 0xc3d2e1f0) of
     (a, b, c, d, e) \<Rightarrow> concat (map (\<lambda>w. be_bytes 4 (unat w)) [a, b, c, d, e]))"

text \<open>\<open>hex.EncodeToString\<close>\<close>

definition hex_encode :: "8 word list \<Rightarrow> string" where
  "hex_encode bs = concat (map hex2 bs)"

lemma length_be_bytes [simp]: "length (be_bytes n v) = n"
  by (induction n) simp_all

lemma length_sha1 [simp]: "length (sha1 m) = 20"
  by (simp add: sha1_def split: prod.split)

lemma length_hex2 [simp]: "length (hex2 w) = 2"
  by (simp add: hex2_def)

lemma length_hex_encode [simp]: "length (hex_encode bs) = 2 * length bs"
  by (induction bs) (simp_all add: hex_encode_def)

section \<open>Interface names\<close>

definition interfaceNameLength :: nat where "interfaceNameLength = 15"
definition podNamePrefixLength :: nat where "podNamePrefixLength = 8"
definition containerKeyConnector :: string where "containerKeyConnector = ''-''"

lemmas naming_consts = interfaceNameLength_def podNamePrefixLength_def containerKeyConnector_def

text \<open>\<open>strings.Replace(podName, "-", "", -1)\<close>, cut to the prefix length.\<close>

definition name_prefix :: "string \<Rightarrow> string" where
  "name_prefix podName =
     (let name = filter (\<lambda>c. c \<noteq> CHR ''-'') podName
      in if podNamePrefixLength < length name then take podNamePrefixLength name else name)"

definition pod_key :: "string \<Rightarrow> string \<Rightarrow> string" where
  "pod_key podName podNamespace = hex_encode (sha1 (bytes_of (podNamespace @ ''/'' @ podName)))"

definition GenerateContainerInterfaceName :: "string \<Rightarrow> string \<Rightarrow> string" where
  "GenerateContainerInterfaceName podName podNamespace =
     (let podKey = pod_key podName podNamespace;
          name = name_prefix podName;
          podKeyLength = interfaceNameLength - length name - length containerKeyConnector
      in join containerKeyConnector [name, take podKeyLength podKey])"

text \<open>link.GenerateContainerInterfaceName repeats the same body.\<close>

definition link_GenerateContainerInterfaceName :: "string \<Rightarrow> string \<Rightarrow> string" where
  "link_GenerateContainerInterfaceName podName podNamespace =
     (let podKey = hex_encode (sha1 (bytes_of (podNamespace @ ''/'' @ podName)));
          name = filter (\<lambda>c. c \<noteq> CHR ''-'') podName;
          name = (if podNamePrefixLength < length name then take podNamePrefixLength name else name);
          podKeyLength = interfaceNameLength - length name - length containerKeyConnector
      in join containerKeyConnector [name, take podKeyLength podKey])"

lemma name_prefix_bound: "length (name_prefix p) \<le> 8"
  by (simp add: name_prefix_def naming_consts Let_def)

lemma name_prefix_no_connector: "CHR ''-'' \<notin> set (name_prefix p)"
  by (auto simp: name_prefix_def Let_def dest: in_set_takeD)

lemma length_pod_key [simp]: "length (pod_key p ns) = 40"
  by (simp add: pod_key_def)

lemma GenerateContainerInterfaceName_eq:
  "GenerateContainerInterfaceName p ns =
     name_prefix p @ ''-'' @ take (14 - length (name_prefix p)) (pod_key p ns)"
  using name_prefix_bound [of p]
  by (simp add: GenerateContainerInterfaceName_def naming_consts Let_def)

text \<open>The first connector separates the two parts, so the name determines both.\<close>

lemma takeWhile_interface_name:
  "takeWhile (\<lambda>c. c \<noteq> CHR ''-'') (GenerateContainerInterfaceName p ns) = name_prefix p"
proof -
  have "c \<noteq> CHR ''-''" if "c \<in> set (name_prefix p)" for c
    using that name_prefix_no_connector [of p] by auto
  then show ?thesis
    by (simp add: GenerateContainerInterfaceName_eq takeWhile_append2)
qed

section \<open>Random MAC addresses\<close>

text \<open>\<open>buf\<close> is what \<open>rand.Read\<close> left in the six bytes: zeros if it failed.\<close>

definition generateRandomMAC :: "8 word list \<Rightarrow> mac" where
  "generateRandomMAC buf = buf[0 := (buf ! 0 AND 0xfe) OR 0x02]"

section \<open>The default interface\<close>

record route =
  rt_Gw :: "ip option"
  rt_LinkIndex :: int

record link =
  lk_Index :: int
  lk_Name :: string

text \<open>
  The link of the last route with a gateway; an empty name if no link has its index. A failure to
  list the routes is an empty list.
\<close>

definition gw_index :: "route list \<Rightarrow> int" where
  "gw_index routeList =
     fold (\<lambda>r index. if rt_Gw r \<noteq> None then rt_LinkIndex r else index) routeList (- 1)"

definition errNoDefaultInterface :: error where
  "errNoDefaultInterface = ErrText
     (utf8 [0xe6, 0x9c, 0xaa, 0xe6, 0x89, 0xbe, 0xe5, 0x88, 0xb0, 0xe9, 0xbb, 0x98, 0xe8, 0xae, 0xa4, 0xe6, 0x8e, 0xa5, 0xe5, 0x8f, 0xa3])"

definition GetDefaultInterface :: "route list \<Rightarrow> error + link list \<Rightarrow> error + string" where
  "GetDefaultInterface routeList linkList =
     (let index = gw_index routeList
      in if index = - 1 then Inl errNoDefaultInterface
         else case linkList of
           Inl err \<Rightarrow> Inl (ErrWrap (utf8 [0xe8, 0x8e, 0xb7, 0xe5, 0x8f, 0x96] @ ''LinkList'' @ utf8 [0xe5, 0xa4, 0xb1, 0xe8, 0xb4, 0xa5] @ '', err = '') err)
         | Inr links \<Rightarrow> Inr (case find (\<lambda>l. lk_Index l = index) links of
             None \<Rightarrow> [] | Some l \<Rightarrow> lk_Name l))"

end
