(* ===== verification/InterfaceCache.thy ===== *)
theory InterfaceCache
  imports Naming OvsClient
begin

text \<open>
  \<open>pkg/agent/interface_cache.go\<close>: the cache of the interfaces of the OVS bridge, the records it keeps and
  the contract of \<open>InterfaceStore\<close>.
\<close>

section \<open>Interfaces\<close>

datatype InterfaceType = ContainerInterface | TunnelInterface | GatewayInterface

record OVSPortConfig =
  po_IfaceName :: string
  po_PortUUID :: string
  po_OFPort :: "32 word"

text \<open>The embedded pointer to the port configuration may be nil.\<close>

record InterfaceConfig =
  if_ID :: string
  if_Type :: InterfaceType
  if_IP :: ip
  if_MAC :: mac
  if_PodName :: string
  if_PodNamespace :: string
  if_NetNS :: string
  if_port :: "OVSPortConfig option"

definition new_interface :: "string \<Rightarrow> InterfaceType \<Rightarrow> InterfaceConfig" where
  "new_interface i ty = \<lparr>if_ID = i, if_Type = ty, if_IP = [], if_MAC = [], if_PodName = [],
     if_PodNamespace = [], if_NetNS = [], if_port = None\<rparr>"

definition NewTunnelInterface :: "string \<Rightarrow> InterfaceConfig" where
  "NewTunnelInterface tunnelName = new_interface tunnelName TunnelInterface"

definition NewGatewayInterface :: "string \<Rightarrow> InterfaceConfig" where
  "NewGatewayInterface gatewayName = new_interface gatewayName GatewayInterface"

definition NewContainerInterfaceConfig ::
  "string \<Rightarrow> string \<Rightarrow> string \<Rightarrow> string \<Rightarrow> mac \<Rightarrow> ip \<Rightarrow> InterfaceConfig" where
  "NewContainerInterfaceConfig containerID podName podNamespace containerNetNS m a =
     (new_interface containerID ContainerInterface)\<lparr>if_PodName := podName,
       if_PodNamespace := podNamespace, if_NetNS := containerNetNS, if_MAC := m, if_IP := a\<rparr>"

definition BuildOVSPortExternalIDs :: "InterfaceConfig \<Rightarrow> (string \<times> json) list" where
  "BuildOVSPortExternalIDs cfg =
     [(''attached-mac'', JStr (mac_string (if_MAC cfg))),
      (''container-id'', JStr (if_ID cfg)),
      (''ip-address'', JStr (ip_string (if_IP cfg))),
      (''pod-name'', JStr (if_PodName cfg)),
      (''pod-namespace'', JStr (if_PodNamespace cfg))]"

definition InterfaceConfig_String :: "InterfaceConfig \<Rightarrow> string option" where
  "InterfaceConfig_String cfg = map_option (\<lambda>p.
     ''{ID = '' @ if_ID cfg @ '', IP = '' @ ip_string (if_IP cfg) @ '', PodName = '' @ if_PodName cfg
     @ '', PodNamespace = '' @ if_PodNamespace cfg @ '', NetNS = '' @ if_NetNS cfg
     @ '', portUUID = '' @ po_PortUUID p @ ''}'') (if_port cfg)"

section \<open>The cache\<close>

type_synonym interface_cache = "(string \<times> InterfaceConfig) list"

definition NewInterfaceStore :: interface_cache where
  "NewInterfaceStore = []"

definition AddInterface :: "string \<Rightarrow> InterfaceConfig \<Rightarrow> interface_cache \<Rightarrow> interface_cache" where
  "AddInterface ifaceID cfg i = AList.update ifaceID cfg i"

definition DeleteInterface :: "string \<Rightarrow> interface_cache \<Rightarrow> interface_cache" where
  "DeleteInterface ifaceID i = AList.delete ifaceID i"

definition GetInterface :: "interface_cache \<Rightarrow> string \<Rightarrow> InterfaceConfig option" where
  "GetInterface i ifaceID = map_of i ifaceID"

definition GetContainerInterface :: "interface_cache \<Rightarrow> string \<Rightarrow> string \<Rightarrow> InterfaceConfig option" where
  "GetContainerInterface i podName podNamespace =
     map_of i (GenerateContainerInterfaceName podName podNamespace)"

definition GetContainerInterfaceNum :: "interface_cache \<Rightarrow> nat" where
  "GetContainerInterfaceNum i =
     fold (\<lambda>(k, v) num. if if_Type v = ContainerInterface then Suc num else num) i 0"

definition cache_Len :: "interface_cache \<Rightarrow> nat" where
  "cache_Len i = length i"

text \<open>The ids come in the order a \<open>range\<close> of the run visits them; only their set is relied on.\<close>

definition GetInterfaceIDs :: "interface_cache \<Rightarrow> string list" where
  "GetInterfaceIDs i = map fst i"

text \<open>
  \<open>Initialize\<close>: only the tunnel port is cached; of the other ports the code has no configuration yet,
  with or without external ids.
\<close>

definition port_interface :: "string \<Rightarrow> OVSPortData \<Rightarrow> InterfaceConfig option" where
  "port_interface tunnelPort port =
     (let portcfg = \<lparr>po_IfaceName = pd_Name port, po_PortUUID = pd_UUID port, po_OFPort = pd_OFPort port\<rparr>
      in if pd_Name port = tunnelPort
         then Some ((new_interface tunnelPort TunnelInterface)\<lparr>if_port := Some portcfg\<rparr>)
         else None)"

definition cache_port :: "string \<Rightarrow> OVSPortData \<Rightarrow> interface_cache \<Rightarrow> interface_cache" where
  "cache_port tunnelPort port i =
     (case port_interface tunnelPort port of
        None \<Rightarrow> i
      | Some cfg \<Rightarrow> AList.update (pd_Name port) cfg i)"

definition cache_Initialize ::
  "ovs_env \<Rightarrow> string \<Rightarrow> (OVSBridge \<times> interface_cache, unit) go" where
  "cache_Initialize env tunnelPort =
     gbind (on_fst (GetPortList env)) (\<lambda>ovsPorts.
     modify (\<lambda>(br, i). (br, fold (cache_port tunnelPort) ovsPorts i)))"

section \<open>The contract of \<open>InterfaceStore\<close>\<close>

locale interface_store =
  fixes new :: 's
    and add :: "string \<Rightarrow> InterfaceConfig \<Rightarrow> 's \<Rightarrow> 's"
    and del :: "string \<Rightarrow> 's \<Rightarrow> 's"
    and get :: "'s \<Rightarrow> string \<Rightarrow> InterfaceConfig option"
    and ids :: "'s \<Rightarrow> string list"
    and ok :: "'s \<Rightarrow> bool"
  assumes get_new: "get new k = None"
    and get_add: "get (add k v s) k' = (if k' = k then Some v else get s k')"
    and get_del: "get (del k s) k' = (if k' = k then None else get s k')"
    and ok_new: "ok new" and ok_add: "ok s \<Longrightarrow> ok (add k v s)" and ok_del: "ok s \<Longrightarrow> ok (del k s)"
    and ids_get: "ok s \<Longrightarrow> distinct (ids s) \<and> set (ids s) = dom (get s)"
begin

text \<open>Any sequence of additions and deletions: what a key gives is decided by the last one on it.\<close>

definition apply_op :: "string \<times> InterfaceConfig option \<Rightarrow> 's \<Rightarrow> 's" where
  "apply_op = (\<lambda>(k, v) s. case v of None \<Rightarrow> del k s | Some c \<Rightarrow> add k c s)"

lemma get_apply_op: "get (apply_op (k, v) s) k' = (if k' = k then v else get s k')"
  by (cases v) (simp_all add: apply_op_def get_add get_del)

lemma get_ops: "get (fold apply_op ops s) k = (case map_of (rev ops) k of None \<Rightarrow> get s k | Some v \<Rightarrow> v)"
proof (induction ops arbitrary: s)
  case Nil
  then show ?case by simp
next
  case (Cons op ops)
  obtain k' v where op: "op = (k', v)" by (cases op)
  show ?case
    by (simp add: Cons.IH op get_apply_op map_add_def split: option.split)
qed

lemma ok_ops: "ok s \<Longrightarrow> ok (fold apply_op ops s)"
  by (induction ops arbitrary: s)
    (auto simp: apply_op_def ok_add ok_del split: option.split prod.split)

lemma del_absent_ids: "ok s \<Longrightarrow> set (ids (del k s)) = set (ids s) - {k}"
proof -
  assume ok: "ok s"
  have "get (del k s) = (get s)(k := None)" by (auto simp: get_del)
  with ids_get [OF ok_del [OF ok]] ids_get [OF ok] show ?thesis by simp
qed

end

interpretation cache: interface_store NewInterfaceStore AddInterface DeleteInterface
  GetInterface GetInterfaceIDs wf_map
  by unfold_locales
    (auto simp: NewInterfaceStore_def AddInterface_def DeleteInterface_def GetInterface_def
      GetInterfaceIDs_def dom_map_of_conv_image_fst intro: rev_image_eqI)

lemma GetContainerInterfaceNum_eq:
  "GetContainerInterfaceNum i = length (filter (\<lambda>(k, v). if_Type v = ContainerInterface) i)"
proof -
  have "fold (\<lambda>(k, v) num. if if_Type v = ContainerInterface then Suc num else num) i n
      = n + length (filter (\<lambda>(k, v). if_Type v = ContainerInterface) i)" for n
    by (induction i arbitrary: n) auto
  then show ?thesis by (simp add: GetContainerInterfaceNum_def)
qed

text \<open>What the initialisation leaves under a name.\<close>

lemma map_of_cache_ports:
  "map_of (fold (cache_port tp) ports i) k =
     (if k = tp \<and> (\<exists>p \<in> set ports. pd_Name p = tp)
      then port_interface tp (last (filter (\<lambda>p. pd_Name p = tp) ports))
      else map_of i k)"
proof (induction ports arbitrary: i)
  case Nil
  then show ?case by simp
next
  case (Cons p ports)
  have "map_of (cache_port tp p i) k =
      (if k = tp \<and> pd_Name p = tp then port_interface tp p else map_of i k)"
    by (auto simp: cache_port_def port_interface_def Let_def)
  moreover have "filter (\<lambda>p. pd_Name p = tp) ports = [] \<longleftrightarrow> \<not> (\<exists>p \<in> set ports. pd_Name p = tp)"
    by (auto simp: filter_empty_conv)
  ultimately show ?case by (auto simp: Cons.IH)
qed

section \<open>Caches keyed by the ports\<close>

text \<open>Every interface of the cache has a port and is found under the name of the port.\<close>

definition keyed :: "interface_cache \<Rightarrow> bool" where
  "keyed i \<longleftrightarrow> (\<forall>k cfg. GetInterface i k = Some cfg \<longrightarrow>
     (\<exists>port. if_port cfg = Some port \<and> po_IfaceName port = k))"

lemma keyed_add: "keyed i \<Longrightarrow>
    keyed (AddInterface name (cfg\<lparr>if_port := Some \<lparr>po_IfaceName = name, po_PortUUID = u, po_OFPort = p\<rparr>\<rparr>) i)"
  by (auto simp: keyed_def cache.get_add)

lemma keyed_delete: "keyed i \<Longrightarrow> keyed (DeleteInterface name i)"
  by (auto simp: keyed_def cache.get_del)

lemma keyed_initialized: "keyed i \<Longrightarrow> keyed (fold (cache_port tp) ports i)"
proof (induction ports arbitrary: i)
  case (Cons port ports)
  have "keyed (cache_port tp port i)"
    using Cons.prems by (auto simp: keyed_def GetInterface_def cache_port_def port_interface_def Let_def)
  with Cons.IH show ?case by simp
qed simp

end
