(* ===== verification/NodeProps.thy ===== *)
theory NodeProps
  imports TcTools Iptables OvsRows InterfaceCache
begin

text \<open>
  Properties of the node side: interface names and addresses, traffic control, iptables, the OVSDB
  client and the interface cache.
\<close>

unbundle bit_operations_syntax

section \<open>Names and MAC addresses\<close>

text \<open>
  The host interface name of a pod has 15 bytes, what Linux allows, for any pod and namespace, and both
  packages that compute it agree.
\<close>

lemma interface_name_length:
  "length (GenerateContainerInterfaceName p ns) = 15 \<and>
   link_GenerateContainerInterfaceName p ns = GenerateContainerInterfaceName p ns"
proof -
  have "length (GenerateContainerInterfaceName p ns) = 15"
    using name_prefix_bound [of p] by (simp add: GenerateContainerInterfaceName_eq)
  moreover have "link_GenerateContainerInterfaceName p ns = GenerateContainerInterfaceName p ns"
    by (simp add: link_GenerateContainerInterfaceName_def GenerateContainerInterfaceName_def
        name_prefix_def pod_key_def Let_def)
  ultimately show ?thesis by simp
qed

text \<open>
  Two pods get the same interface name exactly if their names agree in the first eight bytes other than
  hyphens and their hashes in the hexadecimal digits that fill up the name: no other pair collides.
\<close>

lemma interface_name_collision:
  "GenerateContainerInterfaceName p ns = GenerateContainerInterfaceName p' ns' \<longleftrightarrow>
     name_prefix p = name_prefix p' \<and>
     take (14 - length (name_prefix p)) (pod_key p ns) = take (14 - length (name_prefix p)) (pod_key p' ns')"
proof
  assume eq: "GenerateContainerInterfaceName p ns = GenerateContainerInterfaceName p' ns'"
  then have "name_prefix p = name_prefix p'" by (metis takeWhile_interface_name)
  with eq show "name_prefix p = name_prefix p' \<and>
      take (14 - length (name_prefix p)) (pod_key p ns) = take (14 - length (name_prefix p)) (pod_key p' ns')"
    by (simp add: GenerateContainerInterfaceName_eq)
next
  assume parts: "name_prefix p = name_prefix p' \<and>
    take (14 - length (name_prefix p)) (pod_key p ns) = take (14 - length (name_prefix p)) (pod_key p' ns')"
  then show "GenerateContainerInterfaceName p ns = GenerateContainerInterfaceName p' ns'"
    unfolding GenerateContainerInterfaceName_eq by metis
qed

text \<open>
  A generated MAC address is a unicast, locally administered one: whatever six bytes were read, bit 0 of
  the first byte is clear, bit 1 is set, and no other bit is changed.
\<close>

lemma random_mac_local_unicast:
  assumes "length buf = 6"
  shows "\<not> bit (generateRandomMAC buf ! 0) 0 \<and> bit (generateRandomMAC buf ! 0) 1 \<and>
    (\<forall>k. k \<noteq> 0 \<and> k \<noteq> 1 \<longrightarrow> bit (generateRandomMAC buf ! 0) k = bit (buf ! 0) k) \<and>
    tl (generateRandomMAC buf) = tl buf"
proof -
  have fe: "(0xfe :: 8 word) = NOT 1" by simp
  have "\<not> bit ((b AND 0xfe) OR 0x02) 0" "bit ((b AND 0xfe) OR 0x02) 1" for b :: "8 word"
    by (simp_all add: bit_simps)
  moreover have "bit ((b AND 0xfe) OR 0x02) k = bit b k" if "k \<noteq> 0" "k \<noteq> 1" for b :: "8 word" and k
    using that unfolding fe by (auto simp: bit_simps dest: bit_imp_le_length)
  moreover obtain b bs where "buf = b # bs" using assms by (cases buf) auto
  ultimately show ?thesis by (simp add: generateRandomMAC_def)
qed

lemma random_mac_local_unicast_witness:
  "\<not> bit (generateRandomMAC [255, 1, 2, 3, 4, 5] ! 0) 0 \<and> bit (generateRandomMAC [255, 1, 2, 3, 4, 5] ! 0) 1"
  using random_mac_local_unicast [of "[255, 1, 2, 3, 4, 5]"] by simp

section \<open>Traffic control\<close>




lemma tc_send_Ok: "tc_send env r h = (Ok (), h') \<Longrightarrow> h' = r # h"
  by (auto simp: tc_send_def split: option.splits)

lemma ifIndex_Ok: "gbind (ifIndex_of env nm) m h = (Ok (), h') \<Longrightarrow>
  \<exists>i. InterfaceByName env nm = Inr i \<and> m (word_of_int i) h = (Ok (), h')"
  by (auto simp: ifIndex_of_def go_eval split: sum.splits)

lemma deref_Some [simp]: "deref (Some a) = ret a"
  by (simp add: deref_def)

lemma deref_Ok_iff: "deref p s = (Ok a, s') \<longleftrightarrow> p = Some a \<and> s' = s"
  by (auto simp: deref_def go_eval split: option.split)

lemma createTcnl_Ok: "gseq (createTcnl env) m h = (Ok (), h') \<Longrightarrow> m h = (Ok (), h')"
  by (auto simp: createTcnl_def gbind_def split: option.splits)


text \<open>A kernel that accepts every request.\<close>

definition tc_ok :: tc_env where
  "tc_ok = \<lparr>InterfaceByName = (\<lambda>n. if n = [] then Inl (ErrText ''no such network interface'') else Inr 7),
     tc_Open = (\<lambda>h. None), tc_answer = (\<lambda>h r. None),
     BuildHandle = (\<lambda>a b. push_bit 16 a OR b), HandleRoot = 0xffffffff\<rparr>"

lemma tc_ok_run [simp]:
  "createTcnl tc_ok = ret ()" "n \<noteq> [] \<Longrightarrow> ifIndex_of tc_ok n = ret 7"
  "tc_send tc_ok r h = (Ok (), r # h)"
  by (simp_all add: createTcnl_def ifIndex_of_def tc_send_def tc_ok_def fun_eq_iff go_eval)



text \<open>
  A successful \<open>AddTCFilterWithDstCidr\<close> adds either one filter, or none: none exactly if the CIDR is not
  an IPv4 one, and then nothing is reported.
\<close>

lemma filter_added_iff:
  assumes "AddTCFilterWithDstCidr env ifName parent cidr classId prio h = (Ok (), h')"
  shows "(h' = h \<longleftrightarrow> (\<exists>a n. ParseCIDR cidr = Inr (a, n) \<and> To4 a = [])) \<and>
    (h' = h \<or> (\<exists>f. h' = FilterAdd f # h))"
proof -
  obtain i where run: "(case ParseCIDR cidr of Inl err \<Rightarrow> throw err
      | Inr (ipAddr, net) \<Rightarrow>
          (let dstIP = To4 ipAddr
           in if dstIP = [] then ret ()
              else gbind (deref (le_word dstIP)) (\<lambda>d.
                   gbind (deref (le_word (ipnet_Mask net))) (\<lambda>m.
                   tc_send env (FilterAdd (createFilterObject (word_of_int i) (BuildHandle env 1 0)
                     (BuildHandle env 1 1) prio tc_ProtocolIP
                     [\<lparr>uk_Mask = m, uk_Val = d, uk_Off = 16\<rparr>])))))) h = (Ok (), h')"
    using ifIndex_Ok [OF assms [unfolded AddTCFilterWithDstCidr_def]] by (auto dest!: createTcnl_Ok)
  then obtain a n where c: "ParseCIDR cidr = Inr (a, n)"
    by (cases "ParseCIDR cidr") (auto simp: throw_eval)
  show ?thesis
  proof (cases "To4 a = []")
    case True
    with run c show ?thesis by (auto simp: ret_eval)
  next
    case False
    with run c have "\<exists>f. h' = FilterAdd f # h"
      by (auto simp: Let_def gbind_Ok_iff deref_Ok_iff dest!: tc_send_Ok)
    with False c show ?thesis by auto
  qed
qed

lemma ParseCIDR_ipv6: "\<exists>a n. ParseCIDR ''fd00::/64'' = Inr (a, n) \<and> To4 a = []"
proof -
  have "parse_v6_loop [] None ''fd00::'' = Some ([0xfd, 0], Some 2)"
    by (subst parse_v6_loop.simps) (simp add: hex_val_def)
  then have "ParseAddr ''fd00::'' = Some [0xfd, 0, 0, 0, 0, 0, 0, 0, 0, 0, 0, 0, 0, 0, 0, 0]"
    by (simp add: ParseAddr_def parse_v6_def expand_ellipsis_def numeral_eq_Suc)
  moreover have "dtoi 0 ''64'' = Some 64" by (simp add: digit_val_def)
  ultimately show ?thesis by (simp add: ParseCIDR_def As16_def Let_def To4_def v4InV6Prefix_def)
qed

lemma filter_added_iff_witness:
  "AddTCFilterWithDstCidr tc_ok ''gw0'' 0 ''fd00::/64'' 0 1 [] = (Ok (), []) \<and>
   (\<exists>a n. ParseCIDR ''fd00::/64'' = Inr (a, n) \<and> To4 a = [])"
proof -
  have "AddTCFilterWithDstCidr tc_ok ''gw0'' 0 ''fd00::/64'' 0 1 [] = (Ok (), [])"
    using ParseCIDR_ipv6 by (auto simp: AddTCFilterWithDstCidr_def ret_eval)
  with filter_added_iff [OF this] show ?thesis by blast
qed

section \<open>iptables\<close>



text \<open>
  The setup can be repeated: after one that succeeded, a second one (with any interface) changes nothing and
  succeeds.
\<close>

lemma SetUpRules_again:
  assumes "ipt_documented ipt" and "SetUpRules ipt c out k = (Ok (), k')"
  shows "SetUpRules ipt c out' k' = (Ok (), k')"
  using SetUpRules_chains_rules [OF assms] by (intro SetUpRules_in_place) simp

lemma SetUpRules_again_witness:
  "\<exists>k. SetUpRules list_ipt \<lparr>hostGateway = ''ciccni-gw0'', podCIDR = ''10.244.0.0/16''\<rparr> ''eth0'' ([], []) = (Ok (), k) \<and>
     SetUpRules list_ipt \<lparr>hostGateway = ''ciccni-gw0'', podCIDR = ''10.244.0.0/16''\<rparr> ''eth1'' k = (Ok (), k)"
proof -
  let ?c = "\<lparr>hostGateway = ''ciccni-gw0'', podCIDR = ''10.244.0.0/16''\<rparr>"
  obtain k where k: "SetUpRules list_ipt ?c ''eth0'' ([], []) = (Ok (), k)"
    using SetUpRules_works [OF list_ipt_ok, of ?c] by fastforce
  with SetUpRules_again [OF list_ipt_ok(1) k] show ?thesis by blast
qed

section \<open>The OVSDB client\<close>

abbreviation bridge_lookup :: "OVSBridge \<Rightarrow> tx_op list" where
  "bridge_lookup br \<equiv> [TxSelect ''Bridge'' [''_uuid''] (by_name (br_name br))]"

lemma commit_Ok: "commit env ops br = (Ok res, br') \<longleftrightarrow>
    tx_commit env (br_log br) ops = Inr res \<and> br' = br\<lparr>br_log := ops # br_log br\<rparr>"
  by (auto simp: commit_def Let_def split: sum.splits)

text \<open>
  \<open>Create\<close> never makes a second bridge of the name: it commits the insertion only after a lookup that found no
  row, and otherwise only updates the protocols of the row it found. In both cases two
  transactions are committed, and the bridge ends with the uuid of its row.
\<close>

lemma bridge_created_once:
  assumes "br_Create env br = (Ok (), br')"
  shows "\<exists>res rs. tx_commit env (br_log br) (bridge_lookup br) = Inr res \<and> rows res 0 = Some rs \<and>
    (if rs = []
     then \<exists>res'. tx_commit env (bridge_lookup br # br_log br) (create_ops env br) = Inr res' \<and>
       result_uuid res' 0 = Some (br_uuid br') \<and>
       br' = br\<lparr>br_uuid := br_uuid br', br_log := [create_ops env br, bridge_lookup br] @ br_log br\<rparr>
     else row_uuid (hd rs) = Some (br_uuid br') \<and>
       br' = br\<lparr>br_uuid := br_uuid br', br_log := [[TxUpdate ''Bridge'' (by_name (br_name br))
          (JObj [(''protocols'', JList openflow_protocols)])], bridge_lookup br] @ br_log br\<rparr>)"
proof -
  from assms obtain ex br1 where look: "lookupByName env br = (Ok ex, br1)" and
    rest: "(if ex then updateProtocols env else br_create env) br1 = (Ok (), br')"
    by (auto simp: br_Create_def gbind_Ok_iff)
  let ?br = "br\<lparr>br_log := bridge_lookup br # br_log br\<rparr>"
  from look obtain res rs where 1: "tx_commit env (br_log br) (bridge_lookup br) = Inr res" "rows res 0 = Some rs"
    and 2: "(case rs of [] \<Rightarrow> ret False
      | r # _ \<Rightarrow> gbind (deref (row_uuid r)) (\<lambda>u. gseq (modify (br_uuid_update (\<lambda>_. u))) (ret True))) ?br
      = (Ok ex, br1)"
    by (auto simp: lookupByName_def gbind_Ok_iff commit_Ok deref_Ok_iff)
  show ?thesis
  proof (cases rs)
    case Nil
    with 2 have "ex = False" "br1 = ?br" by (auto simp: ret_eval)
    with rest Nil 1 show ?thesis
      by (auto simp: br_create_def gbind_Ok_iff commit_Ok deref_Ok_iff modify_eval create_ops_def Let_def)
  next
    case (Cons r rs')
    with 2 have "ex" "\<exists>u. row_uuid r = Some u \<and> br1 = ?br\<lparr>br_uuid := u\<rparr>"
      by (auto simp: gbind_Ok_iff deref_Ok_iff ret_eval modify_eval)
    with rest Cons 1 show ?thesis
      by (auto simp: updateProtocols_def gbind_Ok_iff commit_Ok ret_eval)
  qed
qed

text \<open>A server with a fixed answer to each transaction, by its number, and the library's set functions.\<close>

fun read_set :: "json list \<Rightarrow> string list" where
  "read_set [JStr t, JStr u] = [u]"
| "read_set [JStr t, JList l] = concat (map (\<lambda>j. case j of JList [JStr _, JStr u] \<Rightarrow> [u] | _ \<Rightarrow> []) l)"
| "read_set js = []"

definition ovs_answers :: "action_result list list \<Rightarrow> ovs_env" where
  "ovs_answers rss = \<lparr>
     tx_commit = (\<lambda>h ops. if length h < length rss then Inr (rss ! length h)
       else Inl (ErrText ''timed out: no answer'', False)),
     tx_name = (\<lambda>ops. ''row'' @ dec (length ops)),
     MakeOVSDBSet = (\<lambda>es. case es of [(k, JList l)] \<Rightarrow> [JStr ''set'', JList (map (\<lambda>j. JList [JStr k, j]) l)]
       | _ \<Rightarrow> [JStr ''set'', JList []]),
     MakeOVSDBMap = (\<lambda>es. [JStr ''map'', JList (map (\<lambda>(k, v). JList [JStr k, v]) es)]),
     GetIdListFromOVSDBSet = read_set\<rparr>"

lemma ovs_answers_reads_sets: "reads_sets (ovs_answers rss)"
proof -
  have "read_set (json_set us) = us" for us
    by (auto simp: json_set_def json_uuid_def comp_def concat_map_singleton split: list.split)
  then show ?thesis by (simp add: reads_sets_def ovs_answers_def)
qed

lemma bridge_created_once_witness:
  "\<exists>br. br_Create (ovs_answers [[\<lparr>ar_Rows = [JObj [(''_uuid'', JList (json_uuid ''b1''))]], ar_UUID = []\<rparr>], []])
      (NewOVSBridge ''br-int'' ''system'') = (Ok (), br) \<and> br_uuid br = ''b1''"
proof -
  let ?env = "ovs_answers [[\<lparr>ar_Rows = [JObj [(''_uuid'', JList (json_uuid ''b1''))]], ar_UUID = []\<rparr>], []]"
  let ?br = "NewOVSBridge ''br-int'' ''system''"
  have rows: "row_uuid (JObj [(''_uuid'', JList (json_uuid ''b1''))]) = Some ''b1''"
    by (simp add: row_uuid_def json_uuid_def field_def idx_def)
  have "\<exists>br. br_Create ?env ?br = (Ok (), br)"
    by (simp add: br_Create_def lookupByName_def updateProtocols_def gbind_Ok_iff commit_Ok deref_Ok_iff
        ovs_answers_def NewOVSBridge_def rows_def idx_def rows ret_eval modify_eval) blast
  then obtain br where run: "br_Create ?env ?br = (Ok (), br)" by blast
  have "tx_commit ?env (br_log ?br) (bridge_lookup ?br)
      = Inr [\<lparr>ar_Rows = [JObj [(''_uuid'', JList (json_uuid ''b1''))]], ar_UUID = []\<rparr>]"
    by (simp add: ovs_answers_def NewOVSBridge_def)
  with bridge_created_once [OF run] run rows show ?thesis by (auto simp: rows_def idx_def)
qed

text \<open>
  C28: \<open>GetPortList\<close> reads back what the server has: of the rows that encode the ports of the switch it
  gives exactly the ports of the bridge, in the order of its port set, each with its own interface,
  and only looks at the server once.
\<close>

theorem port_list_roundtrip:
  assumes "reads_sets env" "view_ok ws" "set vs \<subseteq> set ws"
    and "tx_commit env (br_log br) (port_list_ops br) = Inr (port_answer vs ws)"
  shows "GetPortList env br = (Ok (map view_data vs), br\<lparr>br_log := port_list_ops br # br_log br\<rparr>)"
  using GetPortList_view [OF assms] .

definition sample_views :: "port_view list" where
  "sample_views =
     [\<lparr>pv_uuid = ''p1'', pv_name = ''ciccni-tun0'', pv_ids = [], pv_if = ''i1'', pv_ifname = ''ciccni-tun0'', pv_ofport = 1\<rparr>,
      \<lparr>pv_uuid = ''p2'', pv_name = ''nginx'', pv_ids = [(''pod-name'', ''nginx'')], pv_if = ''i2'', pv_ifname = ''nginx'', pv_ofport = 5\<rparr>,
      \<lparr>pv_uuid = ''p3'', pv_name = ''other'', pv_ids = [], pv_if = ''i3'', pv_ifname = ''other'', pv_ofport = 6\<rparr>]"

definition sample_server :: ovs_env where
  "sample_server = ovs_answers [port_answer (take 2 sample_views) sample_views]"

lemma sample_server:
  "reads_sets sample_server" "view_ok sample_views" "set (take 2 sample_views) \<subseteq> set sample_views"
  "tx_commit sample_server (br_log (NewOVSBridge n d)) ops = Inr (port_answer (take 2 sample_views) sample_views)"
  by (simp_all add: sample_server_def ovs_answers_reads_sets set_take_subset)
    (simp_all add: view_ok_def sample_views_def ovs_answers_def NewOVSBridge_def)

lemma port_list_roundtrip_witness:
  "\<exists>ports br. GetPortList sample_server (NewOVSBridge ''br-int'' ''system'') = (Ok ports, br) \<and>
     map pd_Name ports = [''ciccni-tun0'', ''nginx'']"
  using port_list_roundtrip [OF sample_server, of "''br-int''" "''system''"]
  by (simp add: view_data_def sample_views_def)

text \<open>
  \<open>GetPortUUIDByIfName\<close> gives the uuid of the first port of the bridge whose interface has the name, and the
  port-not-found error if there is none, even if another bridge has one.
\<close>

lemma port_uuid_lookup:
  assumes "reads_sets env" "view_ok ws" "set vs \<subseteq> set ws"
    and "tx_commit env (br_log br) (port_list_ops br) = Inr (port_answer vs ws)"
  shows "fst (GetPortUUIDByIfName env n br) =
    (case find (\<lambda>v. pv_ifname v = n) vs of Some v \<Rightarrow> Ok (pv_uuid v) | None \<Rightarrow> Err errPortNotFound)"
proof -
  have "find (\<lambda>p. pd_IFName p = n) (map view_data vs) = map_option view_data (find (\<lambda>v. pv_ifname v = n) vs)"
    by (induction vs) (simp_all add: view_data_def)
  with GetPortList_view [OF assms] show ?thesis
    by (simp add: GetPortUUIDByIfName_def gbind_eval ret_eval throw_eval view_data_def split: option.split)
qed

lemma port_uuid_lookup_witness:
  "fst (GetPortUUIDByIfName sample_server ''nginx'' (NewOVSBridge ''br-int'' ''system'')) = Ok ''p2'' \<and>
   fst (GetPortUUIDByIfName sample_server ''other'' (NewOVSBridge ''br-int'' ''system'')) = Err errPortNotFound"
  using port_uuid_lookup [OF sample_server, of "''nginx''" "''br-int''" "''system''"]
    port_uuid_lookup [OF sample_server, of "''other''" "''br-int''" "''system''"]
  by (simp add: sample_views_def)

text \<open>
  \<open>GetPortData\<close> gives the port only with an interface that is attached to it: a port that is not there is
  the nil pointer, an interface that is not there or belongs to another port is an error, and otherwise the
  names, ids and the port number are the ones of the two rows.
\<close>

lemma port_data_outcome:
  assumes sets: "reads_sets env" and wf: "\<And>w. w \<in> set ports \<Longrightarrow> wf_map (pv_ids w)"
    and answer: "\<And>ops. tx_commit env (br_log br) ops =
      Inr [\<lparr>ar_Rows = map (JObj \<circ> port_fields) ports, ar_UUID = []\<rparr>,
           \<lparr>ar_Rows = map (JObj \<circ> if_fields) ifs, ar_UUID = []\<rparr>]"
  shows "fst (GetPortData env u n br) =
    (case ports of [] \<Rightarrow> Ok None | w # _ \<Rightarrow>
     (case ifs of [] \<Rightarrow> Err (ErrTransaction (ErrText ''Interface not exists'') False) | v # _ \<Rightarrow>
      if pv_if v \<noteq> pv_if w
      then Err (ErrTransaction (ErrText ''Interface is not attached to the port'') False)
      else Ok (Some \<lparr>pd_UUID = u, pd_Name = pv_name w, pd_ExternalIDs = Some (pv_ids w), pd_IFName = n,
        pd_OFPort = word_of_int (pv_ofport v)\<rparr>)))"
proof (cases ports)
  case Nil
  with answer show ?thesis
    by (simp add: GetPortData_def gbind_eval commit_def rows_def idx_def deref_eval ret_eval)
next
  case (Cons w ports')
  have set: "GetIdListFromOVSDBSet env (json_set [pv_if w]) = [pv_if w]"
    using sets unfolding reads_sets_def by blast
  have ids: "buildMapFromOVSDBMap (json_map (pv_ids w)) = Some (pv_ids w)"
    using wf Cons by (simp add: buildMap_json_map)
  show ?thesis
  proof (cases ifs)
    case Nil
    with Cons answer show ?thesis
      by (simp add: GetPortData_def gbind_eval commit_def rows_def idx_def deref_eval throw_eval)
  next
    case (Cons v ifs')
    have "field ''interfaces'' (port_fields w) = JList (json_set [pv_if w])"
      by (simp add: field_def port_fields_def)
    moreover have "buildPortDataCommon (port_fields w) (if_fields v) (new_port_data u n) =
        Some \<lparr>pd_UUID = u, pd_Name = pv_name w, pd_ExternalIDs = Some (pv_ids w), pd_IFName = n,
          pd_OFPort = word_of_int (pv_ofport v)\<rparr>"
      by (simp add: buildPortDataCommon_def field_def port_fields_def if_fields_def ids new_port_data_def)
    ultimately show ?thesis using \<open>ports = w # ports'\<close> Cons
      by (simp add: GetPortData_def gbind_eval commit_def answer rows_def idx_def deref_eval ret_eval
          throw_eval row_uuid_fields set)
  qed
qed

lemma port_data_outcome_witness:
  "fst (GetPortData (ovs_answers [[\<lparr>ar_Rows = [JObj (port_fields (sample_views ! 1))], ar_UUID = []\<rparr>,
       \<lparr>ar_Rows = [JObj (if_fields (sample_views ! 2))], ar_UUID = []\<rparr>]]) ''p2'' ''other''
     (NewOVSBridge ''br-int'' ''system'')) =
   Err (ErrTransaction (ErrText ''Interface is not attached to the port'') False)"
  using port_data_outcome [of "ovs_answers [[\<lparr>ar_Rows = [JObj (port_fields (sample_views ! 1))], ar_UUID = []\<rparr>,
       \<lparr>ar_Rows = [JObj (if_fields (sample_views ! 2))], ar_UUID = []\<rparr>]]" "[sample_views ! 1]"
      "NewOVSBridge ''br-int'' ''system''" "[sample_views ! 2]" "''p2''" "''other''"]
  by (simp add: ovs_answers_reads_sets) (simp add: sample_views_def ovs_answers_def NewOVSBridge_def)

section \<open>The interface cache\<close>

text \<open>
  C38: After any sequence of additions and deletions on a new store, what a name gives is decided by the last
  operation on it, the ids are the names that give something, each once, and the length is their number.
\<close>

theorem interface_store_history:
  "let s = fold (\<lambda>(k, v). case v of None \<Rightarrow> DeleteInterface k | Some c \<Rightarrow> AddInterface k c) ops NewInterfaceStore
   in GetInterface s k = Option.bind (map_of (rev ops) k) id \<and>
      distinct (GetInterfaceIDs s) \<and> set (GetInterfaceIDs s) = dom (GetInterface s) \<and>
      cache_Len s = card (dom (GetInterface s))"
proof -
  let ?f = "\<lambda>(k, v). case v of None \<Rightarrow> DeleteInterface k | Some c \<Rightarrow> AddInterface k c"
  let ?s = "fold ?f ops NewInterfaceStore"
  have f: "?f = cache.apply_op" by (auto simp: fun_eq_iff cache.apply_op_def split: option.split)
  have "GetInterface ?s k = Option.bind (map_of (rev ops) k) id"
    using cache.get_ops [of ops NewInterfaceStore k] cache.get_new
    by (simp add: f split: option.split)
  moreover have ids: "distinct (GetInterfaceIDs ?s) \<and> set (GetInterfaceIDs ?s) = dom (GetInterface ?s)"
    unfolding f by (intro cache.ids_get cache.ok_ops cache.ok_new)
  moreover have "cache_Len ?s = length (GetInterfaceIDs ?s)"
    by (simp add: cache_Len_def GetInterfaceIDs_def)
  ultimately show ?thesis by (simp add: Let_def distinct_card [symmetric])
qed

text \<open>
  The initialisation from the ports of the bridge caches the tunnel interface, with the port that has its name,
  and nothing else: the container interfaces of the pods that were there before are not restored.
\<close>

lemma cache_initialized:
  assumes "reads_sets env" "view_ok ws" "set vs \<subseteq> set ws"
    and "tx_commit env (br_log br) (port_list_ops br) = Inr (port_answer vs ws)"
    and "distinct (map pv_name vs)"
  shows "\<exists>br' i'. cache_Initialize env tp (br, i) = (Ok (), (br', i')) \<and>
    (\<forall>k. k \<noteq> tp \<longrightarrow> GetInterface i' k = GetInterface i k) \<and>
    GetInterface i' tp = (case find (\<lambda>v. pv_name v = tp) vs of
       None \<Rightarrow> GetInterface i tp
     | Some v \<Rightarrow> Some ((NewTunnelInterface tp)\<lparr>if_port :=
         Some \<lparr>po_IfaceName = tp, po_PortUUID = pv_uuid v, po_OFPort = word_of_int (pv_ofport v)\<rparr>\<rparr>))"
proof -
  let ?i = "fold (cache_port tp) (map view_data vs) i"
  have run: "cache_Initialize env tp (br, i) = (Ok (), (br\<lparr>br_log := port_list_ops br # br_log br\<rparr>, ?i))"
    by (simp add: cache_Initialize_def gbind_eval on_fst_eval GetPortList_view [OF assms(1-4)] modify_eval)
  have names: "pd_Name (view_data v) = pv_name v" for v by (simp add: view_data_def)
  have "GetInterface ?i tp = (case find (\<lambda>v. pv_name v = tp) vs of
       None \<Rightarrow> GetInterface i tp
     | Some v \<Rightarrow> Some ((NewTunnelInterface tp)\<lparr>if_port :=
         Some \<lparr>po_IfaceName = tp, po_PortUUID = pv_uuid v, po_OFPort = word_of_int (pv_ofport v)\<rparr>\<rparr>))"
  proof (cases "find (\<lambda>v. pv_name v = tp) vs")
    case None
    then have "\<not> (\<exists>v \<in> set vs. pv_name v = tp)" by (auto simp: find_None_iff)
    with None show ?thesis by (auto simp: GetInterface_def map_of_cache_ports names)
  next
    case (Some v)
    then have v: "v \<in> set vs" "pv_name v = tp" by (auto simp: find_Some_iff)
    have "filter (\<lambda>v. pv_name v = tp) vs = [v]"
      using assms(5) v by (induction vs) (auto simp: filter_empty_conv, metis image_eqI)
    then have "filter (\<lambda>p. pd_Name p = tp) (map view_data vs) = [view_data v]"
      by (simp add: filter_map comp_def names)
    with v Some show ?thesis
      by (auto simp: GetInterface_def map_of_cache_ports names port_interface_def view_data_def
          NewTunnelInterface_def)
  qed
  moreover have "GetInterface ?i k = GetInterface i k" if "k \<noteq> tp" for k
    using that by (simp add: GetInterface_def map_of_cache_ports)
  ultimately show ?thesis using run by blast
qed

lemma cache_initialized_witness:
  "\<exists>br i cfg. cache_Initialize sample_server ''ciccni-tun0'' (NewOVSBridge ''br-int'' ''system'', NewInterfaceStore)
     = (Ok (), (br, i)) \<and> GetInterface i ''ciccni-tun0'' = Some cfg \<and> if_Type cfg = TunnelInterface \<and>
     GetInterface i ''nginx'' = None"
proof -
  have "distinct (map pv_name (take 2 sample_views))" by (simp add: sample_views_def)
  from cache_initialized [OF sample_server this, of "''ciccni-tun0''" "''br-int''" "''system''" NewInterfaceStore]
  obtain br i where run: "cache_Initialize sample_server ''ciccni-tun0''
      (NewOVSBridge ''br-int'' ''system'', NewInterfaceStore) = (Ok (), (br, i))"
    and others: "\<forall>k. k \<noteq> ''ciccni-tun0'' \<longrightarrow> GetInterface i k = GetInterface NewInterfaceStore k"
    and get: "GetInterface i ''ciccni-tun0'' = (case find (\<lambda>v. pv_name v = ''ciccni-tun0'') (take 2 sample_views) of
         None \<Rightarrow> GetInterface NewInterfaceStore ''ciccni-tun0''
       | Some v \<Rightarrow> Some ((NewTunnelInterface ''ciccni-tun0'')\<lparr>if_port := Some \<lparr>po_IfaceName = ''ciccni-tun0'',
           po_PortUUID = pv_uuid v, po_OFPort = word_of_int (pv_ofport v)\<rparr>\<rparr>))"
    by blast
  have "GetInterface i ''ciccni-tun0'' = Some ((NewTunnelInterface ''ciccni-tun0'')\<lparr>if_port :=
      Some \<lparr>po_IfaceName = ''ciccni-tun0'', po_PortUUID = ''p1'', po_OFPort = 1\<rparr>\<rparr>)"
    using get by (simp add: sample_views_def)
  moreover have "GetInterface i ''nginx'' = None" using others by (simp add: cache.get_new)
  ultimately show ?thesis using run
    by (intro exI conjI) (assumption | simp add: NewTunnelInterface_def new_interface_def)+
qed

end
