(* ===== verification/CniTypes.thy ===== *)
theory CniTypes
  imports GoNet
begin

text \<open>
  The values CNI plugins exchange (\<open>containernetworking/cni\<close>, types/100) as far as the source reads or
  writes them, and \<open>net.ParseMAC\<close>, which reads the address of an interface back from its text.
\<close>

section \<open>Results\<close>

record cni_interface =
  ci_Name :: string
  ci_Mac :: string
  ci_Sandbox :: string

text \<open>\<open>Interface\<close> is a pointer to an index.\<close>

record IPConfig =
  ic_Interface :: "int option"
  ic_Address :: ipnet
  ic_Gateway :: ip

record cni_route =
  cr_Dst :: ipnet
  cr_GW :: ip

record cni_dns =
  dns_Nameservers :: "string list"
  dns_Domain :: string
  dns_Search :: "string list"
  dns_Options :: "string list"

text \<open>A nil slice of routes is none.\<close>

record cni_result =
  re_CNIVersion :: string
  re_Interfaces :: "cni_interface list"
  re_IPs :: "IPConfig list"
  re_Routes :: "cni_route list option"
  re_DNS :: cni_dns

section \<open>MAC addresses\<close>

text \<open>\<open>xtoi2(s, e)\<close>: two hexadecimal digits that are the end of the text or followed by \<open>e\<close>.\<close>

fun xtoi2 :: "string \<Rightarrow> char \<Rightarrow> 8 word option" where
  "xtoi2 (a # b # r) e =
     (if r \<noteq> [] \<and> hd r \<noteq> e then None
      else case (hex_val a, hex_val b) of
        (Some x, Some y) \<Rightarrow> Some (word_of_nat (16 * x + y)) | _ \<Rightarrow> None)"
| "xtoi2 s e = None"

fun mac_bytes :: "nat \<Rightarrow> string \<Rightarrow> char \<Rightarrow> mac option" where
  "mac_bytes 0 s e = Some []"
| "mac_bytes (Suc n) s e =
     (case xtoi2 s e of None \<Rightarrow> None | Some b \<Rightarrow> map_option ((#) b) (mac_bytes n (drop 3 s) e))"

text \<open>Groups of two bytes, each group before a dot or the end.\<close>

fun dotted_mac_bytes :: "nat \<Rightarrow> string \<Rightarrow> mac option" where
  "dotted_mac_bytes 0 s = Some []"
| "dotted_mac_bytes (Suc n) s =
     (case (xtoi2 (take 2 s) (CHR 0x00), xtoi2 (drop 2 s) CHR ''.'') of
        (Some a, Some b) \<Rightarrow> map_option (\<lambda>m. a # b # m) (dotted_mac_bytes n (drop 5 s))
      | _ \<Rightarrow> None)"

definition ParseMAC :: "string \<Rightarrow> mac option" where
  "ParseMAC s =
     (let l = length s + 1 in
      if length s < 14 then None
      else if s ! 2 = CHR '':'' \<or> s ! 2 = CHR ''-'' then
        (if l mod 3 = 0 \<and> l div 3 \<in> {6, 8, 20} then mac_bytes (l div 3) s (s ! 2) else None)
      else if s ! 4 = CHR ''.'' then
        (if l mod 5 = 0 \<and> 2 * l div 5 \<in> {6, 8, 20} then dotted_mac_bytes (l div 5) s else None)
      else None)"

text \<open>The text of an address is read back as the address.\<close>

lemma hex_val_digit: "d < 16 \<Longrightarrow> hex_val (digit d) = Some d"
proof -
  assume d: "d < 16"
  have "\<forall>k\<in>{0..<16}. hex_val (''0123456789abcdef'' ! k) = Some k"
    by (simp add: hex_val_def atLeastLessThan_nat_numeral)
  with d show ?thesis by (simp add: digit_def)
qed

lemma xtoi2_hex2: "xtoi2 (hex2 b @ r) e = (if r \<noteq> [] \<and> hd r \<noteq> e then None else Some b)"
proof -
  have "unat b < 2 ^ LENGTH(8)" by (rule unsigned_less)
  then have "unat b div 16 < 16" and "unat b mod 16 < 16"
    and "16 * (unat b div 16) + unat b mod 16 = unat b" by simp_all
  then show ?thesis by (simp add: hex2_def hex_val_digit)
qed

lemma mac_bytes_string: "mac_bytes (length m) (mac_string m) CHR '':'' = Some m"
proof (induction m)
  case Nil
  then show ?case by simp
next
  case (Cons b m)
  show ?case
  proof (cases m)
    case Nil
    then show ?thesis using xtoi2_hex2 [of b "[]"] by (simp add: mac_string_def)
  next
    case (Cons b' m')
    then have "mac_string (b # m) = hex2 b @ '':'' @ mac_string m" by (simp add: mac_string_def)
    moreover have "drop 3 (hex2 b @ '':'' @ mac_string m) = mac_string m" by (simp add: hex2_def)
    ultimately show ?thesis using Cons.IH xtoi2_hex2 [of b "'':'' @ mac_string m"] by simp
  qed
qed

lemma length_mac_string: "m \<noteq> [] \<Longrightarrow> length (mac_string m) + 1 = 3 * length m"
proof (induction m)
  case Nil
  then show ?case by simp
next
  case (Cons b m)
  then show ?case by (cases m) (simp_all add: mac_string_def hex2_def)
qed

lemma ParseMAC_string:
  assumes "length m \<in> {6, 8, 20}"
  shows "ParseMAC (mac_string m) = Some m"
proof -
  from assms obtain b b' m' where m: "m = b # b' # m'" by (cases m; cases "tl m") auto
  then have "mac_string m ! 2 = CHR '':''" by (simp add: mac_string_def hex2_def)
  moreover have "length (mac_string m) + 1 = 3 * length m" using m by (intro length_mac_string) simp
  moreover from this assms have "\<not> length (mac_string m) < 14" by auto
  ultimately show ?thesis using assms mac_bytes_string [of m]
    by (simp add: ParseMAC_def Let_def)
qed

end
