(* ===== verification/Ipam.thy ===== *)
theory Ipam
  imports CniTypes
begin

text \<open>
  Package \<open>pkg/cniserver/ipam\<close>: the registry of IPAM drivers and the driver that delegates to a CNI
  plugin. Finding and executing a plugin and converting its answer are the CNI library's: they are
  parameters.
\<close>

section \<open>Arguments and the plugin library\<close>

record CniCmdArgs =
  ca_ContainerId :: string
  ca_Netns :: string
  ca_Ifname :: string
  ca_Args :: string
  ca_Path :: string
  ca_NetworkConfiguration :: string

record invoke_args =
  ia_Command :: string
  ia_ContainerID :: string
  ia_NetNS :: string
  ia_IfName :: string
  ia_Path :: string

record plugin_call =
  pg_path :: string
  pg_config :: string
  pg_args :: invoke_args

text \<open>
  What the library and the plugins do: whether a plugin is found in a list of directories, how the
  execution of a call ends after the calls before it (an error, or the text of the result), and the
  conversion of a result, which is also asked to convert the nil of a failed execution and may panic.
\<close>

record ipam_env =
  FindInPath :: "string \<Rightarrow> string list \<Rightarrow> error + string"
  ExecPlugin :: "plugin_call list \<Rightarrow> plugin_call \<Rightarrow> error + string"
  NewResultFromResult :: "string option \<Rightarrow> cni_result result"

text \<open>\<open>filepath.SplitList\<close>\<close>

fun split_at :: "char \<Rightarrow> string \<Rightarrow> string list" where
  "split_at sep [] = [[]]"
| "split_at sep (c # cs) =
     (if c = sep then [] # split_at sep cs
      else case split_at sep cs of [] \<Rightarrow> [[c]] | w # ws \<Rightarrow> (c # w) # ws)"

definition SplitList :: "string \<Rightarrow> string list" where
  "SplitList path = (if path = [] then [] else split_at CHR '':'' path)"

section \<open>The delegator\<close>

text \<open>The state is the list of plugin calls, newest first.\<close>

definition exec_plugin :: "ipam_env \<Rightarrow> plugin_call \<Rightarrow> (plugin_call list, error + string) go" where
  "exec_plugin env p = (\<lambda>h. (Ok (ExecPlugin env h p), p # h))"

definition delegateCommon :: "ipam_env \<Rightarrow> string \<Rightarrow> string \<Rightarrow> error + string" where
  "delegateCommon env delegatePlugin cniPath = FindInPath env delegatePlugin (SplitList cniPath)"

text \<open>The error of the execution is overwritten by the one of the conversion.\<close>

definition delegateWithResult ::
  "ipam_env \<Rightarrow> string \<Rightarrow> string \<Rightarrow> invoke_args \<Rightarrow> (plugin_call list, cni_result) go" where
  "delegateWithResult env delegatePlugin networkConfig args =
     (case delegateCommon env delegatePlugin (ia_Path args) of
        Inl err \<Rightarrow> throw err
      | Inr pluginPath \<Rightarrow>
          gbind (exec_plugin env \<lparr>pg_path = pluginPath, pg_config = networkConfig, pg_args = args\<rparr>) (\<lambda>r.
          let res = (case r of Inl err \<Rightarrow> None | Inr s \<Rightarrow> Some s)
          in (\<lambda>h. (NewResultFromResult env res, h))))"

definition delegateNoResult ::
  "ipam_env \<Rightarrow> string \<Rightarrow> string \<Rightarrow> invoke_args \<Rightarrow> (plugin_call list, unit) go" where
  "delegateNoResult env delegatePlugin networkConfig args =
     (case delegateCommon env delegatePlugin (ia_Path args) of
        Inl err \<Rightarrow> throw err
      | Inr pluginPath \<Rightarrow>
          gbind (exec_plugin env \<lparr>pg_path = pluginPath, pg_config = networkConfig, pg_args = args\<rparr>) (\<lambda>r.
          case r of Inl err \<Rightarrow> throw err | Inr s \<Rightarrow> ret ()))"

text \<open>\<open>Add\<close>: unless it returns a result, the deferred call asks the plugin to delete.\<close>

definition ipam_Add ::
  "ipam_env \<Rightarrow> string \<Rightarrow> invoke_args \<Rightarrow> string \<Rightarrow> (plugin_call list, cni_result) go" where
  "ipam_Add env pluginType args networkConfig =
     gdefer (delegateWithResult env pluginType networkConfig (args\<lparr>ia_Command := ''ADD''\<rparr>))
       (\<lambda>r h. case r of
          Ok _ \<Rightarrow> h
        | _ \<Rightarrow> snd (delegateNoResult env pluginType networkConfig (args\<lparr>ia_Command := ''DEL''\<rparr>) h))"

definition ipam_Del :: "ipam_env \<Rightarrow> string \<Rightarrow> invoke_args \<Rightarrow> string \<Rightarrow> (plugin_call list, unit) go" where
  "ipam_Del env pluginType args networkConfig =
     delegateNoResult env pluginType networkConfig (args\<lparr>ia_Command := ''DEL''\<rparr>)"

definition ipam_Check :: "ipam_env \<Rightarrow> string \<Rightarrow> invoke_args \<Rightarrow> string \<Rightarrow> (plugin_call list, unit) go" where
  "ipam_Check env pluginType args networkConfig =
     delegateNoResult env pluginType networkConfig (args\<lparr>ia_Command := ''CHECK''\<rparr>)"

section \<open>The drivers\<close>

text \<open>A driver is a delegator, given by its plugin type.\<close>

type_synonym ipam_drivers = "(string \<times> string) list"

definition RegisterIPAMDriver :: "string \<Rightarrow> string \<Rightarrow> (ipam_drivers, unit) go" where
  "RegisterIPAMDriver ipamType ipamDriver =
     gbind (gets (\<lambda>ds. map_of ds ipamType)) (\<lambda>existed. case existed of
       Some _ \<Rightarrow> throw (ErrText (''Already registered IPAM with type '' @ ipamType))
     | None \<Rightarrow> modify (AList.update ipamType ipamDriver))"

definition IPAM_HOST_LOCAL :: string where "IPAM_HOST_LOCAL = ''host-local''"

text \<open>The drivers after the package's \<open>init\<close>.\<close>

definition ipam_init :: ipam_drivers where
  "ipam_init = snd (RegisterIPAMDriver IPAM_HOST_LOCAL IPAM_HOST_LOCAL [])"

definition argsFromEnv :: "CniCmdArgs \<Rightarrow> invoke_args" where
  "argsFromEnv cniArgs = \<lparr>ia_Command = [], ia_ContainerID = ca_ContainerId cniArgs,
     ia_NetNS = ca_Netns cniArgs, ia_IfName = ca_Ifname cniArgs, ia_Path = ca_Path cniArgs\<rparr>"

text \<open>The method of a driver that is not registered is called on a nil interface.\<close>

definition ExecIPAMAdd :: "ipam_env \<Rightarrow> CniCmdArgs \<Rightarrow> string \<Rightarrow> (plugin_call list, cni_result) go" where
  "ExecIPAMAdd env cniArgs ipamType =
     gbind (deref (map_of ipam_init ipamType)) (\<lambda>driver.
     ipam_Add env driver (argsFromEnv cniArgs) (ca_NetworkConfiguration cniArgs))"

definition ExecIPAMDelete :: "ipam_env \<Rightarrow> CniCmdArgs \<Rightarrow> string \<Rightarrow> (plugin_call list, unit) go" where
  "ExecIPAMDelete env cniArgs ipamType =
     gbind (deref (map_of ipam_init ipamType)) (\<lambda>driver.
     ipam_Del env driver (argsFromEnv cniArgs) (ca_NetworkConfiguration cniArgs))"

definition ExecIPAMCheck :: "ipam_env \<Rightarrow> CniCmdArgs \<Rightarrow> string \<Rightarrow> (plugin_call list, unit) go" where
  "ExecIPAMCheck env cniArgs ipamType =
     gbind (deref (map_of ipam_init ipamType)) (\<lambda>driver.
     ipam_Check env driver (argsFromEnv cniArgs) (ca_NetworkConfiguration cniArgs))"

definition IsIPAMTypeValid :: "string \<Rightarrow> bool" where
  "IsIPAMTypeValid ipamType \<longleftrightarrow> map_of ipam_init ipamType \<noteq> None"

section \<open>How the calls end\<close>

lemma drivers: "map_of ipam_init t = (if t = ''host-local'' then Some ''host-local'' else None)"
  by (simp add: ipam_init_def RegisterIPAMDriver_def IPAM_HOST_LOCAL_def go_eval)

text \<open>The call of a command on the plugin, and what \<open>delegateNoResult\<close> adds to the calls.\<close>

definition ipam_call :: "CniCmdArgs \<Rightarrow> string \<Rightarrow> string \<Rightarrow> plugin_call" where
  "ipam_call cniArgs path cmd = \<lparr>pg_path = path, pg_config = ca_NetworkConfiguration cniArgs,
     pg_args = (argsFromEnv cniArgs)\<lparr>ia_Command := cmd\<rparr>\<rparr>"

lemma ExecIPAMAdd_host_local:
  "ExecIPAMAdd env a ''host-local'' h =
     (case FindInPath env ''host-local'' (SplitList (ca_Path a)) of
        Inl e \<Rightarrow> (Err e, h)
      | Inr path \<Rightarrow>
          (let r = NewResultFromResult env (case ExecPlugin env h (ipam_call a path ''ADD'') of
                     Inl e \<Rightarrow> None | Inr s \<Rightarrow> Some s);
               h' = ipam_call a path ''ADD'' # h
           in (r, if (\<exists>x. r = Ok x) then h' else ipam_call a path ''DEL'' # h')))"
  by (simp add: ExecIPAMAdd_def drivers ipam_Add_def delegateWithResult_def delegateNoResult_def
      delegateCommon_def exec_plugin_def ipam_call_def argsFromEnv_def go_eval Let_def
      split: sum.split result.split)

lemma ExecIPAMDelete_host_local:
  "ExecIPAMDelete env a ''host-local'' h =
     (case FindInPath env ''host-local'' (SplitList (ca_Path a)) of
        Inl e \<Rightarrow> (Err e, h)
      | Inr path \<Rightarrow>
          (case ExecPlugin env h (ipam_call a path ''DEL'') of Inl e \<Rightarrow> Err e | Inr s \<Rightarrow> Ok (),
           ipam_call a path ''DEL'' # h))"
  by (simp add: ExecIPAMDelete_def drivers ipam_Del_def delegateNoResult_def
      delegateCommon_def exec_plugin_def ipam_call_def argsFromEnv_def go_eval Let_def
      split: sum.split)

end
