(* ===== verification/Node.thy ===== *)
theory Node
  imports Ipam InterfaceCache TcTools FlowClient
begin

text \<open>
  The state of the agent on a node, put together from the components that own its parts, the calls
  that reach outside of the process, and the configuration record of \<open>pkg/agent\<close>.
\<close>

section \<open>Configuration\<close>

record Gateway =
  gw_IP :: ip
  gw_MAC :: mac
  gw_Name :: string

text \<open>Pointers that may be nil are options.\<close>

record NodeConfig =
  nc_NodeName :: string
  nc_PodCIDR :: "ipnet option"
  nc_ClusterPodCIDR :: "ipnet option"
  nc_Bridge :: string
  nc_Gateway :: "Gateway option"

text \<open>\<open>IPNet.String\<close> of a pointer.\<close>

definition ipnet_ptr_string :: "ipnet option \<Rightarrow> string" where
  "ipnet_ptr_string n = (case n of None \<Rightarrow> ''<nil>'' | Some n \<Rightarrow> ipnet_string n)"

section \<open>The system\<close>

text \<open>The calls that change interfaces, addresses and links, in the network namespace they run in.\<close>

datatype sys_op =
    OpSetupVeth string string string int
  | OpDelLink string string
  | OpConfigureIface string string cni_result
  | OpGratuitousArp string string ip
  | OpLinkSetUp string
  | OpAddrAdd string ipnet
  | OpNsLinkSetUp string string
  | OpNsAddrAdd string string "ipnet option"

text \<open>
  What netlink, the CNI plugin libraries and the API server answer, after the changes made so far
  (newest first): opening a namespace and entering it, creating a veth pair (the host's end and the
  container's, with name and address), deleting a link, finding an interface, configuring it from a
  result, and the address after a network number. \<open>arp_ips\<close> are the IPv4 addresses of a result in version
  0.4.0, to which every result converts. \<open>KubeDNS\<close> is the cluster address in the object the API server's
  client returned for the service, none if that is nil.
\<close>

record sys_env =
  GetNS :: "sys_op list \<Rightarrow> string \<Rightarrow> error option"
  NsDo :: "sys_op list \<Rightarrow> string \<Rightarrow> error option"
  SetupVeth :: "sys_op list \<Rightarrow> string \<Rightarrow> string \<Rightarrow> string \<Rightarrow> int \<Rightarrow> error + (string \<times> mac) \<times> (string \<times> mac)"
  DelLink :: "sys_op list \<Rightarrow> string \<Rightarrow> string \<Rightarrow> error option"
  ErrLinkNotFound :: error
  FindIface :: "sys_op list \<Rightarrow> string \<Rightarrow> string \<Rightarrow> error option"
  ConfigureIface :: "sys_op list \<Rightarrow> string \<Rightarrow> string \<Rightarrow> cni_result \<Rightarrow> error option"
  arp_ips :: "cni_result \<Rightarrow> ip list"
  NextIP :: "ip \<Rightarrow> ip"
  PodAnnotations :: "string \<Rightarrow> string \<Rightarrow> error + (string \<times> string) list option"
  KubeDNS :: "string option"

record node_env =
  ne_ovs :: ovs_env
  ne_of :: env
  ne_tc :: tc_env
  ne_ipam :: ipam_env
  ne_sys :: sys_env

section \<open>The state\<close>

record node =
  nd_ovs :: OVSBridge
  nd_of :: client
  nd_ifs :: interface_cache
  nd_tc :: "tc_request list"
  nd_ipam :: "plugin_call list"
  nd_sys :: "sys_op list"

abbreviation on_ovs :: "(OVSBridge, 'a) go \<Rightarrow> ('z node_scheme, 'a) go" where
  "on_ovs \<equiv> zoom nd_ovs (\<lambda>t. nd_ovs_update (\<lambda>_. t))"

abbreviation on_of :: "(client, 'a) go \<Rightarrow> ('z node_scheme, 'a) go" where
  "on_of \<equiv> zoom nd_of (\<lambda>t. nd_of_update (\<lambda>_. t))"

abbreviation on_tc :: "(tc_request list, 'a) go \<Rightarrow> ('z node_scheme, 'a) go" where
  "on_tc \<equiv> zoom nd_tc (\<lambda>t. nd_tc_update (\<lambda>_. t))"

abbreviation on_ipam :: "(plugin_call list, 'a) go \<Rightarrow> ('z node_scheme, 'a) go" where
  "on_ipam \<equiv> zoom nd_ipam (\<lambda>t. nd_ipam_update (\<lambda>_. t))"

abbreviation on_ifs :: "(interface_cache \<Rightarrow> interface_cache) \<Rightarrow> ('z node_scheme, unit) go" where
  "on_ifs f \<equiv> modify (nd_ifs_update f)"

text \<open>\<open>ifaceStore.Initialize\<close> works on the bridge client and the cache.\<close>

definition on_ovs_ifs :: "(OVSBridge \<times> interface_cache, 'a) go \<Rightarrow> ('z node_scheme, 'a) go" where
  "on_ovs_ifs = zoom (\<lambda>s. (nd_ovs s, nd_ifs s)) (\<lambda>(b, i) s. s\<lparr>nd_ovs := b, nd_ifs := i\<rparr>)"

text \<open>A query of the system, and a change of it, which is recorded however it ends.\<close>

definition ask :: "(sys_op list \<Rightarrow> error option) \<Rightarrow> ('z node_scheme, unit) go" where
  "ask q = (\<lambda>s. case q (nd_sys s) of Some e \<Rightarrow> (Err e, s) | None \<Rightarrow> (Ok (), s))"

definition change :: "sys_op \<Rightarrow> (sys_op list \<Rightarrow> error + 'a) \<Rightarrow> ('z node_scheme, 'a) go" where
  "change op q = (\<lambda>s. (case q (nd_sys s) of Inl e \<Rightarrow> Err e | Inr a \<Rightarrow> Ok a, s\<lparr>nd_sys := op # nd_sys s\<rparr>))"

definition no_value :: "error option \<Rightarrow> error + unit" where
  "no_value r = (case r of Some e \<Rightarrow> Inl e | None \<Rightarrow> Inr ())"

text \<open>\<open>netns.Do\<close> and \<open>ns.WithNetNSPath\<close>\<close>

definition in_ns :: "sys_env \<Rightarrow> string \<Rightarrow> ('z node_scheme, 'a) go \<Rightarrow> ('z node_scheme, 'a) go" where
  "in_ns env netns m = gseq (ask (\<lambda>h. NsDo env h netns)) m"

definition WithNetNSPath :: "sys_env \<Rightarrow> string \<Rightarrow> ('z node_scheme, 'a) go \<Rightarrow> ('z node_scheme, 'a) go" where
  "WithNetNSPath env path m = gseq (ask (\<lambda>h. GetNS env h path)) (in_ns env path m)"

lemma ask_eval [go_eval]:
  "ask q s = (case q (nd_sys s) of Some e \<Rightarrow> (Err e, s) | None \<Rightarrow> (Ok (), s))"
  by (simp add: ask_def)

lemma change_eval [go_eval]:
  "change op q s = (case q (nd_sys s) of Inl e \<Rightarrow> Err e | Inr a \<Rightarrow> Ok a, s\<lparr>nd_sys := op # nd_sys s\<rparr>)"
  by (simp add: change_def)

end
