(* ===== verification/PodConfig.thy ===== *)
theory PodConfig
  imports Node
begin

text \<open>
  \<open>pkg/cniserver/pod_configuration.go\<close>: the veth pair of a pod, its OVS port, its address, and the removal
  of its link.
\<close>

definition iface_of :: "string \<times> mac \<Rightarrow> string \<Rightarrow> cni_interface" where
  "iface_of v sandbox = \<lparr>ci_Name = fst v, ci_Mac = mac_string (snd v), ci_Sandbox = sandbox\<rparr>"

text \<open>A failure to limit the rate is only logged.\<close>

definition setupVethPair ::
  "node_env \<Rightarrow> string \<Rightarrow> string \<Rightarrow> string \<Rightarrow> string \<Rightarrow> int \<Rightarrow> TCArgs option \<Rightarrow>
   ('z node_scheme, cni_interface \<times> cni_interface) go" where
  "setupVethPair env podName podNamespace ifname netns MTU tcArgs =
     (let sys = ne_sys env; hostVethName = GenerateContainerInterfaceName podName podNamespace
      in in_ns sys netns
        (gbind (change (OpSetupVeth netns ifname hostVethName MTU)
                  (\<lambda>h. SetupVeth sys h netns ifname hostVethName MTU)) (\<lambda>(hostVeth, containerVeth).
         gseq (case tcArgs of
                 None \<Rightarrow> ret ()
               | Some a \<Rightarrow> gcatch (on_tc (configureTC (ne_tc env) (fst containerVeth) (tc_Rate a) (tc_Burst a)))
                   (\<lambda>err. ret ()))
              (ret (iface_of hostVeth [], iface_of containerVeth netns)))))"

text \<open>The configuration is nil if the result had no IPv4 address.\<close>

definition setupContainerOVSPort ::
  "node_env \<Rightarrow> InterfaceConfig option \<Rightarrow> string \<Rightarrow> ('z node_scheme, string) go" where
  "setupContainerOVSPort env containerConfig ovsPortName =
     gbind (deref containerConfig) (\<lambda>cfg.
     on_ovs (CreatePort (ne_ovs env) ovsPortName ovsPortName (Some (BuildOVSPortExternalIDs cfg))))"

definition removeContainerLink ::
  "node_env \<Rightarrow> string \<Rightarrow> string \<Rightarrow> string \<Rightarrow> ('z node_scheme, unit) go" where
  "removeContainerLink env containerID containerNetns ifname =
     (let sys = ne_sys env
      in WithNetNSPath sys containerNetns
        (gbind (attempt (change (OpDelLink containerNetns ifname)
                  (\<lambda>h. no_value (DelLink sys h containerNetns ifname)))) (\<lambda>r.
         case r of
           Inl err \<Rightarrow> if err = ErrLinkNotFound sys then ret () else throw err
         | Inr _ \<Rightarrow> ret ())))"

definition configureContainerAddr ::
  "node_env \<Rightarrow> string \<Rightarrow> cni_interface \<Rightarrow> cni_result \<Rightarrow> ('z node_scheme, unit) go" where
  "configureContainerAddr env netns containerInterface result =
     (let sys = ne_sys env; name = ci_Name containerInterface
      in in_ns sys netns
        (gseq (ask (\<lambda>h. FindIface sys h netns name))
        (gseq (change (OpConfigureIface netns name result)
                 (\<lambda>h. no_value (ConfigureIface sys h netns name result)))
              (gfor (arp_ips sys result) (\<lambda>a. change (OpGratuitousArp netns name a) (\<lambda>h. Inr ()))))))"

section \<open>What the steps leave alone\<close>

text \<open>
  Entering a namespace, asking and changing the system keep every predicate that does not read the
  record of the changes.
\<close>

lemma keeps_ask [go_keeps]: "keeps I (ask q)"
  by (simp add: keeps_def ask_def split: option.split)

lemma keeps_in_ns [go_keeps]: "keeps I m \<Longrightarrow> keeps I (in_ns env p m)"
  by (simp add: in_ns_def go_keeps)

text \<open>The parts of the node the steps on links and addresses never touch.\<close>

definition parts :: "'z node_scheme \<Rightarrow> OVSBridge \<times> client \<times> interface_cache \<times> plugin_call list" where
  "parts s = (nd_ovs s, nd_of s, nd_ifs s, nd_ipam s)"

lemma keeps_parts [go_keeps]:
  "keeps (\<lambda>s. parts s = v) (change op q)"
  "keeps (\<lambda>s. parts s = v) (on_tc m)"
  by (simp_all add: keeps_def change_def zoom_def parts_def split: prod.split)

lemma unchanged_parts:
  "unchanged parts (setupVethPair env p ns ifn nn mtu t)"
  "unchanged parts (removeContainerLink env c nn ifn)"
  "unchanged parts (configureContainerAddr env nn i re)"
  unfolding unchanged_iff_keeps setupVethPair_def removeContainerLink_def configureContainerAddr_def
    WithNetNSPath_def Let_def
  by (intro allI go_keeps)+

end
