(* ===== verification/CniServer.thy ===== *)
theory CniServer
  imports PodConfig
begin

text \<open>
  \<open>pkg/cniserver/cniserver.go\<close> and configType.go: the handlers of the CNI requests. Decoding a network
  configuration and encoding a result are library functions and parameters.
\<close>

section \<open>Configuration and messages\<close>

record IPAMConfig =
  ip_Type :: string
  ip_Subnet :: string
  ip_Gateway :: string

record NetworkConfig =
  nw_CNIVersion :: string
  nw_Name :: string
  nw_Type :: string
  nw_MTU :: int
  nw_DNS :: cni_dns
  nw_IPAM :: IPAMConfig
  nw_RawPrevResult :: string

record k8sArgs =
  ka_POD_NAME :: string
  ka_POD_NAMESPACE :: string
  ka_POD_INFRA_CONTAINER_ID :: string

record CNIConfig =
  cc_net :: NetworkConfig
  cc_args :: CniCmdArgs
  cc_k8s :: k8sArgs

record CniCmdResponse =
  rs_CniResult :: string
  rs_Error :: "(nat \<times> string) option"

text \<open>
  \<open>UnmarshalConfig\<close> decodes the configuration into the embedded pointers: the network configuration, nil if
  no field of it was in the text, and the arguments, which are those of the request with the fields the text
  sets. \<open>PrintResult\<close> is the text of a result in a version, none if its conversion gives nil.
\<close>

record cni_env =
  UnmarshalConfig :: "string \<Rightarrow> CniCmdArgs \<Rightarrow> error + NetworkConfig option \<times> CniCmdArgs"
  LoadArgs :: "string \<Rightarrow> error + k8sArgs"
  MarshalConfig :: "NetworkConfig \<Rightarrow> string"
  PrintResult :: "string \<Rightarrow> cni_result \<Rightarrow> string option"
  ImplementedSpecVersion :: string

record CniServer =
  sv_socketAddr :: string
  sv_nodeConfig :: NodeConfig
  sv_defaultMTU :: int
  sv_hostProcPathPrefix :: string

definition cni_New :: "string \<Rightarrow> NodeConfig \<Rightarrow> int \<Rightarrow> string \<Rightarrow> CniServer" where
  "cni_New cniSocket nodeConfig defaultMTU hostProcPathPrefix =
     \<lparr>sv_socketAddr = cniSocket, sv_nodeConfig = nodeConfig, sv_defaultMTU = defaultMTU,
      sv_hostProcPathPrefix = hostProcPathPrefix\<rparr>"

definition UNSUPPORTED_FIELD :: nat where "UNSUPPORTED_FIELD = 2"
definition DECODING_FAILURE :: nat where "DECODING_FAILURE = 6"
definition IPAM_FAILURE :: nat where "IPAM_FAILURE = 101"
definition CONFIG_INTERFACE_FAILURE :: nat where "CONFIG_INTERFACE_FAILURE = 102"

lemmas error_codes = UNSUPPORTED_FIELD_def DECODING_FAILURE_def IPAM_FAILURE_def CONFIG_INTERFACE_FAILURE_def

definition generateCNIErrorResponse :: "nat \<Rightarrow> string \<Rightarrow> CniCmdResponse" where
  "generateCNIErrorResponse cniErrorCode cniErrorMsg =
     \<lparr>rs_CniResult = [], rs_Error = Some (cniErrorCode, cniErrorMsg)\<rparr>"

definition ipamFailureResponse :: "error \<Rightarrow> CniCmdResponse" where
  "ipamFailureResponse err = generateCNIErrorResponse IPAM_FAILURE
     (utf8 [0xe6, 0x97, 0xa0, 0xe6, 0xb3, 0x95, 0xe7, 0x94, 0x9f, 0xe6, 0x88, 0x90]
      @ ''ip address, err='' @ Error_text err)"

definition configureInterfaceFailureResponse :: "error \<Rightarrow> CniCmdResponse" where
  "configureInterfaceFailureResponse err = generateCNIErrorResponse CONFIG_INTERFACE_FAILURE
     (utf8 [0xe9, 0x85, 0x8d, 0xe7, 0xbd, 0xae, 0xe7, 0xbd, 0x91, 0xe7, 0xbb, 0x9c]
      @ ''ip'' @ utf8 [0xe5, 0xbc, 0x82, 0xe5, 0xb8, 0xb8] @ '', err='' @ Error_text err)"

definition isCNIVersionSupported :: "string \<Rightarrow> bool" where
  "isCNIVersionSupported cniVersion = True"

definition hostNetNSPath :: "CniServer \<Rightarrow> string \<Rightarrow> string" where
  "hostNetNSPath sv nsPath = (if nsPath = [] then [] else sv_hostProcPathPrefix sv @ nsPath)"

definition loadNetworkConfig ::
  "cni_env \<Rightarrow> CniServer \<Rightarrow> CniCmdArgs option \<Rightarrow> ('s, CNIConfig) go" where
  "loadNetworkConfig env sv request =
     gbind (deref request) (\<lambda>args.
     case UnmarshalConfig env (ca_NetworkConfiguration args) args of
       Inl err \<Rightarrow> throw err
     | Inr (netConfig, args) \<Rightarrow>
         (case LoadArgs env (ca_Args args) of
            Inl err \<Rightarrow> throw err
          | Inr k8s \<Rightarrow>
              gbind (deref netConfig) (\<lambda>nc.
              let nc = nc\<lparr>nw_IPAM := (nw_IPAM nc)\<lparr>ip_Subnet := ipnet_ptr_string (nc_PodCIDR (sv_nodeConfig sv))\<rparr>\<rparr>;
                  args = args\<lparr>ca_NetworkConfiguration := MarshalConfig env nc\<rparr>;
                  nc = (if nw_MTU nc = 0 then nc\<lparr>nw_MTU := sv_defaultMTU sv\<rparr> else nc)
              in ret \<lparr>cc_net = nc, cc_args = args, cc_k8s = k8s\<rparr>)))"

definition checkReuquestMessage ::
  "cni_env \<Rightarrow> CniServer \<Rightarrow> CniCmdArgs option \<Rightarrow> ('s, CniCmdResponse + CNIConfig) go" where
  "checkReuquestMessage env sv request =
     gbind (attempt (loadNetworkConfig env sv request)) (\<lambda>r. case r of
       Inl err \<Rightarrow> ret (Inl (generateCNIErrorResponse DECODING_FAILURE ''fail to decode network config''))
     | Inr cniConfig \<Rightarrow>
         (let cniVersion = nw_CNIVersion (cc_net cniConfig)
          in if \<not> isCNIVersionSupported cniVersion
             then ret (Inl (generateCNIErrorResponse UNSUPPORTED_FIELD
                    (''unsupprted cniVersion provided: '' @ cniVersion)))
             else ret (Inr cniConfig)))"

section \<open>The result\<close>

definition defaultGW :: string where "defaultGW = ''0.0.0.0''"
definition defaultRouteDst :: string where "defaultRouteDst = ''0.0.0.0/0''"

definition default_routes :: "ip \<Rightarrow> ipnet option \<Rightarrow> cni_route list option" where
  "default_routes defaultV4Gateway clusterPodCIDR =
     (case (ParseCIDR defaultRouteDst, clusterPodCIDR) of
        (Inr (_, dst), Some cidr) \<Rightarrow>
          Some [\<lparr>cr_Dst = dst, cr_GW = defaultV4Gateway\<rparr>, \<lparr>cr_Dst = cidr, cr_GW = ParseIP defaultGW\<rparr>]
      | _ \<Rightarrow> None)"

definition has_default_route :: "cni_route list \<Rightarrow> bool" where
  "has_default_route rs = list_ex (\<lambda>r. ipnet_string (cr_Dst r) = defaultRouteDst) rs"

definition set_iface :: "(ip \<Rightarrow> ip) \<Rightarrow> IPConfig \<Rightarrow> IPConfig" where
  "set_iface next ipc =
     (let ipc = ipc\<lparr>ic_Interface := Some 1\<rparr>; ipn = ic_Address ipc
      in if ic_Gateway ipc = [] then ipc\<lparr>ic_Gateway := next (ip_Mask (ipnet_IP ipn) (ipnet_Mask ipn))\<rparr> else ipc)"

text \<open>The loop over the addresses; none is the dereference of a nil pod network.\<close>

fun update_ips ::
  "(ip \<Rightarrow> ip) \<Rightarrow> ip \<Rightarrow> ipnet option \<Rightarrow> cni_route list option \<Rightarrow> IPConfig list \<Rightarrow>
   (IPConfig list \<times> cni_route list option) option" where
  "update_ips next gw cidr routes [] = Some ([], routes)"
| "update_ips next gw cidr routes (ipc # ipcs) =
     (let rs = (case routes of None \<Rightarrow> [] | Some rs \<Rightarrow> rs)
      in case (if has_default_route rs then Some rs else map_option ((@) rs) (default_routes gw cidr)) of
           None \<Rightarrow> None
         | Some rs' \<Rightarrow> map_option (\<lambda>(l, r). (set_iface next ipc # l, r)) (update_ips next gw cidr (Some rs') ipcs))"

definition updateResultIfaceConfig ::
  "(ip \<Rightarrow> ip) \<Rightarrow> cni_result \<Rightarrow> ip \<Rightarrow> ipnet option \<Rightarrow> cni_result option" where
  "updateResultIfaceConfig next result defaultV4Gateway clusterPodCIDR =
     map_option (\<lambda>(ips, routes). result\<lparr>re_IPs := ips, re_Routes := routes\<rparr>)
       (update_ips next defaultV4Gateway clusterPodCIDR (re_Routes result) (re_IPs result))"

definition parseContainerIP :: "IPConfig list \<Rightarrow> error + ip" where
  "parseContainerIP IPs =
     (case find (\<lambda>ipc. To4 (ipnet_IP (ic_Address ipc)) \<noteq> []) IPs of
        Some ipc \<Rightarrow> Inr (ipnet_IP (ic_Address ipc))
      | None \<Rightarrow> Inl (ErrText ''failed to find a valid IP address''))"

definition buildContainerConfig ::
  "string \<Rightarrow> string \<Rightarrow> string \<Rightarrow> cni_interface \<Rightarrow> IPConfig list \<Rightarrow> InterfaceConfig option" where
  "buildContainerConfig containerID podName podNamespace containerIface IPs =
     (case parseContainerIP IPs of
        Inl err \<Rightarrow> None
      | Inr containerIP \<Rightarrow>
          Some (NewContainerInterfaceConfig containerID podName podNamespace (ci_Sandbox containerIface)
            (case ParseMAC (ci_Mac containerIface) of None \<Rightarrow> [] | Some m \<Rightarrow> m) containerIP))"

section \<open>Configuring and removing the interface of a container\<close>

text \<open>
  The body returns \<open>success\<close> beside the result. \<open>unless\<close> is a deferred call that runs its action if \<open>success\<close> was
  not set: after an error, a panic, and a return of nil before the end.
\<close>

definition unless :: "('s, 'a) go \<Rightarrow> (bool \<times> 'b) result \<Rightarrow> 's \<Rightarrow> 's" where
  "unless undo r s = (case r of Ok (True, _) \<Rightarrow> s | _ \<Rightarrow> snd (undo s))"

definition is_coredns :: "string \<Rightarrow> string \<Rightarrow> bool" where
  "is_coredns podName podNamespace \<longleftrightarrow> has_prefix ''coredns'' podName \<and> podNamespace = ''kube-system''"

text \<open>The last steps: the address, then the cache.\<close>

definition finish_interface ::
  "node_env \<Rightarrow> string \<Rightarrow> cni_interface \<Rightarrow> InterfaceConfig option \<Rightarrow> string \<Rightarrow> string \<Rightarrow> cni_result \<Rightarrow>
   ('z node_scheme, bool \<times> cni_result) go" where
  "finish_interface env netns containerIface containerConfig ovsPortName portUUID result =
     gseq (configureContainerAddr env netns containerIface result)
    (gbind (on_ovs (GetOFPort (ne_ovs env) ovsPortName)) (\<lambda>ofPort.
     gbind (deref containerConfig) (\<lambda>cfg.
     let cfg = cfg\<lparr>if_port := Some \<lparr>po_IfaceName = ovsPortName, po_PortUUID = portUUID, po_OFPort = ofPort\<rparr>\<rparr>
     in gseq (on_ifs (AddInterface ovsPortName cfg)) (ret (True, result)))))"

text \<open>The flows of coreDNS: an error of their installation returns the nil error of the call before.\<close>

definition with_coredns_flows ::
  "node_env \<Rightarrow> string \<Rightarrow> string \<Rightarrow> cni_result \<Rightarrow> ('z node_scheme, bool \<times> cni_result) go \<Rightarrow>
   ('z node_scheme, bool \<times> cni_result) go" where
  "with_coredns_flows env ovsPortName containerID result m =
     gbind (on_ovs (GetOFPort (ne_ovs env) ovsPortName)) (\<lambda>ofPortNum.
     gbind (deref (KubeDNS (ne_sys env))) (\<lambda>serviceIPString.
     gbind (attempt (on_of (InstallCorednsFlow (ne_of env) ofPortNum containerID (ParseIP serviceIPString)))) (\<lambda>r.
     case r of
       Inl err2 \<Rightarrow> ret (False, result)
     | Inr _ \<Rightarrow> gdefer m (unless (on_of (UninstallCorednsFlow (ne_of env) containerID))))))"

definition configureInterface ::
  "node_env \<Rightarrow> string \<Rightarrow> string \<Rightarrow> string \<Rightarrow> string \<Rightarrow> string \<Rightarrow> int \<Rightarrow> cni_result \<Rightarrow>
   ('z node_scheme, bool \<times> cni_result) go" where
  "configureInterface env podName podNamespace containerID containerNetNS ifname MTU result =
     gdefer
      (gseq (ask (\<lambda>h. GetNS (ne_sys env) h containerNetNS))
       (let tcArgs = (case ConstructTcConfig (PodAnnotations (ne_sys env) podName podNamespace) of
              Inl err \<Rightarrow> None | Inr a \<Rightarrow> a)
        in gbind (setupVethPair env podName podNamespace ifname containerNetNS MTU tcArgs)
             (\<lambda>(hostIface, containerIface).
           let result = result\<lparr>re_Interfaces := [hostIface, containerIface]\<rparr>;
               containerConfig = buildContainerConfig containerID podName podNamespace containerIface (re_IPs result);
               ovsPortName = ci_Name hostIface;
               finish = finish_interface env containerNetNS containerIface containerConfig ovsPortName
           in gbind (setupContainerOVSPort env containerConfig ovsPortName) (\<lambda>portUUID.
              gdefer
                (if is_coredns podName podNamespace
                 then with_coredns_flows env ovsPortName containerID result (finish portUUID result)
                 else finish portUUID result)
                (unless (on_ovs (DeletePort (ne_ovs env) portUUID)))))))
      (unless (removeContainerLink env containerID containerNetNS ifname))"

definition removeInterfaces ::
  "node_env \<Rightarrow> string \<Rightarrow> string \<Rightarrow> string \<Rightarrow> string \<Rightarrow> string \<Rightarrow> ('z node_scheme, unit) go" where
  "removeInterfaces env podName podNamespace containerID containerNetns ifname =
     gseq (if containerNetns \<noteq> [] then removeContainerLink env containerID containerNetns ifname else ret ())
    (gbind (gets (\<lambda>s. GetContainerInterface (nd_ifs s) podName podNamespace)) (\<lambda>found. case found of
       None \<Rightarrow> ret ()
     | Some cfg \<Rightarrow>
         gbind (deref (if_port cfg)) (\<lambda>port.
         gseq (on_ovs (DeletePort (ne_ovs env) (po_PortUUID port)))
              (on_ifs (DeleteInterface (po_IfaceName port))))))"

section \<open>The handlers\<close>

definition empty_result :: "cni_env \<Rightarrow> cni_result" where
  "empty_result env = \<lparr>re_CNIVersion = ImplementedSpecVersion env, re_Interfaces = [], re_IPs = [],
     re_Routes = None, re_DNS = \<lparr>dns_Nameservers = [], dns_Domain = [], dns_Search = [], dns_Options = []\<rparr>\<rparr>"

definition CmdAdd ::
  "cni_env \<Rightarrow> node_env \<Rightarrow> CniServer \<Rightarrow> CniCmdArgs option \<Rightarrow> ('z node_scheme, CniCmdResponse) go" where
  "CmdAdd cenv env sv request =
     gbind (checkReuquestMessage cenv sv request) (\<lambda>rc. case rc of
       Inl response \<Rightarrow> ret response
     | Inr cniConfig \<Rightarrow>
         (let args = cc_args cniConfig; nc = cc_net cniConfig; k8s = cc_k8s cniConfig;
              netNS = hostNetNSPath sv (ca_Netns args)
          in gbind (attempt (on_ipam (ExecIPAMAdd (ne_ipam env) args (ip_Type (nw_IPAM nc))))) (\<lambda>ra. case ra of
               Inl err \<Rightarrow> ret (ipamFailureResponse err)
             | Inr ipamRes \<Rightarrow>
                 gbind (deref (nc_Gateway (sv_nodeConfig sv))) (\<lambda>gw.
                 gbind (deref (updateResultIfaceConfig (NextIP (ne_sys env))
                     ((empty_result cenv)\<lparr>re_IPs := re_IPs ipamRes, re_Routes := re_Routes ipamRes\<rparr>)
                     (gw_IP gw) (nc_ClusterPodCIDR (sv_nodeConfig sv)))) (\<lambda>result.
                 gbind (attempt (configureInterface env (ka_POD_NAME k8s) (ka_POD_NAMESPACE k8s)
                     (ca_ContainerId args) netNS (ca_Ifname args) (nw_MTU nc) result)) (\<lambda>rb. case rb of
                   Inl err \<Rightarrow> ret (configureInterfaceFailureResponse err)
                 | Inr (success, result) \<Rightarrow>
                     gbind (deref (PrintResult cenv (nw_CNIVersion nc) (result\<lparr>re_DNS := nw_DNS nc\<rparr>))) (\<lambda>bytes.
                     ret \<lparr>rs_CniResult = bytes, rs_Error = None\<rparr>)))))))"

definition CmdDel ::
  "cni_env \<Rightarrow> node_env \<Rightarrow> CniServer \<Rightarrow> CniCmdArgs option \<Rightarrow> ('z node_scheme, CniCmdResponse) go" where
  "CmdDel cenv env sv request =
     gbind (checkReuquestMessage cenv sv request) (\<lambda>rc. case rc of
       Inl response \<Rightarrow> ret response
     | Inr cniConfig \<Rightarrow>
         (let args = cc_args cniConfig; k8s = cc_k8s cniConfig
          in gbind (attempt (on_ipam (ExecIPAMDelete (ne_ipam env) args (ip_Type (nw_IPAM (cc_net cniConfig)))))) (\<lambda>ra.
             case ra of
               Inl err \<Rightarrow> ret (ipamFailureResponse err)
             | Inr _ \<Rightarrow>
                 gbind (attempt (removeInterfaces env (ka_POD_NAME k8s) (ka_POD_NAMESPACE k8s)
                     (ca_ContainerId args) (hostNetNSPath sv (ca_Netns args)) (ca_Ifname args))) (\<lambda>rb. case rb of
                   Inl err \<Rightarrow> ret (configureInterfaceFailureResponse err)
                 | Inr _ \<Rightarrow> ret \<lparr>rs_CniResult = [], rs_Error = None\<rparr>))))"

definition CmdCheck ::
  "cni_env \<Rightarrow> CniServer \<Rightarrow> CniCmdArgs option \<Rightarrow> ('s, CniCmdResponse) go" where
  "CmdCheck cenv sv request =
     gbind (checkReuquestMessage cenv sv request) (\<lambda>rc. case rc of
       Inl response \<Rightarrow> ret response
     | Inr cniConfig \<Rightarrow> ret \<lparr>rs_CniResult = [], rs_Error = None\<rparr>)"

end
