(* ===== verification/CniServerFacts.thy ===== *)
theory CniServerFacts
  imports CniServer
begin

text \<open>
  What the steps of \<open>configureInterface\<close> and \<open>removeInterfaces\<close> leave of the node: the transactions they commit,
  the cache, the flows, and the rollback of each deferred call.
\<close>

section \<open>Transactions\<close>

definition committed :: "OVSBridge \<Rightarrow> tx_op list \<Rightarrow> OVSBridge" where
  "committed br ops = br\<lparr>br_log := ops # br_log br\<rparr>"

definition create_tx :: "ovs_env \<Rightarrow> OVSBridge \<Rightarrow> string \<Rightarrow> (string \<times> json) list \<Rightarrow> tx_op list" where
  "create_tx env br name ids = port_ops env (br_name br) name name [] 0 (Some ids) None"

definition delete_tx :: "ovs_env \<Rightarrow> string \<Rightarrow> tx_op list" where
  "delete_tx env uuid =
     [TxMutate ''Bridge'' [[JStr ''ports'', JStr ''delete'', named_set env ''uuid'' [uuid]]] []]"

lemma snd_commit: "snd (gbind (commit env ops) f br) = snd (f (projr (tx_commit env (br_log br) ops)) (committed br ops))
    \<or> snd (gbind (commit env ops) f br) = committed br ops"
  by (cases "tx_commit env (br_log br) ops") (auto simp: gbind_eval commit_def committed_def)

lemma commit_deref_state: "snd (gbind (commit env ops) (\<lambda>res. deref (f res)) br) = committed br ops"
  using snd_commit [of env ops "\<lambda>res. deref (f res)" br] by (auto simp: deref_def go_eval split: option.splits)

lemma GetOFPort_state: "\<exists>ops. snd (GetOFPort env n br) = committed br ops"
  unfolding GetOFPort_def commit_deref_state by blast

lemma DeletePort_state: "snd (DeletePort env u br) = committed br (delete_tx env u)"
  unfolding DeletePort_def delete_tx_def
  using snd_commit [of env "[TxMutate ''Bridge'' [[JStr ''ports'', JStr ''delete'', named_set env ''uuid'' [u]]] []]"
      "\<lambda>_. ret ()" br] by (auto simp: ret_eval)

lemma CreatePort_state:
  "snd (CreatePort env n n (Some ids) br) = committed br (create_tx env br n ids)"
proof -
  have "CreatePort env n n (Some ids) br
      = gbind (commit env (create_tx env br n ids)) (\<lambda>res. deref (result_uuid res 1)) br"
    by (simp add: CreatePort_def createPort_def create_tx_def gbind_def)
  then show ?thesis by (simp add: commit_deref_state)
qed

lemma committed_simps [simp]:
  "br_log (committed br ops) = ops # br_log br" "br_name (committed br ops) = br_name br"
  by (simp_all add: committed_def)

section \<open>The last steps\<close>

text \<open>More transactions and nothing else of the bridge, the client, the cache and the IPAM calls.\<close>

definition queried :: "'z node_scheme \<Rightarrow> 'z node_scheme \<Rightarrow> bool" where
  "queried s s' \<longleftrightarrow> (\<exists>txs. br_log (nd_ovs s') = txs @ br_log (nd_ovs s)) \<and>
     br_name (nd_ovs s') = br_name (nd_ovs s) \<and> nd_of s' = nd_of s \<and> nd_ipam s' = nd_ipam s"

lemma queried_refl [simp]: "queried s s"
  by (simp add: queried_def)

lemma queried_trans: "queried s s' \<Longrightarrow> queried s' s'' \<Longrightarrow> queried s s''"
  by (auto simp: queried_def)

lemma parts_queried: "parts s' = parts s \<Longrightarrow> queried s s' \<and> nd_ifs s' = nd_ifs s"
  by (simp add: parts_def queried_def)

lemma GetOFPort_queried:
  assumes "on_ovs (GetOFPort env n) s = (r, s')"
  shows "queried s s' \<and> nd_ifs s' = nd_ifs s"
proof -
  obtain r' br where g: "GetOFPort env n (nd_ovs s) = (r', br)" by (cases "GetOFPort env n (nd_ovs s)")
  then obtain ops where "br = committed (nd_ovs s) ops" using GetOFPort_state [of env n "nd_ovs s"] by auto
  with assms g show ?thesis by (auto simp: zoom_eval queried_def)
qed

lemma finish_interface_ends:
  assumes "finish_interface env nn ci cc name u re s = (r, s')"
  shows "queried s s' \<and>
    (case r of
       Ok (ok, re') \<Rightarrow> ok \<and> re' = re \<and> (\<exists>cfg p. cc = Some cfg \<and> nd_ifs s' =
         AddInterface name (cfg\<lparr>if_port := Some \<lparr>po_IfaceName = name, po_PortUUID = u, po_OFPort = p\<rparr>\<rparr>) (nd_ifs s))
     | _ \<Rightarrow> nd_ifs s' = nd_ifs s)"
proof -
  obtain r1 s1 where 1: "configureContainerAddr env nn ci re s = (r1, s1)"
    by (cases "configureContainerAddr env nn ci re s")
  have q1: "queried s s1" "nd_ifs s1 = nd_ifs s"
    using parts_queried [OF unchangedD [OF unchanged_parts(3) 1]] by simp_all
  obtain r2 s2 where 2: "on_ovs (GetOFPort (ne_ovs env) name) s1 = (r2, s2)"
    by (cases "on_ovs (GetOFPort (ne_ovs env) name) s1")
  have q2: "queried s s2" "nd_ifs s2 = nd_ifs s"
    using GetOFPort_queried [OF 2] q1 queried_trans by auto
  have q3: "queried s (nd_ifs_update f s2)" for f using q2 by (simp add: queried_def)
  show ?thesis
    using assms q1 q2 q3
    by (auto simp: finish_interface_def gbind_eval 1 2 Let_def deref_def ret_eval panic_eval modify_eval
        split: result.splits option.splits)
qed

text \<open>A step between two states adds transactions; the flow client may change.\<close>

definition tx_more :: "'z node_scheme \<Rightarrow> 'z node_scheme \<Rightarrow> bool" where
  "tx_more s s' \<longleftrightarrow> (\<exists>txs. br_log (nd_ovs s') = txs @ br_log (nd_ovs s)) \<and> nd_ipam s' = nd_ipam s"

text \<open>What a run of the coreDNS step has done to the flows: nothing, a failed installation, one that was kept, or
  one that was undone.\<close>

definition dns_flows_after :: "node_env \<Rightarrow> string \<Rightarrow> bool \<Rightarrow> client \<Rightarrow> client \<Rightarrow> bool" where
  "dns_flows_after env cid ok c c' \<longleftrightarrow> c' = c \<or>
     (\<exists>p a. case InstallCorednsFlow (ne_of env) p cid a c of (r, c1) \<Rightarrow>
        c' = (if r = Ok () \<and> \<not> ok then snd (UninstallCorednsFlow (ne_of env) cid c1) else c1))"

definition succeeded :: "(bool \<times> 'b) result \<Rightarrow> bool" where
  "succeeded r \<longleftrightarrow> (case r of Ok (ok, _) \<Rightarrow> ok | _ \<Rightarrow> False)"

lemma unless_eq: "unless undo r s = (if succeeded r then s else snd (undo s))"
  by (auto simp: unless_def succeeded_def split: result.split bool.split)

lemma snd_zoom: "snd (zoom get put m s) = put (snd (m (get s))) s"
  by (simp add: zoom_def split: prod.split)

lemma tx_more_trans: "tx_more s s' \<Longrightarrow> tx_more s' s'' \<Longrightarrow> tx_more s s''"
  by (auto simp: tx_more_def)

lemma queried_tx_more: "queried s s' \<Longrightarrow> tx_more s s'"
  by (simp add: queried_def tx_more_def)

text \<open>What the cache has gained at the end: the interface if the run succeeded, else nothing.\<close>

definition cached_after ::
  "bool \<Rightarrow> string \<Rightarrow> string \<Rightarrow> InterfaceConfig option \<Rightarrow> interface_cache \<Rightarrow> interface_cache \<Rightarrow> bool" where
  "cached_after ok name u cc i i' \<longleftrightarrow>
     (if ok then \<exists>cfg p. cc = Some cfg \<and>
        i' = AddInterface name (cfg\<lparr>if_port := Some \<lparr>po_IfaceName = name, po_PortUUID = u, po_OFPort = p\<rparr>\<rparr>) i
      else i' = i)"

lemma finish_interface_cached:
  assumes "finish_interface env nn ci cc name u re s = (r, s')"
  shows "queried s s' \<and> cached_after (succeeded r) name u cc (nd_ifs s) (nd_ifs s')"
  using finish_interface_ends [OF assms]
  by (auto simp: cached_after_def succeeded_def split: result.splits)

lemma with_coredns_flows_ends:
  assumes m: "\<And>s r s'. m s = (r, s') \<Longrightarrow> queried s s' \<and> cached_after (succeeded r) name u cc (nd_ifs s) (nd_ifs s')"
    and run: "with_coredns_flows env name cid re m s = (r, s')"
  shows "tx_more s s' \<and> dns_flows_after env cid (succeeded r) (nd_of s) (nd_of s') \<and>
    cached_after (succeeded r) name u cc (nd_ifs s) (nd_ifs s')"
proof -
  obtain r1 s1 where 1: "on_ovs (GetOFPort (ne_ovs env) name) s = (r1, s1)"
    by (cases "on_ovs (GetOFPort (ne_ovs env) name) s")
  note q1 = GetOFPort_queried [OF 1]
  then have f1: "tx_more s s1" "nd_of s1 = nd_of s" "nd_ifs s1 = nd_ifs s"
    by (simp_all add: queried_tx_more) (simp add: queried_def)
  show ?thesis
  proof (cases "\<exists>p a. r1 = Ok p \<and> KubeDNS (ne_sys env) = Some a")
    case False
    with run 1 have "\<not> succeeded r \<and> s' = s1"
      by (auto simp: with_coredns_flows_def gbind_eval deref_def panic_eval succeeded_def
          split: result.splits option.splits)
    with f1 show ?thesis by (simp add: dns_flows_after_def cached_after_def)
  next
    case True
    then obtain p a where pa: "r1 = Ok p" "KubeDNS (ne_sys env) = Some a" by blast
    obtain r2 c2 where 2: "InstallCorednsFlow (ne_of env) p cid (ParseIP a) (nd_of s) = (r2, c2)"
      by (cases "InstallCorednsFlow (ne_of env) p cid (ParseIP a) (nd_of s)")
    let ?s2 = "s1\<lparr>nd_of := c2\<rparr>"
    have f2: "tx_more s ?s2" using f1 by (simp add: tx_more_def)
    show ?thesis
    proof (cases "r2 = Ok ()")
      case False
      with run 1 pa 2 f1 have "\<not> succeeded r \<and> s' = ?s2"
        by (cases r2) (auto simp: with_coredns_flows_def gbind_eval deref_def ret_eval attempt_eval
            zoom_eval succeeded_def)
      moreover have "dns_flows_after env cid False (nd_of s) c2"
        unfolding dns_flows_after_def using 2 False by (intro disjI2 exI [of _ p] exI [of _ "ParseIP a"]) simp
      ultimately show ?thesis using f1 f2 by (simp add: cached_after_def)
    next
      case True
      obtain r3 s3 where 3: "m ?s2 = (r3, s3)" by (cases "m ?s2")
      note q3 = m [OF 3]
      have fin: "r = r3" "s' = (if succeeded r3 then s3
          else s3\<lparr>nd_of := snd (UninstallCorednsFlow (ne_of env) cid (nd_of s3))\<rparr>)"
        using run 1 pa 2 f1 True 3
        by (auto simp: with_coredns_flows_def gbind_eval deref_def ret_eval attempt_eval zoom_eval
            gdefer_eval unless_eq split: if_splits prod.splits)
      have "nd_of s3 = c2" using q3 by (simp add: queried_def)
      then have "dns_flows_after env cid (succeeded r) (nd_of s) (nd_of s')"
        unfolding dns_flows_after_def using 2 True fin
        by (intro disjI2 exI [of _ p] exI [of _ "ParseIP a"]) simp
      moreover have "tx_more s s3" using f2 queried_tx_more q3 tx_more_trans by blast
      then have "tx_more s s'" using fin by (simp add: tx_more_def)
      moreover have "nd_ifs s' = nd_ifs s3" using fin by simp
      ultimately show ?thesis using q3 f1 fin by simp
    qed
  qed
qed

section \<open>The whole of \<open>configureInterface\<close>\<close>

text \<open>
  The port of a run that failed: never asked for, refused, or created and then deleted in the last
  transaction. The port of a run that succeeded: created, and cached under its name with its uuid.
\<close>

definition created :: "node_env \<Rightarrow> OVSBridge \<Rightarrow> string \<Rightarrow> (string \<times> json) list \<Rightarrow> string result" where
  "created env br name ids = fst (CreatePort (ne_ovs env) name name (Some ids) br)"

definition port_gone :: "node_env \<Rightarrow> OVSBridge \<Rightarrow> OVSBridge \<Rightarrow> bool" where
  "port_gone env br br' \<longleftrightarrow> br_log br' = br_log br \<or>
     (\<exists>name ids. br_log br' = create_tx (ne_ovs env) br name ids # br_log br \<and>
        (\<forall>u. created env br name ids \<noteq> Ok u)) \<or>
     (\<exists>name ids u txs. created env br name ids = Ok u \<and>
        br_log br' = delete_tx (ne_ovs env) u # txs @ create_tx (ne_ovs env) br name ids # br_log br)"

definition port_kept ::
  "node_env \<Rightarrow> string \<Rightarrow> OVSBridge \<Rightarrow> OVSBridge \<Rightarrow> interface_cache \<Rightarrow> interface_cache \<Rightarrow> bool" where
  "port_kept env name br br' i i' \<longleftrightarrow>
     (\<exists>cfg u p txs. created env br name (BuildOVSPortExternalIDs cfg) = Ok u \<and>
        br_log br' = txs @ create_tx (ne_ovs env) br name (BuildOVSPortExternalIDs cfg) # br_log br \<and>
        i' = AddInterface name (cfg\<lparr>if_port := Some \<lparr>po_IfaceName = name, po_PortUUID = u, po_OFPort = p\<rparr>\<rparr>) i)"

definition ends_well ::
  "node_env \<Rightarrow> string \<Rightarrow> string \<Rightarrow> (bool \<times> cni_result) result \<Rightarrow> 'z node_scheme \<Rightarrow> 'z node_scheme \<Rightarrow> bool" where
  "ends_well env cid name r s s' \<longleftrightarrow> nd_ipam s' = nd_ipam s \<and>
     dns_flows_after env cid (succeeded r) (nd_of s) (nd_of s') \<and>
     (if succeeded r then port_kept env name (nd_ovs s) (nd_ovs s') (nd_ifs s) (nd_ifs s')
      else nd_ifs s' = nd_ifs s \<and> port_gone env (nd_ovs s) (nd_ovs s'))"

lemma ends_well_parts:
  "parts s1 = parts s \<Longrightarrow> ends_well env cid name r s1 s' = ends_well env cid name r s s'"
  "parts s'' = parts s' \<Longrightarrow> ends_well env cid name r s s'' = ends_well env cid name r s s'"
  by (simp_all add: parts_def ends_well_def)

lemma ends_well_start: "\<not> succeeded r \<Longrightarrow> parts s' = parts s \<Longrightarrow> ends_well env cid name r s s'"
  by (simp add: ends_well_def parts_def dns_flows_after_def port_gone_def)

text \<open>The steps from the creation of the port on, after which its deletion is deferred.\<close>

lemma port_steps_end:
  assumes body: "\<And>u s r s'. body u s = (r, s') \<Longrightarrow> tx_more s s' \<and>
      dns_flows_after env cid (succeeded r) (nd_of s) (nd_of s') \<and>
      cached_after (succeeded r) name u cc (nd_ifs s) (nd_ifs s')"
    and run: "gbind (setupContainerOVSPort env cc name) (\<lambda>u.
      gdefer (body u) (unless (on_ovs (DeletePort (ne_ovs env) u)))) s = (r, s')"
  shows "ends_well env cid name r s s'"
proof (cases cc)
  case None
  with run show ?thesis
    by (auto simp: setupContainerOVSPort_def deref_def gbind_eval panic_eval succeeded_def intro!: ends_well_start)
next
  case (Some cfg)
  let ?ids = "BuildOVSPortExternalIDs cfg" and ?br = "nd_ovs s"
  let ?s1 = "s\<lparr>nd_ovs := committed ?br (create_tx (ne_ovs env) ?br name ?ids)\<rparr>"
  have create: "setupContainerOVSPort env cc name s = (created env ?br name ?ids, ?s1)"
    using CreatePort_state [of "ne_ovs env" name ?ids ?br]
    by (cases "CreatePort (ne_ovs env) name name (Some ?ids) ?br")
      (simp add: setupContainerOVSPort_def Some deref_def created_def zoom_eval)
  show ?thesis
  proof (cases "\<exists>u. created env ?br name ?ids = Ok u")
    case False
    then have "\<not> succeeded r \<and> s' = ?s1"
      using run create by (cases "created env ?br name ?ids") (auto simp: gbind_eval succeeded_def)
    moreover have "port_gone env ?br (nd_ovs ?s1)" using False by (auto simp: port_gone_def)
    ultimately show ?thesis by (simp add: ends_well_def dns_flows_after_def)
  next
    case True
    then obtain u where u: "created env ?br name ?ids = Ok u" by blast
    obtain r2 s2 where 2: "body u ?s1 = (r2, s2)" by (cases "body u ?s1")
    note b = body [OF 2]
    then obtain txs where txs: "br_log (nd_ovs s2) = txs @ create_tx (ne_ovs env) ?br name ?ids # br_log ?br"
      by (auto simp: tx_more_def)
    have fin: "r = r2" "s' = (if succeeded r2 then s2
        else s2\<lparr>nd_ovs := committed (nd_ovs s2) (delete_tx (ne_ovs env) u)\<rparr>)"
      using run create u 2 DeletePort_state [of "ne_ovs env" u "nd_ovs s2"]
      by (auto simp: gbind_eval gdefer_eval unless_eq snd_zoom)
    show ?thesis
    proof (cases "succeeded r2")
      case True
      then have "port_kept env name ?br (nd_ovs s2) (nd_ifs s) (nd_ifs s2)"
        using b u txs Some by (auto simp: port_kept_def cached_after_def)
      with True b fin show ?thesis by (simp add: ends_well_def tx_more_def)
    next
      case False
      then have "port_gone env ?br (nd_ovs s')" using u txs fin by (auto simp: port_gone_def)
      with False b fin show ?thesis by (simp add: ends_well_def tx_more_def cached_after_def)
    qed
  qed
qed

text \<open>The plugin library names the host's end as it is told.\<close>

definition veth_named :: "sys_env \<Rightarrow> bool" where
  "veth_named sys \<longleftrightarrow> (\<forall>h nn ifn host mtu v. SetupVeth sys h nn ifn host mtu = Inr v \<longrightarrow> fst (fst v) = host)"

lemma setupVethPair_name:
  assumes "setupVethPair env p ns ifn nn mtu t s = (Ok v, s')" and "veth_named (ne_sys env)"
  shows "ci_Name (fst v) = GenerateContainerInterfaceName p ns"
proof -
  let ?host = "GenerateContainerInterfaceName p ns"
  from assms(1) have "NsDo (ne_sys env) (nd_sys s) nn = None"
    by (auto simp: setupVethPair_def Let_def in_ns_def gbind_eval ask_eval split: option.splits)
  with assms(1) obtain hv cv where "SetupVeth (ne_sys env) (nd_sys s) nn ifn ?host mtu = Inr (hv, cv)"
    and v: "fst v = iface_of hv []"
    by (cases "SetupVeth (ne_sys env) (nd_sys s) nn ifn ?host mtu")
      (auto simp: setupVethPair_def Let_def in_ns_def gbind_eval ask_eval change_eval ret_eval
        split: result.splits prod.splits)
  then show ?thesis using assms(2) unfolding veth_named_def iface_of_def by fastforce
qed

text \<open>The steps of \<open>configureInterface\<close> from the creation of the port on.\<close>

definition port_steps ::
  "node_env \<Rightarrow> string \<Rightarrow> string \<Rightarrow> string \<Rightarrow> string \<Rightarrow> cni_result \<Rightarrow> cni_interface \<times> cni_interface \<Rightarrow>
   ('z node_scheme, bool \<times> cni_result) go" where
  "port_steps env p ns cid nn re = (\<lambda>(hostIface, containerIface).
    let re = re\<lparr>re_Interfaces := [hostIface, containerIface]\<rparr>;
        cc = buildContainerConfig cid p ns containerIface (re_IPs re); name = ci_Name hostIface;
        finish = finish_interface env nn containerIface cc name
    in gbind (setupContainerOVSPort env cc name) (\<lambda>u.
       gdefer (if is_coredns p ns then with_coredns_flows env name cid re (finish u re) else finish u re)
         (unless (on_ovs (DeletePort (ne_ovs env) u)))))"

lemma configureInterface_steps:
  "configureInterface env p ns cid nn ifn mtu re =
     (let t = (case ConstructTcConfig (PodAnnotations (ne_sys env) p ns) of Inl err \<Rightarrow> None | Inr a \<Rightarrow> a)
      in gdefer (gseq (ask (\<lambda>h. GetNS (ne_sys env) h nn))
           (gbind (setupVethPair env p ns ifn nn mtu t) (port_steps env p ns cid nn re)))
         (unless (removeContainerLink env cid nn ifn)))"
  by (simp add: configureInterface_def port_steps_def Let_def)

lemma port_steps_ends:
  assumes "port_steps env p ns cid nn re v s = (r, s')"
  shows "ends_well env cid (ci_Name (fst v)) r s s'"
proof -
  obtain h c where v: "v = (h, c)" by (cases v)
  from assms show ?thesis unfolding v port_steps_def Let_def split fst_conv
  proof (rule port_steps_end [rotated])
    fix u and s :: "'a node_scheme" and r s'
    assume m: "(if is_coredns p ns
        then with_coredns_flows env (ci_Name h) cid (re\<lparr>re_Interfaces := [h, c]\<rparr>)
          (finish_interface env nn c (buildContainerConfig cid p ns c (re_IPs (re\<lparr>re_Interfaces := [h, c]\<rparr>)))
            (ci_Name h) u (re\<lparr>re_Interfaces := [h, c]\<rparr>))
        else finish_interface env nn c (buildContainerConfig cid p ns c (re_IPs (re\<lparr>re_Interfaces := [h, c]\<rparr>)))
            (ci_Name h) u (re\<lparr>re_Interfaces := [h, c]\<rparr>)) s = (r, s')"
    show "tx_more s s' \<and> dns_flows_after env cid (succeeded r) (nd_of s) (nd_of s') \<and>
      cached_after (succeeded r) (ci_Name h) u
        (buildContainerConfig cid p ns c (re_IPs (re\<lparr>re_Interfaces := [h, c]\<rparr>))) (nd_ifs s) (nd_ifs s')"
    proof (cases "is_coredns p ns")
      case True
      show ?thesis
        by (rule with_coredns_flows_ends [OF finish_interface_cached]) (use m True in simp_all)
    next
      case False
      with m have "finish_interface env nn c
          (buildContainerConfig cid p ns c (re_IPs (re\<lparr>re_Interfaces := [h, c]\<rparr>)))
          (ci_Name h) u (re\<lparr>re_Interfaces := [h, c]\<rparr>) s = (r, s')" by simp
      from finish_interface_cached [OF this] show ?thesis
        by (simp add: queried_tx_more) (simp add: queried_def dns_flows_after_def)
    qed
  qed
qed

text \<open>The name of the port is the one the pod's name gives, if the plugin library keeps it.\<close>

definition named_end :: "node_env \<Rightarrow> string \<Rightarrow> string \<Rightarrow> string \<Rightarrow>
    (bool \<times> cni_result) result \<Rightarrow> 'z node_scheme \<Rightarrow> 'z node_scheme \<Rightarrow> bool" where
  "named_end env p ns cid r s s' \<longleftrightarrow> (\<exists>name. ends_well env cid name r s s' \<and>
     (veth_named (ne_sys env) \<longrightarrow> name = GenerateContainerInterfaceName p ns))"

lemma named_end_start: "\<not> succeeded r \<Longrightarrow> parts s' = parts s \<Longrightarrow> named_end env p ns cid r s s'"
  unfolding named_end_def by (blast intro: ends_well_start)

lemma inner_steps_end:
  assumes "gseq (ask (\<lambda>h. GetNS (ne_sys env) h nn))
    (gbind (setupVethPair env p ns ifn nn mtu t) (port_steps env p ns cid nn re)) s = (r, s')"
  shows "named_end env p ns cid r s s'"
proof (cases "GetNS (ne_sys env) (nd_sys s) nn")
  case (Some e)
  with assms show ?thesis by (auto simp: gbind_eval ask_eval succeeded_def intro!: named_end_start)
next
  case None
  obtain r2 s2 where 2: "setupVethPair env p ns ifn nn mtu t s = (r2, s2)"
    by (cases "setupVethPair env p ns ifn nn mtu t s")
  have same: "parts s2 = parts s" using unchangedD [OF unchanged_parts(1) 2] .
  show ?thesis
  proof (cases r2)
    case (Ok v)
    with assms 2 None have "port_steps env p ns cid nn re v s2 = (r, s')" by (simp add: gbind_eval ask_eval)
    from port_steps_ends [OF this] have "ends_well env cid (ci_Name (fst v)) r s s'"
      using ends_well_parts(1) [OF same] by blast
    then show ?thesis
      using setupVethPair_name [of env p ns ifn nn mtu t s v s2] 2 Ok unfolding named_end_def by blast
  qed (use assms 2 None same in \<open>auto simp: gbind_eval ask_eval succeeded_def intro!: named_end_start\<close>)
qed

lemma configureInterface_ends:
  assumes "configureInterface env p ns cid nn ifn mtu re s = (r, s')"
  shows "named_end env p ns cid r s s' \<and>
    (\<not> succeeded r \<longrightarrow> (\<exists>t. s' = snd (removeContainerLink env cid nn ifn t)))"
proof -
  define t where "t = (case ConstructTcConfig (PodAnnotations (ne_sys env) p ns) of
    Inl err \<Rightarrow> None | Inr a \<Rightarrow> a)"
  define inner :: "('a node_scheme, bool \<times> cni_result) go" where "inner = gseq (ask (\<lambda>h. GetNS (ne_sys env) h nn))
    (gbind (setupVethPair env p ns ifn nn mtu t) (port_steps env p ns cid nn re))"
  obtain r1 s1 where 1: "inner s = (r1, s1)" by (cases "inner s")
  then have w: "named_end env p ns cid r1 s s1" unfolding inner_def by (rule inner_steps_end)
  have fin: "r = r1" "s' = (if succeeded r1 then s1 else snd (removeContainerLink env cid nn ifn s1))"
    using assms 1 by (auto simp: configureInterface_steps Let_def t_def [symmetric] inner_def [symmetric]
      gdefer_eval unless_eq)
  have "parts (snd (removeContainerLink env cid nn ifn s1)) = parts s1"
    by (rule unchangedD [OF unchanged_parts(2) prod.collapse [symmetric]])
  then have "ends_well env cid name r s s' = ends_well env cid name r1 s s1" for name
    using fin ends_well_parts(2) by (cases "succeeded r1") simp_all
  with w have "named_end env p ns cid r s s'" by (simp add: named_end_def)
  moreover have "\<exists>t. s' = snd (removeContainerLink env cid nn ifn t)" if "\<not> succeeded r"
    using fin that by auto
  ultimately show ?thesis by blast
qed

section \<open>A return of nil without success\<close>

text \<open>
  A run that returns nil although \<open>success\<close> was never set is one in which the flows of coreDNS could not be
  installed.
\<close>

definition dns_failed :: "node_env \<Rightarrow> string \<Rightarrow> client \<Rightarrow> client \<Rightarrow> bool" where
  "dns_failed env cid c c' \<longleftrightarrow> (\<exists>p a e. KubeDNS (ne_sys env) = Some a \<and>
     InstallCorednsFlow (ne_of env) p cid (ParseIP a) c = (Err e, c'))"

definition silent :: "bool \<Rightarrow> node_env \<Rightarrow> string \<Rightarrow> ('z node_scheme, bool \<times> cni_result) go \<Rightarrow> bool" where
  "silent b env cid m \<longleftrightarrow>
     (\<forall>s x s'. m s = (Ok (False, x), s') \<longrightarrow> b \<and> dns_failed env cid (nd_of s) (nd_of s'))"

lemma silent_gbind:
  assumes "unchanged nd_of m" and "\<And>a. silent b env cid (f a)"
  shows "silent b env cid (gbind m f)"
  unfolding silent_def
proof (intro allI impI)
  fix s x s' assume "gbind m f s = (Ok (False, x), s')"
  then obtain a s1 where 1: "m s = (Ok a, s1)" "f a s1 = (Ok (False, x), s')" by (auto simp: gbind_Ok_iff)
  then have "b \<and> dns_failed env cid (nd_of s1) (nd_of s')" using assms(2) unfolding silent_def by blast
  with unchangedD [OF assms(1) 1(1)] show "b \<and> dns_failed env cid (nd_of s) (nd_of s')" by simp
qed

lemma silent_gdefer:
  assumes "silent b env cid m" and "\<And>r s. nd_of (d r s) = nd_of s"
  shows "silent b env cid (gdefer m d)"
  using assms by (fastforce simp: silent_def gdefer_eval split: prod.splits)

lemma nd_of_undo: "unchanged nd_of undo \<Longrightarrow> nd_of (unless undo r s) = nd_of s"
  by (simp add: unless_eq unchanged_def)

lemma finish_interface_not_False: "finish_interface env nn ci cc name u re s \<noteq> (Ok (False, x), s')"
  using finish_interface_ends [of env nn ci cc name u re s "Ok (False, x)" s'] by auto

lemma silent_with_coredns_flows:
  "silent True env cid (with_coredns_flows env name cid re (finish_interface env nn ci cc name u re'))"
  unfolding silent_def
proof (intro allI impI)
  fix s x s'
  assume run: "with_coredns_flows env name cid re (finish_interface env nn ci cc name u re') s = (Ok (False, x), s')"
  obtain r1 s1 where 1: "on_ovs (GetOFPort (ne_ovs env) name) s = (r1, s1)"
    by (cases "on_ovs (GetOFPort (ne_ovs env) name) s")
  have f: "nd_of s1 = nd_of s" using GetOFPort_queried [OF 1] by (simp add: queried_def)
  from run 1 obtain p a where pa: "r1 = Ok p" "KubeDNS (ne_sys env) = Some a"
    by (auto simp: with_coredns_flows_def gbind_eval deref_def panic_eval split: result.splits option.splits)
  obtain r2 c2 where 2: "InstallCorednsFlow (ne_of env) p cid (ParseIP a) (nd_of s) = (r2, c2)"
    by (cases "InstallCorednsFlow (ne_of env) p cid (ParseIP a) (nd_of s)")
  show "True \<and> dns_failed env cid (nd_of s) (nd_of s')"
  proof (cases r2)
    case (Err e)
    with run 1 pa 2 f have "nd_of s' = c2"
      by (auto simp: with_coredns_flows_def gbind_eval deref_def ret_eval attempt_eval zoom_eval)
    then show ?thesis using pa 2 Err by (auto simp: dns_failed_def)
  next
    case (Ok v)
    with run 1 pa 2 f finish_interface_not_False [of env nn ci cc name u re'] show ?thesis
      by (auto simp: with_coredns_flows_def gbind_eval deref_def ret_eval attempt_eval zoom_eval
          gdefer_eval split: prod.splits)
  next
    case Panic
    with run 1 pa 2 f show ?thesis
      by (auto simp: with_coredns_flows_def gbind_eval deref_def ret_eval attempt_eval zoom_eval)
  qed
qed

lemma silent_finish_interface: "silent b env cid (finish_interface env nn ci cc name u re)"
  by (simp add: silent_def finish_interface_not_False)

lemma parts_nd_of: "unchanged parts m \<Longrightarrow> unchanged nd_of m"
  by (simp add: unchanged_def parts_def)

lemma unchanged_nd_of [simp]:
  "unchanged nd_of (on_ovs m)" "unchanged nd_of (ask q)" "unchanged nd_of (on_ifs f)"
  "unchanged nd_of (setupContainerOVSPort env cc name)"
  by (simp_all add: unchanged_def zoom_def ask_def modify_def setupContainerOVSPort_def gbind_eval deref_def
      ret_eval panic_eval split: prod.split option.split)

lemma silent_port_steps: "silent (is_coredns p ns) env cid (port_steps env p ns cid nn re v)"
  by (cases v) (auto simp: port_steps_def Let_def silent_finish_interface silent_with_coredns_flows nd_of_undo
      intro!: silent_gbind silent_gdefer)

lemma configureInterface_silent:
  assumes "configureInterface env p ns cid nn ifn mtu re s = (Ok (False, x), s')"
  shows "is_coredns p ns \<and> dns_failed env cid (nd_of s) (nd_of s')"
proof -
  have "silent (is_coredns p ns) env cid (configureInterface env p ns cid nn ifn mtu re)"
    unfolding configureInterface_steps Let_def
    by (intro silent_gdefer silent_gbind silent_port_steps nd_of_undo parts_nd_of unchanged_parts unchanged_nd_of)
  with assms show ?thesis unfolding silent_def by blast
qed

lemma unchanged_gbind: "unchanged f m \<Longrightarrow> (\<And>a. unchanged f (g a)) \<Longrightarrow> unchanged f (gbind m g)"
  by (simp add: unchanged_iff_keeps go_keeps)

lemma unchanged_gdefer:
  "unchanged f m \<Longrightarrow> (\<And>r s. f (d r s) = f s) \<Longrightarrow> unchanged f (gdefer m d)"
  by (auto simp: unchanged_def gdefer_def split: prod.split) (metis snd_conv)

lemma unchanged_finish_interface: "unchanged nd_of (finish_interface env nn ci cc name u re)"
  unfolding unchanged_def
  using finish_interface_ends [of env nn ci cc name u re] by (metis prod.collapse queried_def)

text \<open>Only the port of coreDNS has flows of its own.\<close>

lemma configureInterface_flows:
  assumes "\<not> is_coredns p ns"
  shows "unchanged nd_of (configureInterface env p ns cid nn ifn mtu re)"
proof -
  have steps: "unchanged nd_of (port_steps env p ns cid nn re v)" for v :: "cni_interface \<times> cni_interface"
    by (cases v) (auto simp: port_steps_def Let_def assms unchanged_finish_interface nd_of_undo
        intro!: unchanged_gbind unchanged_gdefer)
  then show ?thesis
    unfolding configureInterface_steps Let_def
    by (intro unchanged_gdefer unchanged_gbind nd_of_undo steps unchanged_nd_of(2) parts_nd_of
        unchanged_parts)
qed

section \<open>Removing interfaces\<close>

lemma removeInterfaces_ends:
  assumes "removeInterfaces env p ns cid nn ifn s = (r, s')"
  shows "nd_of s' = nd_of s \<and> nd_ipam s' = nd_ipam s \<and>
    (if r = Ok () then
       (case GetContainerInterface (nd_ifs s) p ns of
          None \<Rightarrow> nd_ovs s' = nd_ovs s \<and> nd_ifs s' = nd_ifs s
        | Some cfg \<Rightarrow> \<exists>port. if_port cfg = Some port \<and>
            nd_ovs s' = committed (nd_ovs s) (delete_tx (ne_ovs env) (po_PortUUID port)) \<and>
            nd_ifs s' = DeleteInterface (po_IfaceName port) (nd_ifs s))
     else nd_ifs s' = nd_ifs s)"
proof -
  define link :: "('a node_scheme, unit) go" where
    "link = (if nn \<noteq> [] then removeContainerLink env cid nn ifn else ret ())"
  have "unchanged parts link"
    by (simp add: link_def unchanged_parts) (simp add: unchanged_def ret_def)
  then obtain r1 s1 where 1: "link s = (r1, s1)" "parts s1 = parts s"
    by (cases "link s") (auto dest: unchangedD)
  note run = assms [unfolded removeInterfaces_def link_def [symmetric]]
  show ?thesis
  proof (cases "r1 = Ok ()")
    case False
    with run 1 show ?thesis by (cases r1) (auto simp: gbind_eval parts_def)
  next
    case True
    show ?thesis
    proof (cases "GetContainerInterface (nd_ifs s) p ns")
      case None
      with run 1 True show ?thesis by (auto simp: gbind_eval gets_eval ret_eval parts_def)
    next
      case (Some cfg)
      show ?thesis
      proof (cases "if_port cfg")
        case None
        with Some run 1 True show ?thesis by (auto simp: gbind_eval gets_eval deref_def panic_eval parts_def)
      next
        case (Some port)
        obtain r2 br where 2: "DeletePort (ne_ovs env) (po_PortUUID port) (nd_ovs s) = (r2, br)"
          by (cases "DeletePort (ne_ovs env) (po_PortUUID port) (nd_ovs s)")
        then have "br = committed (nd_ovs s) (delete_tx (ne_ovs env) (po_PortUUID port))"
          using DeletePort_state [of "ne_ovs env" "po_PortUUID port" "nd_ovs s"] by simp
        with 2 Some \<open>GetContainerInterface (nd_ifs s) p ns = Some cfg\<close> run 1 True show ?thesis
          by (cases r2) (auto simp: gbind_eval gets_eval deref_def ret_eval zoom_eval modify_eval parts_def)
      qed
    qed
  qed
qed

section \<open>The result of IPAM\<close>

lemma default_dst: "\<exists>a. ParseCIDR defaultRouteDst = Inr (a, \<lparr>ipnet_IP = [0, 0, 0, 0], ipnet_Mask = [0, 0, 0, 0]\<rparr>)"
proof -
  have "ParseAddr ''0.0.0.0'' = Some [0, 0, 0, 0]" by code_simp
  moreover have "dtoi 0 ''0'' = Some 0" by (simp add: digit_val_def)
  moreover have "CIDRMask 0 32 = [0, 0, 0, 0]" by code_simp
  moreover have "ip_Mask (v4InV6Prefix @ [0, 0, 0, 0]) [0, 0, 0, 0] = [0, 0, 0, 0]"
    by (simp add: ip_Mask_def v4InV6Prefix_def Let_def)
  ultimately show ?thesis by (simp add: ParseCIDR_def As16_def defaultRouteDst_def Let_def)
qed

lemma default_dst_string: "ipnet_string \<lparr>ipnet_IP = [0, 0, 0, 0], ipnet_Mask = [0, 0, 0, 0]\<rparr> = defaultRouteDst"
  unfolding defaultRouteDst_def by code_simp

lemma has_default_route_append [simp]:
  "has_default_route (rs @ rs') \<longleftrightarrow> has_default_route rs \<or> has_default_route rs'"
  by (simp add: has_default_route_def)

lemma default_routes_eq:
  "default_routes gw cidr = (case cidr of None \<Rightarrow> None | Some n \<Rightarrow>
     Some [\<lparr>cr_Dst = \<lparr>ipnet_IP = [0, 0, 0, 0], ipnet_Mask = [0, 0, 0, 0]\<rparr>, cr_GW = gw\<rparr>,
       \<lparr>cr_Dst = n, cr_GW = ParseIP defaultGW\<rparr>])"
  using default_dst by (auto simp: default_routes_def split: option.split)

lemma has_default_routes: "default_routes gw cidr = Some rs \<Longrightarrow> has_default_route rs"
  by (auto simp: default_routes_eq has_default_route_def default_dst_string split: option.splits)

text \<open>The routes after the addresses have been gone through.\<close>

definition routes_after :: "ip \<Rightarrow> ipnet option \<Rightarrow> cni_route list option \<Rightarrow> cni_route list option" where
  "routes_after gw cidr routes =
     (let rs = (case routes of None \<Rightarrow> [] | Some rs \<Rightarrow> rs)
      in if has_default_route rs then Some rs else map_option ((@) rs) (default_routes gw cidr))"

lemma routes_after_default: "routes_after gw cidr routes = Some rs \<Longrightarrow> has_default_route rs"
  by (auto simp: routes_after_def Let_def has_default_routes split: if_splits)

lemma update_ips_has_default:
  "has_default_route rs \<Longrightarrow> update_ips next gw cidr (Some rs) ipcs = Some (map (set_iface next) ipcs, Some rs)"
  by (induction ipcs) simp_all

lemma update_ips_eq:
  "update_ips next gw cidr routes ipcs =
     (if ipcs = [] then Some ([], routes)
      else map_option (\<lambda>rs. (map (set_iface next) ipcs, Some rs)) (routes_after gw cidr routes))"
proof (cases ipcs)
  case Nil
  then show ?thesis by simp
next
  case (Cons ipc ipcs')
  then show ?thesis
    using update_ips_has_default [OF routes_after_default [of gw cidr routes]]
    by (simp add: Let_def routes_after_def [symmetric, unfolded Let_def] split: option.split)
qed

lemma set_iface_idem [simp]: "set_iface next (set_iface next ipc) = set_iface next ipc"
  by (simp add: set_iface_def Let_def)

end
