(* ===== verification/ServerSamples.thy ===== *)
theory ServerSamples
  imports CniServerFacts NodeProps Samples
begin

text \<open>
  A node on which everything works, or on which the address of a pod cannot be configured, and the runs of the
  CNI server on it at which its properties are instantiated.
\<close>

definition host_mac :: mac where "host_mac = [0x02, 0, 0, 0, 0, 1]"
definition pod_mac :: mac where "pod_mac = [0x02, 0, 0, 0, 0, 2]"

definition sample_sys :: "error option \<Rightarrow> sys_env" where
  "sample_sys addr = \<lparr>GetNS = (\<lambda>h n. None), NsDo = (\<lambda>h n. None),
     SetupVeth = (\<lambda>h nn ifn host mtu. Inr ((host, host_mac), (ifn, pod_mac))),
     DelLink = (\<lambda>h nn ifn. None), ErrLinkNotFound = ErrText ''Link not found'',
     FindIface = (\<lambda>h nn n. None), ConfigureIface = (\<lambda>h nn n r. addr), arp_ips = (\<lambda>r. []),
     NextIP = (\<lambda>a. a), PodAnnotations = (\<lambda>p n. Inl (ErrText ''pods not found'')),
     KubeDNS = Some ''10.96.0.10''\<rparr>"

definition sample_ipam_result :: cni_result where
  "sample_ipam_result = \<lparr>re_CNIVersion = ''0.3.0'', re_Interfaces = [],
     re_IPs = [\<lparr>ic_Interface = None,
       ic_Address = \<lparr>ipnet_IP = [10, 244, 1, 5], ipnet_Mask = [255, 255, 255, 0]\<rparr>, ic_Gateway = [10, 244, 1, 1]\<rparr>],
     re_Routes = None, re_DNS = \<lparr>dns_Nameservers = [], dns_Domain = [], dns_Search = [], dns_Options = []\<rparr>\<rparr>"

definition sample_ipam :: ipam_env where
  "sample_ipam = \<lparr>FindInPath = (\<lambda>p ds. Inr (''/opt/cni/bin/'' @ p)), ExecPlugin = (\<lambda>h c. Inr ''{}''),
     NewResultFromResult = (\<lambda>r. case r of None \<Rightarrow> Panic | Some s \<Rightarrow> Ok sample_ipam_result)\<rparr>"

text \<open>The switch: a port is created, its number is asked for, it is deleted.\<close>

definition sample_ovs :: ovs_env where
  "sample_ovs = ovs_answers
     [[\<lparr>ar_Rows = [], ar_UUID = [''uuid'', ''i1'']\<rparr>, \<lparr>ar_Rows = [], ar_UUID = [''uuid'', ''p1'']\<rparr>,
       \<lparr>ar_Rows = [], ar_UUID = []\<rparr>],
      [\<lparr>ar_Rows = [], ar_UUID = []\<rparr>, \<lparr>ar_Rows = [JObj [(''ofport'', JNum 5)]], ar_UUID = []\<rparr>],
      []]"

definition sample_env :: "error option \<Rightarrow> node_env" where
  "sample_env addr = \<lparr>ne_ovs = sample_ovs, ne_of = ok_env, ne_tc = tc_ok, ne_ipam = sample_ipam,
     ne_sys = sample_sys addr\<rparr>"

definition sample_node :: node where
  "sample_node = \<lparr>nd_ovs = NewOVSBridge ''br-int'' ''system'', nd_of = br0, nd_ifs = NewInterfaceStore,
     nd_tc = [], nd_ipam = [], nd_sys = []\<rparr>"

lemma sample_veth_named [simp]: "veth_named (ne_sys (sample_env addr))"
  by (simp add: veth_named_def sample_env_def sample_sys_def)

section \<open>Configuring an interface\<close>

lemma ParseMAC_pod: "ParseMAC (mac_string pod_mac) = Some pod_mac"
  by (rule ParseMAC_string) (simp add: pod_mac_def)

definition sample_config :: "string \<Rightarrow> string \<Rightarrow> string \<Rightarrow> string \<Rightarrow> InterfaceConfig" where
  "sample_config cid p ns nn = NewContainerInterfaceConfig cid p ns nn pod_mac [10, 244, 1, 5]"

lemma buildContainerConfig_sample:
  assumes "map ic_Address ips = map ic_Address (re_IPs sample_ipam_result)"
  shows "buildContainerConfig cid p ns (iface_of (ifn, pod_mac) nn) ips = Some (sample_config cid p ns nn)"
proof -
  from assms obtain ipc where "ips = [ipc]"
    and "ic_Address ipc = \<lparr>ipnet_IP = [10, 244, 1, 5], ipnet_Mask = [255, 255, 255, 0]\<rparr>"
    by (auto simp: sample_ipam_result_def)
  moreover have "To4 [10, 244, 1, 5] \<noteq> []" by (simp add: To4_def)
  ultimately show ?thesis
    by (simp add: buildContainerConfig_def parseContainerIP_def iface_of_def ParseMAC_pod sample_config_def)
qed

lemma sample_create:
  "br_log br = [] \<Longrightarrow> CreatePort sample_ovs n n ids br
     = (Ok ''p1'', committed br (port_ops sample_ovs (br_name br) n n [] 0 ids None))"
  by (simp add: CreatePort_def createPort_def gbind_eval commit_def sample_ovs_def ovs_answers_def Let_def
      result_uuid_def idx_def deref_def ret_eval committed_def)

lemma sample_ofport:
  "length (br_log br) = 1 \<Longrightarrow> \<exists>ops. GetOFPort sample_ovs n br = (Ok 5, committed br ops)"
  by (simp add: GetOFPort_def gbind_eval commit_def sample_ovs_def ovs_answers_def Let_def rows_def idx_def
      field_def deref_def ret_eval committed_def) blast

lemma sample_finish:
  assumes "length (br_log (nd_ovs s)) = 1"
  shows "\<exists>ops s'. finish_interface (sample_env None) nn ci (Some cfg) name u re s = (Ok (True, re), s') \<and>
    nd_ovs s' = committed (nd_ovs s) ops \<and> nd_ipam s' = nd_ipam s \<and> nd_ifs s' =
      AddInterface name (cfg\<lparr>if_port := Some \<lparr>po_IfaceName = name, po_PortUUID = u, po_OFPort = 5\<rparr>\<rparr>) (nd_ifs s)"
  using sample_ofport [OF assms, of name]
  by (auto simp: finish_interface_def configureContainerAddr_def in_ns_def gbind_eval ask_eval change_eval
      sample_env_def sample_sys_def no_value_def ret_eval zoom_eval deref_def modify_eval Let_def)

lemma sample_finish_fails:
  "\<exists>x. finish_interface (sample_env (Some e)) nn ci (Some cfg) name u re s = (Err e, s\<lparr>nd_sys := x\<rparr>)"
  by (auto simp: finish_interface_def configureContainerAddr_def in_ns_def gbind_eval ask_eval change_eval
      sample_env_def sample_sys_def no_value_def Let_def)

lemma sample_setup: "\<exists>x. setupVethPair (sample_env addr) p ns ifn nn mtu None s =
    (Ok (iface_of (GenerateContainerInterfaceName p ns, host_mac) [], iface_of (ifn, pod_mac) nn), s\<lparr>nd_sys := x\<rparr>)"
  by (auto simp: setupVethPair_def Let_def in_ns_def gbind_eval ask_eval change_eval sample_env_def sample_sys_def
      ret_eval)

lemma sample_tc: "ConstructTcConfig (PodAnnotations (ne_sys (sample_env addr)) p ns) = Inl (ErrText ''pods not found'')"
  by (simp add: ConstructTcConfig_def sample_env_def sample_sys_def)

lemma sample_GetNS: "ask (\<lambda>h. GetNS (ne_sys (sample_env addr)) h nn) s = (Ok (), s)"
  by (simp add: ask_def sample_env_def sample_sys_def)

text \<open>The run up to the creation of the port.\<close>

lemma sample_configure_run:
  fixes s :: "'z node_scheme"
  assumes "\<not> is_coredns p ns" and "br_log (nd_ovs s) = []"
    and "map ic_Address (re_IPs re) = map ic_Address (re_IPs sample_ipam_result)"
    and name: "name = GenerateContainerInterfaceName p ns"
  shows "\<exists>t ci re'. nd_ifs t = nd_ifs s \<and> nd_ipam t = nd_ipam s \<and> length (br_log (nd_ovs t)) = 1 \<and>
    configureInterface (sample_env addr) p ns cid nn ifn mtu re s =
      gdefer (gdefer (finish_interface (sample_env addr) nn ci (Some (sample_config cid p ns nn)) name ''p1'' re')
          (unless (on_ovs (DeletePort sample_ovs ''p1''))))
        (unless (removeContainerLink (sample_env addr) cid nn ifn)) t"
proof -
  let ?ci = "iface_of (ifn, pod_mac) nn" and ?hi = "iface_of (name, host_mac) []"
  let ?cfg = "sample_config cid p ns nn"
  obtain x where x: "setupVethPair (sample_env addr) p ns ifn nn mtu None s = (Ok (?hi, ?ci), s\<lparr>nd_sys := x\<rparr>)"
    using sample_setup unfolding name by blast
  have cc: "buildContainerConfig cid p ns ?ci (re_IPs re) = Some ?cfg"
    by (rule buildContainerConfig_sample) (simp add: assms(3))
  have n: "ci_Name ?hi = name" by (simp add: iface_of_def)
  let ?t = "s\<lparr>nd_sys := x, nd_ovs := committed (nd_ovs s) (port_ops sample_ovs (br_name (nd_ovs s)) name name [] 0
      (Some (BuildOVSPortExternalIDs ?cfg)) None)\<rparr>"
  have ovs: "ne_ovs (sample_env addr) = sample_ovs" by (simp add: sample_env_def)
  have "setupContainerOVSPort (sample_env addr) (Some ?cfg) name (s\<lparr>nd_sys := x\<rparr>) = (Ok ''p1'', ?t)"
    by (simp add: setupContainerOVSPort_def deref_def zoom_eval ovs sample_create assms(2))
  then have "port_steps (sample_env addr) p ns cid nn re (?hi, ?ci) (s\<lparr>nd_sys := x\<rparr>) =
      gdefer (finish_interface (sample_env addr) nn ?ci (Some ?cfg) name ''p1'' (re\<lparr>re_Interfaces := [?hi, ?ci]\<rparr>))
        (unless (on_ovs (DeletePort sample_ovs ''p1''))) ?t"
    by (simp add: port_steps_def Let_def cc n ovs assms(1) gbind_eval [of "setupContainerOVSPort _ _ _"])
  then have "configureInterface (sample_env addr) p ns cid nn ifn mtu re s =
      gdefer (gdefer (finish_interface (sample_env addr) nn ?ci (Some ?cfg) name ''p1''
            (re\<lparr>re_Interfaces := [?hi, ?ci]\<rparr>)) (unless (on_ovs (DeletePort sample_ovs ''p1''))))
        (unless (removeContainerLink (sample_env addr) cid nn ifn)) ?t"
    by (simp add: configureInterface_steps sample_tc Let_def gdefer_eval [of "gbind _ _"] gbind_eval sample_GetNS x)
      (simp add: gdefer_eval)
  then show ?thesis by (intro exI [of _ ?t] exI) (auto simp: assms(2))
qed

lemma sample_configured:
  assumes "\<not> is_coredns p ns" and "br_log (nd_ovs s) = []"
    and "map ic_Address (re_IPs re) = map ic_Address (re_IPs sample_ipam_result)"
    and "name = GenerateContainerInterfaceName p ns"
  shows "\<exists>x s'. configureInterface (sample_env None) p ns cid nn ifn mtu re s = (Ok (True, x), s') \<and>
    nd_ipam s' = nd_ipam s \<and> length (br_log (nd_ovs s')) = 2 \<and> nd_ifs s' = AddInterface name
      ((sample_config cid p ns nn)\<lparr>if_port := Some \<lparr>po_IfaceName = name, po_PortUUID = ''p1'', po_OFPort = 5\<rparr>\<rparr>) (nd_ifs s)"
proof -
  obtain t ci re' where t: "nd_ifs t = nd_ifs s" "nd_ipam t = nd_ipam s" "length (br_log (nd_ovs t)) = 1"
    and run: "configureInterface (sample_env None) p ns cid nn ifn mtu re s =
      gdefer (gdefer (finish_interface (sample_env None) nn ci (Some (sample_config cid p ns nn)) name ''p1'' re')
          (unless (on_ovs (DeletePort sample_ovs ''p1''))))
        (unless (removeContainerLink (sample_env None) cid nn ifn)) t"
    using sample_configure_run [OF assms] by blast
  from sample_finish [OF t(3)] t obtain ops s' where
    "finish_interface (sample_env None) nn ci (Some (sample_config cid p ns nn)) name ''p1'' re' t = (Ok (True, re'), s')"
    "nd_ovs s' = committed (nd_ovs t) ops" "nd_ipam s' = nd_ipam s" "nd_ifs s' = AddInterface name
      ((sample_config cid p ns nn)\<lparr>if_port := Some \<lparr>po_IfaceName = name, po_PortUUID = ''p1'', po_OFPort = 5\<rparr>\<rparr>) (nd_ifs s)"
    by metis
  then show ?thesis using t by (auto simp: run gdefer_eval unless_def)
qed

lemma sample_configure_fails:
  assumes "\<not> is_coredns p ns" and "br_log (nd_ovs s) = []"
    and "map ic_Address (re_IPs re) = map ic_Address (re_IPs sample_ipam_result)"
  shows "fst (configureInterface (sample_env (Some e)) p ns cid nn ifn mtu re s) = Err e"
proof -
  from sample_configure_run [OF assms refl] obtain t ci re' where
    run: "configureInterface (sample_env (Some e)) p ns cid nn ifn mtu re s =
      gdefer (gdefer (finish_interface (sample_env (Some e)) nn ci (Some (sample_config cid p ns nn))
          (GenerateContainerInterfaceName p ns) ''p1'' re') (unless (on_ovs (DeletePort sample_ovs ''p1''))))
        (unless (removeContainerLink (sample_env (Some e)) cid nn ifn)) t"
    by blast
  obtain x where "finish_interface (sample_env (Some e)) nn ci (Some (sample_config cid p ns nn))
          (GenerateContainerInterfaceName p ns) ''p1'' re' t = (Err e, t\<lparr>nd_sys := x\<rparr>)"
    using sample_finish_fails by blast
  then show ?thesis by (simp add: run gdefer_eval)
qed

section \<open>Requests\<close>

definition sample_cni :: cni_env where
  "sample_cni = \<lparr>UnmarshalConfig = (\<lambda>text args. Inr (Some
       \<lparr>nw_CNIVersion = ''0.3.0'', nw_Name = ''ciccni'', nw_Type = ''cic-cni'', nw_MTU = 0,
        nw_DNS = \<lparr>dns_Nameservers = [], dns_Domain = [], dns_Search = [], dns_Options = []\<rparr>,
        nw_IPAM = \<lparr>ip_Type = ''host-local'', ip_Subnet = [], ip_Gateway = []\<rparr>, nw_RawPrevResult = []\<rparr>, args)),
     LoadArgs = (\<lambda>a. Inr \<lparr>ka_POD_NAME = a, ka_POD_NAMESPACE = ''default'', ka_POD_INFRA_CONTAINER_ID = ''c1''\<rparr>),
     MarshalConfig = (\<lambda>nc. ip_Subnet (nw_IPAM nc)), PrintResult = (\<lambda>v r. Some ''{}''),
     ImplementedSpecVersion = ''1.0.0''\<rparr>"

definition sample_sv :: CniServer where
  "sample_sv = cni_New ''/var/run/ciccni/cni.sock''
     \<lparr>nc_NodeName = ''node1'', nc_PodCIDR = Some sample_net,
      nc_ClusterPodCIDR = Some \<lparr>ipnet_IP = [10, 244, 0, 0], ipnet_Mask = [255, 255, 0, 0]\<rparr>,
      nc_Bridge = ''br-int'',
      nc_Gateway = Some \<lparr>gw_IP = [10, 244, 1, 1], gw_MAC = host_mac, gw_Name = ''gw0''\<rparr>\<rparr> 1450 ''/host''"

definition sample_request :: "CniCmdArgs option" where
  "sample_request = Some \<lparr>ca_ContainerId = ''c1'', ca_Netns = ''/proc/7/ns/net'', ca_Ifname = ''eth0'',
     ca_Args = ''nginx'', ca_Path = ''/opt/cni/bin'', ca_NetworkConfiguration = ''{}''\<rparr>"

definition sample_cfg :: CNIConfig where
  "sample_cfg = (case loadNetworkConfig sample_cni sample_sv sample_request () of (Ok cfg, s) \<Rightarrow> cfg)"

lemma sample_load: "loadNetworkConfig sample_cni sample_sv sample_request s = (Ok sample_cfg, s)"
  by (simp add: sample_cfg_def loadNetworkConfig_def sample_request_def sample_cni_def deref_def ret_eval Let_def)

lemma sample_check: "checkReuquestMessage sample_cni sample_sv sample_request s = (Ok (Inr sample_cfg), s)"
  by (simp add: checkReuquestMessage_def gbind_eval attempt_eval sample_load ret_eval Let_def isCNIVersionSupported_def)

lemma sample_cfg_simps:
  "ip_Type (nw_IPAM (cc_net sample_cfg)) = ''host-local''" "ka_POD_NAME (cc_k8s sample_cfg) = ''nginx''"
  "ka_POD_NAMESPACE (cc_k8s sample_cfg) = ''default''"
  by (simp_all add: sample_cfg_def loadNetworkConfig_def sample_request_def sample_cni_def deref_def ret_eval Let_def)

lemma sample_not_coredns: "\<not> is_coredns ''nginx'' ''default''"
  by (simp add: is_coredns_def)

lemma sample_ipam_add: "\<exists>h'. ExecIPAMAdd (ne_ipam (sample_env addr)) a ''host-local'' h = (Ok sample_ipam_result, h')"
  by (simp add: ExecIPAMAdd_host_local sample_env_def sample_ipam_def Let_def)

lemma sample_ipam_delete: "\<exists>h'. ExecIPAMDelete (ne_ipam (sample_env addr)) a ''host-local'' h = (Ok (), h')"
  by (simp add: ExecIPAMDelete_host_local sample_env_def sample_ipam_def)

lemma sample_result:
  "\<exists>re. updateResultIfaceConfig (NextIP (ne_sys (sample_env addr)))
      ((empty_result sample_cni)\<lparr>re_IPs := re_IPs sample_ipam_result, re_Routes := re_Routes sample_ipam_result\<rparr>)
      gw (nc_ClusterPodCIDR (sv_nodeConfig sample_sv)) = Some re \<and>
    map ic_Address (re_IPs re) = map ic_Address (re_IPs sample_ipam_result)"
  by (simp add: updateResultIfaceConfig_def update_ips_eq sample_ipam_result_def routes_after_def Let_def
      sample_sv_def cni_New_def default_routes_eq has_default_route_def set_iface_def)

abbreviation sample_configure :: "error option \<Rightarrow> cni_result \<Rightarrow> ('z node_scheme, bool \<times> cni_result) go" where
  "sample_configure addr re \<equiv> configureInterface (sample_env addr) ''nginx'' ''default''
     (ca_ContainerId (cc_args sample_cfg)) (hostNetNSPath sample_sv (ca_Netns (cc_args sample_cfg)))
     (ca_Ifname (cc_args sample_cfg)) (nw_MTU (cc_net sample_cfg)) re"

text \<open>What \<open>CmdAdd\<close> does after the request is accepted.\<close>

lemma sample_add_eq:
  fixes s :: "'z node_scheme"
  shows "\<exists>h re. map ic_Address (re_IPs re) = map ic_Address (re_IPs sample_ipam_result) \<and>
    CmdAdd sample_cni (sample_env addr) sample_sv sample_request s =
      (case sample_configure addr re (s\<lparr>nd_ipam := h\<rparr>) of
         (Ok v, s') \<Rightarrow> (Ok \<lparr>rs_CniResult = ''{}'', rs_Error = None\<rparr>, s')
       | (Err e, s') \<Rightarrow> (Ok (configureInterfaceFailureResponse e), s')
       | (Panic, s') \<Rightarrow> (Panic, s'))"
proof -
  obtain h where h: "ExecIPAMAdd (ne_ipam (sample_env addr)) (cc_args sample_cfg) ''host-local'' (nd_ipam s)
      = (Ok sample_ipam_result, h)"
    using sample_ipam_add by blast
  obtain re where re: "updateResultIfaceConfig (NextIP (ne_sys (sample_env addr)))
      ((empty_result sample_cni)\<lparr>re_IPs := re_IPs sample_ipam_result, re_Routes := re_Routes sample_ipam_result\<rparr>)
      [10, 244, 1, 1] (nc_ClusterPodCIDR (sv_nodeConfig sample_sv)) = Some re"
    and addrs: "map ic_Address (re_IPs re) = map ic_Address (re_IPs sample_ipam_result)"
    using sample_result by blast
  have gw: "nc_Gateway (sv_nodeConfig sample_sv) = Some \<lparr>gw_IP = [10, 244, 1, 1], gw_MAC = host_mac, gw_Name = ''gw0''\<rparr>"
    by (simp add: sample_sv_def cni_New_def)
  have p: "PrintResult sample_cni v r = Some ''{}''" for v r by (simp add: sample_cni_def)
  show ?thesis
    by (rule exI [of _ h], rule exI [of _ re], rule conjI [OF addrs])
      (simp add: CmdAdd_def gbind_eval sample_check Let_def attempt_eval zoom_eval sample_cfg_simps h
        deref_def ret_eval gw re p split: prod.split result.split)
qed

lemma sample_add:
  "\<exists>s1. CmdAdd sample_cni (sample_env None) sample_sv sample_request sample_node =
      (Ok \<lparr>rs_CniResult = ''{}'', rs_Error = None\<rparr>, s1) \<and> length (br_log (nd_ovs s1)) = 2 \<and>
    nd_ifs s1 = AddInterface (GenerateContainerInterfaceName ''nginx'' ''default'')
      ((sample_config (ca_ContainerId (cc_args sample_cfg)) ''nginx'' ''default''
          (hostNetNSPath sample_sv (ca_Netns (cc_args sample_cfg))))
        \<lparr>if_port := Some \<lparr>po_IfaceName = GenerateContainerInterfaceName ''nginx'' ''default'',
          po_PortUUID = ''p1'', po_OFPort = 5\<rparr>\<rparr>) NewInterfaceStore"
proof -
  obtain h re where addrs: "map ic_Address (re_IPs re) = map ic_Address (re_IPs sample_ipam_result)"
    and eq: "CmdAdd sample_cni (sample_env None) sample_sv sample_request sample_node =
      (case sample_configure None re (sample_node\<lparr>nd_ipam := h\<rparr>) of
         (Ok v, s') \<Rightarrow> (Ok \<lparr>rs_CniResult = ''{}'', rs_Error = None\<rparr>, s')
       | (Err e, s') \<Rightarrow> (Ok (configureInterfaceFailureResponse e), s')
       | (Panic, s') \<Rightarrow> (Panic, s'))"
    using sample_add_eq by blast
  have "br_log (nd_ovs (sample_node\<lparr>nd_ipam := h\<rparr>)) = []" by (simp add: sample_node_def NewOVSBridge_def)
  from sample_configured [OF sample_not_coredns this addrs refl] obtain x s1
    where "sample_configure None re (sample_node\<lparr>nd_ipam := h\<rparr>) = (Ok (True, x), s1)"
      "length (br_log (nd_ovs s1)) = 2"
      "nd_ifs s1 = AddInterface (GenerateContainerInterfaceName ''nginx'' ''default'')
        ((sample_config (ca_ContainerId (cc_args sample_cfg)) ''nginx'' ''default''
            (hostNetNSPath sample_sv (ca_Netns (cc_args sample_cfg))))
          \<lparr>if_port := Some \<lparr>po_IfaceName = GenerateContainerInterfaceName ''nginx'' ''default'',
            po_PortUUID = ''p1'', po_OFPort = 5\<rparr>\<rparr>) (nd_ifs (sample_node\<lparr>nd_ipam := h\<rparr>))"
    by metis
  then show ?thesis by (simp add: eq) (simp add: sample_node_def)
qed

lemma sample_add_fails:
  "\<exists>s1. CmdAdd sample_cni (sample_env (Some e)) sample_sv sample_request sample_node =
      (Ok (configureInterfaceFailureResponse e), s1)"
proof -
  obtain h re where addrs: "map ic_Address (re_IPs re) = map ic_Address (re_IPs sample_ipam_result)"
    and eq: "CmdAdd sample_cni (sample_env (Some e)) sample_sv sample_request sample_node =
      (case sample_configure (Some e) re (sample_node\<lparr>nd_ipam := h\<rparr>) of
         (Ok v, s') \<Rightarrow> (Ok \<lparr>rs_CniResult = ''{}'', rs_Error = None\<rparr>, s')
       | (Err e, s') \<Rightarrow> (Ok (configureInterfaceFailureResponse e), s')
       | (Panic, s') \<Rightarrow> (Panic, s'))"
    using sample_add_eq by blast
  have "br_log (nd_ovs (sample_node\<lparr>nd_ipam := h\<rparr>)) = []" by (simp add: sample_node_def NewOVSBridge_def)
  from sample_configure_fails [OF sample_not_coredns this addrs]
  have "fst (sample_configure (Some e) re (sample_node\<lparr>nd_ipam := h\<rparr>)) = Err e" .
  then show ?thesis by (cases "sample_configure (Some e) re (sample_node\<lparr>nd_ipam := h\<rparr>)") (simp add: eq)
qed

lemma sample_removeContainerLink:
  "\<exists>s'. removeContainerLink (sample_env addr) cid nn ifn s = (Ok (), s') \<and> parts s' = parts s"
proof -
  have "fst (removeContainerLink (sample_env addr) cid nn ifn s) = Ok ()"
    by (simp add: removeContainerLink_def Let_def WithNetNSPath_def in_ns_def gbind_eval ask_eval change_eval
        attempt_eval no_value_def sample_env_def sample_sys_def ret_eval)
  then have "removeContainerLink (sample_env addr) cid nn ifn s = (Ok (), snd (removeContainerLink (sample_env addr) cid nn ifn s))"
    by (simp add: prod_eq_iff)
  with unchangedD [OF unchanged_parts(2) this] show ?thesis by blast
qed

lemma sample_delete_port: "length (br_log br) = 2 \<Longrightarrow> \<exists>br'. DeletePort sample_ovs u br = (Ok (), br')"
  by (simp add: DeletePort_def gbind_eval commit_def sample_ovs_def ovs_answers_def Let_def ret_eval)

lemma sample_remove:
  assumes "GetContainerInterface (nd_ifs s) p ns = Some cfg" and "if_port cfg = Some port"
    and "length (br_log (nd_ovs s)) = 2"
  shows "\<exists>s'. removeInterfaces (sample_env addr) p ns cid nn ifn s = (Ok (), s')"
proof -
  define link :: "('a node_scheme, unit) go"
    where "link = (if nn \<noteq> [] then removeContainerLink (sample_env addr) cid nn ifn else ret ())"
  have "\<exists>s1. link s = (Ok (), s1) \<and> parts s1 = parts s"
    using sample_removeContainerLink [of addr cid nn ifn s] by (simp add: link_def ret_eval)
  then obtain s1 where "link s = (Ok (), s1)"
    and "nd_ifs s1 = nd_ifs s" "nd_ovs s1 = nd_ovs s" by (auto simp: parts_def)
  moreover obtain br' where "DeletePort sample_ovs (po_PortUUID port) (nd_ovs s) = (Ok (), br')"
    using sample_delete_port [OF assms(3)] by blast
  moreover have ovs: "ne_ovs (sample_env addr) = sample_ovs" by (simp add: sample_env_def)
  ultimately show ?thesis
    using assms by (simp add: removeInterfaces_def link_def [symmetric] gbind_eval gets_eval deref_def ret_eval
        zoom_eval modify_eval ovs)
qed

lemma sample_del:
  assumes "GetContainerInterface (nd_ifs s) ''nginx'' ''default'' = Some cfg" and "if_port cfg = Some port"
    and "length (br_log (nd_ovs s)) = 2"
  shows "\<exists>s'. CmdDel sample_cni (sample_env addr) sample_sv sample_request s =
    (Ok \<lparr>rs_CniResult = [], rs_Error = None\<rparr>, s')"
proof -
  obtain h where h: "ExecIPAMDelete (ne_ipam (sample_env addr)) (cc_args sample_cfg) ''host-local'' (nd_ipam s) = (Ok (), h)"
    using sample_ipam_delete by blast
  obtain s' where "removeInterfaces (sample_env addr) ''nginx'' ''default'' (ca_ContainerId (cc_args sample_cfg))
      (hostNetNSPath sample_sv (ca_Netns (cc_args sample_cfg))) (ca_Ifname (cc_args sample_cfg)) (s\<lparr>nd_ipam := h\<rparr>) = (Ok (), s')"
    using sample_remove [of "s\<lparr>nd_ipam := h\<rparr>"] assms by fastforce
  then show ?thesis
    by (simp add: CmdDel_def gbind_eval sample_check Let_def attempt_eval zoom_eval sample_cfg_simps h ret_eval)
qed

end
