(* ===== verification/ServerProps.thy ===== *)
theory ServerProps
  imports ServerSamples
begin

text \<open>
  Properties of the CNI server: what a request leaves of the node on every way it can end.
\<close>

section \<open>The result of IPAM\<close>



section \<open>Configuring an interface\<close>

lemma configureInterface_undone:
  assumes "configureInterface env p ns cid nn ifn mtu re s = (r, s')" and "\<forall>x. r \<noteq> Ok (True, x)"
  shows "nd_ifs s' = nd_ifs s \<and> nd_ipam s' = nd_ipam s \<and> port_gone env (nd_ovs s) (nd_ovs s') \<and>
    dns_flows_after env cid False (nd_of s) (nd_of s') \<and>
    (\<not> is_coredns p ns \<longrightarrow> nd_of s' = nd_of s) \<and>
    (\<exists>t. s' = snd (removeContainerLink env cid nn ifn t))"
proof -
  have ns: "\<not> succeeded r" using assms(2) by (auto simp: succeeded_def split: result.split)
  moreover have "\<not> is_coredns p ns \<longrightarrow> nd_of s' = nd_of s"
    using unchangedD [OF configureInterface_flows assms(1)] by blast
  ultimately show ?thesis
    using configureInterface_ends [OF assms(1)] by (auto simp: named_end_def ends_well_def)
qed



text \<open>The end of a configuration that returned nil.\<close>

lemma configureInterface_Ok:
  assumes "configureInterface env p ns cid nn ifn mtu re s = (Ok (ok, x), s')"
  shows "nd_ipam s' = nd_ipam s \<and> (\<not> is_coredns p ns \<longrightarrow> nd_of s' = nd_of s) \<and>
    (if ok then \<exists>name. port_kept env name (nd_ovs s) (nd_ovs s') (nd_ifs s) (nd_ifs s') \<and>
          (veth_named (ne_sys env) \<longrightarrow> name = GenerateContainerInterfaceName p ns)
     else is_coredns p ns \<and> dns_failed env cid (nd_of s) (nd_of s') \<and> nd_ifs s' = nd_ifs s \<and>
       port_gone env (nd_ovs s) (nd_ovs s'))"
proof -
  have "\<not> is_coredns p ns \<longrightarrow> nd_of s' = nd_of s"
    using unchangedD [OF configureInterface_flows assms] by blast
  then show ?thesis
    using configureInterface_ends [OF assms] configureInterface_silent [of env p ns cid nn ifn mtu re s x s'] assms
    by (cases ok) (auto simp: named_end_def ends_well_def succeeded_def)
qed

section \<open>The handlers\<close>

lemma loadNetworkConfig_state: "loadNetworkConfig cenv sv rq s = (fst (loadNetworkConfig cenv sv rq s), s)"
  by (simp add: loadNetworkConfig_def gbind_eval deref_def ret_eval panic_eval throw_eval Let_def
      split: option.split sum.split)

lemma checkRequest_cases:
  obtains (panics) "checkReuquestMessage cenv sv rq s = (Panic, s)"
    | (refused) m where "checkReuquestMessage cenv sv rq s
        = (Ok (Inl (generateCNIErrorResponse DECODING_FAILURE m)), s)"
    | (accepted) cfg where "checkReuquestMessage cenv sv rq s = (Ok (Inr cfg), s)"
        "loadNetworkConfig cenv sv rq s = (Ok cfg, s)"
  using loadNetworkConfig_state [of cenv sv rq s]
  by (cases "fst (loadNetworkConfig cenv sv rq s)")
    (auto simp: checkReuquestMessage_def gbind_eval attempt_eval ret_eval Let_def isCNIVersionSupported_def)

definition error_code :: "CniCmdResponse \<Rightarrow> nat option" where
  "error_code rs = map_option fst (rs_Error rs)"

lemma error_code_simps [simp]:
  "error_code (generateCNIErrorResponse c m) = Some c" "error_code (ipamFailureResponse e) = Some IPAM_FAILURE"
  "error_code (configureInterfaceFailureResponse e) = Some CONFIG_INTERFACE_FAILURE"
  "error_code \<lparr>rs_CniResult = b, rs_Error = None\<rparr> = None"
  by (simp_all add: error_code_def generateCNIErrorResponse_def ipamFailureResponse_def
      configureInterfaceFailureResponse_def)

text \<open>An IPAM call leaves the rest of the node alone.\<close>

lemma on_ipam_state: "on_ipam m s = (r, s') \<Longrightarrow>
    s' = s\<lparr>nd_ipam := snd (m (nd_ipam s))\<rparr> \<and> r = fst (m (nd_ipam s))"
  by (auto simp: zoom_eval split: prod.splits)

text \<open>The runs of \<open>CmdAdd\<close> on a request that is accepted.\<close>

abbreviation configure_of ::
  "node_env \<Rightarrow> CniServer \<Rightarrow> CNIConfig \<Rightarrow> cni_result \<Rightarrow> ('z node_scheme, bool \<times> cni_result) go" where
  "configure_of env sv cfg re \<equiv> configureInterface env (ka_POD_NAME (cc_k8s cfg)) (ka_POD_NAMESPACE (cc_k8s cfg))
     (ca_ContainerId (cc_args cfg)) (hostNetNSPath sv (ca_Netns (cc_args cfg))) (ca_Ifname (cc_args cfg))
     (nw_MTU (cc_net cfg)) re"

lemma CmdAdd_accepted:
  assumes "checkReuquestMessage cenv sv rq s = (Ok (Inr cfg), s)" and "CmdAdd cenv env sv rq s = (Ok rs, s')"
    and "ExecIPAMAdd (ne_ipam env) (cc_args cfg) (ip_Type (nw_IPAM (cc_net cfg))) (nd_ipam s) = (ra, h)"
  shows "(\<exists>e. ra = Err e \<and> rs = ipamFailureResponse e \<and> s' = s\<lparr>nd_ipam := h\<rparr>) \<or>
    (\<exists>x re rb. ra = Ok x \<and> configure_of env sv cfg re (s\<lparr>nd_ipam := h\<rparr>) = (rb, s') \<and>
       ((\<exists>e. rb = Err e \<and> rs = configureInterfaceFailureResponse e) \<or>
        (\<exists>v. rb = Ok v \<and> error_code rs = None)))"
proof (cases ra)
  case (Err e)
  with assms show ?thesis by (simp add: CmdAdd_def gbind_eval Let_def attempt_eval zoom_eval ret_eval)
next
  case (Ok x)
  have 1: "attempt (on_ipam (ExecIPAMAdd (ne_ipam env) (cc_args cfg) (ip_Type (nw_IPAM (cc_net cfg))))) s
      = (Ok (Inr x), s\<lparr>nd_ipam := h\<rparr>)"
    using assms(3) Ok by (simp add: attempt_eval zoom_eval)
  note run = assms(2) [unfolded CmdAdd_def sum.case Let_def
    gbind_Ok_fst [where m = "checkReuquestMessage cenv sv rq", OF assms(1)]
    gbind_Ok_fst [where m = "attempt (on_ipam (ExecIPAMAdd (ne_ipam env) (cc_args cfg)
        (ip_Type (nw_IPAM (cc_net cfg)))))", OF 1]]
  from run obtain gw re where "nc_Gateway (sv_nodeConfig sv) = Some gw"
    and "updateResultIfaceConfig (NextIP (ne_sys env))
        ((empty_result cenv)\<lparr>re_IPs := re_IPs x, re_Routes := re_Routes x\<rparr>) (gw_IP gw)
        (nc_ClusterPodCIDR (sv_nodeConfig sv)) = Some re"
    by (auto simp: deref_def panic_eval split: option.splits)
  note run = run [unfolded this deref_def option.case gbind_ret]
  obtain rb s2 where 2: "configure_of env sv cfg re (s\<lparr>nd_ipam := h\<rparr>) = (rb, s2)"
    by (cases "configure_of env sv cfg re (s\<lparr>nd_ipam := h\<rparr>)")
  show ?thesis
  proof (cases rb)
    case (Err e)
    with run 2 have "s' = s2 \<and> rs = configureInterfaceFailureResponse e"
      by (simp add: gbind_eval attempt_eval ret_eval)
    with 2 Ok Err show ?thesis by blast
  next
    case Panic
    with run 2 show ?thesis by (simp add: gbind_eval attempt_eval)
  next
    case (Ok v)
    obtain b y where "v = (b, y)" by (cases v)
    with run 2 Ok have "s' = s2 \<and> error_code rs = None"
      by (auto simp: gbind_eval attempt_eval ret_eval panic_eval split: option.splits)
    with 2 Ok \<open>ra = Ok x\<close> show ?thesis by blast
  qed
next
  case Panic
  with assms show ?thesis by (simp add: CmdAdd_def gbind_eval Let_def attempt_eval zoom_eval)
qed

text \<open>The ways in which \<open>CmdAdd\<close> can answer.\<close>

lemma CmdAdd_ends:
  assumes "CmdAdd cenv env sv rq s = (Ok rs, s')"
  shows "(error_code rs = Some DECODING_FAILURE \<and> s' = s) \<or>
    (error_code rs = Some IPAM_FAILURE \<and> s' = s\<lparr>nd_ipam := nd_ipam s'\<rparr>) \<or>
    (error_code rs = Some CONFIG_INTERFACE_FAILURE \<and> nd_ifs s' = nd_ifs s \<and>
       port_gone env (nd_ovs s) (nd_ovs s')) \<or>
    (error_code rs = None \<and> (\<exists>cfg p ns. loadNetworkConfig cenv sv rq s = (Ok cfg, s) \<and>
       p = ka_POD_NAME (cc_k8s cfg) \<and> ns = ka_POD_NAMESPACE (cc_k8s cfg) \<and>
       ((\<exists>name. port_kept env name (nd_ovs s) (nd_ovs s') (nd_ifs s) (nd_ifs s') \<and>
           (veth_named (ne_sys env) \<longrightarrow> name = GenerateContainerInterfaceName p ns)) \<or>
        (is_coredns p ns \<and> dns_failed env (ca_ContainerId (cc_args cfg)) (nd_of s) (nd_of s') \<and>
           nd_ifs s' = nd_ifs s \<and> port_gone env (nd_ovs s) (nd_ovs s')))))"
proof (cases cenv sv rq s rule: checkRequest_cases)
  case panics
  with assms show ?thesis by (simp add: CmdAdd_def gbind_eval)
next
  case (refused m)
  with assms show ?thesis by (auto simp: CmdAdd_def gbind_eval ret_eval)
next
  case (accepted cfg)
  obtain ra h where 1: "ExecIPAMAdd (ne_ipam env) (cc_args cfg) (ip_Type (nw_IPAM (cc_net cfg))) (nd_ipam s) = (ra, h)"
    by (cases "ExecIPAMAdd (ne_ipam env) (cc_args cfg) (ip_Type (nw_IPAM (cc_net cfg))) (nd_ipam s)")
  from CmdAdd_accepted [OF accepted(1) assms 1] consider
    (ipam) e where "rs = ipamFailureResponse e" "s' = s\<lparr>nd_ipam := h\<rparr>"
    | (refused) re e where "configure_of env sv cfg re (s\<lparr>nd_ipam := h\<rparr>) = (Err e, s')"
        "rs = configureInterfaceFailureResponse e"
    | (answer) re ok y where "configure_of env sv cfg re (s\<lparr>nd_ipam := h\<rparr>) = (Ok (ok, y), s')"
        "error_code rs = None"
    by (metis surj_pair)
  then show ?thesis
  proof cases
    case ipam
    then show ?thesis by simp
  next
    case refused
    from configureInterface_undone [OF refused(1)] refused(2) show ?thesis by simp
  next
    case answer
    from configureInterface_Ok [OF answer(1)] answer(2) accepted(2) show ?thesis
      by (cases ok) auto
  qed
qed

text \<open>
  C17: How \<open>CmdAdd\<close> can answer: with a decoding error, and nothing is changed; with an IPAM error, and only
  plugins were called; with a configuration error, and the interface cache is as before and the port is gone; or
  with a result, and then the interface of the pod is in the cache with the port created for it -- unless the pod
  is coreDNS and the installation of its flows failed: then the answer is the same, without an interface.
\<close>

theorem CmdAdd_answers:
  assumes "CmdAdd cenv env sv rq s = (Ok rs, s')"
  shows "(error_code rs = Some DECODING_FAILURE \<and> s' = s) \<or>
    (error_code rs = Some IPAM_FAILURE \<and> s' = s\<lparr>nd_ipam := nd_ipam s'\<rparr>) \<or>
    (error_code rs = Some CONFIG_INTERFACE_FAILURE \<and> nd_ifs s' = nd_ifs s \<and>
       port_gone env (nd_ovs s) (nd_ovs s')) \<or>
    (error_code rs = None \<and> (\<exists>cfg p ns. loadNetworkConfig cenv sv rq s = (Ok cfg, s) \<and>
       p = ka_POD_NAME (cc_k8s cfg) \<and> ns = ka_POD_NAMESPACE (cc_k8s cfg) \<and>
       ((\<exists>name. port_kept env name (nd_ovs s) (nd_ovs s') (nd_ifs s) (nd_ifs s') \<and>
           (veth_named (ne_sys env) \<longrightarrow> name = GenerateContainerInterfaceName p ns)) \<or>
        (is_coredns p ns \<and> dns_failed env (ca_ContainerId (cc_args cfg)) (nd_of s) (nd_of s') \<and>
           nd_ifs s' = nd_ifs s \<and> port_gone env (nd_ovs s) (nd_ovs s')))))"
  using CmdAdd_ends [OF assms] .

lemma CmdAdd_answers_witness:
  "\<exists>s'. CmdAdd sample_cni (sample_env (Some (ErrText ''no address''))) sample_sv sample_request sample_node =
      (Ok (configureInterfaceFailureResponse (ErrText ''no address'')), s') \<and> nd_ifs s' = nd_ifs sample_node"
proof -
  obtain s' where run: "CmdAdd sample_cni (sample_env (Some (ErrText ''no address''))) sample_sv sample_request
      sample_node = (Ok (configureInterfaceFailureResponse (ErrText ''no address'')), s')"
    using sample_add_fails by blast
  from CmdAdd_answers [OF this] run show ?thesis by (simp add: error_codes)
qed

text \<open>The runs of \<open>CmdDel\<close> on a request that is accepted.\<close>

lemma CmdDel_accepted:
  assumes "checkReuquestMessage cenv sv rq s = (Ok (Inr cfg), s)" and "CmdDel cenv env sv rq s = (r, s')"
    and "ExecIPAMDelete (ne_ipam env) (cc_args cfg) (ip_Type (nw_IPAM (cc_net cfg))) (nd_ipam s) = (ra, h)"
  shows "if ra = Ok () then \<exists>rb. removeInterfaces env (ka_POD_NAME (cc_k8s cfg)) (ka_POD_NAMESPACE (cc_k8s cfg))
         (ca_ContainerId (cc_args cfg)) (hostNetNSPath sv (ca_Netns (cc_args cfg))) (ca_Ifname (cc_args cfg))
         (s\<lparr>nd_ipam := h\<rparr>) = (rb, s') \<and>
         (case r of Ok rs \<Rightarrow> error_code rs = (if rb = Ok () then None else Some CONFIG_INTERFACE_FAILURE)
          | Err e \<Rightarrow> False | Panic \<Rightarrow> rb = Panic)
    else s' = s\<lparr>nd_ipam := h\<rparr> \<and> (case r of Ok rs \<Rightarrow> error_code rs = Some IPAM_FAILURE | Err e \<Rightarrow> False | Panic \<Rightarrow> ra = Panic)"
proof -
  let ?ipam = "attempt (on_ipam (ExecIPAMDelete (ne_ipam env) (cc_args cfg) (ip_Type (nw_IPAM (cc_net cfg)))))"
  note run = assms(2) [unfolded CmdDel_def sum.case Let_def
    gbind_Ok_fst [where m = "checkReuquestMessage cenv sv rq", OF assms(1)]]
  show ?thesis
  proof (cases ra)
    case (Ok v)
    then have "?ipam s = (Ok (Inr ()), s\<lparr>nd_ipam := h\<rparr>)" using assms(3) by (simp add: attempt_eval zoom_eval)
    note run = run [unfolded gbind_Ok_fst [where m = ?ipam, OF this] sum.case]
    obtain rb s2 where 2: "removeInterfaces env (ka_POD_NAME (cc_k8s cfg)) (ka_POD_NAMESPACE (cc_k8s cfg))
        (ca_ContainerId (cc_args cfg)) (hostNetNSPath sv (ca_Netns (cc_args cfg))) (ca_Ifname (cc_args cfg))
        (s\<lparr>nd_ipam := h\<rparr>) = (rb, s2)"
      by fastforce
    with run Ok show ?thesis
      by (cases rb) (auto simp: gbind_eval attempt_eval ret_eval)
  next
    case (Err e)
    then have "?ipam s = (Ok (Inl e), s\<lparr>nd_ipam := h\<rparr>)" using assms(3) by (simp add: attempt_eval zoom_eval)
    with run Err show ?thesis by (auto simp: gbind_eval ret_eval)
  next
    case Panic
    then have "?ipam s = (Panic, s\<lparr>nd_ipam := h\<rparr>)" using assms(3) by (simp add: attempt_eval zoom_eval)
    with run Panic show ?thesis by (auto simp: gbind_eval)
  qed
qed

lemma checkRequest_state:
  "checkReuquestMessage cenv sv rq s = (fst (checkReuquestMessage cenv sv rq s'), s)"
  by (simp add: checkReuquestMessage_def loadNetworkConfig_def gbind_eval attempt_eval deref_def ret_eval
      panic_eval throw_eval Let_def isCNIVersionSupported_def split: option.split sum.split)

section \<open>Every request keeps the cache keyed by the ports\<close>

lemma configureInterface_keyed:
  "keeps (\<lambda>s. keyed (nd_ifs s)) (configureInterface env p ns cid nn ifn mtu re)"
proof (rule keepsI)
  fix s :: "'a node_scheme" assume keyed: "keyed (nd_ifs s)"
  obtain r s' where run: "configureInterface env p ns cid nn ifn mtu re s = (r, s')"
    by (cases "configureInterface env p ns cid nn ifn mtu re s")
  from configureInterface_ends [OF run] keyed have "keyed (nd_ifs s')"
    by (auto simp: named_end_def ends_well_def port_kept_def keyed_add split: if_splits)
  with run show "keyed (nd_ifs (snd (configureInterface env p ns cid nn ifn mtu re s)))" by simp
qed

lemma removeInterfaces_keyed: "keeps (\<lambda>s. keyed (nd_ifs s)) (removeInterfaces env p ns cid nn ifn)"
proof (rule keepsI)
  fix s :: "'a node_scheme" assume keyed: "keyed (nd_ifs s)"
  obtain r s' where run: "removeInterfaces env p ns cid nn ifn s = (r, s')"
    by (cases "removeInterfaces env p ns cid nn ifn s")
  from removeInterfaces_ends [OF run] keyed have "keyed (nd_ifs s')"
    by (auto simp: keyed_delete split: if_splits option.splits)
  with run show "keyed (nd_ifs (snd (removeInterfaces env p ns cid nn ifn s)))" by simp
qed

lemma keeps_checkRequest: "keeps I (checkReuquestMessage cenv sv rq)"
  unfolding keeps_def using checkRequest_state by (metis snd_conv)

lemma keeps_keyed_ipam: "keeps (\<lambda>s. keyed (nd_ifs s)) (on_ipam m)"
  by (rule keeps_zoom) simp

lemmas keeps_keyed = go_keeps keeps_checkRequest keeps_keyed_ipam configureInterface_keyed removeInterfaces_keyed

lemma handlers_keyed:
  "keeps (\<lambda>s. keyed (nd_ifs s)) (CmdAdd cenv env sv rq)"
  "keeps (\<lambda>s. keyed (nd_ifs s)) (CmdDel cenv env sv rq)"
  "keeps (\<lambda>s. keyed (nd_ifs s)) (CmdCheck cenv sv rq)"
  unfolding CmdAdd_def CmdDel_def CmdCheck_def Let_def by (intro keeps_keyed)+

text \<open>The states the server goes through as it answers requests, one after the other.\<close>

inductive served :: "cni_env \<Rightarrow> node_env \<Rightarrow> CniServer \<Rightarrow> 'z node_scheme \<Rightarrow> 'z node_scheme \<Rightarrow> bool"
  for cenv env sv s where
    start: "served cenv env sv s s"
  | add: "served cenv env sv s s1 \<Longrightarrow> CmdAdd cenv env sv rq s1 = (r, s2) \<Longrightarrow> served cenv env sv s s2"
  | del: "served cenv env sv s s1 \<Longrightarrow> CmdDel cenv env sv rq s1 = (r, s2) \<Longrightarrow> served cenv env sv s s2"
  | check: "served cenv env sv s s1 \<Longrightarrow> CmdCheck cenv sv rq s1 = (r, s2) \<Longrightarrow> served cenv env sv s s2"

lemma served_keyed: "served cenv env sv s s' \<Longrightarrow> keyed (nd_ifs s) \<Longrightarrow> keyed (nd_ifs s')"
  by (induction rule: served.induct) (blast intro: handlers_keyed [THEN keepsE])+

text \<open>
  C19: The cache stays keyed: from a cache whose interfaces are found under the names of their ports -- the empty
  one, and every one the initialisation from the bridge gives -- any sequence of requests, accepted, refused or
  panicking, leaves such a cache. So no removal ever dereferences a missing port or deletes another key.
\<close>

theorem served_cache_keyed:
  assumes "served cenv env sv s s'" and "nd_ifs s = fold (cache_port tunnelPort) ports NewInterfaceStore"
  shows "keyed (nd_ifs s')"
proof (rule served_keyed [OF assms(1)])
  have "keyed NewInterfaceStore" by (simp add: keyed_def cache.get_new)
  then show "keyed (nd_ifs s)" using keyed_initialized assms(2) by simp
qed

lemma served_cache_keyed_witness:
  "\<exists>s'. served sample_cni (sample_env None) sample_sv sample_node s' \<and> keyed (nd_ifs s') \<and> nd_ifs s' \<noteq> []"
proof -
  obtain rs s1 where add: "CmdAdd sample_cni (sample_env None) sample_sv sample_request sample_node = (Ok rs, s1)"
    and ne: "nd_ifs s1 \<noteq> []"
    using sample_add by (fastforce simp: AddInterface_def NewInterfaceStore_def)
  have served: "served sample_cni (sample_env None) sample_sv sample_node s1"
    by (rule served.add [OF served.start add])
  have "nd_ifs sample_node = fold (cache_port ''tun0'') [] NewInterfaceStore" by (simp add: sample_node_def)
  from served_cache_keyed [OF served this] served ne show ?thesis by blast
qed

text \<open>What a removal without an error has done.\<close>

lemma removed_lookup:
  assumes "removeInterfaces env p ns cid nn ifn s = (Ok (), s')" and "keyed (nd_ifs s)"
  shows "GetInterface (nd_ifs s') k =
    (if k = GenerateContainerInterfaceName p ns then None else GetInterface (nd_ifs s) k)"
proof -
  let ?name = "GenerateContainerInterfaceName p ns"
  have "po_IfaceName port = ?name"
    if "GetInterface (nd_ifs s) ?name = Some cfg" "if_port cfg = Some port" for cfg port
    using assms(2) that unfolding keyed_def by fastforce
  then show ?thesis
    using removeInterfaces_ends [OF assms(1)]
    by (auto simp: GetContainerInterface_def GetInterface_def [symmetric] cache.get_del split: option.splits)
qed

lemma CmdDel_answered:
  assumes "CmdDel cenv env sv rq s = (Ok rs, s')" and "error_code rs = None"
  obtains cfg h where "loadNetworkConfig cenv sv rq s = (Ok cfg, s)"
    and "ExecIPAMDelete (ne_ipam env) (cc_args cfg) (ip_Type (nw_IPAM (cc_net cfg))) (nd_ipam s) = (Ok (), h)"
    and "removeInterfaces env (ka_POD_NAME (cc_k8s cfg)) (ka_POD_NAMESPACE (cc_k8s cfg))
      (ca_ContainerId (cc_args cfg)) (hostNetNSPath sv (ca_Netns (cc_args cfg))) (ca_Ifname (cc_args cfg))
      (s\<lparr>nd_ipam := h\<rparr>) = (Ok (), s')"
proof (cases cenv sv rq s rule: checkRequest_cases)
  case panics
  with assms show ?thesis by (simp add: CmdDel_def gbind_eval)
next
  case (refused m)
  with assms show ?thesis by (auto simp: CmdDel_def gbind_eval ret_eval)
next
  case (accepted cfg)
  obtain ra h where 1: "ExecIPAMDelete (ne_ipam env) (cc_args cfg) (ip_Type (nw_IPAM (cc_net cfg))) (nd_ipam s) = (ra, h)"
    by (cases "ExecIPAMDelete (ne_ipam env) (cc_args cfg) (ip_Type (nw_IPAM (cc_net cfg))) (nd_ipam s)")
  from CmdDel_accepted [OF accepted(1) assms(1) 1] assms(2) accepted(2) 1 that show ?thesis
    by (auto split: if_splits)
qed

text \<open>
  C26: A pod whose removal was answered without an error is gone: no interface is cached under its name, all other
  interfaces are, and no flow was changed -- not even the flows a coreDNS pod had been given, which nothing ever
  uninstalls.
\<close>

theorem CmdDel_removes:
  assumes "served cenv env sv s0 s" and "keyed (nd_ifs s0)"
    and "CmdDel cenv env sv rq s = (Ok rs, s')" and "error_code rs = None"
  shows "\<exists>cfg. loadNetworkConfig cenv sv rq s = (Ok cfg, s) \<and> nd_of s' = nd_of s \<and>
    (\<forall>k. GetInterface (nd_ifs s') k =
       (if k = GenerateContainerInterfaceName (ka_POD_NAME (cc_k8s cfg)) (ka_POD_NAMESPACE (cc_k8s cfg))
        then None else GetInterface (nd_ifs s) k))"
proof -
  from CmdDel_answered [OF assms(3,4)] obtain cfg h where load: "loadNetworkConfig cenv sv rq s = (Ok cfg, s)"
    and run: "removeInterfaces env (ka_POD_NAME (cc_k8s cfg)) (ka_POD_NAMESPACE (cc_k8s cfg))
      (ca_ContainerId (cc_args cfg)) (hostNetNSPath sv (ca_Netns (cc_args cfg))) (ca_Ifname (cc_args cfg))
      (s\<lparr>nd_ipam := h\<rparr>) = (Ok (), s')" .
  have "keyed (nd_ifs (s\<lparr>nd_ipam := h\<rparr>))" using served_keyed [OF assms(1,2)] by simp
  from load removed_lookup [OF run this] removeInterfaces_ends [OF run] show ?thesis by auto
qed

text \<open>The runs on the sample node: the pod added, and deleted.\<close>

lemma sample_add_del:
  "\<exists>ra s1 rd s2. CmdAdd sample_cni (sample_env None) sample_sv sample_request sample_node = (Ok ra, s1) \<and>
     error_code ra = None \<and> CmdDel sample_cni (sample_env None) sample_sv sample_request s1 = (Ok rd, s2) \<and>
     error_code rd = None"
proof -
  let ?name = "GenerateContainerInterfaceName ''nginx'' ''default''"
  obtain ra s1 c where add: "CmdAdd sample_cni (sample_env None) sample_sv sample_request sample_node = (Ok ra, s1)"
    "error_code ra = None" "length (br_log (nd_ovs s1)) = 2" "nd_ifs s1 = AddInterface ?name
      (c\<lparr>if_port := Some \<lparr>po_IfaceName = ?name, po_PortUUID = ''p1'', po_OFPort = 5\<rparr>\<rparr>) NewInterfaceStore"
    using sample_add by (metis error_code_simps(4))
  have "GetContainerInterface (nd_ifs s1) ''nginx'' ''default'' =
      Some (c\<lparr>if_port := Some \<lparr>po_IfaceName = ?name, po_PortUUID = ''p1'', po_OFPort = 5\<rparr>\<rparr>)"
    using add(4) by (simp add: GetContainerInterface_def GetInterface_def [symmetric] cache.get_add)
  from sample_del [OF this _ add(3), of _ None] obtain s2 where
    "CmdDel sample_cni (sample_env None) sample_sv sample_request s1 = (Ok \<lparr>rs_CniResult = [], rs_Error = None\<rparr>, s2)"
    by auto
  with add(1,2) error_code_simps(4) show ?thesis by blast
qed

lemma keyed_sample: "keyed (nd_ifs sample_node)"
  by (simp add: sample_node_def keyed_def cache.get_new)

lemma CmdDel_removes_witness:
  "\<exists>(s1 :: node) rd s2. CmdDel sample_cni (sample_env None) sample_sv sample_request s1 = (Ok rd, s2) \<and>
     GetInterface (nd_ifs s2) (GenerateContainerInterfaceName ''nginx'' ''default'') = None"
proof -
  from sample_add_del obtain ra s1 rd s2 where
    add: "CmdAdd sample_cni (sample_env None) sample_sv sample_request sample_node = (Ok ra, s1)"
    and del: "CmdDel sample_cni (sample_env None) sample_sv sample_request s1 = (Ok rd, s2)"
    and ok: "error_code rd = None" by blast
  from CmdDel_removes [OF served.add [OF served.start add] keyed_sample del ok] sample_load [of s1]
  have "GetInterface (nd_ifs s2) (GenerateContainerInterfaceName ''nginx'' ''default'') = None"
    by (auto simp: sample_cfg_simps)
  with del show ?thesis by blast
qed






section \<open>IPAM and addresses\<close>


text \<open>
  The MAC address the cache and the port's external ids get is the one of the container's interface: the text
  \<open>setupVethPair\<close> writes into the result is read back by \<open>buildContainerConfig\<close> as the same address.
\<close>

lemma container_mac_roundtrip:
  assumes "length m \<in> {6, 8, 20}"
    and "buildContainerConfig cid p ns (iface_of (ifn, m) nn) ips = Some cfg"
  shows "if_MAC cfg = m \<and> if_NetNS cfg = nn \<and> if_ID cfg = cid \<and>
    map_of (BuildOVSPortExternalIDs cfg) ''attached-mac'' = Some (JStr (mac_string m)) \<and>
    (\<exists>ipc \<in> set ips. if_IP cfg = ipnet_IP (ic_Address ipc) \<and> To4 (if_IP cfg) \<noteq> [])"
proof -
  from assms(2) obtain ipc where "find (\<lambda>ipc. To4 (ipnet_IP (ic_Address ipc)) \<noteq> []) ips = Some ipc"
    and cfg: "cfg = NewContainerInterfaceConfig cid p ns nn m (ipnet_IP (ic_Address ipc))"
    by (auto simp: buildContainerConfig_def parseContainerIP_def iface_of_def ParseMAC_string [OF assms(1)]
        split: option.splits)
  then show ?thesis
    by (auto simp: NewContainerInterfaceConfig_def new_interface_def BuildOVSPortExternalIDs_def find_Some_iff
        intro!: bexI [of _ ipc])
qed

lemma container_mac_roundtrip_witness:
  "\<exists>cfg. buildContainerConfig ''c1'' ''nginx'' ''default'' (iface_of (''eth0'', pod_mac) ''/ns'')
      (re_IPs sample_ipam_result) = Some cfg \<and> if_MAC cfg = pod_mac"
proof -
  note run = buildContainerConfig_sample [OF refl, of "''c1''" "''nginx''" "''default''" "''eth0''" "''/ns''"]
  have "length pod_mac \<in> {6, 8, 20}" by (simp add: pod_mac_def)
  from container_mac_roundtrip [OF this run] run show ?thesis by blast
qed

end
