(* ===== verification/AgentInit.thy ===== *)
theory AgentInit
  imports CniServer Iptables
begin

text \<open>
  \<open>pkg/agent/agentFunc.go\<close>: the start-up of the agent -- the node's configuration from the API server, the
  iptables rules, the tunnel and gateway ports of the bridge, and the flows to the other nodes.
\<close>

definition NodeNameEnvKey :: string where "NodeNameEnvKey = ''NODE_NAME''"
definition TunPortName :: string where "TunPortName = ''tun0''"
definition tunOFPort :: "32 word" where "tunOFPort = 1"
definition hostGatewayOFPort :: "32 word" where "hostGatewayOFPort = 2"
definition maxRetryForHostLink :: nat where "maxRetryForHostLink = 5"

record Initializer =
  in_hostGateway :: string
  in_MTU :: int

definition NewInitializer :: "string \<Rightarrow> int \<Rightarrow> Initializer" where
  "NewInitializer gw MTU = \<lparr>in_hostGateway = gw, in_MTU = MTU\<rparr>"

text \<open>A node object of the API server: its name, pod network and addresses with their types.\<close>

record k8s_node =
  kn_Name :: string
  kn_PodCIDR :: string
  kn_Addresses :: "(string \<times> string) list"

text \<open>
  The world of the agent: the environment and the API server, YAML decoding (the pod network of the cluster
  configuration), the routes and links of the host, and netlink, which answers after the changes made so far and, for a
  link that is waited for, at each attempt. A link is given by its hardware address.
\<close>

record 'k agent_env =
  ae_node :: node_env
  ae_ipt :: "'k iptables"
  ae_ipt_new :: "error option"
  Getenv :: "string \<Rightarrow> string"
  Hostname :: "error + string"
  GetNode :: "string \<Rightarrow> error + k8s_node"
  KubeadmConfig :: "error + (string \<times> string) list"
  ClusterPodSubnet :: "string \<Rightarrow> error + string"
  ListNodes :: "error + k8s_node list"
  Routes :: "route list"
  Links :: "error + link list"
  LinkByName :: "sys_op list \<Rightarrow> nat \<Rightarrow> string \<Rightarrow> error + mac"
  IsLinkNotFound :: "error \<Rightarrow> bool"
  LinkSetUp :: "sys_op list \<Rightarrow> string \<Rightarrow> error option"
  AddrList :: "sys_op list \<Rightarrow> string \<Rightarrow> error + ip list"
  AddrAdd :: "sys_op list \<Rightarrow> string \<Rightarrow> ipnet \<Rightarrow> error option"

text \<open>The state: the node's, the kernel's tables, and the configuration the initializer builds, nil at first.\<close>

record 'k agent_node = node +
  ag_ipt :: 'k
  ag_config :: "NodeConfig option"

abbreviation on_ipt :: "('k, 'a) go \<Rightarrow> (('k, 'z) agent_node_scheme, 'a) go" where
  "on_ipt \<equiv> zoom ag_ipt (\<lambda>t. ag_ipt_update (\<lambda>_. t))"

definition node_config :: "(('k, 'z) agent_node_scheme, NodeConfig) go" where
  "node_config = gbind (gets ag_config) deref"

text \<open>A call whose error is only logged.\<close>

definition log_error :: "('s, unit) go \<Rightarrow> ('s, unit) go" where
  "log_error m = gcatch m (\<lambda>err. ret ())"

section \<open>The configuration of the node\<close>

definition getNodeName :: "'k agent_env \<Rightarrow> error + string" where
  "getNodeName env =
     (let nodeName = Getenv env NodeNameEnvKey in if nodeName \<noteq> [] then Inr nodeName else Hostname env)"

text \<open>The error of the second \<open>ParseCIDR\<close> is not looked at.\<close>

definition initNodeLocalConfig :: "'k agent_env \<Rightarrow> (('k, 'z) agent_node_scheme, unit) go" where
  "initNodeLocalConfig env =
     (case getNodeName env of
        Inl err \<Rightarrow> throw err
      | Inr nodeName \<Rightarrow>
     (case GetNode env nodeName of
        Inl err \<Rightarrow> throw err
      | Inr nd \<Rightarrow>
     if kn_PodCIDR nd = [] then throw (ErrText (''CIDR string is empty for node '' @ nodeName))
     else
     (case ParseCIDR (kn_PodCIDR nd) of
        Inl err \<Rightarrow> throw err
      | Inr (_, localSubnet) \<Rightarrow>
     (case KubeadmConfig env of
        Inl err \<Rightarrow> throw err
      | Inr data \<Rightarrow>
     (case ClusterPodSubnet env (case map_of data ''ClusterConfiguration'' of None \<Rightarrow> [] | Some t \<Rightarrow> t) of
        Inl err \<Rightarrow> throw err
      | Inr podSubnet \<Rightarrow>
          (let clusterSubnet = (case ParseCIDR podSubnet of Inl err \<Rightarrow> None | Inr (_, n) \<Rightarrow> Some n)
           in modify (ag_config_update (\<lambda>_. Some
                \<lparr>nc_NodeName = nodeName, nc_PodCIDR = Some localSubnet, nc_ClusterPodCIDR = clusterSubnet,
                 nc_Bridge = [], nc_Gateway = None\<rparr>))))))))"

section \<open>The bridge\<close>

definition setUpTunnelInterface :: "'k agent_env \<Rightarrow> string \<Rightarrow> (('k, 'z) agent_node_scheme, unit) go" where
  "setUpTunnelInterface env tunPortName =
     gbind (gets (\<lambda>s. GetInterface (nd_ifs s) tunPortName)) (\<lambda>found. case found of
       Some _ \<Rightarrow> ret ()
     | None \<Rightarrow>
         gbind (on_ovs (CreateVXLANPort (ne_ovs (ae_node env)) tunPortName tunOFPort [])) (\<lambda>tunnelPortUUID.
         on_ifs (AddInterface tunPortName ((NewTunnelInterface tunPortName)
           \<lparr>if_port := Some \<lparr>po_IfaceName = tunPortName, po_PortUUID = tunnelPortUUID, po_OFPort = tunOFPort\<rparr>\<rparr>))))"

text \<open>The wait for the link: \<open>retry\<close> attempts are behind, \<open>n\<close> are left.\<close>

fun wait_link :: "'k agent_env \<Rightarrow> sys_op list \<Rightarrow> string \<Rightarrow> nat \<Rightarrow> nat \<Rightarrow> error + mac" where
  "wait_link env h name retry 0 = Inl (ErrText (''[setupGateway] - link '' @ name @ '' not found''))"
| "wait_link env h name retry (Suc n) =
     (case LinkByName env h retry name of
        Inl err \<Rightarrow> if IsLinkNotFound env err then wait_link env h name (Suc retry) n else Inl err
      | Inr m \<Rightarrow> Inr m)"

text \<open>\<open>IP.Equal\<close>: an IPv4 address equals its 16-byte form.\<close>

definition ip_Equal :: "ip \<Rightarrow> ip \<Rightarrow> bool" where
  "ip_Equal a b \<longleftrightarrow>
     (if length a = length b then a = b
      else if length a = 4 \<and> length b = 16 then b = v4InV6Prefix @ a
      else if length a = 16 \<and> length b = 4 then a = v4InV6Prefix @ b
      else False)"

text \<open>\<open>gatewayIface\<close> is the pointer that is in the cache: setting its fields changes the cached interface.\<close>

definition set_address :: "string \<Rightarrow> ip \<Rightarrow> mac \<Rightarrow> interface_cache \<Rightarrow> interface_cache" where
  "set_address name a m i = (case GetInterface i name of
     None \<Rightarrow> i | Some cfg \<Rightarrow> AddInterface name (cfg\<lparr>if_IP := a, if_MAC := m\<rparr>) i)"

definition gateway_port :: "'k agent_env \<Rightarrow> Initializer \<Rightarrow> (('k, 'z) agent_node_scheme, unit) go" where
  "gateway_port env i =
     (let gw = in_hostGateway i
      in gbind (gets (\<lambda>s. GetInterface (nd_ifs s) gw)) (\<lambda>found. case found of
           Some _ \<Rightarrow> ret ()
         | None \<Rightarrow>
             gbind (on_ovs (CreateInternalPort (ne_ovs (ae_node env)) gw hostGatewayOFPort None)) (\<lambda>gwPortUUID.
             on_ifs (AddInterface gw ((NewGatewayInterface gw)
               \<lparr>if_port := Some \<lparr>po_IfaceName = gw, po_PortUUID = gwPortUUID, po_OFPort = hostGatewayOFPort\<rparr>\<rparr>)))))"

definition gateway_address ::
  "'k agent_env \<Rightarrow> Initializer \<Rightarrow> mac \<Rightarrow> (('k, 'z) agent_node_scheme, unit) go" where
  "gateway_address env i gwMAC =
     (let gw = in_hostGateway i
      in gbind node_config (\<lambda>cfg.
         gbind (deref (nc_PodCIDR cfg)) (\<lambda>localSubnet.
         let subnetID = ip_Mask (ipnet_IP localSubnet) (ipnet_Mask localSubnet);
             gwIP = NextIP (ne_sys (ae_node env)) subnetID
         in gbind (deref (nc_ClusterPodCIDR cfg)) (\<lambda>clusterSubnet.
            let gwAddr = \<lparr>ipnet_IP = gwIP, ipnet_Mask = ipnet_Mask clusterSubnet\<rparr>
            in gseq (modify (ag_config_update (\<lambda>_. Some (cfg
                      \<lparr>nc_Gateway := Some \<lparr>gw_IP = gwIP, gw_MAC = gwMAC, gw_Name = gw\<rparr>\<rparr>))))
              (gseq (on_ifs (set_address gw gwIP gwMAC))
              (gbind (\<lambda>s. case AddrList env (nd_sys s) gw of Inl err \<Rightarrow> (Err err, s) | Inr addrs \<Rightarrow> (Ok addrs, s)) (\<lambda>addrs.
               if list_ex (\<lambda>addr. ip_Equal addr gwIP) addrs then ret ()
               else change (OpAddrAdd gw gwAddr) (\<lambda>h. no_value (AddrAdd env h gw gwAddr)))))))))"

definition setupGatewayInterface :: "'k agent_env \<Rightarrow> Initializer \<Rightarrow> (('k, 'z) agent_node_scheme, unit) go" where
  "setupGatewayInterface env i =
     (let gw = in_hostGateway i
      in gseq (gateway_port env i)
        (gseq (log_error (on_ovs (SetInterfaceMTU (ne_ovs (ae_node env)) gw (in_MTU i))))
        (gbind (\<lambda>s. case wait_link env (nd_sys s) gw 0 maxRetryForHostLink of
                  Inl err \<Rightarrow> (Err err, s) | Inr m \<Rightarrow> (Ok m, s)) (\<lambda>gwMAC.
         gseq (change (OpLinkSetUp gw) (\<lambda>h. no_value (LinkSetUp env h gw)))
              (gateway_address env i gwMAC)))))"

definition setUpOVSBridge :: "'k agent_env \<Rightarrow> Initializer \<Rightarrow> (('k, 'z) agent_node_scheme, unit) go" where
  "setUpOVSBridge env i =
     gseq (on_ovs_ifs (cache_Initialize (ne_ovs (ae_node env)) TunPortName))
    (gseq (setUpTunnelInterface env TunPortName)
          (setupGatewayInterface env i))"

section \<open>The flows to the other nodes\<close>

definition NodeInternalIP :: string where "NodeInternalIP = ''InternalIP''"

definition internal_address :: "k8s_node \<Rightarrow> string option" where
  "internal_address nd = map_option snd (find (\<lambda>(ty, a). ty = NodeInternalIP) (kn_Addresses nd))"

primrec tunDsts :: "k8s_node list \<Rightarrow> (('k, 'z) agent_node_scheme, string list) go" where
  "tunDsts [] = ret []"
| "tunDsts (nd # nds) =
     gbind node_config (\<lambda>cfg.
     gbind (tunDsts nds) (\<lambda>rest.
     ret (if kn_Name nd = nc_NodeName cfg then rest
          else case internal_address nd of None \<Rightarrow> rest | Some a \<Rightarrow> a # rest)))"

definition constructArpOpenflow :: "'k agent_env \<Rightarrow> k8s_node list \<Rightarrow> (('k, 'z) agent_node_scheme, unit) go" where
  "constructArpOpenflow env nodeList =
     gbind (tunDsts nodeList) (\<lambda>dsts.
     if dsts \<noteq> [] then log_error (on_of (InstallARPFlow (ne_of (ae_node env)) dsts)) else ret ())"

definition node_flow :: "'k agent_env \<Rightarrow> k8s_node \<Rightarrow> (('k, 'z) agent_node_scheme, unit) go" where
  "node_flow env nd =
     gbind node_config (\<lambda>cfg.
     if kn_Name nd = nc_NodeName cfg
     then log_error (on_of (InstallLocalIPFlow (ne_of (ae_node env)) (kn_Name nd) (ipnet_ptr_string (nc_PodCIDR cfg))))
     else
       (let nodeAddress = (case internal_address nd of None \<Rightarrow> [] | Some a \<Rightarrow> ParseIP a)
        in if nodeAddress \<noteq> []
           then log_error (on_of (InstallTunFlow (ne_of (ae_node env)) (kn_PodCIDR nd) 0 nodeAddress))
           else ret ()))"

definition constructIPTunFlow :: "'k agent_env \<Rightarrow> k8s_node list \<Rightarrow> (('k, 'z) agent_node_scheme, unit) go" where
  "constructIPTunFlow env nodeList = gfor nodeList (node_flow env)"

definition initOpenFlow :: "'k agent_env \<Rightarrow> (('k, 'z) agent_node_scheme, unit) go" where
  "initOpenFlow env =
     (case ListNodes env of
        Inl err \<Rightarrow> throw err
      | Inr nodeList \<Rightarrow> gseq (constructArpOpenflow env nodeList) (constructIPTunFlow env nodeList))"

definition setUpFlow :: "'k agent_env \<Rightarrow> (('k, 'z) agent_node_scheme, unit) go" where
  "setUpFlow env = gseq (on_of (FlowClient.Initialize (ne_of (ae_node env)))) (initOpenFlow env)"

section \<open>Initialize\<close>

text \<open>A default interface that is not found is only logged; its name is then empty.\<close>

definition agent_Initialize :: "'k agent_env \<Rightarrow> Initializer \<Rightarrow> (('k, 'z) agent_node_scheme, unit) go" where
  "agent_Initialize env i =
     gseq (initNodeLocalConfig env)
    (gbind node_config (\<lambda>cfg.
     case ipt_NewClient (ae_ipt_new env) (in_hostGateway i) (ipnet_ptr_string (nc_PodCIDR cfg)) of
       Inl err \<Rightarrow> throw (ErrWrap ''[Initialize] - error creating iptables client: '' err)
     | Inr iptablesClient \<Rightarrow>
         (let outInterfaceName = (case GetDefaultInterface (Routes env) (Links env) of Inl err \<Rightarrow> [] | Inr n \<Rightarrow> n)
          in gseq (gcatch (on_ipt (SetUpRules (ae_ipt env) iptablesClient outInterfaceName))
                     (\<lambda>err. throw (ErrWrap ''[Initialize] - error setting up iptables rules: '' err)))
            (gseq (setUpOVSBridge env i) (setUpFlow env)))))"

definition GetNodeConfig :: "('k, 'z) agent_node_scheme \<Rightarrow> NodeConfig option" where
  "GetNodeConfig s = ag_config s"

end
