(* ===== verification/AgentCommand.thy ===== *)
theory AgentCommand
  imports AgentInit
begin

text \<open>
  \<open>cmd/ciccni-agent\<close>: the options and their defaults, and the run of the agent up to the start of the CNI server.
\<close>

record AgentConfig =
  ac_CNISocket :: string
  ac_OVSBridge :: string
  ac_OVSDatapathType :: string
  ac_HostGateway :: string
  ac_TunnelType :: string
  ac_DefaultMTU :: int
  ac_HostProcPathPrefix :: string
  ac_ServiceCIDR :: string
  ac_EnableIPSecTunnel :: bool

record Options =
  op_configFile :: string
  op_config :: AgentConfig

definition new_config :: AgentConfig where
  "new_config = \<lparr>ac_CNISocket = [], ac_OVSBridge = [], ac_OVSDatapathType = [], ac_HostGateway = [],
     ac_TunnelType = [], ac_DefaultMTU = 0, ac_HostProcPathPrefix = [], ac_ServiceCIDR = [],
     ac_EnableIPSecTunnel = False\<rparr>"

definition NewOptions :: Options where
  "NewOptions = \<lparr>op_configFile = [], op_config = new_config\<rparr>"

definition CICCNISocketAddr :: string where "CICCNISocketAddr = ''/var/run/ciccni/cni.sock''"
definition defaultOVSBridge :: string where "defaultOVSBridge = ''br-int''"
definition defaultHostGateway :: string where "defaultHostGateway = ''gw0''"
definition defaultHostProcPathPrefix :: string where "defaultHostProcPathPrefix = ''/host''"
definition defaultServiceCIDR :: string where "defaultServiceCIDR = ''10.96.0.0/12''"
definition defaultMTUVxlan :: int where "defaultMTUVxlan = 1450"

lemmas option_defaults = CICCNISocketAddr_def defaultOVSBridge_def defaultHostGateway_def
  defaultHostProcPathPrefix_def defaultServiceCIDR_def defaultMTUVxlan_def

definition or_default :: "string \<Rightarrow> string \<Rightarrow> string" where
  "or_default d s = (if s = [] then d else s)"

definition setDefaults :: "AgentConfig \<Rightarrow> AgentConfig" where
  "setDefaults c = c\<lparr>
     ac_CNISocket := or_default CICCNISocketAddr (ac_CNISocket c),
     ac_OVSBridge := or_default defaultOVSBridge (ac_OVSBridge c),
     ac_HostGateway := or_default defaultHostGateway (ac_HostGateway c),
     ac_HostProcPathPrefix := or_default defaultHostProcPathPrefix (ac_HostProcPathPrefix c),
     ac_ServiceCIDR := or_default defaultServiceCIDR (ac_ServiceCIDR c),
     ac_DefaultMTU := (if ac_DefaultMTU c = 0 then defaultMTUVxlan else ac_DefaultMTU c)\<rparr>"

text \<open>
  What the command finds outside: the command line, files, strict YAML decoding of a configuration, the connection to
  OVSDB, and the library of the API server's client with its two sources of a configuration.
\<close>

type_synonym kube_config = string

record command_env =
  ParseFlags :: "string list \<Rightarrow> error + string"
  ReadFile :: "string \<Rightarrow> error + string"
  UnmarshalStrict :: "string \<Rightarrow> error + AgentConfig"
  OvsdbDial :: "(string \<times> string) list \<Rightarrow> nat"
  BuildConfigFromFlags :: "error + kube_config"
  InClusterConfig :: "error + kube_config"
  NewForConfig :: "kube_config \<Rightarrow> error option"
  ListenUnix :: "string \<Rightarrow> error option"

definition loadConfigFromFile :: "command_env \<Rightarrow> string \<Rightarrow> error + AgentConfig" where
  "loadConfigFromFile env file =
     (case ReadFile env file of
        Inl err \<Rightarrow> Inl err
      | Inr data \<Rightarrow> UnmarshalStrict env data)"

text \<open>The options after the call, and its error.\<close>

definition complete :: "command_env \<Rightarrow> Options \<Rightarrow> error option \<times> Options" where
  "complete env opts =
     (if op_configFile opts \<noteq> [] then
        (case loadConfigFromFile env (op_configFile opts) of
           Inl err \<Rightarrow> (Some err, opts)
         | Inr c \<Rightarrow> (None, opts\<lparr>op_config := setDefaults c\<rparr>))
      else (None, opts\<lparr>op_config := setDefaults (op_config opts)\<rparr>))"

section \<open>The connections\<close>

definition defaultUDSAddress :: string where "defaultUDSAddress = ''/run/openvswitch/db.sock''"

text \<open>The dial returns when it is connected; no error is ever returned.\<close>

definition NewOVSDBConnectionUDS :: "((string \<times> string) list \<Rightarrow> 'db) \<Rightarrow> string \<Rightarrow> 'db \<times> error option" where
  "NewOVSDBConnectionUDS dial address = (dial [(''unix'', or_default defaultUDSAddress address)], None)"

text \<open>The seconds before the (n+1)-th message that it is not connected yet.\<close>

primrec log_backoff :: "nat \<Rightarrow> nat" where
  "log_backoff 0 = 1"
| "log_backoff (Suc n) = (let backoff = log_backoff n * 2 in if 8 < backoff then 8 else backoff)"

lemma log_backoff_bound: "1 \<le> log_backoff n \<and> log_backoff n \<le> 8"
  by (induction n) (auto simp: Let_def)

definition CreateClient :: "command_env \<Rightarrow> error option" where
  "CreateClient env =
     (case (case BuildConfigFromFlags env of Inl _ \<Rightarrow> InClusterConfig env | Inr c \<Rightarrow> Inr c) of
        Inl err \<Rightarrow> Some err
      | Inr kubeConfig \<Rightarrow> NewForConfig env kubeConfig)"

section \<open>The run\<close>

text \<open>
  The run ends with an error, exits in \<open>klog.Fatal\<close> without a client of the API server -- no value --, or starts the CNI
  server, which answers requests from then on. The initializer's configuration is not nil after it succeeded.
\<close>

definition agent_run ::
  "command_env \<Rightarrow> 'k agent_env \<Rightarrow> Options \<Rightarrow> (('k, 'z) agent_node_scheme, CniServer option) go" where
  "agent_run cenv env opts =
     (let c = op_config opts; ovs = ne_ovs (ae_node env)
      in case NewOVSDBConnectionUDS (OvsdbDial cenv) [] of
           (db, Some err) \<Rightarrow> throw (ErrWrap ''error connecting OVSDB: '' err)
         | (db, None) \<Rightarrow>
             gseq (modify (nd_ovs_update (\<lambda>_. NewOVSBridge (ac_OVSBridge c) (ac_OVSDatapathType c))))
            (gseq (gcatch (on_ovs (br_Create ovs)) (\<lambda>err. throw (ErrWrap ''error create ovs bridge: '' err)))
             (case CreateClient cenv of
                Some err \<Rightarrow> ret None
              | None \<Rightarrow>
                  gseq (on_ifs (\<lambda>_. NewInterfaceStore))
                 (gseq (modify (nd_of_update (\<lambda>_. NewClient (ac_OVSBridge c))))
                 (gseq (agent_Initialize env (NewInitializer (ac_HostGateway c) (ac_DefaultMTU c)))
                 (gbind (gets GetNodeConfig) (\<lambda>cfg. gbind (deref cfg) (\<lambda>nodeConfig.
                  ret (Some (cni_New (ac_CNISocket c) nodeConfig (ac_DefaultMTU c) (ac_HostProcPathPrefix c))))))))))) "

text \<open>\<open>newAgentCommand\<close>: the error of \<open>complete\<close> is ignored, and the agent runs with the options as they are.\<close>

definition agent_command ::
  "command_env \<Rightarrow> 'k agent_env \<Rightarrow> string \<Rightarrow> (('k, 'z) agent_node_scheme, CniServer option) go" where
  "agent_command cenv env configFile =
     agent_run cenv env (snd (complete cenv (NewOptions\<lparr>op_configFile := configFile\<rparr>)))"

text \<open>
  \<open>main\<close>: what becomes of the process. A command line that cannot be parsed exits with 1; \<open>klog.Fatal\<close> exits with 255,
  without a client of the API server and after an error of the run; a panic ends the process; otherwise the agent
  serves. \<open>Run\<close> of the server exits with 1 if it cannot listen on its socket, and otherwise answers requests until the
  process is stopped.
\<close>

datatype process = Exits nat | Crashes | Serves CniServer

definition server_Run :: "command_env \<Rightarrow> CniServer \<Rightarrow> process" where
  "server_Run env server = (case ListenUnix env (sv_socketAddr server) of Some err \<Rightarrow> Exits 1 | None \<Rightarrow> Serves server)"

definition agent_main ::
  "command_env \<Rightarrow> 'k agent_env \<Rightarrow> string list \<Rightarrow> ('k, 'z) agent_node_scheme \<Rightarrow> process \<times> ('k, 'z) agent_node_scheme" where
  "agent_main cenv env args s = (case ParseFlags cenv args of
     Inl err \<Rightarrow> (Exits 1, s)
   | Inr configFile \<Rightarrow> (case agent_command cenv env configFile s of
       (Ok (Some server), s') \<Rightarrow> (server_Run cenv server, s')
     | (Ok None, s') \<Rightarrow> (Exits 255, s')
     | (Err err, s') \<Rightarrow> (Exits 255, s')
     | (Panic, s') \<Rightarrow> (Crashes, s')))"

end
