(* ===== verification/AgentFacts.thy ===== *)
theory AgentFacts
  imports AgentCommand CniServerFacts
begin

text \<open>
  What the steps of the agent's start-up leave: the configuration, the cache with the tunnel and gateway interfaces, the
  wait for the link.
\<close>

section \<open>Waiting for the link\<close>

lemma wait_link_eq:
  "wait_link env h name r0 n =
     (case find (\<lambda>r. \<not> (case LinkByName env h r name of Inl e \<Rightarrow> IsLinkNotFound env e | Inr m \<Rightarrow> False)) [r0..<r0 + n] of
        None \<Rightarrow> Inl (ErrText (''[setupGateway] - link '' @ name @ '' not found''))
      | Some r \<Rightarrow> LinkByName env h r name)"
proof (induction n arbitrary: r0)
  case 0
  then show ?case by simp
next
  case (Suc n)
  have up: "[r0..<r0 + Suc n] = r0 # [Suc r0..<Suc r0 + n]" by (simp add: upt_rec)
  show ?case unfolding up by (simp add: Suc.IH split: sum.split)
qed

section \<open>What the steps keep\<close>

definition boot :: "('k, 'z) agent_node_scheme \<Rightarrow> NodeConfig option \<times> interface_cache" where
  "boot s = (ag_config s, nd_ifs s)"

lemma unchanged_boot:
  "unchanged boot (on_ovs m)" "unchanged boot (on_of m1)" "unchanged boot (on_ipt m2)"
  "unchanged boot (change op q)" "unchanged boot (gets f)" "unchanged boot (deref p)"
  "unchanged boot (ret a)" "unchanged boot (throw e)" "unchanged boot node_config"
  by (simp_all add: unchanged_def boot_def zoom_def change_def gets_def deref_def ret_def panic_def throw_def
      node_config_def gbind_def split: prod.split option.split)

lemma unchanged_gcatch: "unchanged f m \<Longrightarrow> (\<And>e. unchanged f (h e)) \<Longrightarrow> unchanged f (gcatch m h)"
  by (simp add: unchanged_iff_keeps go_keeps)

lemma unchanged_log_error: "unchanged f m \<Longrightarrow> unchanged f (log_error m)"
  by (simp add: log_error_def unchanged_iff_keeps go_keeps)

lemma unchanged_gfor: "(\<And>x. unchanged f (b x)) \<Longrightarrow> unchanged f (gfor xs b)"
  by (simp add: unchanged_iff_keeps go_keeps)

lemma unchanged_if: "unchanged f m \<Longrightarrow> unchanged f n \<Longrightarrow> unchanged f (if b then m else n)"
  by simp

lemmas unchanged_steps = unchanged_boot unchanged_log_error unchanged_gfor unchanged_if unchanged_gcatch unchanged_gbind

lemma unchanged_tunDsts: "unchanged boot (tunDsts nds)"
  by (induction nds) (auto intro!: unchanged_steps)

lemma unchanged_setUpFlow: "unchanged boot (setUpFlow env)"
  unfolding setUpFlow_def initOpenFlow_def constructArpOpenflow_def constructIPTunFlow_def node_flow_def Let_def
  by (cases "ListNodes env") (auto intro!: unchanged_steps unchanged_tunDsts)

lemma sum_Ok_iff: "(case x of Inl e \<Rightarrow> (Err e, s) | Inr m \<Rightarrow> (Ok m, s)) = (Ok a, s') \<longleftrightarrow> x = Inr a \<and> s' = s"
  by (auto split: sum.split)

section \<open>The configuration\<close>

text \<open>What was read of the node and of the cluster.\<close>

definition node_read :: "'k agent_env \<Rightarrow> NodeConfig \<Rightarrow> ipnet \<Rightarrow> bool" where
  "node_read env cfg local \<longleftrightarrow> (\<exists>nd a data subnet. getNodeName env = Inr (nc_NodeName cfg) \<and>
     GetNode env (nc_NodeName cfg) = Inr nd \<and> ParseCIDR (kn_PodCIDR nd) = Inr (a, local) \<and>
     KubeadmConfig env = Inr data \<and>
     ClusterPodSubnet env (case map_of data ''ClusterConfiguration'' of None \<Rightarrow> [] | Some t \<Rightarrow> t) = Inr subnet \<and>
     nc_PodCIDR cfg = Some local \<and>
     nc_ClusterPodCIDR cfg = (case ParseCIDR subnet of Inl err \<Rightarrow> None | Inr (_, n) \<Rightarrow> Some n))"

lemma initNodeLocalConfig_Ok:
  assumes "initNodeLocalConfig env s = (Ok (), s')"
  shows "\<exists>cfg local. node_read env cfg local \<and> s' = s\<lparr>ag_config := Some cfg\<rparr>"
proof -
  from assms obtain name nd a local data subnet where
    "getNodeName env = Inr name" "GetNode env name = Inr nd" "ParseCIDR (kn_PodCIDR nd) = Inr (a, local)"
    "KubeadmConfig env = Inr data"
    "ClusterPodSubnet env (case map_of data ''ClusterConfiguration'' of None \<Rightarrow> [] | Some t \<Rightarrow> t) = Inr subnet"
    "s' = s\<lparr>ag_config := Some \<lparr>nc_NodeName = name, nc_PodCIDR = Some local,
       nc_ClusterPodCIDR = (case ParseCIDR subnet of Inl err \<Rightarrow> None | Inr (_, n) \<Rightarrow> Some n),
       nc_Bridge = [], nc_Gateway = None\<rparr>\<rparr>"
    by (auto simp: initNodeLocalConfig_def throw_eval modify_eval Let_def split: sum.splits if_splits)
  then show ?thesis
    by (intro exI [of _ "\<lparr>nc_NodeName = name, nc_PodCIDR = Some local,
       nc_ClusterPodCIDR = (case ParseCIDR subnet of Inl err \<Rightarrow> None | Inr (_, n) \<Rightarrow> Some n),
       nc_Bridge = [], nc_Gateway = None\<rparr>"] exI [of _ local]) (simp add: node_read_def)
qed

section \<open>The ports\<close>

text \<open>A cache that is keyed, and stays so when an interface with a port of its name is added or its address is set.\<close>

lemma keyed_set_address: "keyed i \<Longrightarrow> keyed (set_address name a m i)"
  by (auto simp: set_address_def keyed_def cache.get_add split: option.split)

lemma cache_Initialize_boot:
  assumes "on_ovs_ifs (cache_Initialize env tp) s = (Ok (), s')"
  shows "\<exists>ports. nd_ifs s' = fold (cache_port tp) ports (nd_ifs s) \<and> ag_config s' = ag_config s"
  using assms
  by (auto simp: on_ovs_ifs_def zoom_eval cache_Initialize_def gbind_Ok_iff modify_eval on_fst_eval split: prod.splits)

lemma ensure_port_Ok:
  assumes "gbind (gets (\<lambda>s. GetInterface (nd_ifs s) name)) (\<lambda>found. case found of
      Some _ \<Rightarrow> ret ()
    | None \<Rightarrow> gbind (on_ovs create) (\<lambda>u. on_ifs (AddInterface name
        (c\<lparr>if_port := Some \<lparr>po_IfaceName = name, po_PortUUID = u, po_OFPort = p\<rparr>\<rparr>)))) s = (Ok (), s')"
  shows "(keyed (nd_ifs s) \<longrightarrow> keyed (nd_ifs s')) \<and> GetInterface (nd_ifs s') name \<noteq> None \<and> ag_config s' = ag_config s \<and>
    (\<forall>k. GetInterface (nd_ifs s) k \<noteq> None \<longrightarrow> GetInterface (nd_ifs s') k \<noteq> None)"
proof (cases "GetInterface (nd_ifs s) name")
  case None
  with assms obtain u where "ag_config s' = ag_config s" and "nd_ifs s' = AddInterface name
      (c\<lparr>if_port := Some \<lparr>po_IfaceName = name, po_PortUUID = u, po_OFPort = p\<rparr>\<rparr>) (nd_ifs s)"
    by (auto simp: gbind_Ok_iff gets_eval modify_eval zoom_eval split: prod.splits)
  then show ?thesis by (simp add: keyed_add cache.get_add)
next
  case (Some c')
  with assms show ?thesis by (auto simp: gbind_Ok_iff gets_eval ret_eval)
qed

lemma setUpTunnelInterface_Ok:
  assumes "setUpTunnelInterface env name s = (Ok (), s')"
  shows "(keyed (nd_ifs s) \<longrightarrow> keyed (nd_ifs s')) \<and> GetInterface (nd_ifs s') name \<noteq> None \<and> ag_config s' = ag_config s \<and>
    (\<forall>k. GetInterface (nd_ifs s) k \<noteq> None \<longrightarrow> GetInterface (nd_ifs s') k \<noteq> None)"
  using ensure_port_Ok [OF assms(1) [unfolded setUpTunnelInterface_def]] .

lemma gateway_port_Ok:
  assumes "gateway_port env i s = (Ok (), s')"
  shows "(keyed (nd_ifs s) \<longrightarrow> keyed (nd_ifs s')) \<and> GetInterface (nd_ifs s') (in_hostGateway i) \<noteq> None \<and> ag_config s' = ag_config s \<and>
    (\<forall>k. GetInterface (nd_ifs s) k \<noteq> None \<longrightarrow> GetInterface (nd_ifs s') k \<noteq> None)"
  using ensure_port_Ok [OF assms(1) [unfolded gateway_port_def Let_def]] .

text \<open>The configuration with the gateway, and the gateway's interface in the cache.\<close>

definition gateway_known :: "'k agent_env \<Rightarrow> Initializer \<Rightarrow> ipnet \<Rightarrow> NodeConfig \<Rightarrow> interface_cache \<Rightarrow> bool" where
  "gateway_known env i local cfg ifs \<longleftrightarrow> nc_ClusterPodCIDR cfg \<noteq> None \<and> (\<exists>gw c. nc_Gateway cfg = Some gw \<and>
     gw_Name gw = in_hostGateway i \<and>
     gw_IP gw = NextIP (ne_sys (ae_node env)) (ip_Mask (ipnet_IP local) (ipnet_Mask local)) \<and>
     GetInterface ifs (in_hostGateway i) = Some c \<and> if_IP c = gw_IP gw \<and> if_MAC c = gw_MAC gw)"

lemma gateway_address_Ok:
  assumes "gateway_address env i m s = (Ok (), s')"
    and "ag_config s = Some cfg" and "node_read env cfg local" and "GetInterface (nd_ifs s) (in_hostGateway i) \<noteq> None"
  shows "\<exists>cfg'. ag_config s' = Some cfg' \<and> node_read env cfg' local \<and> (keyed (nd_ifs s) \<longrightarrow> keyed (nd_ifs s')) \<and>
    gateway_known env i local cfg' (nd_ifs s') \<and>
    (\<forall>k. GetInterface (nd_ifs s) k \<noteq> None \<longrightarrow> GetInterface (nd_ifs s') k \<noteq> None)"
proof -
  let ?gw = "in_hostGateway i"
  let ?ip = "NextIP (ne_sys (ae_node env)) (ip_Mask (ipnet_IP local) (ipnet_Mask local))"
  let ?cfg = "cfg\<lparr>nc_Gateway := Some \<lparr>gw_IP = ?ip, gw_MAC = m, gw_Name = ?gw\<rparr>\<rparr>"
  have local: "nc_PodCIDR cfg = Some local" using assms(3) by (auto simp: node_read_def)
  from assms(1,2) local have cluster: "nc_ClusterPodCIDR cfg \<noteq> None"
    by (cases "nc_ClusterPodCIDR cfg")
      (auto simp: gateway_address_def node_config_def gbind_eval gets_eval deref_def ret_eval panic_eval Let_def)
  then have s': "ag_config s' = Some ?cfg \<and> nd_ifs s' = set_address ?gw ?ip m (nd_ifs s)"
    using assms(1,2) local
    by (auto simp: gateway_address_def node_config_def gbind_eval gets_eval deref_def ret_eval panic_eval modify_eval
        change_eval Let_def split: sum.splits if_splits)
  obtain c where "GetInterface (nd_ifs s) ?gw = Some c" using assms(4) by blast
  then have "GetInterface (set_address ?gw ?ip m (nd_ifs s)) k =
      (if k = ?gw then Some (c\<lparr>if_IP := ?ip, if_MAC := m\<rparr>) else GetInterface (nd_ifs s) k)" for k
    by (simp add: set_address_def cache.get_add)
  moreover have "node_read env ?cfg local" using assms(3) by (simp add: node_read_def)
  ultimately show ?thesis
    using s' cluster keyed_set_address by (simp add: gateway_known_def)
qed

lemma setupGatewayInterface_Ok:
  assumes "setupGatewayInterface env i s = (Ok (), s')"
    and "ag_config s = Some cfg" and "node_read env cfg local"
  shows "\<exists>cfg'. ag_config s' = Some cfg' \<and> node_read env cfg' local \<and> (keyed (nd_ifs s) \<longrightarrow> keyed (nd_ifs s')) \<and>
    gateway_known env i local cfg' (nd_ifs s') \<and>
    (\<forall>k. GetInterface (nd_ifs s) k \<noteq> None \<longrightarrow> GetInterface (nd_ifs s') k \<noteq> None)"
proof -
  let ?gw = "in_hostGateway i"
  from assms(1) obtain s1 s2 s3 m where
    1: "gateway_port env i s = (Ok (), s1)" and
    2: "log_error (on_ovs (SetInterfaceMTU (ne_ovs (ae_node env)) ?gw (in_MTU i))) s1 = (Ok (), s2)" and
    3: "change (OpLinkSetUp ?gw) (\<lambda>h. no_value (LinkSetUp env h ?gw)) s2 = (Ok (), s3)" and
    4: "gateway_address env i m s3 = (Ok (), s')"
    by (auto simp: setupGatewayInterface_def Let_def gbind_Ok_iff sum_Ok_iff)
  have "boot s2 = boot s1" using unchangedD [OF unchanged_log_error [OF unchanged_boot(1)] 2] .
  moreover have "boot s3 = boot s2" using unchangedD [OF unchanged_boot(4) 3] .
  ultimately have same: "nd_ifs s3 = nd_ifs s1" "ag_config s3 = ag_config s1" by (simp_all add: boot_def)
  from gateway_port_Ok [OF 1] same assms(2) have
    "ag_config s3 = Some cfg" "GetInterface (nd_ifs s3) ?gw \<noteq> None"
    and keyed: "keyed (nd_ifs s) \<longrightarrow> keyed (nd_ifs s3)" and grown: "\<forall>k. GetInterface (nd_ifs s) k \<noteq> None \<longrightarrow> GetInterface (nd_ifs s3) k \<noteq> None" by simp_all
  from gateway_address_Ok [OF 4 this(1) assms(3) this(2)] keyed grown show ?thesis by blast
qed

lemma setUpOVSBridge_Ok:
  assumes "setUpOVSBridge env i s = (Ok (), s')"
    and "ag_config s = Some cfg" and "node_read env cfg local"
  shows "\<exists>cfg'. ag_config s' = Some cfg' \<and> node_read env cfg' local \<and> (keyed (nd_ifs s) \<longrightarrow> keyed (nd_ifs s')) \<and>
    gateway_known env i local cfg' (nd_ifs s') \<and> GetInterface (nd_ifs s') TunPortName \<noteq> None"
proof -
  from assms(1) obtain s1 s2 where
    1: "on_ovs_ifs (cache_Initialize (ne_ovs (ae_node env)) TunPortName) s = (Ok (), s1)" and
    2: "setUpTunnelInterface env TunPortName s1 = (Ok (), s2)" and
    3: "setupGatewayInterface env i s2 = (Ok (), s')"
    by (auto simp: setUpOVSBridge_def gbind_Ok_iff)
  from cache_Initialize_boot [OF 1] assms(2) have
    "keyed (nd_ifs s) \<longrightarrow> keyed (nd_ifs s1)" and "ag_config s1 = Some cfg"
    by (auto simp: keyed_initialized)
  with setUpTunnelInterface_Ok [OF 2] have "ag_config s2 = Some cfg"
    and "keyed (nd_ifs s) \<longrightarrow> keyed (nd_ifs s2)" "GetInterface (nd_ifs s2) TunPortName \<noteq> None" by simp_all
  with setupGatewayInterface_Ok [OF 3 this(1) assms(3)] show ?thesis by blast
qed

text \<open>A start-up that succeeded.\<close>

lemma agent_Initialize_Ok:
  assumes "agent_Initialize env i s = (Ok (), s')"
  shows "\<exists>cfg local. ag_config s' = Some cfg \<and> node_read env cfg local \<and> (keyed (nd_ifs s) \<longrightarrow> keyed (nd_ifs s')) \<and>
    gateway_known env i local cfg (nd_ifs s') \<and> GetInterface (nd_ifs s') TunPortName \<noteq> None"
proof -
  from assms(1) obtain s1 where 1: "initNodeLocalConfig env s = (Ok (), s1)"
    by (auto simp: agent_Initialize_def gbind_Ok_iff)
  from initNodeLocalConfig_Ok [OF 1] obtain cfg local where read: "node_read env cfg local"
    and s1: "s1 = s\<lparr>ag_config := Some cfg\<rparr>" by blast
  from assms(1) 1 s1 obtain s2 s3 c out where
    2: "gcatch (on_ipt (SetUpRules (ae_ipt env) c out))
      (\<lambda>err. throw (ErrWrap ''[Initialize] - error setting up iptables rules: '' err)) s1 = (Ok (), s2)" and
    3: "setUpOVSBridge env i s2 = (Ok (), s3)" and 4: "setUpFlow env s3 = (Ok (), s')"
    by (auto simp: agent_Initialize_def gbind_Ok_iff node_config_def gets_eval deref_def ret_eval throw_eval Let_def
        split: sum.splits)
  have "boot s2 = boot s1" using unchangedD [OF unchanged_gcatch [OF unchanged_boot(3) unchanged_boot(8)] 2] .
  then have "ag_config s2 = Some cfg" "nd_ifs s2 = nd_ifs s" using s1 by (simp_all add: boot_def)
  with setUpOVSBridge_Ok [OF 3 this(1) read] unchangedD [OF unchanged_setUpFlow 4] show ?thesis
    by (auto simp: boot_def)
qed

section \<open>Transactions of the set-up\<close>

lemma createPort_state:
  "snd (createPort env n ifn ty p ids opts br) = committed br (port_ops env (br_name br) n ifn ty p ids opts)"
proof -
  have "createPort env n ifn ty p ids opts br
      = gbind (commit env (port_ops env (br_name br) n ifn ty p ids opts)) (\<lambda>res. deref (result_uuid res 1)) br"
    by (simp add: createPort_def gbind_def)
  then show ?thesis by (simp add: commit_deref_state)
qed

lemma GetPortList_state: "\<exists>ops. snd (GetPortList env br) = committed br ops"
proof -
  let ?ops = "[TxSelect ''Bridge'' [''ports''] (by_name (br_name br)),
    TxSelect ''Port'' [''_uuid'', ''name'', ''external_ids'', ''interfaces''] [],
    TxSelect ''Interface'' [''_uuid'', ''name'', ''ofport''] []]"
  have "GetPortList env br = gbind (commit env ?ops) (\<lambda>res. deref (read_port_list env res)) br"
    by (simp add: GetPortList_def gbind_def)
  then show ?thesis using commit_deref_state by metis
qed

lemma SetInterfaceMTU_state: "\<exists>ops. snd (SetInterfaceMTU env n mtu br) = committed br ops"
  unfolding SetInterfaceMTU_def using snd_commit by (metis ret_eval snd_conv)

text \<open>No step changes the name of the bridge.\<close>

lemma cache_Initialize_name: "br_name (fst (snd (cache_Initialize ovs tp (br, ifs)))) = br_name br"
proof -
  obtain r br' where r: "GetPortList ovs br = (r, br')" by (cases "GetPortList ovs br")
  then obtain ops where "br' = committed br ops" using GetPortList_state [of ovs br] by auto
  with r show ?thesis by (cases r) (simp_all add: cache_Initialize_def gbind_eval on_fst_eval modify_eval)
qed

lemma CreateVXLANPort_name: "br_name (snd (CreateVXLANPort ovs n p a br)) = br_name br"
  by (simp add: CreateVXLANPort_def createTunnelPort_def Let_def createPort_state)

lemma unchanged_bridge_name:
  "unchanged (\<lambda>s. br_name (nd_ovs s)) (on_ovs_ifs (cache_Initialize ovs tp))"
  "unchanged (\<lambda>s. br_name (nd_ovs s)) (setUpTunnelInterface env name)"
  using cache_Initialize_name [of ovs tp]
   apply (simp add: unchanged_def on_ovs_ifs_def snd_zoom split: prod.split)
   apply (metis fst_conv)
  unfolding setUpTunnelInterface_def unchanged_iff_keeps
  apply (intro allI go_keeps)
   apply (simp_all add: keeps_def modify_def snd_zoom CreateVXLANPort_name)
  done

text \<open>What was committed stays in the log.\<close>

lemma SetInterfaceMTU_logged: "ops \<in> set (br_log br) \<Longrightarrow> ops \<in> set (br_log (snd (SetInterfaceMTU ovs gw mtu br)))"
  using SetInterfaceMTU_state [of ovs gw mtu br] by auto

lemma gateway_address_logged: "keeps (\<lambda>s. ops \<in> set (br_log (nd_ovs s))) (gateway_address env i m)"
  unfolding gateway_address_def node_config_def Let_def
  by (intro go_keeps) (simp_all add: keeps_def modify_def change_def split: sum.split)

lemma keeps_logged_rest:
  "keeps (\<lambda>s. ops \<in> set (br_log (nd_ovs s)))
     (gseq (log_error (on_ovs (SetInterfaceMTU ovs gw mtu)))
        (gbind (\<lambda>s. case wait_link env (nd_sys s) gw r n of Inl err \<Rightarrow> (Err err, s) | Inr m \<Rightarrow> (Ok m, s)) (\<lambda>m.
         gseq (change op q) (gateway_address env i m))))"
  unfolding log_error_def
  by (intro go_keeps gateway_address_logged)
    (simp_all add: keeps_def change_def snd_zoom SetInterfaceMTU_logged split: sum.split)

end
