(* ===== verification/NodeFlows.thy ===== *)
theory NodeFlows
  imports AgentFacts FlowProps
begin

text \<open>
  The flows to the other nodes: what one node of the list asks for, and that the flow of a node is on the switch when the
  list has been gone through.
\<close>

text \<open>The flow a node asks for, with the key it is cached under.\<close>

definition node_request :: "client \<Rightarrow> NodeConfig \<Rightarrow> k8s_node \<Rightarrow> (string \<times> flow) option" where
  "node_request c cfg nd =
     (if kn_Name nd = nc_NodeName cfg then
        (case parseDstIP (ipnet_ptr_string (nc_PodCIDR cfg)) of
           Inl err \<Rightarrow> None
         | Inr dst \<Rightarrow> Some (kn_Name nd @ ''-localIP'', the (case dst of
             Inr n \<Rightarrow> localIPFlowWithIPnet c n | Inl a \<Rightarrow> localIPFlowWithIP c a)))
      else
        (let peer = (case internal_address nd of None \<Rightarrow> [] | Some a \<Rightarrow> ParseIP a)
         in if peer = [] then None
            else case parseDstIP (kn_PodCIDR nd) of
                Inl err \<Rightarrow> None
              | Inr dst \<Rightarrow> Some (IPConnectionVxlan, the (case dst of
                  Inr n \<Rightarrow> ipTunFlowWithoutInPort c n peer | Inl a \<Rightarrow> ipTunFlowMatchIP c a 0 peer))))"

definition node_match :: "client \<Rightarrow> NodeConfig \<Rightarrow> k8s_node \<Rightarrow> string option" where
  "node_match c cfg nd = map_option (\<lambda>(key, f). MatchString f) (node_request c cfg nd)"

lemma flow_at_table: "table_at c k = Some t \<Longrightarrow> flow_at c k ms = Some (Done (chain (BuildFlow t) (ms t)))"
  by (simp add: flow_at_def)

lemma node_request_cong:
  "table_at c clusterFowardTable = table_at c' clusterFowardTable \<Longrightarrow> node_request c cfg nd = node_request c' cfg nd"
  by (simp add: node_request_def Let_def localIPFlowWithIPnet_def localIPFlowWithIP_def ipTunFlowWithoutInPort_def
      ipTunFlowMatchIP_def flow_at_def split: sum.split)

lemma addMissingFlows_no_panic: "fst (addMissingFlows (client_Add env) cat key fs c) \<noteq> Panic"
  using ofp.addMissingFlows_spec [of env cat key fs c] by auto

lemma log_error_run: "fst (m s) \<noteq> Panic \<Longrightarrow> log_error m s = (Ok (), snd (m s))"
  by (cases "m s"; cases "fst (m s)") (auto simp: log_error_def gcatch_eval ret_eval)

lemma node_flow_run:
  fixes s :: "('k, 'z) agent_node_scheme"
  assumes "table_at (nd_of s) clusterFowardTable = Some t" and "ag_config s = Some cfg"
  shows "node_flow env nd s = (Ok (), s\<lparr>nd_of := (case node_request (nd_of s) cfg nd of
      None \<Rightarrow> nd_of s
    | Some (key, f) \<Rightarrow> snd (addMissingFlows (client_Add (ne_of (ae_node env))) GeneralCache key [f] (nd_of s)))\<rparr>)"
proof -
  have zoomed: "log_error (on_of m) s = (Ok (), s\<lparr>nd_of := snd (m (nd_of s))\<rparr>)"
    if "fst (m (nd_of s)) \<noteq> Panic" for m
  proof -
    have run: "on_of m s = (fst (m (nd_of s)), s\<lparr>nd_of := snd (m (nd_of s))\<rparr>)"
      by (simp add: zoom_eval split: prod.split)
    with that show ?thesis by (subst log_error_run) simp_all
  qed
  have cfg: "node_config s = (Ok cfg, s)"
    using assms(2) by (simp add: node_config_def gbind_eval gets_eval deref_def ret_eval)
  show ?thesis
    using assms(1)
    by (simp add: node_flow_def gbind_eval cfg node_request_def Let_def InstallLocalIPFlow_def InstallTunFlow_def
        zoomed with_flows_def gets_eval deref_def ret_eval throw_eval addMissingFlows_no_panic
        localIPFlowWithIPnet_def localIPFlowWithIP_def ipTunFlowWithoutInPort_def ipTunFlowMatchIP_def flow_at_def
        split: sum.split option.split)
qed

section \<open>One flow\<close>

text \<open>A flow with another match text leaves the switch and the cache as they are at \<open>m\<close>.\<close>

lemma added_other:
  assumes "m \<notin> MatchString ` set fs" and "addMissingFlows (client_Add env) cat key fs c = (r, c')"
  shows "on_switch c' m = on_switch c m \<and>
    (m \<in> dom (map_of (flows_in c' cat' key')) \<longleftrightarrow> m \<in> dom (map_of (flows_in c cat' key'))) \<and> pipeline c' = pipeline c"
proof -
  let ?ms = "missing (dom (map_of (flows_in c cat key))) fs"
  obtain n where added: "ofp.added cat key c ?ms n c'"
    using ofp.addMissingFlows_spec [of env cat key fs c] assms(2) by auto
  have "set (missing K fs) \<subseteq> set fs" for K by (induction K fs rule: missing.induct) auto
  then have m: "m \<notin> MatchString ` set (take n ?ms)"
    using assms(1) by (meson image_mono in_mono order_trans set_take_subset)
  have "on_switch c' m = on_switch c m" using added note_flows_other [OF m] by (simp add: ofp.added_def)
  moreover have "map_of (flows_in c' cat key) m = map_of (flows_in c cat key) m"
    using added note_flows_other [OF m] by (simp add: ofp.added_def)
  moreover have "map_of (caches c' cat') key' = map_of (caches c cat') key'" if "(cat', key') \<noteq> (cat, key)"
    using added that by (simp add: ofp.added_def same_elsewhere_def)
  ultimately show ?thesis
    using pipeline_addMissingFlows [OF assms(2)]
    by (cases "(cat', key') = (cat, key)") (auto simp: flows_in_def domIff)
qed

lemma added_first:
  assumes "\<And>h k. accepts env h k" and "MatchString f \<notin> dom (map_of (flows_in c cat key))"
    and "addMissingFlows (client_Add env) cat key [f] c = (r, c')"
  shows "on_switch c' (MatchString f) = Some f \<and> MatchString f \<in> dom (map_of (flows_in c' cat key)) \<and>
    pipeline c' = pipeline c"
proof -
  have "r = Ok ()" using addMissingFlows_accepted [OF assms(1)] assms(3) by (metis fst_conv)
  then have "ofp.added cat key c [f] 1 c'"
    using ofp.addMissingFlows_spec [of env cat key "[f]" c] assms(2,3) by auto
  then show ?thesis using pipeline_addMissingFlows [OF assms(3)] by (simp add: ofp.added_def)
qed

section \<open>The list of nodes\<close>

definition nodes_ready :: "table \<Rightarrow> NodeConfig \<Rightarrow> ('k, 'z) agent_node_scheme \<Rightarrow> bool" where
  "nodes_ready t cfg s \<longleftrightarrow> table_at (nd_of s) clusterFowardTable = Some t \<and> ag_config s = Some cfg"

text \<open>The flow with the match \<open>m\<close> was not asked for yet; it is on the switch.\<close>

definition not_asked :: "string \<Rightarrow> ('k, 'z) agent_node_scheme \<Rightarrow> bool" where
  "not_asked m s \<longleftrightarrow> m \<notin> dom (map_of (flows_in (nd_of s) GeneralCache IPConnectionVxlan))"

definition in_place :: "flow \<Rightarrow> ('k, 'z) agent_node_scheme \<Rightarrow> bool" where
  "in_place f s \<longleftrightarrow> on_switch (nd_of s) (MatchString f) = Some f"

lemma node_flow_other:
  assumes "nodes_ready t cfg s" and "node_match (nd_of s) cfg nd \<noteq> Some m" and "node_flow env nd s = (r, s')"
  shows "r = Ok () \<and> nodes_ready t cfg s' \<and> (not_asked m s' \<longleftrightarrow> not_asked m s) \<and>
    on_switch (nd_of s') m = on_switch (nd_of s) m \<and> node_match (nd_of s') cfg = node_match (nd_of s) cfg"
proof -
  have t: "table_at (nd_of s) clusterFowardTable = Some t" "ag_config s = Some cfg"
    using assms(1) by (simp_all add: nodes_ready_def)
  note run = node_flow_run [OF t, of env nd]
  have cong: "node_match c cfg = node_match (nd_of s) cfg" if "table_at c clusterFowardTable = Some t" for c
    using that t node_request_cong [of c "nd_of s" cfg] by (auto simp: node_match_def fun_eq_iff)
  show ?thesis
  proof (cases "node_request (nd_of s) cfg nd")
    case None
    with run assms(3) have "r = Ok () \<and> s' = s" by simp
    with assms(1) show ?thesis by simp
  next
    case (Some kf)
    obtain key f where kf: "kf = (key, f)" by (cases kf)
    obtain r1 c1 where 1: "addMissingFlows (client_Add (ne_of (ae_node env))) GeneralCache key [f] (nd_of s) = (r1, c1)"
      by (cases "addMissingFlows (client_Add (ne_of (ae_node env))) GeneralCache key [f] (nd_of s)")
    have "m \<notin> MatchString ` set [f]" using assms(2) Some kf by (simp add: node_match_def)
    note other = added_other [OF this 1]
    then have "table_at c1 clusterFowardTable = Some t" using t table_at_cong [of c1 "nd_of s"] by simp
    moreover from this have "node_match c1 cfg = node_match (nd_of s) cfg" by (rule cong)
    moreover have "r = Ok () \<and> s' = s\<lparr>nd_of := c1\<rparr>" using run assms(3) Some kf 1 by simp
    ultimately show ?thesis using other t(2) by (simp add: nodes_ready_def not_asked_def)
  qed
qed

lemma node_flows_other:
  assumes "nodes_ready t cfg s" and "\<And>nd. nd \<in> set nds \<Longrightarrow> node_match (nd_of s) cfg nd \<noteq> Some m"
    and "gfor nds (node_flow env) s = (r, s')"
  shows "r = Ok () \<and> nodes_ready t cfg s' \<and> (not_asked m s' \<longleftrightarrow> not_asked m s) \<and>
    on_switch (nd_of s') m = on_switch (nd_of s) m \<and> node_match (nd_of s') cfg = node_match (nd_of s) cfg"
  using assms
proof (induction nds arbitrary: s)
  case Nil
  then show ?case by (simp add: ret_eval)
next
  case (Cons nd nds)
  obtain r1 s1 where 1: "node_flow env nd s = (r1, s1)" by (cases "node_flow env nd s")
  from node_flow_other [OF Cons.prems(1) _ 1, of m] Cons.prems(2) have
    s1: "r1 = Ok ()" "nodes_ready t cfg s1" "not_asked m s1 \<longleftrightarrow> not_asked m s"
      "on_switch (nd_of s1) m = on_switch (nd_of s) m" "node_match (nd_of s1) cfg = node_match (nd_of s) cfg" by simp_all
  have "gfor nds (node_flow env) s1 = (r, s')" using Cons.prems(3) 1 s1(1) by (simp add: gbind_eval)
  from Cons.IH [OF s1(2) _ this] Cons.prems(2) s1 show ?case by simp
qed

lemma constructIPTunFlow_in_place:
  assumes "nodes_ready t cfg s" and "\<And>h k. accepts (ne_of (ae_node env)) h k"
    and req: "node_request (nd_of s) cfg nd = Some (IPConnectionVxlan, f)"
    and others: "\<And>nd'. nd' \<in> set xs \<union> set ys \<Longrightarrow> node_match (nd_of s) cfg nd' \<noteq> Some (MatchString f)"
    and "not_asked (MatchString f) s" and "constructIPTunFlow env (xs @ nd # ys) s = (r, s')"
  shows "r = Ok () \<and> on_switch (nd_of s') (MatchString f) = Some f"
proof -
  let ?m = "MatchString f"
  obtain r1 s1 where 1: "gfor xs (node_flow env) s = (r1, s1)" by (cases "gfor xs (node_flow env) s")
  from node_flows_other [OF assms(1) _ 1, of ?m] others assms(5) have
    s1: "r1 = Ok ()" "nodes_ready t cfg s1" "not_asked ?m s1" "node_match (nd_of s1) cfg = node_match (nd_of s) cfg"
    by auto
  then have t1: "table_at (nd_of s1) clusterFowardTable = Some t" "ag_config s1 = Some cfg"
    by (simp_all add: nodes_ready_def)
  have "table_at (nd_of s1) clusterFowardTable = table_at (nd_of s) clusterFowardTable"
    using assms(1) t1 by (simp add: nodes_ready_def)
  from node_request_cong [OF this] req have req1: "node_request (nd_of s1) cfg nd = Some (IPConnectionVxlan, f)" by simp
  obtain r2 c2 where 2: "addMissingFlows (client_Add (ne_of (ae_node env))) GeneralCache IPConnectionVxlan [f] (nd_of s1) = (r2, c2)"
    by (cases "addMissingFlows (client_Add (ne_of (ae_node env))) GeneralCache IPConnectionVxlan [f] (nd_of s1)")
  have "?m \<notin> dom (map_of (flows_in (nd_of s1) GeneralCache IPConnectionVxlan))"
    using s1(3) by (simp add: not_asked_def)
  from added_first [OF assms(2) this 2] have c2: "on_switch c2 ?m = Some f" "pipeline c2 = pipeline (nd_of s1)" by simp_all
  let ?s2 = "s1\<lparr>nd_of := c2\<rparr>"
  have run2: "node_flow env nd s1 = (Ok (), ?s2)" using node_flow_run [OF t1, of env nd] req1 2 by simp
  have t2: "table_at c2 clusterFowardTable = Some t" using table_at_cong [OF c2(2)] t1 by simp
  then have ready2: "nodes_ready t cfg ?s2" using t1 by (simp add: nodes_ready_def)
  have "node_match c2 cfg = node_match (nd_of s1) cfg"
    using node_request_cong [of c2 "nd_of s1" cfg] t1 t2 by (auto simp: node_match_def fun_eq_iff)
  moreover have rest: "gfor ys (node_flow env) ?s2 = (r, s')"
    using assms(6) 1 s1(1) run2 by (simp add: constructIPTunFlow_def gfor_append gbind_eval)
  ultimately show ?thesis using node_flows_other [OF ready2 _ rest, of ?m] others s1(4) c2 by auto
qed

section \<open>The flows for ARP come first\<close>

lemma added_elsewhere:
  assumes "addMissingFlows (client_Add env) cat key fs c = (r, c')" and "(cat', key') \<noteq> (cat, key)"
  shows "flows_in c' cat' key' = flows_in c cat' key' \<and> pipeline c' = pipeline c \<and> r \<noteq> Panic"
  using ofp.addMissingFlows_spec [of env cat key fs c] assms pipeline_addMissingFlows [OF assms(1)]
  by (auto simp: ofp.added_def same_elsewhere_def flows_in_def)

lemma InstallARPFlow_elsewhere:
  assumes "table_at c clusterFowardTable = Some t" and "InstallARPFlow env ds c = (r, c')"
  shows "flows_in c' GeneralCache IPConnectionVxlan = flows_in c GeneralCache IPConnectionVxlan \<and>
    pipeline c' = pipeline c \<and> r \<noteq> Panic"
proof -
  obtain f g where fg: "arpFlow c (map ParseIP ds) = Some (f, g)"
    using assms(1) by (auto simp: arpFlow_def Let_def)
  obtain r1 c1 where 1: "addMissingFlows (client_Add env) GeneralCache ArpRequest [f] c = (r1, c1)"
    by (cases "addMissingFlows (client_Add env) GeneralCache ArpRequest [f] c")
  obtain r2 c2 where 2: "addMissingFlows (client_Add env) GeneralCache ArpResponse [g] c1 = (r2, c2)"
    by (cases "addMissingFlows (client_Add env) GeneralCache ArpResponse [g] c1")
  have keys: "IPConnectionVxlan \<noteq> ArpRequest" "IPConnectionVxlan \<noteq> ArpResponse"
    by (simp_all add: IPConnectionVxlan_def ArpRequest_def ArpResponse_def)
  have "r = (if r1 = Ok () then r2 else r1) \<and> c' = (if r1 = Ok () then c2 else c1)"
    using assms(2) fg 1 2 by (cases r1) (auto simp: InstallARPFlow_def gbind_eval gets_eval deref_def ret_eval)
  then show ?thesis
    using added_elsewhere [OF 1, of GeneralCache IPConnectionVxlan] added_elsewhere [OF 2, of GeneralCache IPConnectionVxlan] keys
    by (auto split: if_splits)
qed

lemma tunDsts_run: "ag_config s = Some cfg \<Longrightarrow> \<exists>ds. tunDsts nds s = (Ok ds, s)"
  by (induction nds) (auto simp: ret_eval gbind_eval node_config_def gets_eval deref_def)

lemma constructArpOpenflow_ready:
  assumes "nodes_ready t cfg s"
  shows "\<exists>s'. constructArpOpenflow env nds s = (Ok (), s') \<and> nodes_ready t cfg s' \<and>
    (not_asked m s' \<longleftrightarrow> not_asked m s)"
proof -
  have t: "table_at (nd_of s) clusterFowardTable = Some t" "ag_config s = Some cfg"
    using assms by (simp_all add: nodes_ready_def)
  obtain ds where ds: "tunDsts nds s = (Ok ds, s)" using tunDsts_run [OF t(2)] by blast
  obtain r c where c: "InstallARPFlow (ne_of (ae_node env)) ds (nd_of s) = (r, c)"
    by (cases "InstallARPFlow (ne_of (ae_node env)) ds (nd_of s)")
  note e = InstallARPFlow_elsewhere [OF t(1) c]
  then have "table_at c clusterFowardTable = Some t" using t(1) table_at_cong [of c "nd_of s"] by simp
  moreover have "log_error (on_of (InstallARPFlow (ne_of (ae_node env)) ds)) s = (Ok (), s\<lparr>nd_of := c\<rparr>)"
    using log_error_run [of "on_of (InstallARPFlow (ne_of (ae_node env)) ds)" s] c e by (simp add: zoom_eval)
  ultimately show ?thesis
    using assms e t(2) by (cases "ds = []")
      (auto simp: constructArpOpenflow_def gbind_eval ds ret_eval nodes_ready_def not_asked_def)
qed

end
