(* ===== verification/AgentSamples.thy ===== *)
theory AgentSamples
  imports NodeFlows ServerSamples
begin

text \<open>A host on which the agent starts, and the run of its command there.\<close>

definition agent_ovs :: ovs_env where
  "agent_ovs = ovs_answers
     [[\<lparr>ar_Rows = [JObj [(''_uuid'', JList (json_uuid ''b1''))]], ar_UUID = []\<rparr>], [],
      port_answer [] [],
      [\<lparr>ar_Rows = [], ar_UUID = []\<rparr>, \<lparr>ar_Rows = [], ar_UUID = [''uuid'', ''t1'']\<rparr>],
      [\<lparr>ar_Rows = [], ar_UUID = []\<rparr>, \<lparr>ar_Rows = [], ar_UUID = [''uuid'', ''g1'']\<rparr>], []]"

definition sample_nodes :: "k8s_node list" where
  "sample_nodes =
     [\<lparr>kn_Name = ''node1'', kn_PodCIDR = ''10.244.0.0/24'', kn_Addresses = [(''InternalIP'', ''192.168.0.6'')]\<rparr>,
      \<lparr>kn_Name = ''node2'', kn_PodCIDR = ''10.244.1.0/24'', kn_Addresses = [(''Hostname'', ''node2''), (''InternalIP'', ''192.168.0.7'')]\<rparr>]"

definition agent_sample :: "string \<Rightarrow> rule_list agent_env" where
  "agent_sample subnet = \<lparr>ae_node = (sample_env None)\<lparr>ne_ovs := agent_ovs\<rparr>, ae_ipt = list_ipt, ae_ipt_new = None,
     Getenv = (\<lambda>k. if k = NodeNameEnvKey then ''node1'' else []), Hostname = Inr ''host1'',
     GetNode = (\<lambda>n. Inr \<lparr>kn_Name = n, kn_PodCIDR = ''10.244.1.0/24'', kn_Addresses = []\<rparr>),
     KubeadmConfig = Inr [(''ClusterConfiguration'', subnet)], ClusterPodSubnet = (\<lambda>t. Inr t), ListNodes = Inr [],
     Routes = [], Links = Inr [], LinkByName = (\<lambda>h r n. if r < 2 then Inl (ErrText ''Link not found'') else Inr host_mac),
     IsLinkNotFound = (\<lambda>e. e = ErrText ''Link not found''), LinkSetUp = (\<lambda>h n. None), AddrList = (\<lambda>h n. Inr []),
     AddrAdd = (\<lambda>h n a. None)\<rparr>"

definition sample_command :: command_env where
  "sample_command = \<lparr>ParseFlags = (\<lambda>args. Inr []), ReadFile = (\<lambda>f. Inl (ErrText ''no such file'')),
     UnmarshalStrict = (\<lambda>t. Inr new_config), OvsdbDial = length, BuildConfigFromFlags = Inl (ErrText ''no such file''),
     InClusterConfig = Inr ''in cluster'', NewForConfig = (\<lambda>c. None),
     ListenUnix = (\<lambda>a. None)\<rparr>"

definition agent_start :: "rule_list agent_node" where
  "agent_start = \<lparr>nd_ovs = NewOVSBridge [] [], nd_of = br0, nd_ifs = NewInterfaceStore, nd_tc = [], nd_ipam = [],
     nd_sys = [], ag_ipt = ([], []), ag_config = None\<rparr>"

section \<open>The steps\<close>

definition sample_read :: "NodeConfig" where
  "sample_read = \<lparr>nc_NodeName = ''node1'', nc_PodCIDR = Some sample_net, nc_ClusterPodCIDR = Some sample_net,
     nc_Bridge = [], nc_Gateway = None\<rparr>"

lemma agent_init_config:
  "initNodeLocalConfig (agent_sample ''10.244.1.0/24'') s = (Ok (), s\<lparr>ag_config := Some sample_read\<rparr>)"
  by (simp add: initNodeLocalConfig_def getNodeName_def agent_sample_def Let_def ParseCIDR_sample modify_eval
      sample_read_def)

text \<open>The parts the later steps read: number of transactions, cache, configuration, flow client.\<close>

definition at_step :: "nat \<Rightarrow> (string \<Rightarrow> bool) \<Rightarrow> NodeConfig \<Rightarrow> client \<Rightarrow> ('k, 'z) agent_node_scheme \<Rightarrow> bool" where
  "at_step n known cfg c s \<longleftrightarrow> length (br_log (nd_ovs s)) = n \<and> (\<forall>k. GetInterface (nd_ifs s) k = None \<longleftrightarrow> \<not> known k) \<and>
     ag_config s = Some cfg \<and> nd_of s = c"

lemma agent_rules:
  assumes "at_step n known cfg c s"
  shows "\<exists>s'. on_ipt (SetUpRules list_ipt \<lparr>hostGateway = ''gw0'', podCIDR = p\<rparr> out) s = (Ok (), s') \<and> at_step n known cfg c s'"
  using SetUpRules_works [OF list_ipt_ok, of "\<lparr>hostGateway = ''gw0'', podCIDR = p\<rparr>" out "ag_ipt s"] assms
  by (auto simp: zoom_eval at_step_def)

lemma agent_cache:
  assumes "at_step 2 known cfg c s"
  shows "\<exists>s'. on_ovs_ifs (cache_Initialize agent_ovs TunPortName) s = (Ok (), s') \<and> at_step 3 known cfg c s'"
proof -
  have "GetPortList agent_ovs (nd_ovs s) = (Ok [], (nd_ovs s)\<lparr>br_log := port_list_ops (nd_ovs s) # br_log (nd_ovs s)\<rparr>)"
    using GetPortList_view [of agent_ovs "[]" "[]" "nd_ovs s"] assms
    by (simp add: agent_ovs_def ovs_answers_reads_sets view_ok_def at_step_def) (simp add: ovs_answers_def)
  then show ?thesis
    using assms by (simp add: on_ovs_ifs_def zoom_eval cache_Initialize_def gbind_eval on_fst_eval modify_eval at_step_def)
qed

lemma agent_create:
  "length (br_log br) = 3 \<Longrightarrow> \<exists>br'. CreateVXLANPort agent_ovs TunPortName tunOFPort [] br = (Ok ''t1'', br') \<and>
     length (br_log br') = 4"
  "length (br_log br) = 4 \<Longrightarrow> \<exists>br'. CreateInternalPort agent_ovs gw hostGatewayOFPort None br = (Ok ''g1'', br') \<and>
     length (br_log br') = 5"
  by (simp_all add: CreateVXLANPort_def createTunnelPort_def CreateInternalPort_def createPort_def gbind_eval commit_def
      agent_ovs_def ovs_answers_def Let_def result_uuid_def idx_def deref_def ret_eval)

lemma agent_mtu: "length (br_log br) = 5 \<Longrightarrow> \<exists>br'. SetInterfaceMTU agent_ovs gw mtu br = (Ok (), br')"
  by (simp add: SetInterfaceMTU_def gbind_eval commit_def agent_ovs_def ovs_answers_def Let_def ret_eval)

lemma agent_wait: "wait_link (agent_sample sub) h gw 0 maxRetryForHostLink = Inr host_mac"
  by (simp add: maxRetryForHostLink_def agent_sample_def numeral_eq_Suc)

lemma sample_ovs_env [simp]: "ne_ovs (ae_node (agent_sample sub)) = agent_ovs"
  by (simp add: agent_sample_def)

lemma agent_tunnel:
  assumes "at_step 3 (\<lambda>k. False) cfg c s"
  shows "\<exists>s'. setUpTunnelInterface (agent_sample sub) TunPortName s = (Ok (), s') \<and>
    at_step 4 (\<lambda>k. k = TunPortName) cfg c s'"
proof -
  obtain br where "CreateVXLANPort agent_ovs TunPortName tunOFPort [] (nd_ovs s) = (Ok ''t1'', br)" "length (br_log br) = 4"
    using agent_create(1) assms unfolding at_step_def by blast
  then show ?thesis
    using assms by (simp add: setUpTunnelInterface_def gbind_eval gets_eval zoom_eval modify_eval at_step_def cache.get_add)
qed

lemma agent_gateway_port:
  assumes "at_step 4 (\<lambda>k. k = TunPortName) cfg c s" and gw: "in_hostGateway i = ''gw0''"
  shows "\<exists>s'. gateway_port (agent_sample sub) i s = (Ok (), s') \<and>
    at_step 5 (\<lambda>k. k = TunPortName \<or> k = ''gw0'') cfg c s'"
proof -
  have none: "GetInterface (nd_ifs s) ''gw0'' = None" using assms by (simp add: at_step_def TunPortName_def)
  obtain br where br: "CreateInternalPort agent_ovs ''gw0'' hostGatewayOFPort None (nd_ovs s) = (Ok ''g1'', br)"
    "length (br_log br) = 5"
    using agent_create(2) assms unfolding at_step_def by blast
  have "gateway_port (agent_sample sub) i s = (Ok (), nd_ifs_update (AddInterface ''gw0'' ((NewGatewayInterface ''gw0'')
      \<lparr>if_port := Some \<lparr>po_IfaceName = ''gw0'', po_PortUUID = ''g1'', po_OFPort = hostGatewayOFPort\<rparr>\<rparr>))
      (s\<lparr>nd_ovs := br\<rparr>))"
    by (simp add: gateway_port_def Let_def gbind_eval gets_eval zoom_eval modify_eval gw none br(1))
  then show ?thesis using assms(1) br(2) by (auto simp: at_step_def cache.get_add)
qed

lemma agent_gateway_rest:
  assumes "at_step 5 known sample_read c s" and "in_hostGateway i = ''gw0''"
  shows "\<exists>s' cfg. gseq (log_error (on_ovs (SetInterfaceMTU agent_ovs ''gw0'' (in_MTU i))))
        (gbind (\<lambda>s. case wait_link (agent_sample sub) (nd_sys s) ''gw0'' 0 maxRetryForHostLink of
                  Inl err \<Rightarrow> (Err err, s) | Inr m \<Rightarrow> (Ok m, s)) (\<lambda>gwMAC.
         gseq (change (OpLinkSetUp ''gw0'') (\<lambda>h. no_value (LinkSetUp (agent_sample sub) h ''gw0'')))
              (gateway_address (agent_sample sub) i gwMAC))) s = (Ok (), s') \<and>
    ag_config s' = Some cfg \<and> nd_of s' = c"
proof -
  obtain br where br: "SetInterfaceMTU agent_ovs ''gw0'' (in_MTU i) (nd_ovs s) = (Ok (), br)"
    using agent_mtu assms(1) unfolding at_step_def by blast
  have up: "LinkSetUp (agent_sample sub) h n = None" "AddrList (agent_sample sub) h n = Inr []"
    "AddrAdd (agent_sample sub) h n a = None" for h n a
    by (simp_all add: agent_sample_def)
  show ?thesis
    using assms
    by (simp add: log_error_def gcatch_eval gbind_eval zoom_eval br agent_wait change_eval no_value_def up
        gateway_address_def node_config_def gets_eval deref_def ret_eval sample_read_def modify_eval Let_def at_step_def)
qed

lemma agent_bridge:
  assumes "at_step 2 (\<lambda>k. False) sample_read c s" and "in_hostGateway i = ''gw0''"
  shows "\<exists>s' cfg. setUpOVSBridge (agent_sample sub) i s = (Ok (), s') \<and> ag_config s' = Some cfg \<and> nd_of s' = c"
proof -
  obtain s1 where 1: "on_ovs_ifs (cache_Initialize agent_ovs TunPortName) s = (Ok (), s1)"
    "at_step 3 (\<lambda>k. False) sample_read c s1" using agent_cache [OF assms(1)] by blast
  obtain s2 where 2: "setUpTunnelInterface (agent_sample sub) TunPortName s1 = (Ok (), s2)"
    "at_step 4 (\<lambda>k. k = TunPortName) sample_read c s2" using agent_tunnel [OF 1(2)] by blast
  obtain s3 where 3: "gateway_port (agent_sample sub) i s2 = (Ok (), s3)"
    "at_step 5 (\<lambda>k. k = TunPortName \<or> k = ''gw0'') sample_read c s3"
    using agent_gateway_port [OF 2(2) assms(2)] by blast
  from agent_gateway_rest [OF 3(2) assms(2), of sub] 1(1) 2(1) 3(1) show ?thesis
    by (simp add: setUpOVSBridge_def gbind_eval setupGatewayInterface_def Let_def assms(2))
qed

section \<open>The command\<close>

lemma agent_flows: "\<exists>c'. FlowClient.Initialize ok_env (NewClient b) = (Ok (), c')"
  using Initialize_run [of ok_env b] by (simp add: ok_env_def split: prod.splits)

lemma agent_initialized:
  assumes "length (br_log (nd_ovs s)) = 2" and "nd_ifs s = NewInterfaceStore" and "nd_of s = NewClient b"
    and "in_hostGateway i = ''gw0''"
  shows "\<exists>s' cfg. agent_Initialize (agent_sample ''10.244.1.0/24'') i s = (Ok (), s') \<and> ag_config s' = Some cfg"
proof -
  let ?env = "agent_sample ''10.244.1.0/24''"
  let ?s1 = "s\<lparr>ag_config := Some sample_read\<rparr>"
  have 1: "at_step 2 (\<lambda>k. False) sample_read (NewClient b) ?s1"
    using assms by (simp add: at_step_def cache.get_new)
  obtain s2 where 2: "on_ipt (SetUpRules list_ipt \<lparr>hostGateway = ''gw0'', podCIDR = ipnet_ptr_string (Some sample_net)\<rparr> []) ?s1
      = (Ok (), s2)" "at_step 2 (\<lambda>k. False) sample_read (NewClient b) s2"
    using agent_rules [OF 1] by blast
  obtain s3 cfg where 3: "setUpOVSBridge ?env i s2 = (Ok (), s3)" "ag_config s3 = Some cfg" "nd_of s3 = NewClient b"
    using agent_bridge [OF 2(2) assms(4)] by blast
  obtain c' where c': "FlowClient.Initialize ok_env (NewClient b) = (Ok (), c')" using agent_flows by blast
  have env: "ae_ipt ?env = list_ipt" "ae_ipt_new ?env = None" "Routes ?env = []" "Links ?env = Inr []"
    "ListNodes ?env = Inr []" "ne_of (ae_node ?env) = ok_env"
    by (simp_all add: agent_sample_def sample_env_def)
  have "setUpFlow ?env s3 = (Ok (), s3\<lparr>nd_of := c'\<rparr>)"
    by (simp add: setUpFlow_def gbind_eval zoom_eval env 3(3) c' initOpenFlow_def constructArpOpenflow_def
        constructIPTunFlow_def ret_eval)
  then show ?thesis
    using 2(1) 3(1,2)
    by (simp add: agent_Initialize_def gbind_eval agent_init_config node_config_def gets_eval deref_def ret_eval
        sample_read_def ipt_NewClient_def env assms(4) GetDefaultInterface_def gw_index_def Let_def gcatch_eval)
qed

lemma agent_br_Create:
  "br_log br = [] \<Longrightarrow> \<exists>br'. br_Create agent_ovs br = (Ok (), br') \<and> length (br_log br') = 2"
proof -
  have rows: "row_uuid (JObj [(''_uuid'', JList (json_uuid ''b1''))]) = Some ''b1''"
    by (simp add: row_uuid_def json_uuid_def field_def idx_def)
  assume "br_log br = []"
  then show ?thesis
    by (simp add: br_Create_def lookupByName_def updateProtocols_def gbind_eval commit_def deref_def Let_def
        agent_ovs_def ovs_answers_def rows_def idx_def rows ret_eval modify_eval)
qed

lemma agent_command_runs:
  "\<exists>sv s'. agent_command sample_command (agent_sample ''10.244.1.0/24'') [] agent_start = (Ok (Some sv), s')"
proof -
  let ?env = "agent_sample ''10.244.1.0/24''" and ?c = "setDefaults new_config"
  have c: "op_config (snd (complete sample_command (NewOptions\<lparr>op_configFile := []\<rparr>))) = ?c"
    by (simp add: complete_def NewOptions_def)
  have gw: "ac_HostGateway ?c = ''gw0''" by (simp add: setDefaults_def new_config_def or_default_def option_defaults)
  obtain br where br: "br_Create agent_ovs (NewOVSBridge (ac_OVSBridge ?c) (ac_OVSDatapathType ?c)) = (Ok (), br)"
    "length (br_log br) = 2"
    using agent_br_Create [of "NewOVSBridge (ac_OVSBridge ?c) (ac_OVSDatapathType ?c)"] by (auto simp: NewOVSBridge_def)
  let ?s = "agent_start\<lparr>nd_ovs := br, nd_ifs := NewInterfaceStore, nd_of := NewClient (ac_OVSBridge ?c)\<rparr>"
  obtain s' cfg where "agent_Initialize ?env (NewInitializer (ac_HostGateway ?c) (ac_DefaultMTU ?c)) ?s = (Ok (), s')"
    "ag_config s' = Some cfg"
    using agent_initialized [of ?s "ac_OVSBridge ?c" "NewInitializer (ac_HostGateway ?c) (ac_DefaultMTU ?c)"] br(2) gw
    by (auto simp: NewInitializer_def)
  moreover have "CreateClient sample_command = None"
    by (simp add: sample_command_def CreateClient_def)
  ultimately show ?thesis
    using br(1) by (simp add: agent_command_def agent_run_def NewOVSDBConnectionUDS_def c Let_def gbind_eval modify_eval
        gcatch_eval zoom_eval gets_eval GetNodeConfig_def deref_def ret_eval)
qed

section \<open>A node with another one\<close>

definition own_net :: ipnet where
  "own_net = \<lparr>ipnet_IP = [10, 244, 0, 0], ipnet_Mask = [255, 255, 255, 0]\<rparr>"

lemma ParseCIDR_own: "ParseCIDR ''10.244.0.0/24'' = Inr (v4InV6Prefix @ [10, 244, 0, 0], own_net)"
proof -
  have "ParseAddr ''10.244.0.0'' = Some [10, 244, 0, 0]" by code_simp
  moreover have "dtoi 0 ''24'' = Some 24" by (simp add: digit_val_def)
  moreover have "CIDRMask 24 32 = [255, 255, 255, 0]" by code_simp
  moreover have "ip_Mask (v4InV6Prefix @ [10, 244, 0, 0]) [255, 255, 255, 0] = [10, 244, 0, 0]"
    by (simp add: ip_Mask_def v4InV6Prefix_def Let_def)
  ultimately show ?thesis by (simp add: ParseCIDR_def As16_def own_net_def Let_def)
qed

definition own_config :: NodeConfig where
  "own_config = sample_read\<lparr>nc_PodCIDR := Some own_net\<rparr>"

lemma own_match:
  "node_match br0 own_config (hd sample_nodes) \<noteq> Some (MatchString (the (ipTunFlowWithoutInPort br0 sample_net peer)))"
proof -
  have "ipnet_string own_net = ''10.244.0.0/24''" by code_simp
  then have "node_request br0 own_config (hd sample_nodes) = Some (''node1-localIP'', the (localIPFlowWithIPnet br0 own_net))"
    by (simp add: node_request_def own_config_def sample_read_def sample_nodes_def ipnet_ptr_string_def
        parseDstIP_CIDR [OF ParseCIDR_own])
  moreover have "MatchString (the (localIPFlowWithIPnet br0 own_net)) \<noteq>
      MatchString (the (ipTunFlowWithoutInPort br0 sample_net []))" by code_simp
  moreover have "MatchString (the (ipTunFlowWithoutInPort br0 sample_net peer)) =
      MatchString (the (ipTunFlowWithoutInPort br0 sample_net []))"
  proof -
    obtain t where "table_at br0 clusterFowardTable = Some t" by (auto simp: br0_def table_at_br0 table_ids)
    then show ?thesis by (simp add: ipTunFlowWithoutInPort_def flow_at_def chain_def)
  qed
  ultimately show ?thesis by (simp add: node_match_def)
qed

end
