(* ===== verification/CniClient.thy ===== *)
theory CniClient
  imports CniServer
begin

text \<open>
  \<open>pkg/cni/client.go\<close>: the CNI plugin, which hands a command of the container runtime to the server over gRPC and
  reports its answer.
\<close>

datatype Action = ActionAdd | ActionCheck | ActionDel

record skel_args =
  sk_ContainerID :: string
  sk_Netns :: string
  sk_IfName :: string
  sk_Args :: string
  sk_Path :: string
  sk_StdinData :: string

text \<open>An error of gRPC with its status code; what a command reports to the runtime.\<close>

record rpc_error =
  rpc_code :: nat
  rpc_text :: string

datatype plugin_error = DialError error | CniError nat string string

definition codes_DeadlineExceeded :: nat where "codes_DeadlineExceeded = 4"
definition codes_Unimplemented :: nat where "codes_Unimplemented = 12"
definition codes_Unavailable :: nat where "codes_Unavailable = 14"

definition UNKNOWN_RPC_ERROR :: nat where "UNKNOWN_RPC_ERROR = 201"
definition INCOMPATIBLE_API_VERSION :: nat where "INCOMPATIBLE_API_VERSION = 202"
definition TRY_AGAIN_LATER :: nat where "TRY_AGAIN_LATER = 11"

lemmas rpc_codes = codes_DeadlineExceeded_def codes_Unimplemented_def codes_Unavailable_def
  UNKNOWN_RPC_ERROR_def INCOMPATIBLE_API_VERSION_def TRY_AGAIN_LATER_def

text \<open>The connection: the error of dialling, and the calls over a state of the server.\<close>

record 's rpc =
  Dial :: "error option"
  Call :: "Action \<Rightarrow> CniCmdArgs option \<Rightarrow> 's \<Rightarrow> (rpc_error + CniCmdResponse) \<times> 's"

definition request_of :: "skel_args \<Rightarrow> CniCmdArgs option" where
  "request_of arg = Some \<lparr>ca_ContainerId = sk_ContainerID arg, ca_Netns = sk_Netns arg,
     ca_Ifname = sk_IfName arg, ca_Args = sk_Args arg, ca_Path = sk_Path arg,
     ca_NetworkConfiguration = sk_StdinData arg\<rparr>"

text \<open>The error reported for an answer, and what is written to the standard output.\<close>

definition report :: "rpc_error + CniCmdResponse \<Rightarrow> plugin_error option \<times> string" where
  "report r = (case r of
     Inl err \<Rightarrow>
       (if rpc_code err = codes_Unimplemented
        then (Some (CniError INCOMPATIBLE_API_VERSION
          ''incompatible CNI API version between client (antrea-cni) and server (antrea-agent)''
          (''service or method unimplemented by gRPC server: '' @ rpc_text err)), [])
        else if rpc_code err = codes_Unavailable \<or> rpc_code err = codes_DeadlineExceeded
        then (Some (CniError TRY_AGAIN_LATER (rpc_text err) []), [])
        else (Some (CniError UNKNOWN_RPC_ERROR (rpc_text err) []), []))
   | Inr resp \<Rightarrow>
       (case rs_Error resp of
          Some (code, msg) \<Rightarrow> (Some (CniError code msg []), [])
        | None \<Rightarrow> (None, rs_CniResult resp)))"

text \<open>\<open>withClient\<close> around a call, without which nothing is called; the output is what was written before and after.\<close>

type_synonym 's plugin = "'s \<times> string \<Rightarrow> plugin_error option \<times> ('s \<times> string)"

definition rpcClient :: "'s rpc \<Rightarrow> 's plugin \<Rightarrow> 's plugin" where
  "rpcClient rpc f = (\<lambda>s. case Dial rpc of Some err \<Rightarrow> (Some (DialError err), s) | None \<Rightarrow> f s)"

definition Request :: "'s rpc \<Rightarrow> Action \<Rightarrow> skel_args \<Rightarrow> 's plugin" where
  "Request rpc a arg = rpcClient rpc (\<lambda>(s, stdout).
     case Call rpc a (request_of arg) s of (r, s') \<Rightarrow>
       (case report r of (err, output) \<Rightarrow> (err, (s', stdout @ output))))"

definition plugin_CmdAdd :: "'s rpc \<Rightarrow> skel_args \<Rightarrow> 's plugin" where
  "plugin_CmdAdd rpc arg = rpcClient rpc (\<lambda>(s, stdout).
     case Call rpc ActionAdd (request_of arg) s of (r, s') \<Rightarrow>
       (case report r of (err, output) \<Rightarrow> (err, (s', stdout @ output))))"

definition plugin_CmdDel :: "skel_args \<Rightarrow> 's plugin" where
  "plugin_CmdDel arg = (\<lambda>s. (None, s))"

text \<open>\<open>cmd/cni\<close>: the three commands of the plugin.\<close>

definition plugin_main :: "'s rpc \<Rightarrow> Action \<Rightarrow> skel_args \<Rightarrow> 's plugin" where
  "plugin_main rpc cmd = (case cmd of
     ActionAdd \<Rightarrow> Request rpc ActionAdd
   | ActionCheck \<Rightarrow> Request rpc ActionCheck
   | ActionDel \<Rightarrow> Request rpc ActionDel)"

section \<open>The server at the other end\<close>

text \<open>
  The handlers never return a gRPC error. A handler that panics ends the process of the server: the client sees the
  connection break, with the text of the transport.
\<close>

definition handle ::
  "cni_env \<Rightarrow> node_env \<Rightarrow> CniServer \<Rightarrow> Action \<Rightarrow> CniCmdArgs option \<Rightarrow> ('z node_scheme, CniCmdResponse) go" where
  "handle cenv env sv a rq = (case a of
     ActionAdd \<Rightarrow> CmdAdd cenv env sv rq | ActionDel \<Rightarrow> CmdDel cenv env sv rq | ActionCheck \<Rightarrow> CmdCheck cenv sv rq)"

definition server_rpc :: "string \<Rightarrow> cni_env \<Rightarrow> node_env \<Rightarrow> CniServer \<Rightarrow> 'z node_scheme rpc" where
  "server_rpc broken cenv env sv = \<lparr>Dial = None, Call = (\<lambda>a rq s. case handle cenv env sv a rq s of
     (Ok rs, s') \<Rightarrow> (Inr rs, s') | (_, s') \<Rightarrow> (Inl \<lparr>rpc_code = codes_Unavailable, rpc_text = broken\<rparr>, s'))\<rparr>"

end
