(* ===== verification/AgentProps.thy ===== *)
theory AgentProps
  imports AgentSamples CniClient ServerProps
begin

text \<open>
  Properties of the agent's start-up, its command line and the plugin that talks to it.
\<close>

section \<open>Start-up\<close>

text \<open>What a command that gets to start the server has set up.\<close>

lemma agent_command_ready:
  assumes "agent_command cenv env file s = (Ok (Some sv), s')"
  shows "\<exists>cfg local c gw. sv_nodeConfig sv = cfg \<and> ag_config s' = Some cfg \<and> node_read env cfg local \<and>
    nc_ClusterPodCIDR cfg \<noteq> None \<and> nc_Gateway cfg = Some gw \<and>
    gw_IP gw = NextIP (ne_sys (ae_node env)) (ip_Mask (ipnet_IP local) (ipnet_Mask local)) \<and>
    GetInterface (nd_ifs s') (gw_Name gw) = Some c \<and> if_IP c = gw_IP gw \<and> if_MAC c = gw_MAC gw \<and>
    GetInterface (nd_ifs s') TunPortName \<noteq> None \<and>
    (\<forall>ce e s''. served ce e sv s' s'' \<longrightarrow> keyed (nd_ifs s''))"
proof -
  let ?c = "op_config (snd (complete cenv (NewOptions\<lparr>op_configFile := file\<rparr>)))"
  let ?i = "NewInitializer (ac_HostGateway ?c) (ac_DefaultMTU ?c)"
  from assms obtain s1 cfg' where
    2: "agent_Initialize env ?i s1 = (Ok (), s')" and 1: "nd_ifs s1 = NewInterfaceStore" and 3: "ag_config s' = Some cfg'" and
    4: "sv = cni_New (ac_CNISocket ?c) cfg' (ac_DefaultMTU ?c) (ac_HostProcPathPrefix ?c)"
    by (auto simp: agent_command_def agent_run_def NewOVSDBConnectionUDS_def Let_def gbind_Ok_iff modify_eval throw_eval ret_eval
        gets_eval GetNodeConfig_def deref_def panic_eval split: option.splits)
  have "keyed (nd_ifs s1)" using 1 by (simp add: keyed_def cache.get_new)
  with agent_Initialize_Ok [OF 2] 3 obtain local where cfg: "node_read env cfg' local" "keyed (nd_ifs s')"
      "gateway_known env ?i local cfg' (nd_ifs s')" "GetInterface (nd_ifs s') TunPortName \<noteq> None" by auto
  have "\<forall>ce e s''. served ce e sv s' s'' \<longrightarrow> keyed (nd_ifs s'')" using served_keyed cfg(2) by blast
  moreover have "sv_nodeConfig sv = cfg'" using 4 by (simp add: cni_New_def)
  ultimately show ?thesis using 3 cfg by (fastforce simp: gateway_known_def)
qed

lemma agent_main_serves:
  "agent_main cenv env args s = (Serves sv, s') \<Longrightarrow> \<exists>file. agent_command cenv env file s = (Ok (Some sv), s')"
  by (auto simp: agent_main_def server_Run_def split: sum.splits prod.splits result.splits option.splits)

text \<open>
  C12: The agent only serves when it is ready: if the process gets to serve -- the command line parsed, the run without
  an error, the socket open --, the server's configuration names this node, its pod network is the one parsed from the
  node object, the cluster's pod network is there, the gateway has the address after the number of the pod network, the
  cache holds the tunnel and the gateway with that address and is keyed by the ports -- and it stays so through every
  sequence of requests.
\<close>

theorem agent_ready:
  assumes "agent_main cenv env args s = (Serves sv, s')"
  shows "\<exists>cfg local c gw. sv_nodeConfig sv = cfg \<and> ag_config s' = Some cfg \<and> node_read env cfg local \<and>
    nc_ClusterPodCIDR cfg \<noteq> None \<and> nc_Gateway cfg = Some gw \<and>
    gw_IP gw = NextIP (ne_sys (ae_node env)) (ip_Mask (ipnet_IP local) (ipnet_Mask local)) \<and>
    GetInterface (nd_ifs s') (gw_Name gw) = Some c \<and> if_IP c = gw_IP gw \<and> if_MAC c = gw_MAC gw \<and>
    GetInterface (nd_ifs s') TunPortName \<noteq> None \<and>
    (\<forall>ce e s''. served ce e sv s' s'' \<longrightarrow> keyed (nd_ifs s''))"
  using agent_main_serves [OF assms] agent_command_ready by blast

lemma agent_ready_witness:
  "\<exists>sv s' gw. agent_main sample_command (agent_sample ''10.244.1.0/24'') [] agent_start = (Serves sv, s') \<and>
     nc_Gateway (sv_nodeConfig sv) = Some gw \<and> GetInterface (nd_ifs s') TunPortName \<noteq> None"
proof -
  obtain sv s' where "agent_command sample_command (agent_sample ''10.244.1.0/24'') [] agent_start = (Ok (Some sv), s')"
    using agent_command_runs by blast
  then have run: "agent_main sample_command (agent_sample ''10.244.1.0/24'') [] agent_start = (Serves sv, s')"
    by (simp add: agent_main_def server_Run_def sample_command_def)
  from agent_ready [OF run] run show ?thesis by blast
qed



text \<open>
  The wait for the gateway's link makes at most five attempts and stops at the first one that does not say that the
  link is not there: its link or its error is the result, and only if all five say so the link is not found.
\<close>

lemma gateway_link_wait:
  "wait_link env h name 0 maxRetryForHostLink =
     (let absent = (\<lambda>r. case LinkByName env h r name of Inl e \<Rightarrow> IsLinkNotFound env e | Inr m \<Rightarrow> False)
      in case filter (\<lambda>r. \<not> absent r) [0, 1, 2, 3, 4] of
           [] \<Rightarrow> Inl (ErrText (''[setupGateway] - link '' @ name @ '' not found''))
         | r # rs \<Rightarrow> LinkByName env h r name)"
proof -
  have "find P xs = (case filter P xs of [] \<Rightarrow> None | r # rs \<Rightarrow> Some r)" for P and xs :: "nat list"
    by (induction xs) auto
  moreover have "[0..<0 + maxRetryForHostLink] = [0, 1, 2, 3, 4]"
    by (simp add: maxRetryForHostLink_def upt_rec)
  ultimately show ?thesis by (simp add: wait_link_eq Let_def split: list.split)
qed

text \<open>
  C36: After a restart the gateway port is created again: the cache is filled from the bridge with the tunnel port only, so
  a set-up that starts from an empty cache sends the insertion of the gateway port whatever ports the bridge has.
\<close>

theorem gateway_port_recreated:
  assumes "setUpOVSBridge env i s = (Ok (), s')" and "nd_ifs s = NewInterfaceStore"
    and "in_hostGateway i \<noteq> TunPortName"
  shows "port_ops (ne_ovs (ae_node env)) (br_name (nd_ovs s)) (in_hostGateway i) (in_hostGateway i) ''internal''
      hostGatewayOFPort None None \<in> set (br_log (nd_ovs s'))"
proof -
  let ?ovs = "ne_ovs (ae_node env)" and ?gw = "in_hostGateway i"
  from assms(1) obtain s1 s2 s3 where
    1: "on_ovs_ifs (cache_Initialize ?ovs TunPortName) s = (Ok (), s1)" and
    2: "setUpTunnelInterface env TunPortName s1 = (Ok (), s2)" and
    3: "gateway_port env i s2 = (Ok (), s3)" and
    4: "gseq (log_error (on_ovs (SetInterfaceMTU ?ovs ?gw (in_MTU i))))
        (gbind (\<lambda>s. case wait_link env (nd_sys s) ?gw 0 maxRetryForHostLink of
            Inl err \<Rightarrow> (Err err, s) | Inr m \<Rightarrow> (Ok m, s)) (\<lambda>gwMAC.
         gseq (change (OpLinkSetUp ?gw) (\<lambda>h. no_value (LinkSetUp env h ?gw))) (gateway_address env i gwMAC))) s3 = (Ok (), s')"
    by (auto simp: setUpOVSBridge_def setupGatewayInterface_def Let_def gbind_Ok_iff)
  obtain ports where "nd_ifs s1 = fold (cache_port TunPortName) ports (nd_ifs s)" and n1: "br_name (nd_ovs s1) = br_name (nd_ovs s)"
    using cache_Initialize_boot [OF 1] unchangedD [OF unchanged_bridge_name(1) 1] by blast
  then have "GetInterface (nd_ifs s1) ?gw = None"
    using assms(2,3) by (simp add: GetInterface_def map_of_cache_ports NewInterfaceStore_def)
  then have none: "GetInterface (nd_ifs s2) ?gw = None"
    using 2 assms(3) by (auto simp: setUpTunnelInterface_def gbind_Ok_iff gets_eval ret_eval modify_eval zoom_eval
        cache.get_add split: option.splits prod.splits)
  have n2: "br_name (nd_ovs s2) = br_name (nd_ovs s)" using unchangedD [OF unchanged_bridge_name(2) 2] n1 by simp
  from 3 none have "nd_ovs s3 = snd (CreateInternalPort ?ovs ?gw hostGatewayOFPort None (nd_ovs s2))"
    by (auto simp: gateway_port_def Let_def gbind_Ok_iff gets_eval modify_eval zoom_eval split: prod.splits)
  then have "port_ops ?ovs (br_name (nd_ovs s)) ?gw ?gw ''internal'' hostGatewayOFPort None None \<in> set (br_log (nd_ovs s3))"
    using n2 by (simp add: CreateInternalPort_def createPort_state)
  then show ?thesis by (rule keepsE [OF keeps_logged_rest _ 4])
qed

lemma gateway_port_recreated_witness:
  "\<exists>s'. setUpOVSBridge (agent_sample []) (NewInitializer ''gw0'' 1450)
      (agent_start\<lparr>nd_ovs := (NewOVSBridge ''br-int'' [])\<lparr>br_log := [[], []]\<rparr>, ag_config := Some sample_read\<rparr>) = (Ok (), s') \<and>
    port_ops agent_ovs ''br-int'' ''gw0'' ''gw0'' ''internal'' hostGatewayOFPort None None \<in> set (br_log (nd_ovs s'))"
proof -
  let ?s = "agent_start\<lparr>nd_ovs := (NewOVSBridge ''br-int'' [])\<lparr>br_log := [[], []]\<rparr>, ag_config := Some sample_read\<rparr>"
  let ?i = "NewInitializer ''gw0'' 1450"
  have "at_step 2 (\<lambda>k. False) sample_read br0 ?s" by (simp add: at_step_def agent_start_def cache.get_new)
  from agent_bridge [OF this, of ?i] obtain s' where run: "setUpOVSBridge (agent_sample []) ?i ?s = (Ok (), s')"
    by (auto simp: NewInitializer_def)
  have "nd_ifs ?s = NewInterfaceStore" "in_hostGateway ?i \<noteq> TunPortName" "in_hostGateway ?i = ''gw0''"
    "br_name (nd_ovs ?s) = ''br-int''"
    by (simp_all add: agent_start_def NewInitializer_def TunPortName_def NewOVSBridge_def)
  with gateway_port_recreated [OF run] run show ?thesis by (simp add: NewInitializer_def)
qed

section \<open>The flows to the other nodes\<close>

text \<open>
  C20: A remote node with an internal address is reachable after the start-up: if the switch accepts commands and no
  other node's flow has the same match, the flow that sends the node's pod network through the tunnel to that address
  is on the switch when the list of nodes has been gone through, whatever could not be installed for the others.
\<close>

theorem node_flow_installed:
  assumes "ListNodes env = Inr (xs @ nd # ys)" and "\<And>h k. accepts (ne_of (ae_node env)) h k"
    and "table_at (nd_of s) clusterFowardTable = Some t" and "ag_config s = Some cfg"
    and "kn_Name nd \<noteq> nc_NodeName cfg" and "internal_address nd = Some a" and "ParseIP a \<noteq> []"
    and "ParseCIDR (kn_PodCIDR nd) = Inr (x, n)"
    and "ipTunFlowWithoutInPort (nd_of s) n (ParseIP a) = Some f"
    and "\<And>nd'. nd' \<in> set xs \<union> set ys \<Longrightarrow> node_match (nd_of s) cfg nd' \<noteq> Some (MatchString f)"
    and "MatchString f \<notin> dom (map_of (flows_in (nd_of s) GeneralCache IPConnectionVxlan))"
  shows "\<exists>s'. initOpenFlow env s = (Ok (), s') \<and> on_switch (nd_of s') (MatchString f) = Some f"
proof -
  have ready: "nodes_ready t cfg s" using assms(3,4) by (simp add: nodes_ready_def)
  have asked: "not_asked (MatchString f) s" using assms(11) by (simp add: not_asked_def)
  obtain s1 where 1: "constructArpOpenflow env (xs @ nd # ys) s = (Ok (), s1)" "nodes_ready t cfg s1"
    "not_asked (MatchString f) s1"
    using constructArpOpenflow_ready [OF ready, of env "xs @ nd # ys" "MatchString f"] asked by blast
  have same: "table_at (nd_of s1) clusterFowardTable = table_at (nd_of s) clusterFowardTable"
    using ready 1(2) by (simp add: nodes_ready_def)
  have "node_request (nd_of s) cfg nd = Some (IPConnectionVxlan, f)"
    using assms(5-9) by (simp add: node_request_def Let_def parseDstIP_CIDR)
  then have req: "node_request (nd_of s1) cfg nd = Some (IPConnectionVxlan, f)" using node_request_cong [OF same] by simp
  have others: "node_match (nd_of s1) cfg nd' \<noteq> Some (MatchString f)" if "nd' \<in> set xs \<union> set ys" for nd'
    using assms(10) [OF that] node_request_cong [OF same, of cfg nd'] by (simp add: node_match_def)
  obtain r s2 where 2: "constructIPTunFlow env (xs @ nd # ys) s1 = (r, s2)"
    by (cases "constructIPTunFlow env (xs @ nd # ys) s1")
  from constructIPTunFlow_in_place [OF 1(2) assms(2) req others 1(3) 2] 1(1) 2 show ?thesis
    by (simp add: initOpenFlow_def assms(1) gbind_eval)
qed

text \<open>The first of two nodes is this one, the second is reached over 192.168.0.7.\<close>

lemma node_flow_installed_witness:
  "\<exists>s' f. initOpenFlow ((agent_sample [])\<lparr>ListNodes := Inr sample_nodes\<rparr>)
      (agent_start\<lparr>ag_config := Some own_config\<rparr>) = (Ok (), s') \<and>
    on_switch (nd_of s') (MatchString f) = Some f \<and>
    ipTunFlowWithoutInPort br0 sample_net (ParseIP ''192.168.0.7'') = Some f"
proof -
  let ?env = "(agent_sample [])\<lparr>ListNodes := Inr sample_nodes\<rparr>"
  let ?s = "agent_start\<lparr>ag_config := Some own_config\<rparr>" and ?nd = "sample_nodes ! 1"
  obtain t where t: "table_at br0 clusterFowardTable = Some t" by (auto simp: br0_def table_at_br0 table_ids)
  then obtain f where f: "ipTunFlowWithoutInPort br0 sample_net (ParseIP ''192.168.0.7'') = Some f"
    by (simp add: ipTunFlowWithoutInPort_def flow_at_def)
  have nodes: "ListNodes ?env = Inr ([hd sample_nodes] @ ?nd # [])" by (simp add: sample_nodes_def)
  have ok: "accepts (ne_of (ae_node ?env)) h k" for h k by (simp add: agent_sample_def sample_env_def)
  have s: "nd_of ?s = br0" "ag_config ?s = Some own_config" by (simp_all add: agent_start_def)
  have nd: "kn_Name ?nd \<noteq> nc_NodeName own_config" "internal_address ?nd = Some ''192.168.0.7''"
    "kn_PodCIDR ?nd = ''10.244.1.0/24''"
    by (simp_all add: sample_nodes_def own_config_def sample_read_def internal_address_def NodeInternalIP_def)
  have peer: "ParseIP ''192.168.0.7'' \<noteq> []" by code_simp
  have fresh: "MatchString f \<notin> dom (map_of (flows_in br0 GeneralCache IPConnectionVxlan))"
    using fresh_samples(1) by (simp add: fresh_client_def flows_in_def)
  have other: "node_match (nd_of ?s) own_config nd' \<noteq> Some (MatchString f)" if "nd' \<in> set [hd sample_nodes] \<union> set []" for nd'
    using that own_match [of "ParseIP ''192.168.0.7''"] f s by simp
  from node_flow_installed [OF nodes ok _ s(2) nd(1,2) peer, of t] t s nd(3) ParseCIDR_sample f other fresh
  show ?thesis by fastforce
qed

section \<open>The command line\<close>

text \<open>
  A configuration file that cannot be read does not stop the agent: the error of \<open>complete\<close> is dropped and the agent
  runs with an empty configuration, without even the defaults -- a bridge without a name, and if it starts, a
  server without a socket address.
\<close>

lemma config_error_ignored:
  assumes "file \<noteq> []" and "loadConfigFromFile cenv file = Inl err"
  shows "agent_command cenv env file = agent_run cenv env \<lparr>op_configFile = file, op_config = new_config\<rparr> \<and>
    (\<forall>s. case agent_command cenv env file s of
       (Ok (Some sv), s') \<Rightarrow> sv_socketAddr sv = [] \<and> sv_defaultMTU sv = 0 \<and> sv_hostProcPathPrefix sv = []
     | _ \<Rightarrow> True)"
proof -
  have cmd: "agent_command cenv env file = agent_run cenv env \<lparr>op_configFile = file, op_config = new_config\<rparr>"
    using assms by (simp add: agent_command_def complete_def NewOptions_def)
  have "sv_socketAddr sv = [] \<and> sv_defaultMTU sv = 0 \<and> sv_hostProcPathPrefix sv = []"
    if "agent_run cenv env \<lparr>op_configFile = file, op_config = new_config\<rparr> s = (Ok (Some sv), s')" for s sv s'
    using that by (auto simp: agent_run_def NewOVSDBConnectionUDS_def Let_def gbind_Ok_iff modify_eval throw_eval ret_eval cni_New_def
        new_config_def split: option.splits)
  then show ?thesis by (auto simp: cmd split: prod.split result.split option.split)
qed

lemma config_error_ignored_witness:
  "agent_command sample_command (agent_sample []) ''agent.yaml'' =
     agent_run sample_command (agent_sample []) \<lparr>op_configFile = ''agent.yaml'', op_config = new_config\<rparr>"
proof -
  have "loadConfigFromFile sample_command ''agent.yaml'' = Inl (ErrText ''no such file'')"
    by (simp add: loadConfigFromFile_def sample_command_def)
  then show ?thesis by (rule config_error_ignored [THEN conjunct1, rotated]) simp
qed

section \<open>The plugin\<close>

text \<open>A handler answers or panics: it never returns an error of its own.\<close>

lemma no_error_checkRequest: "no_error (checkReuquestMessage cenv sv rq)"
  unfolding checkReuquestMessage_def Let_def by (intro no_error_steps)

lemma handlers_no_Err:
  fixes s :: "'z node_scheme"
  shows "handle cenv env sv a rq s \<noteq> (Err e, s')"
proof -
  have "no_error (handle cenv env sv a rq :: ('z node_scheme, CniCmdResponse) go)"
    unfolding handle_def CmdAdd_def CmdDel_def CmdCheck_def Let_def
    by (cases a) (auto intro!: no_error_steps no_error_checkRequest)
  then show ?thesis by (simp add: no_error_def)
qed

text \<open>
  C24: What the container runtime is told of an addition is what happened on the node: no error, with the server's result
  on the standard output, if the interface is in the cache with its port (or the flows of coreDNS failed); else an error of
  the server's code and nothing on the output -- decoding, with the node unchanged; IPAM, with only plugins called;
  configuration, with the cache as before and the port gone -- or try-again-later if the server broke down.
\<close>

theorem plugin_add_reports:
  assumes "plugin_main (server_rpc broken cenv env sv) ActionAdd arg (s, out) = (err, (s', out'))"
  shows "case err of
      None \<Rightarrow> \<exists>rs cfg p ns. CmdAdd cenv env sv (request_of arg) s = (Ok rs, s') \<and> out' = out @ rs_CniResult rs \<and>
        loadNetworkConfig cenv sv (request_of arg) s = (Ok cfg, s) \<and>
        p = ka_POD_NAME (cc_k8s cfg) \<and> ns = ka_POD_NAMESPACE (cc_k8s cfg) \<and>
        ((\<exists>name. port_kept env name (nd_ovs s) (nd_ovs s') (nd_ifs s) (nd_ifs s')) \<or>
         (is_coredns p ns \<and> dns_failed env (ca_ContainerId (cc_args cfg)) (nd_of s) (nd_of s')))
    | Some (CniError code msg details) \<Rightarrow> out' = out \<and>
        (code = DECODING_FAILURE \<and> s' = s \<or> code = IPAM_FAILURE \<and> s' = s\<lparr>nd_ipam := nd_ipam s'\<rparr> \<or>
         code = CONFIG_INTERFACE_FAILURE \<and> nd_ifs s' = nd_ifs s \<and> port_gone env (nd_ovs s) (nd_ovs s') \<or>
         code = TRY_AGAIN_LATER \<and> CmdAdd cenv env sv (request_of arg) s = (Panic, s'))
    | Some (DialError e) \<Rightarrow> False"
proof -
  obtain r where r: "CmdAdd cenv env sv (request_of arg) s = (r, s')"
    and rep: "(err, out') = (case r of Ok rs \<Rightarrow> (case report (Inr rs) of (e, o') \<Rightarrow> (e, out @ o'))
      | _ \<Rightarrow> (case report (Inl \<lparr>rpc_code = codes_Unavailable, rpc_text = broken\<rparr>) of (e, o') \<Rightarrow> (e, out @ o')))"
    using assms by (auto simp: plugin_main_def Request_def rpcClient_def server_rpc_def handle_def split: prod.splits result.splits)
  show ?thesis
  proof (cases r)
    case (Ok rs)
    note ends = CmdAdd_ends [OF r [unfolded Ok]]
    show ?thesis
    proof (cases "rs_Error rs")
      case None
      then have "error_code rs = None" by (simp add: error_code_def)
      with ends r rep Ok None show ?thesis by (auto simp: report_def error_codes)
    next
      case (Some cm)
      obtain c m where cm: "cm = (c, m)" by (cases cm)
      with Some have "error_code rs = Some c" by (simp add: error_code_def)
      with ends rep Ok Some cm show ?thesis by (auto simp: report_def)
    qed
  next
    case (Err e)
    with handlers_no_Err [of cenv env sv ActionAdd "request_of arg" s e s'] r show ?thesis by (simp add: handle_def)
  next
    case Panic
    with r rep show ?thesis by (simp add: report_def rpc_codes)
  qed
qed

lemma plugin_add_reports_witness:
  "\<exists>err s'. plugin_main (server_rpc ''EOF'' sample_cni (sample_env (Some (ErrText ''no address''))) sample_sv) ActionAdd
      \<lparr>sk_ContainerID = ''c1'', sk_Netns = ''/proc/7/ns/net'', sk_IfName = ''eth0'', sk_Args = ''nginx'',
       sk_Path = ''/opt/cni/bin'', sk_StdinData = ''{}''\<rparr> (sample_node, []) = (Some err, (s', [])) \<and>
    nd_ifs s' = nd_ifs sample_node"
proof -
  let ?env = "sample_env (Some (ErrText ''no address''))"
  let ?arg = "\<lparr>sk_ContainerID = ''c1'', sk_Netns = ''/proc/7/ns/net'', sk_IfName = ''eth0'', sk_Args = ''nginx'',
       sk_Path = ''/opt/cni/bin'', sk_StdinData = ''{}''\<rparr>"
  have rq: "request_of ?arg = sample_request" by (simp add: request_of_def sample_request_def)
  obtain s1 where "CmdAdd sample_cni ?env sample_sv sample_request sample_node =
      (Ok (configureInterfaceFailureResponse (ErrText ''no address'')), s1)"
    using sample_add_fails by blast
  then have "\<exists>code m. plugin_main (server_rpc ''EOF'' sample_cni ?env sample_sv) ActionAdd ?arg (sample_node, []) =
      (Some (CniError code m []), (s1, [])) \<and> code = CONFIG_INTERFACE_FAILURE"
    by (simp add: plugin_main_def Request_def rpcClient_def server_rpc_def handle_def rq configureInterfaceFailureResponse_def
        generateCNIErrorResponse_def report_def)
  then obtain code m where run: "plugin_main (server_rpc ''EOF'' sample_cni ?env sample_sv) ActionAdd ?arg
      (sample_node, []) = (Some (CniError code m []), (s1, []))" and "code = CONFIG_INTERFACE_FAILURE" by blast
  with plugin_add_reports [OF run] show ?thesis by (auto simp: error_codes rpc_codes)
qed

end
