(* ===== verification/OvsTypes.thy ===== *)
theory OvsTypes
  imports OvsRows
begin

text \<open>
  Types of OVSDB transactions: the columns of the Open vSwitch schema that \<open>pkg/ovs\<close> uses, the wire form of their values
  (RFC 7047), and what it takes for a transaction to be well typed: known tables and columns, values of the columns' types,
  and references to inserted rows that name exactly one row, of the right table, of the same transaction.
\<close>

section \<open>The schema\<close>

datatype column = Text | Number | Texts | TextMap | Refs string | Uuid

definition schema :: "(string \<times> (string \<times> column) list) list" where
  "schema =
     [(''Open_vSwitch'', [(''bridges'', Refs ''Bridge'')]),
      (''Bridge'', [(''name'', Text), (''protocols'', Texts), (''datapath_type'', Text), (''external_ids'', TextMap),
         (''ports'', Refs ''Port'')]),
      (''Port'', [(''name'', Text), (''interfaces'', Refs ''Interface''), (''external_ids'', TextMap)]),
      (''Interface'', [(''name'', Text), (''type'', Text), (''ofport_request'', Number), (''ofport'', Number),
         (''mtu_request'', Number), (''options'', TextMap)])]"

definition column_type :: "string \<Rightarrow> string \<Rightarrow> column option" where
  "column_type t c = (case map_of schema t of
     None \<Rightarrow> None
   | Some cs \<Rightarrow> if c = ''_uuid'' then Some Uuid else map_of cs c)"

section \<open>Values\<close>

definition is_text :: "json \<Rightarrow> bool" where
  "is_text j = (case j of JStr s \<Rightarrow> True | _ \<Rightarrow> False)"

definition is_text_pair :: "json \<Rightarrow> bool" where
  "is_text_pair j = (case j of JList [JStr k, JStr v] \<Rightarrow> True | _ \<Rightarrow> False)"

text \<open>\<open>N t n\<close>: the transaction inserts a row into table \<open>t\<close> under the name \<open>n\<close>.\<close>

definition is_ref :: "(string \<Rightarrow> string \<Rightarrow> bool) \<Rightarrow> string \<Rightarrow> json \<Rightarrow> bool" where
  "is_ref N t j = (case j of
     JList [JStr k, JStr u] \<Rightarrow> k = ''uuid'' \<or> k = ''named-uuid'' \<and> N t u | _ \<Rightarrow> False)"

text \<open>The elements of a set or map on the wire.\<close>

definition elements :: "string \<Rightarrow> json \<Rightarrow> json list option" where
  "elements tag j = (case j of JList [JStr k, JList l] \<Rightarrow> if k = tag then Some l else None | _ \<Rightarrow> None)"

definition all_elements :: "(json \<Rightarrow> bool) \<Rightarrow> json list option \<Rightarrow> bool" where
  "all_elements P l = (case l of None \<Rightarrow> False | Some l \<Rightarrow> list_all P l)"

fun has_type :: "(string \<Rightarrow> string \<Rightarrow> bool) \<Rightarrow> json \<Rightarrow> column \<Rightarrow> bool" where
  "has_type N j Text = is_text j"
| "has_type N j Number = ((case j of JNum i \<Rightarrow> True | _ \<Rightarrow> False) \<or> elements ''set'' j = Some [])"
| "has_type N j Texts = all_elements is_text (elements ''set'' j)"
| "has_type N j TextMap = all_elements is_text_pair (elements ''map'' j)"
| "has_type N j (Refs t) = (is_ref N t j \<or> all_elements (is_ref N t) (elements ''set'' j))"
| "has_type N j Uuid = is_ref (\<lambda>t n. False) [] j"

definition fits :: "(string \<Rightarrow> string \<Rightarrow> bool) \<Rightarrow> string \<Rightarrow> string \<Rightarrow> json \<Rightarrow> bool" where
  "fits N t c j = (case column_type t c of None \<Rightarrow> False | Some ty \<Rightarrow> has_type N j ty)"

section \<open>Operations and transactions\<close>

definition row_typed :: "(string \<Rightarrow> string \<Rightarrow> bool) \<Rightarrow> string \<Rightarrow> json \<Rightarrow> bool" where
  "row_typed N t row = (case as_obj row of
     None \<Rightarrow> False | Some fs \<Rightarrow> distinct (map fst fs) \<and> list_all (\<lambda>(c, v). fits N t c v) fs)"

text \<open>A condition or mutation: a column, one of the functions \<open>fns\<close>, and a value of the column's type.\<close>

definition clause_typed :: "(string \<Rightarrow> string \<Rightarrow> bool) \<Rightarrow> string list \<Rightarrow> string \<Rightarrow> json list \<Rightarrow> bool" where
  "clause_typed N fns t cl = (case cl of [JStr c, JStr f, v] \<Rightarrow> f \<in> set fns \<and> fits N t c v | _ \<Rightarrow> False)"

abbreviation conditions :: "string list" where
  "conditions \<equiv> [''=='', ''!='', ''includes'', ''excludes'']"

fun op_typed :: "(string \<Rightarrow> string \<Rightarrow> bool) \<Rightarrow> tx_op \<Rightarrow> bool" where
  "op_typed N (TxSelect t cols cnd) =
     (list_all (\<lambda>c. column_type t c \<noteq> None) cols \<and> list_all (clause_typed N conditions t) cnd)"
| "op_typed N (TxInsert t row) =
     (row_typed N t row \<and> (case as_obj row of None \<Rightarrow> False | Some fs \<Rightarrow> ''name'' \<in> set (map fst fs)))"
| "op_typed N (TxUpdate t cnd row) = (row_typed N t row \<and> list_all (clause_typed N conditions t) cnd)"
| "op_typed N (TxMutate t ms cnd) =
     (list_all (clause_typed N [''insert'', ''delete''] t) ms \<and> list_all (clause_typed N conditions t) cnd)"
| "op_typed N (TxWait t timeout cols until rs cnd) =
     (list_all (\<lambda>c. column_type t c \<noteq> None) cols \<and> until \<in> {''=='', ''!=''} \<and> list_all (row_typed N t) rs \<and>
      list_all (clause_typed N conditions t) cnd)"

text \<open>The names the library gives to the rows a transaction inserts, with their tables.\<close>

fun row_names :: "ovs_env \<Rightarrow> tx_op list \<Rightarrow> tx_op list \<Rightarrow> (string \<times> string) list" where
  "row_names env before [] = []"
| "row_names env before (op # ops) =
     (case op of TxInsert t row \<Rightarrow> [(tx_name env before, t)] | _ \<Rightarrow> []) @ row_names env (before @ [op]) ops"

definition inserted :: "ovs_env \<Rightarrow> tx_op list \<Rightarrow> string \<Rightarrow> string \<Rightarrow> bool" where
  "inserted env ops t n \<longleftrightarrow> map snd (filter (\<lambda>e. fst e = n) (row_names env [] ops)) = [t]"

definition well_typed :: "ovs_env \<Rightarrow> tx_op list \<Rightarrow> bool" where
  "well_typed env ops \<longleftrightarrow> list_all (op_typed (inserted env ops)) ops"

text \<open>What the library documents: sets of references, maps, and distinct names for the rows of a transaction.\<close>

definition ovs_library :: "ovs_env \<Rightarrow> bool" where
  "ovs_library env \<longleftrightarrow>
     (\<forall>k us. MakeOVSDBSet env [(k, JList (map JStr us))] = [JStr ''set'', JList (map (\<lambda>u. JList [JStr k, JStr u]) us)]) \<and>
     MakeOVSDBSet env [] = [JStr ''set'', JList []] \<and>
     (\<forall>es. MakeOVSDBMap env es = [JStr ''map'', JList (map (\<lambda>(k, v). JList [JStr k, v]) es)]) \<and>
     (\<forall>ops. distinct (map fst (row_names env [] ops)))"

lemmas typed_defs = well_typed_def row_typed_def clause_typed_def fits_def column_type_def schema_def is_text_def
  elements_def all_elements_def is_ref_def is_text_pair_def by_name_def

lemma text_map_typed: "list_all (\<lambda>e. is_text (snd e)) es \<Longrightarrow> list_all is_text_pair (map (\<lambda>(k, v). JList [JStr k, v]) es)"
  by (induction es) (auto simp: is_text_def is_text_pair_def split: json.splits)

section \<open>The transactions of the bridge client\<close>

text \<open>\<open>typed_log env br\<close>: every transaction the client has committed is well typed.\<close>

definition typed_log :: "ovs_env \<Rightarrow> OVSBridge \<Rightarrow> bool" where
  "typed_log env br \<longleftrightarrow> list_all (well_typed env) (br_log br)"

lemma keeps_typed_commit:
  "(\<And>br. well_typed env (ops br)) \<Longrightarrow> keeps (typed_log env) (\<lambda>br. commit env (ops br) br)"
  by (simp add: keeps_def typed_log_def commit_def Let_def split: sum.split prod.split)

lemma keeps_typed_commit' [go_keeps]: "well_typed env ops \<Longrightarrow> keeps (typed_log env) (commit env ops)"
  using keeps_typed_commit [of env "\<lambda>_. ops"] by simp

lemma keeps_typed_uuid [go_keeps]: "keeps (typed_log env) (modify (br_uuid_update f))"
  by (simp add: keeps_def modify_def typed_log_def)

text \<open>Sets of references, and maps of texts, as the library writes them.\<close>

lemma refs_typed:
  assumes "ovs_library env" and "\<And>u. u \<in> set us \<Longrightarrow> k = ''uuid'' \<or> k = ''named-uuid'' \<and> N t u"
  shows "has_type N (JList (MakeOVSDBSet env [(k, JList (map JStr us))])) (Refs t)"
proof -
  have "MakeOVSDBSet env [(k, JList (map JStr us))] = [JStr ''set'', JList (map (\<lambda>u. JList [JStr k, JStr u]) us)]"
    using assms(1) unfolding ovs_library_def by blast
  with assms(2) show ?thesis by (auto simp: elements_def all_elements_def is_ref_def list_all_iff)
qed

lemma ref_typed:
  assumes "ovs_library env" and "k = ''uuid'' \<or> k = ''named-uuid'' \<and> N t u"
  shows "has_type N (JList (MakeOVSDBSet env [(k, JList [JStr u])])) (Refs t)"
  using refs_typed [OF assms(1), of "[u]" k N t] assms(2) by simp

lemma map_typed:
  assumes "ovs_library env" and "list_all (\<lambda>e. is_text (snd e)) es"
  shows "has_type N (JList (MakeOVSDBMap env es)) TextMap"
proof -
  have "MakeOVSDBMap env es = [JStr ''map'', JList (map (\<lambda>(k, v). JList [JStr k, v]) es)]"
    using assms(1) unfolding ovs_library_def by blast
  with text_map_typed [OF assms(2)] show ?thesis by (simp add: elements_def all_elements_def)
qed

text \<open>The types of the columns and of the values that are written out.\<close>

lemma column_types [simp]:
  "column_type ''Bridge'' ''name'' = Some Text" "column_type ''Bridge'' ''protocols'' = Some Texts"
  "column_type ''Bridge'' ''datapath_type'' = Some Text" "column_type ''Bridge'' ''external_ids'' = Some TextMap"
  "column_type ''Bridge'' ''ports'' = Some (Refs ''Port'')" "column_type ''Open_vSwitch'' ''bridges'' = Some (Refs ''Bridge'')"
  "column_type ''Port'' ''name'' = Some Text" "column_type ''Port'' ''interfaces'' = Some (Refs ''Interface'')"
  "column_type ''Port'' ''external_ids'' = Some TextMap" "column_type ''Interface'' ''name'' = Some Text"
  "column_type ''Interface'' ''type'' = Some Text" "column_type ''Interface'' ''ofport_request'' = Some Number"
  "column_type ''Interface'' ''ofport'' = Some Number" "column_type ''Interface'' ''mtu_request'' = Some Number"
  "column_type ''Interface'' ''options'' = Some TextMap" "column_type ''Bridge'' ''_uuid'' = Some Uuid"
  "column_type ''Port'' ''_uuid'' = Some Uuid" "column_type ''Interface'' ''_uuid'' = Some Uuid"
  by (simp_all add: column_type_def schema_def)

lemma plain_typed [simp]:
  "has_type N (JStr s) Text" "has_type N (JNum i) Number" "has_type N (JList openflow_protocols) Texts"
  "has_type N (JList [JStr ''uuid'', JStr u]) Uuid"
  by (simp_all add: is_text_def elements_def all_elements_def openflow_protocols_def makeOVSDBSetFromList_def is_ref_def)

declare has_type.simps [simp del]

lemma by_name_typed [simp]: "t \<in> {''Bridge'', ''Port'', ''Interface''} \<Longrightarrow> list_all (clause_typed N conditions t) (by_name n)"
  by (auto simp: clause_typed_def by_name_def fits_def)

lemmas op_simps = well_typed_def row_typed_def clause_typed_def fits_def

lemma create_ops_typed:
  assumes "ovs_library env"
  shows "well_typed env (create_ops env br)"
proof -
  have ops: "op_typed N op" if "N ''Bridge'' (tx_name env [])" "op \<in> set (create_ops env br)" for N op
    using that ref_typed [OF assms, of "''named-uuid''" N "''Bridge''"]
    by (auto simp: create_ops_def Let_def named_set_def Bridge_row_def omit_list_def omit_str_def op_simps)
  have "inserted env (create_ops env br) ''Bridge'' (tx_name env [])"
    by (simp add: inserted_def create_ops_def Let_def)
  with ops show ?thesis by (simp add: well_typed_def list_all_iff)
qed

lemma port_ops_typed:
  assumes lib: "ovs_library env" and ids: "\<forall>es. ids = Some es \<longrightarrow> list_all (\<lambda>e. is_text (snd e)) es"
    and opts: "\<forall>es. opts = Some es \<longrightarrow> list_all (\<lambda>e. is_text (snd e)) es"
  shows "well_typed env (port_ops env b n i ty p ids opts)"
proof -
  let ?ops = "port_ops env b n i ty p ids opts"
  have "distinct (map fst (row_names env [] ?ops))" using lib by (simp add: ovs_library_def)
  then have N: "inserted env ?ops ''Interface'' (tx_name env [])" "inserted env ?ops ''Port'' (tx_name env [hd ?ops])"
    by (auto simp: inserted_def port_ops_def Let_def)
  have ops: "op_typed N op" if "N ''Interface'' (tx_name env [])" "N ''Port'' (tx_name env [hd ?ops])" "op \<in> set ?ops" for N op
    using that ref_typed [OF lib, of "''named-uuid''" N] map_typed [OF lib] ids opts unfolding port_ops_def Let_def
    by (cases ids; cases opts) (auto simp: named_set_def Port_row_def Interface_row_def omit_list_def omit_str_def
        omit_num_def op_simps)
  from ops [OF N] show ?thesis by (simp add: well_typed_def list_all_iff)
qed

section \<open>Every method of the client\<close>

lemma keeps_case_list [go_keeps]:
  "keeps I m \<Longrightarrow> (\<And>y ys. keeps I (f y ys)) \<Longrightarrow> keeps I (case xs of [] \<Rightarrow> m | y # ys \<Rightarrow> f y ys)"
  by (simp split: list.split)

lemma keeps_typed_reads [go_keeps]:
  "keeps (typed_log env) (lookupByName env)" "keeps (typed_log env) (updateProtocols env)"
  "keeps (typed_log env) (GetExternalIDs env)" "keeps (typed_log env) (GetPortUUIDList env)"
  "keeps (typed_log env) (GetPortList env)" "keeps (typed_log env) (GetPortUUIDByIfName env n)"
proof -
  show list: "keeps (typed_log env) (GetPortList env)"
    unfolding GetPortList_def by (intro keeps_gbind keeps_typed_commit go_keeps) (simp add: op_simps)
  show "keeps (typed_log env) (lookupByName env)"
    unfolding lookupByName_def by (intro keeps_gbind keeps_typed_commit go_keeps) (simp add: op_simps)
  show "keeps (typed_log env) (updateProtocols env)"
    unfolding updateProtocols_def by (intro keeps_gbind keeps_typed_commit go_keeps) (simp add: op_simps)
  show "keeps (typed_log env) (GetExternalIDs env)"
    unfolding GetExternalIDs_def by (intro keeps_gbind keeps_typed_commit go_keeps) (simp add: op_simps)
  show "keeps (typed_log env) (GetPortUUIDList env)"
    unfolding GetPortUUIDList_def by (intro keeps_gbind keeps_typed_commit go_keeps) (simp add: op_simps)
  show "keeps (typed_log env) (GetPortUUIDByIfName env n)"
    unfolding GetPortUUIDByIfName_def by (intro go_keeps list)
qed

lemma keeps_typed_bridge [go_keeps]:
  assumes "ovs_library env"
  shows "keeps (typed_log env) (br_Create env)" "keeps (typed_log env) (br_Delete env)"
proof -
  have "keeps (typed_log env) (br_create env)"
    unfolding br_create_def by (intro keeps_gbind keeps_typed_commit go_keeps create_ops_typed assms)
  then show "keeps (typed_log env) (br_Create env)" unfolding br_Create_def by (intro go_keeps)
  show "keeps (typed_log env) (br_Delete env)"
    unfolding br_Delete_def by (intro keeps_gbind keeps_typed_commit go_keeps)
      (simp add: op_simps named_set_def ref_typed assms)
qed

lemma keeps_typed_SetExternalIDs [go_keeps]:
  "ovs_library env \<Longrightarrow> list_all (\<lambda>e. is_text (snd e)) ids \<Longrightarrow> keeps (typed_log env) (SetExternalIDs env ids)"
  unfolding SetExternalIDs_def
  by (intro keeps_gbind keeps_typed_commit go_keeps) (simp add: op_simps map_typed)

lemma keeps_typed_createPort [go_keeps]:
  assumes "ovs_library env" and "\<forall>es. ids = Some es \<longrightarrow> list_all (\<lambda>e. is_text (snd e)) es"
    and "\<forall>es. opts = Some es \<longrightarrow> list_all (\<lambda>e. is_text (snd e)) es"
  shows "keeps (typed_log env) (createPort env n i ty p ids opts)"
  unfolding createPort_def by (intro keeps_gbind keeps_typed_commit go_keeps port_ops_typed assms)

lemma keeps_typed_ports [go_keeps]:
  assumes "ovs_library env"
  shows "keeps (typed_log env) (DeletePorts env us)" "keeps (typed_log env) (DeletePort env u)"
    "keeps (typed_log env) (GetOFPort env n)" "keeps (typed_log env) (GetPortData env u n)"
    "keeps (typed_log env) (SetInterfaceMTU env n mtu)"
    "keeps (typed_log env) (CreateVXLANPort env n p ip)" "keeps (typed_log env) (CreateGenevePort env n p ip)"
    "keeps (typed_log env) (CreateInternalPort env n p None)"
    "list_all (\<lambda>e. is_text (snd e)) ids \<Longrightarrow> keeps (typed_log env) (CreatePort env n d (Some ids))"
proof -
  have "MakeOVSDBSet env [] = [JStr ''set'', JList []]" using assms by (simp add: ovs_library_def)
  then have wait: "has_type N (JList (MakeOVSDBSet env [])) Number" for N
    by (simp add: has_type.simps elements_def)
  show "keeps (typed_log env) (DeletePorts env us)" "keeps (typed_log env) (DeletePort env u)"
    "keeps (typed_log env) (GetOFPort env n)" "keeps (typed_log env) (SetInterfaceMTU env n mtu)"
    unfolding DeletePorts_def DeletePort_def GetOFPort_def SetInterfaceMTU_def
    by (intro go_keeps; simp add: op_simps named_set_def refs_typed ref_typed assms wait)+
  show "keeps (typed_log env) (GetPortData env u n)"
    unfolding GetPortData_def by (intro go_keeps; simp add: op_simps)
  show "keeps (typed_log env) (CreateVXLANPort env n p ip)" "keeps (typed_log env) (CreateGenevePort env n p ip)"
    "keeps (typed_log env) (CreateInternalPort env n p None)"
    "list_all (\<lambda>e. is_text (snd e)) ids \<Longrightarrow> keeps (typed_log env) (CreatePort env n d (Some ids))"
    unfolding CreateVXLANPort_def CreateGenevePort_def createTunnelPort_def CreateInternalPort_def CreatePort_def Let_def
    by (intro keeps_typed_createPort assms; simp add: is_text_def)+
qed

end
