(* ===== verification/AgentServed.thy ===== *)
theory AgentServed
  imports AgentProps OvsTypes
begin

text \<open>
  Properties of the agent over its whole life: its start-up and the requests it serves afterwards. Its transactions with
  OVSDB are well typed, and the interfaces it made for the node itself outlive the pods.
\<close>

section \<open>Transactions\<close>

abbreviation node_typed :: "ovs_env \<Rightarrow> 'z node_scheme \<Rightarrow> bool" where
  "node_typed env s \<equiv> typed_log env (nd_ovs s)"

lemma typed_other_parts [go_keeps]:
  "keeps (node_typed env) (on_of m1)" "keeps (node_typed env) (on_tc m2)" "keeps (node_typed env) (on_ipam m3)"
  "keeps (node_typed env) (on_ifs f)" "keeps (node_typed env) (change op q)"
  by (simp_all add: keeps_def zoom_def modify_def change_def split: prod.split)

lemma typed_on_ovs [go_keeps]: "keeps (typed_log env) m \<Longrightarrow> keeps (node_typed env) (on_ovs m)"
  by (rule keeps_zoom_part) simp_all

lemma typed_gdefer:
  "keeps I m \<Longrightarrow> keeps I undo \<Longrightarrow> keeps I (gdefer m (unless undo))"
  by (auto simp: keeps_def gdefer_def unless_def split: prod.split result.split bool.split)

lemma typed_steps [go_keeps]:
  "keeps (node_typed v) (setupVethPair env p ns ifn nn mtu t)" "keeps (node_typed v) (removeContainerLink env c nn ifn)"
  "keeps (node_typed v) (configureContainerAddr env nn i re)"
  unfolding setupVethPair_def removeContainerLink_def configureContainerAddr_def WithNetNSPath_def Let_def
  by (intro go_keeps)+

lemma typed_ids: "list_all (\<lambda>e. is_text (snd e)) (BuildOVSPortExternalIDs cfg)"
  by (simp add: BuildOVSPortExternalIDs_def is_text_def)

lemma typed_configureInterface:
  assumes "ovs_library (ne_ovs env)"
  shows "keeps (node_typed (ne_ovs env)) (configureInterface env p ns cid nn ifn mtu re)"
proof -
  let ?K = "\<lambda>m. keeps (node_typed (ne_ovs env)) m"
  have port: "?K (setupContainerOVSPort env cfg n)" for cfg n
    unfolding setupContainerOVSPort_def by (intro go_keeps assms typed_ids)
  have finish: "?K (finish_interface env nn i cfg n u re')" for i cfg n u re'
    unfolding finish_interface_def Let_def by (intro go_keeps assms)
  have dns: "?K (with_coredns_flows env n cid re' m)" if "?K m" for n re' m
    unfolding with_coredns_flows_def Let_def by (intro go_keeps typed_gdefer assms that)
  show ?thesis
    unfolding configureInterface_def Let_def by (intro go_keeps typed_gdefer port finish dns assms)
qed

lemma typed_handlers:
  assumes "ovs_library (ne_ovs env)"
  shows "keeps (node_typed (ne_ovs env)) (CmdAdd cenv env sv rq)" "keeps (node_typed (ne_ovs env)) (CmdDel cenv env sv rq)"
    "keeps (node_typed (ne_ovs env)) (CmdCheck cenv sv rq)"
proof -
  have "keeps (node_typed (ne_ovs env)) (removeInterfaces env p ns cid nn ifn)" for p ns cid nn ifn
    unfolding removeInterfaces_def by (intro go_keeps assms)
  then show "keeps (node_typed (ne_ovs env)) (CmdDel cenv env sv rq)"
    unfolding CmdDel_def Let_def by (intro go_keeps keeps_checkRequest)
  show "keeps (node_typed (ne_ovs env)) (CmdAdd cenv env sv rq)"
    unfolding CmdAdd_def Let_def by (intro go_keeps keeps_checkRequest typed_configureInterface assms)
  show "keeps (node_typed (ne_ovs env)) (CmdCheck cenv sv rq)"
    unfolding CmdCheck_def by (intro go_keeps keeps_checkRequest)
qed

lemma served_typed:
  "served cenv env sv s s' \<Longrightarrow> ovs_library (ne_ovs env) \<Longrightarrow> node_typed (ne_ovs env) s \<Longrightarrow> node_typed (ne_ovs env) s'"
  by (induction rule: served.induct) (blast intro: typed_handlers [THEN keepsE])+

text \<open>The start-up.\<close>

lemma typed_cache_Initialize:
  "keeps (node_typed env) (on_ovs_ifs (cache_Initialize env t))"
proof -
  have "keeps (\<lambda>s. typed_log env (fst s)) (cache_Initialize env t)"
    unfolding cache_Initialize_def
    by (intro go_keeps) (auto simp: keeps_def on_fst_def modify_def split: prod.split
        dest: keepsE [OF keeps_typed_reads(5)])
  then show ?thesis unfolding on_ovs_ifs_def by (rule keeps_zoom_part) auto
qed

lemma typed_agent_parts [go_keeps]:
  "keeps (node_typed env) (on_ipt m)" "keeps (node_typed env) (modify (ag_config_update f))"
  by (simp_all add: keeps_def zoom_def modify_def split: prod.split)

lemma typed_agent_Initialize:
  assumes "ovs_library (ne_ovs (ae_node env))"
  shows "keeps (node_typed (ne_ovs (ae_node env))) (agent_Initialize env i)"
proof -
  let ?K = "\<lambda>m. keeps (node_typed (ne_ovs (ae_node env))) m"
  have "?K (initNodeLocalConfig env)" unfolding initNodeLocalConfig_def Let_def by (intro go_keeps)
  moreover have "?K (setUpOVSBridge env i)"
    unfolding setUpOVSBridge_def setUpTunnelInterface_def setupGatewayInterface_def gateway_port_def
      gateway_address_def node_config_def log_error_def Let_def
    by (intro go_keeps typed_cache_Initialize assms; simp add: keeps_def split: sum.split)
  moreover have "?K (tunDsts nds)" for nds
    by (induction nds) (auto simp: node_config_def intro!: go_keeps)
  then have "?K (setUpFlow env)"
    unfolding setUpFlow_def initOpenFlow_def constructArpOpenflow_def constructIPTunFlow_def node_flow_def log_error_def
      node_config_def Let_def by (intro go_keeps)
  ultimately show ?thesis
    unfolding agent_Initialize_def node_config_def Let_def by (intro go_keeps)
qed

lemma typed_agent_command:
  assumes "ovs_library (ne_ovs (ae_node env))"
  shows "keeps (node_typed (ne_ovs (ae_node env))) (agent_command cenv env file)"
proof -
  have "keeps (node_typed (ne_ovs (ae_node env))) (modify (nd_ovs_update (\<lambda>_. NewOVSBridge b d)))"
    "keeps (node_typed (ne_ovs (ae_node env))) (modify (nd_of_update (\<lambda>_. c)))" for b d c
    by (simp_all add: keeps_def modify_def typed_log_def NewOVSBridge_def)
  then show ?thesis
    unfolding agent_command_def agent_run_def NewOVSDBConnectionUDS_def Let_def
    by (intro go_keeps typed_agent_Initialize assms)
qed

text \<open>
  C11: Every transaction is well typed: whatever the agent and its server commit to OVSDB, in the start-up and for
  any sequence of requests, and however these end, it names only tables and columns of the schema, gives every column a
  value of its type, and refers to inserted rows only by names that stand for one row, of the right table, of the same
  transaction.
\<close>

theorem transactions_typed:
  assumes "ovs_library (ne_ovs (ae_node env))" and "br_log (nd_ovs s0) = []"
    and "agent_command cenv env file s0 = (r, s1)" and "served ce e sv s1 s2" and "ne_ovs e = ne_ovs (ae_node env)"
    and "ops \<in> set (br_log (nd_ovs s2))"
  shows "well_typed (ne_ovs e) ops"
proof -
  have "node_typed (ne_ovs e) s0" by (simp add: typed_log_def assms(2))
  then have "node_typed (ne_ovs e) s1" using typed_agent_command [OF assms(1)] assms(3,5) by (metis keepsE)
  then have "node_typed (ne_ovs e) s2" using served_typed [OF assms(4)] assms(1,5) by simp
  with assms(6) show ?thesis by (simp add: typed_log_def list_all_iff)
qed

lemma ovs_answers_library: "ovs_library (ovs_answers rss)"
proof -
  let ?env = "ovs_answers rss"
  have names: "\<exists>n \<ge> length before. fst e = ''row'' @ dec n" if "e \<in> set (row_names ?env before ops)" for before ops e
    using that
    by (induction ops arbitrary: before) (fastforce simp: ovs_answers_def split: tx_op.splits)+
  have "distinct (map fst (row_names ?env before ops))" for before ops
  proof (induction ops arbitrary: before)
    case Nil
    then show ?case by simp
  next
    case (Cons op ops)
    have "''row'' @ dec (length before) \<notin> fst ` set (row_names ?env (before @ [op]) ops)"
      using names [of _ "before @ [op]" ops] by (fastforce simp: dec_inject)
    with Cons.IH show ?case by (auto simp: ovs_answers_def split: tx_op.split)
  qed
  then show ?thesis by (auto simp: ovs_library_def ovs_answers_def comp_def)
qed

lemma transactions_typed_witness:
  "\<exists>sv s'. agent_command sample_command (agent_sample ''10.244.1.0/24'') [] agent_start = (Ok (Some sv), s') \<and>
     list_all (well_typed agent_ovs) (br_log (nd_ovs s'))"
proof -
  let ?env = "agent_sample ''10.244.1.0/24''"
  obtain sv s' where run: "agent_command sample_command ?env [] agent_start = (Ok (Some sv), s')"
    using agent_command_runs by blast
  have "ovs_library (ne_ovs (ae_node ?env))" "br_log (nd_ovs agent_start) = []"
    by (simp_all add: agent_ovs_def ovs_answers_library agent_start_def NewOVSBridge_def)
  from transactions_typed [OF this run served.start refl] run show ?thesis by (auto simp: list_all_iff)
qed

section \<open>The interfaces of others\<close>

text \<open>What is cached under a key, in a cache keyed by the ports.\<close>

definition entry_is :: "string \<Rightarrow> InterfaceConfig option \<Rightarrow> 'z node_scheme \<Rightarrow> bool" where
  "entry_is k v s \<longleftrightarrow> keyed (nd_ifs s) \<and> GetInterface (nd_ifs s) k = v"

lemma entry_is_ipam: "keeps (entry_is k v) (on_ipam m)"
  by (rule keeps_zoom) (simp add: entry_is_def)

lemma entry_is_configure:
  assumes "veth_named (ne_sys env)" and "k \<noteq> GenerateContainerInterfaceName p ns"
  shows "keeps (entry_is k v) (configureInterface env p ns cid nn ifn mtu re)"
proof (rule keepsI)
  fix s :: "'z node_scheme" assume s: "entry_is k v s"
  obtain r s' where run: "configureInterface env p ns cid nn ifn mtu re s = (r, s')"
    by (cases "configureInterface env p ns cid nn ifn mtu re s")
  have "keyed (nd_ifs s')" using configureInterface_keyed [THEN keepsE, OF _ run] s by (simp add: entry_is_def)
  with configureInterface_ends [OF run] assms s have "entry_is k v s'"
    by (auto simp: entry_is_def named_end_def ends_well_def port_kept_def cache.get_add split: if_splits)
  with run show "entry_is k v (snd (configureInterface env p ns cid nn ifn mtu re s))" by simp
qed

lemma entry_is_remove:
  assumes "k \<noteq> GenerateContainerInterfaceName p ns"
  shows "keeps (entry_is k v) (removeInterfaces env p ns cid nn ifn)"
proof (rule keepsI)
  fix s :: "'z node_scheme" assume s: "entry_is k v s"
  obtain r s' where run: "removeInterfaces env p ns cid nn ifn s = (r, s')"
    by (cases "removeInterfaces env p ns cid nn ifn s")
  have "keyed (nd_ifs s')" using removeInterfaces_keyed [THEN keepsE, OF _ run] s by (simp add: entry_is_def)
  moreover have "GetInterface (nd_ifs s') k = GetInterface (nd_ifs s) k"
    using removeInterfaces_ends [OF run] removed_lookup [of env p ns cid nn ifn s s' k] run s assms
    by (cases "r = Ok ()") (auto simp: entry_is_def)
  ultimately show "entry_is k v (snd (removeInterfaces env p ns cid nn ifn s))" using run s by (simp add: entry_is_def)
qed

text \<open>The key of the pod a configuration is for.\<close>

definition requested_key :: "CNIConfig \<Rightarrow> string" where
  "requested_key cfg = GenerateContainerInterfaceName (ka_POD_NAME (cc_k8s cfg)) (ka_POD_NAMESPACE (cc_k8s cfg))"

lemma handle_entry:
  assumes run: "handle cenv env sv a rq s = (r, s')" and named: "veth_named (ne_sys env)" and s: "entry_is k v s"
    and other: "\<And>cfg. loadNetworkConfig cenv sv rq s = (Ok cfg, s) \<Longrightarrow> k \<noteq> requested_key cfg"
  shows "entry_is k v s'"
proof (cases cenv sv rq s rule: checkRequest_cases)
  case panics
  with run s show ?thesis by (cases a) (simp_all add: handle_def CmdAdd_def CmdDel_def CmdCheck_def gbind_eval)
next
  case (refused m)
  with run s show ?thesis by (cases a) (simp_all add: handle_def CmdAdd_def CmdDel_def CmdCheck_def gbind_eval ret_eval)
next
  case (accepted cfg)
  have k: "k \<noteq> GenerateContainerInterfaceName (ka_POD_NAME (cc_k8s cfg)) (ka_POD_NAMESPACE (cc_k8s cfg))"
    using other [OF accepted(2)] by (simp add: requested_key_def)
  note enter = gbind_Ok_fst [where m = "checkReuquestMessage cenv sv rq", OF accepted(1)]
  note rest = go_keeps entry_is_ipam entry_is_configure entry_is_remove named k
  show ?thesis
  proof (cases a)
    case ActionAdd
    from run [unfolded handle_def ActionAdd Action.case CmdAdd_def enter sum.case Let_def]
    show ?thesis by (rule keepsE [rotated 2]) (intro rest, rule s)
  next
    case ActionDel
    from run [unfolded handle_def ActionDel Action.case CmdDel_def enter sum.case Let_def]
    show ?thesis by (rule keepsE [rotated 2]) (intro rest, rule s)
  next
    case ActionCheck
    with run s accepted(1) show ?thesis by (simp add: handle_def CmdCheck_def gbind_eval ret_eval)
  qed
qed

lemma handled_key:
  assumes "handle cenv env sv a rq s = (r, s')" and "keyed (nd_ifs s)" and "veth_named (ne_sys env)"
    and "GetInterface (nd_ifs s') k \<noteq> GetInterface (nd_ifs s) k"
  shows "\<exists>cfg. loadNetworkConfig cenv sv rq s = (Ok cfg, s) \<and> k = requested_key cfg"
proof (rule ccontr)
  assume other: "\<nexists>cfg. loadNetworkConfig cenv sv rq s = (Ok cfg, s) \<and> k = requested_key cfg"
  have "entry_is k (GetInterface (nd_ifs s) k) s" using assms(2) by (simp add: entry_is_def)
  from handle_entry [OF assms(1,3) this] other have "entry_is k (GetInterface (nd_ifs s) k) s'" by blast
  with assms(4) show False by (simp add: entry_is_def)
qed

text \<open>
  C14: A request touches only its own pod: whichever way it ends, the cached interface of every other name -- those of other
  pods, the tunnel, the gateway -- is as before. What changes is the entry of the name made from the pod and namespace of
  the decoded request, and nothing if the request does not decode.
\<close>

theorem request_touches_own_pod:
  assumes "handle cenv env sv a rq s = (r, s')" and "keyed (nd_ifs s)" and "veth_named (ne_sys env)"
  shows "(\<forall>k. GetInterface (nd_ifs s') k \<noteq> GetInterface (nd_ifs s) k \<longrightarrow>
      (\<exists>cfg. loadNetworkConfig cenv sv rq s = (Ok cfg, s) \<and> k = requested_key cfg)) \<and>
    keyed (nd_ifs s')"
proof -
  have "keeps (\<lambda>s. keyed (nd_ifs s)) (handle cenv env sv a rq :: ('a node_scheme, CniCmdResponse) go)"
    unfolding handle_def by (cases a) (simp_all add: handlers_keyed)
  then have "keyed (nd_ifs s')" by (rule keepsE [where I = "\<lambda>s. keyed (nd_ifs s)"]) (rule assms(2,1))+
  with handled_key [OF assms] show ?thesis by blast
qed

lemma request_touches_own_pod_witness:
  "\<exists>r s'. handle sample_cni (sample_env None) sample_sv ActionAdd sample_request sample_node = (r, s') \<and>
     GetInterface (nd_ifs s') (GenerateContainerInterfaceName ''nginx'' ''default'') \<noteq> None \<and>
     (\<forall>k. k \<noteq> GenerateContainerInterfaceName ''nginx'' ''default'' \<longrightarrow> GetInterface (nd_ifs s') k = None)"
proof -
  let ?name = "GenerateContainerInterfaceName ''nginx'' ''default''"
  obtain rs s1 where add: "CmdAdd sample_cni (sample_env None) sample_sv sample_request sample_node = (Ok rs, s1)"
    and here: "GetInterface (nd_ifs s1) ?name \<noteq> None"
    using sample_add by (fastforce simp: cache.get_add)
  then have run: "handle sample_cni (sample_env None) sample_sv ActionAdd sample_request sample_node = (Ok rs, s1)"
    by (simp add: handle_def)
  have none: "GetInterface (nd_ifs sample_node) k = None" for k by (simp add: sample_node_def cache.get_new)
  then have "keyed (nd_ifs sample_node)" by (simp add: keyed_def)
  from request_touches_own_pod [OF run this sample_veth_named]
  have "k = ?name" if "GetInterface (nd_ifs s1) k \<noteq> None" for k
    using that none [of k] by (auto simp: sample_load requested_key_def sample_cfg_simps)
  with run here show ?thesis by blast
qed

lemma served_entry:
  assumes "served cenv env sv s s'" and "veth_named (ne_sys env)" and "entry_is k v s" and "length k \<noteq> 15"
  shows "entry_is k v s'"
  using assms(1)
proof induction
  case start
  show ?case by (rule assms(3))
next
  case (add s1 rq r s2)
  then have "handle cenv env sv ActionAdd rq s1 = (r, s2)" by (simp add: handle_def)
  from handle_entry [OF this assms(2) add.IH] assms(4) interface_name_length show ?case
    by (auto simp: requested_key_def)
next
  case (del s1 rq r s2)
  then have "handle cenv env sv ActionDel rq s1 = (r, s2)" by (simp add: handle_def)
  from handle_entry [OF this assms(2) del.IH] assms(4) interface_name_length show ?case
    by (auto simp: requested_key_def)
next
  case (check s1 rq r s2)
  then have "handle cenv env sv ActionCheck rq s1 = (r, s2)" by (simp add: handle_def)
  from handle_entry [OF this assms(2) check.IH] assms(4) interface_name_length show ?case
    by (auto simp: requested_key_def)
qed

text \<open>
  C18: The node's own interfaces outlive its pods: once the agent serves, no sequence of requests removes or replaces the
  tunnel in the cache, nor the gateway, if its configured name does not have the fifteen characters of a pod's interface.
\<close>

theorem infrastructure_survives:
  assumes "agent_command cenv env file s = (Ok (Some sv), s1)" and "served ce e sv s1 s2" and "veth_named (ne_sys e)"
  shows "GetInterface (nd_ifs s2) TunPortName = GetInterface (nd_ifs s1) TunPortName \<and>
    GetInterface (nd_ifs s1) TunPortName \<noteq> None \<and>
    (\<exists>gw. nc_Gateway (sv_nodeConfig sv) = Some gw \<and> (length (gw_Name gw) \<noteq> 15 \<longrightarrow>
       (\<exists>c. GetInterface (nd_ifs s2) (gw_Name gw) = Some c \<and> if_IP c = gw_IP gw \<and> if_MAC c = gw_MAC gw)))"
proof -
  from agent_command_ready [OF assms(1)] obtain gw c where
    gw: "nc_Gateway (sv_nodeConfig sv) = Some gw" "GetInterface (nd_ifs s1) (gw_Name gw) = Some c"
      "if_IP c = gw_IP gw" "if_MAC c = gw_MAC gw"
    and tun: "GetInterface (nd_ifs s1) TunPortName \<noteq> None" and keyed: "keyed (nd_ifs s1)"
    using served.start by blast
  have "GetInterface (nd_ifs s2) k = GetInterface (nd_ifs s1) k" if "length k \<noteq> 15" for k
    using served_entry [OF assms(2,3) _ that] keyed by (simp add: entry_is_def)
  with gw tun show ?thesis by (auto simp: TunPortName_def)
qed

lemma infrastructure_survives_witness:
  "\<exists>sv s1 r s2. agent_command sample_command (agent_sample ''10.244.1.0/24'') [] agent_start = (Ok (Some sv), s1) \<and>
     CmdAdd sample_cni (sample_env None) sv sample_request s1 = (r, s2) \<and> GetInterface (nd_ifs s2) ''tun0'' \<noteq> None"
proof -
  obtain sv s1 where run: "agent_command sample_command (agent_sample ''10.244.1.0/24'') [] agent_start = (Ok (Some sv), s1)"
    using agent_command_runs by blast
  obtain r s2 where add: "CmdAdd sample_cni (sample_env None) sv sample_request s1 = (r, s2)"
    by (cases "CmdAdd sample_cni (sample_env None) sv sample_request s1")
  from infrastructure_survives [OF run served.add [OF served.start add] sample_veth_named] run add
  show ?thesis by (auto simp: TunPortName_def)
qed

end
