(* ===== verification/LinkOps.thy ===== *)
theory LinkOps
  imports PodConfig
begin

text \<open>
  \<open>pkg/link/veth.go\<close>: making, configuring and deleting the veth pair of a container without the server's traffic
  shaping and cache, and how these calls compare with the ones of \<open>pkg/cniserver/pod_configuration.go\<close>.
\<close>

section \<open>The calls\<close>

text \<open>
  What netlink and the plugin library answer in a namespace, after the changes made so far: deleting a link by its
  name, the link with a name, setting a link up, and adding an address to it. A link is a value of the library.
\<close>

record 'l link_env =
  le_sys :: sys_env
  DelLinkByName :: "sys_op list \<Rightarrow> string \<Rightarrow> string \<Rightarrow> error option"
  NsLinkByName :: "sys_op list \<Rightarrow> string \<Rightarrow> string \<Rightarrow> error + 'l"
  NsLinkSetUp :: "sys_op list \<Rightarrow> string \<Rightarrow> 'l \<Rightarrow> error option"
  NsAddrAdd :: "sys_op list \<Rightarrow> string \<Rightarrow> 'l \<Rightarrow> ipnet option \<Rightarrow> error option"

text \<open>The error of the deletion is dropped.\<close>

definition SetupInterface ::
  "'l link_env \<Rightarrow> string \<Rightarrow> string \<Rightarrow> string \<Rightarrow> string \<Rightarrow> int \<Rightarrow>
   ('z node_scheme, cni_interface \<times> cni_interface) go" where
  "SetupInterface env podName podNamespace ifname netns MTU =
     (let sys = le_sys env; hostVethName = GenerateContainerInterfaceName podName podNamespace
      in in_ns sys netns
        (gseq (gcatch (change (OpDelLink netns ifname) (\<lambda>h. no_value (DelLinkByName env h netns ifname)))
                 (\<lambda>err. ret ()))
        (gbind (change (OpSetupVeth netns ifname hostVethName MTU)
                  (\<lambda>h. SetupVeth sys h netns ifname hostVethName MTU)) (\<lambda>(hostVeth, containerVeth).
         ret (iface_of hostVeth [], iface_of containerVeth netns)))))"

text \<open>The interface and the address are pointers; a nil address is handed to netlink.\<close>

definition ConfigureContainerAddr ::
  "'l link_env \<Rightarrow> string \<Rightarrow> cni_interface option \<Rightarrow> ipnet option \<Rightarrow> ('z node_scheme, unit) go" where
  "ConfigureContainerAddr env netns containerInterface ip =
     in_ns (le_sys env) netns
       (gbind (deref containerInterface) (\<lambda>iface.
        let ifName = ci_Name iface
        in gbind (\<lambda>s. case NsLinkByName env (nd_sys s) netns ifName of
                    Inl err \<Rightarrow> (Err err, s) | Inr link \<Rightarrow> (Ok link, s)) (\<lambda>link.
           gseq (change (OpNsLinkSetUp netns ifName) (\<lambda>h. no_value (NsLinkSetUp env h netns link)))
                (change (OpNsAddrAdd netns ifName ip) (\<lambda>h. no_value (NsAddrAdd env h netns link ip))))))"

definition link_DeleteInterface :: "'l link_env \<Rightarrow> string \<Rightarrow> string \<Rightarrow> ('z node_scheme, unit) go" where
  "link_DeleteInterface env containerNetns ifname =
     WithNetNSPath (le_sys env) containerNetns
       (change (OpDelLink containerNetns ifname) (\<lambda>h. no_value (DelLinkByName env h containerNetns ifname)))"

section \<open>Against the calls of the server\<close>

lemma in_ns_eval: "in_ns env p m s = (case NsDo env (nd_sys s) p of Some e \<Rightarrow> (Err e, s) | None \<Rightarrow> m s)"
  by (simp add: in_ns_def go_eval split: option.split)

lemma SetupInterface_eq_setupVethPair:
  assumes "NsDo (le_sys env) (nd_sys s) nn = None" and "NsDo (le_sys env) (OpDelLink nn ifn # nd_sys s) nn = None"
    and "ne_sys nenv = le_sys env"
  shows "SetupInterface env p ns ifn nn mtu s =
    setupVethPair nenv p ns ifn nn mtu None (s\<lparr>nd_sys := OpDelLink nn ifn # nd_sys s\<rparr>)"
  using assms by (simp add: SetupInterface_def setupVethPair_def Let_def in_ns_eval go_eval ret_eval no_value_def
      split: option.split sum.split prod.split)

text \<open>A link that is not there is an error here and none for the server.\<close>

lemma link_DeleteInterface_eq:
  assumes "ne_sys nenv = le_sys env" and "\<And>h. DelLinkByName env h nn ifn = DelLink (le_sys env) h nn ifn"
    and "link_DeleteInterface env nn ifn s = (r, s')"
  shows "removeContainerLink nenv cid nn ifn s =
    (if r = Err (ErrLinkNotFound (le_sys env)) \<and> s' \<noteq> s then Ok () else r, s')"
proof -
  have "s\<lparr>nd_sys := OpDelLink nn ifn # nd_sys s\<rparr> \<noteq> s" by (metis node.select_convs(6) node.update_convs(6) not_Cons_self2 node.surjective)
  with assms show ?thesis
    by (auto simp: link_DeleteInterface_def removeContainerLink_def WithNetNSPath_def Let_def in_ns_eval go_eval
        ret_eval throw_eval no_value_def attempt_eval split: option.splits sum.splits)
qed

section \<open>The veth pair of a container\<close>

definition pod_veth ::
  "'l link_env \<Rightarrow> string \<Rightarrow> string \<Rightarrow> string \<Rightarrow> string \<Rightarrow> int \<Rightarrow> ipnet option \<Rightarrow>
   ('z node_scheme, cni_interface \<times> cni_interface) go" where
  "pod_veth env p ns ifn nn mtu a = gbind (SetupInterface env p ns ifn nn mtu) (\<lambda>(hostIface, containerIface).
     gseq (ConfigureContainerAddr env nn (Some containerIface) a) (ret (hostIface, containerIface)))"

definition veth_plan ::
  "string \<Rightarrow> string \<Rightarrow> string \<Rightarrow> string \<Rightarrow> int \<Rightarrow> string \<Rightarrow> ipnet option \<Rightarrow> sys_op list" where
  "veth_plan p ns ifn nn mtu cn a =
     [OpDelLink nn ifn, OpSetupVeth nn ifn (GenerateContainerInterfaceName p ns) mtu, OpNsLinkSetUp nn cn,
      OpNsAddrAdd nn cn a]"

text \<open>
  Making the pair and giving its container end an address tries the steps of the plan in order, up to the first that
  fails, all of them if it returns nil; nothing else of the node changes, and it cannot panic.
\<close>

lemma pod_veth_follows_plan:
  assumes "pod_veth env p ns ifn nn mtu a s = (r, s')"
  shows "\<exists>n cn. s' = s\<lparr>nd_sys := rev (take n (veth_plan p ns ifn nn mtu cn a)) @ nd_sys s\<rparr> \<and>
    (case r of Ok (hostIface, containerIface) \<Rightarrow> n = 4 \<and> cn = ci_Name containerIface \<and> ci_Sandbox containerIface = nn
     | Err e \<Rightarrow> True | Panic \<Rightarrow> False)"
proof -
  let ?plan = "veth_plan p ns ifn nn mtu"
  let ?del = "OpDelLink nn ifn" and ?veth = "OpSetupVeth nn ifn (GenerateContainerInterfaceName p ns) mtu"
  have n0: ?thesis if "s' = s" "\<exists>e. r = Err e"
    using that by (intro exI [of _ 0]) auto
  have n2: "s\<lparr>nd_sys := ?veth # ?del # nd_sys s\<rparr> = s\<lparr>nd_sys := rev (take 2 (?plan cn a)) @ nd_sys s\<rparr>" for cn
    by (simp add: veth_plan_def eval_nat_numeral)
  show ?thesis
  proof (cases "NsDo (le_sys env) (nd_sys s) nn")
    case (Some e)
    with assms n0 show ?thesis by (auto simp: pod_veth_def gbind_eval SetupInterface_def Let_def in_ns_eval)
  next
    case None
    show ?thesis
    proof (cases "SetupVeth (le_sys env) (?del # nd_sys s) nn ifn (GenerateContainerInterfaceName p ns) mtu")
      case (Inl e)
      with assms None have "r = Err e" "s' = s\<lparr>nd_sys := ?veth # ?del # nd_sys s\<rparr>"
        by (auto simp: pod_veth_def gbind_eval SetupInterface_def Let_def in_ns_eval go_eval ret_eval no_value_def
            split: option.splits)
      with n2 show ?thesis by (intro exI [of _ 2]) auto
    next
      case (Inr v)
      obtain h c where v: "v = (h, c)" by (cases v)
      let ?s2 = "s\<lparr>nd_sys := ?veth # ?del # nd_sys s\<rparr>"
      let ?c = "iface_of c nn"
      have "SetupInterface env p ns ifn nn mtu s = (Ok (iface_of h [], ?c), ?s2)"
        using None Inr v by (simp add: SetupInterface_def Let_def in_ns_eval go_eval ret_eval no_value_def
            split: option.splits)
      with assms have conf: "gseq (ConfigureContainerAddr env nn (Some ?c) a) (ret (iface_of h [], ?c)) ?s2 = (r, s')"
        by (simp add: pod_veth_def gbind_eval)
      have st: "?s2\<lparr>nd_sys := OpNsLinkSetUp nn (ci_Name ?c) # nd_sys ?s2\<rparr>
          = s\<lparr>nd_sys := rev (take 3 (?plan (ci_Name ?c) a)) @ nd_sys s\<rparr>"
        "?s2\<lparr>nd_sys := OpNsAddrAdd nn (ci_Name ?c) a # OpNsLinkSetUp nn (ci_Name ?c) # nd_sys ?s2\<rparr>
          = s\<lparr>nd_sys := rev (take 4 (?plan (ci_Name ?c) a)) @ nd_sys s\<rparr>"
        by (simp_all add: veth_plan_def eval_nat_numeral)
      from conf consider e where "r = Err e" "s' = ?s2"
        | e where "r = Err e" "s' = ?s2\<lparr>nd_sys := OpNsLinkSetUp nn (ci_Name ?c) # nd_sys ?s2\<rparr>"
        | "(\<exists>e. r = Err e) \<or> r = Ok (iface_of h [], ?c)"
          "s' = ?s2\<lparr>nd_sys := OpNsAddrAdd nn (ci_Name ?c) a # OpNsLinkSetUp nn (ci_Name ?c) # nd_sys ?s2\<rparr>"
        by (auto simp: ConfigureContainerAddr_def in_ns_eval go_eval gbind_eval ret_eval deref_def no_value_def Let_def
            split: option.splits sum.splits)
      then show ?thesis
      proof cases
        case 1
        with n2 show ?thesis by (intro exI [of _ 2]) auto
      next
        case 2
        with st(1) show ?thesis by (intro exI [of _ 3] exI [of _ "ci_Name ?c"]) auto
      next
        case 3
        with st(2) show ?thesis by (intro exI [of _ 4] exI [of _ "ci_Name ?c"]) (auto simp: iface_of_def)
      qed
    qed
  qed
qed

end
