(* ===== verification/Spec2Isabelle.thy ===== *)
theory Spec2Isabelle
  imports PolicyProps RuleProps SwitchProps PolicyStale NodeProps ServerProps AgentProps AgentServed LinkOps
begin

text \<open>
  A verification development for ciccni, a CNI plugin for Kubernetes that wires pods to an Open vSwitch bridge.

  The program. The container runtime starts the plugin (cmd/cni, pkg/cni) once per command; it hands the command over
  gRPC to the agent of the node (cmd/ciccni-agent). The agent starts by reading its node object, setting up iptables
  (pkg/iptables), the tunnel and gateway ports of the bridge (pkg/ovs over OVSDB) and the flows to the other nodes
  (pkg/openflow over pkg/ovs/openflow, which runs ovs-ofctl); then its CNI server (pkg/cniserver) answers requests: it
  asks an IPAM plugin for an address, makes the veth pair, shapes its traffic (pkg/tctools), adds the port to the
  bridge, configures the address and keeps the interface in a cache (pkg/agent). Every step can fail or panic, and
  what has been done is undone in deferred calls. Network policies are flows with conjunctive matches that rules
  share.

  The effect of Go code is the type \<open>('s, 'a) go\<close> of Prelude: from a state to a result -- a value, an
  error or a panic -- and a state. Early returns, dropped errors and deferred calls are its combinators (gbind,
  gcatch, attempt, gdefer); a nil pointer that is dereferenced is a panic.

  The theories, by the part of the program they model.

  Prelude: the effect type and its rules, number formatting, association lists for Go's maps. GoNet: the parts of Go's
  net packages that the source uses. CniTypes: the values CNI plugins exchange.

  pkg/ovs/openflow. Binding: tables, the bridge, flows and the builder (cmd_builder.go, cmd_bridge.go, interfaces.go).
  Actions: the actions (cmd_action.go). FlowOps: Add, Modify, Delete and the counts of the tables (cmd_flow.go,
  cmd_table.go), with the log of the commands the switch was given.

  pkg/openflow. ClientState: the client's state with its caches and the heap of match contexts, and the data of
  policies. Pipeline: the flow constructors and NewClient (pipeline.go). FlowClient: the methods of client.go.
  NetworkPolicy: network_policy.go. FlowContract: the interface FlowOperations as the locale
  \<open>flow_operations\<close>, interpreted on the client. PolicyHeap and Reachability: the invariant of the
  contexts, and the states any sequence of calls reaches; its locales carry an invariant of the state through the
  methods, and are interpreted for the counts, the ledger of the commands, the pipeline, the caches and the contexts.
  PolicyEntries: what a call leaves of the entries of other rules. PolicyUndo and PolicyRestore: what an
  uninstallation does to the contexts of its rule, and how it undoes an installation. PolicyInstall: the entries an
  installation has put in place. PolicyMirror: the contexts as a picture of the cached rules. PolicyStale: a run with
  one refused command in which they part. PolicyTexts: the match texts of flows, and how they tell contexts apart.
  PolicyForeign: the flows that are not those of contexts. PolicySwitch: the switch as a picture of the contexts, and
  what adding and deleting a match leaves of it. PolicyPicture: the same for rules and for every call that returns nil.
  PolicyLocked: clauses of rules that are worked on at the same time, as interleaved steps under the lock of the
  global cache. PolicyEnforced: the clauses of a cached rule keep its actions, and packets in a rule table, by the
  match texts they satisfy.

  The node. Naming: interface names, MAC addresses and the default interface (pkg/agent/util/net.go,
  pkg/link/veth.go). TcTools: pkg/tctools and configureTC. Iptables: pkg/iptables. OvsClient and OvsRows: pkg/ovs and
  the answers of an OVSDB server. InterfaceCache: pkg/agent/interface_cache.go, with the store's contract as the
  locale \<open>interface_store\<close>. OvsTypes: the columns of the Open vSwitch schema and what it takes for a
  transaction to be well typed, with the methods of pkg/ovs. Node: the state of a node put together, and the calls
  that leave the process.

  The server. Ipam: pkg/cniserver/ipam. PodConfig: pod_configuration.go. LinkOps: the calls of pkg/link/veth.go on
  links, which the server's calls repeat, and how the two compare. CniServer: cniserver.go and configType.go.
  CniServerFacts: how the steps of a configuration and a removal end, on every path.

  The agent. AgentInit: pkg/agent/agentFunc.go. AgentCommand: options.go, config.go, agent.go and main.go of
  cmd/ciccni-agent, pkg/k8s-client, the connection to OVSDB and the server's Run. AgentFacts and NodeFlows: what the
  steps of the start-up leave. CniClient: pkg/cni/client.go and cmd/cni, with the handlers of the server at the other
  end.

  Samples, ServerSamples and AgentSamples: concrete clients, nodes and hosts, and runs on them, at which the
  properties with hypotheses are instantiated. The properties are in PolicyProps, RuleProps and SwitchProps (rules,
  contexts and the switch), FlowProps (commands, counts and caches of flows), NodeProps (names, traffic control,
  iptables, OVSDB, the interface cache), ServerProps (the handlers, IPAM), AgentProps (start-up, command line, plugin)
  and AgentServed (the agent with the requests it serves).

  What the properties show. Of flows: what addMissingFlows and deleteFlows leave in the caches and on the switch
  however they end; that a call that failed can be repeated; the counts of the tables account for the commands that
  succeeded; the flow of a context has exactly the context's actions. Of rules: calls for one rule leave the entries
  of every other in the contexts they share; an installation that returned nil has entered the rule for each of its
  matches; an uninstallation clears its rule, and after an installation restores the contexts and caches; as long as
  every call returns nil the contexts, and the flows on the switch, are exactly what the cached rules say, and one
  refused command can end that; a packet meets the conjunction of a rule on the switch exactly if it satisfies a match
  of each of the rule's clauses; the lock of the global cache keeps this picture when rules are worked on at the same
  time. Of the server: a configuration that does not succeed leaves nothing behind; how a request can be answered and
  what that says of the node; the cache stays keyed by the ports; a removal undoes an addition; a request touches the
  cached interface of its own pod only. Of the agent: the server is only started on a node that is ready; the flow to
  a node is installed whatever happens to the others; the tunnel and the gateway outlive the pods. Of the interfaces
  to other programs: the transactions, requests and commands that are sent, and what is read of the answers; every
  transaction is well typed.

  Bounds. Connect and the wait for the gateway's link make at most 5 attempts; both are structural recursions on the
  number of attempts left, so no fuel is needed and the functions are total. All other loops are recursions over
  lists. Integers the source keeps at a width -- ports, rates, conjunction ids, hash words -- are words of that width.

  Parameters, arguments of the definitions that use them: the execution of ovs-ofctl, the time and the order in which
  a Go map is ranged over; the OVSDB server; the iptables library; netlink and network namespaces; the CNI plugin
  library and the execution of IPAM plugins; JSON and YAML decoding; the API server; the gRPC transport. A call of
  these that changes something is recorded in the state, and its answer may depend on all the calls made before.

  Not modelled: pkg/apis/cni/pb is generated; pkg/logUtils constructs a logger; logging. The dispatch of the gRPC
  library is the transport's. The init function of tctools opens a connection that is only used to set an option. The
  parsing of the command line, the cluster configuration's YAML, netlink, OVSDB's protocol and the API server's client
  belong to libraries and are parameters. A process that serves is only ended from outside. Of the locks of the
  source, that of the global cache of contexts is modelled, as the steps of PolicyLocked; the others hold for one
  access to a map or a counter, and elsewhere operations are steps that do not interleave.
\<close>

end
